(* ===== verification/Prelude.thy ===== *)
theory Prelude
  imports Main "HOL-Library.Word" "HOL-Library.While_Combinator"
begin

text \<open>
  The prelude of the rustybmp development: what the Rust language and its standard library
  contribute to every component.

  \<^item> \<open>outcome\<close> is the result of running a Rust function that returns
    \<^verbatim>\<open>Result<T, E>\<close>: a value, an error value, a panic (an index out of range, a failed
    \<^verbatim>\<open>unwrap\<close>, an arithmetic overflow check) or no result at all (a loop that does not stop).
    \<open>rbind\<close> is the \<^verbatim>\<open>?\<close> operator.
  \<^item> \<open>rwhile\<close> is a Rust \<^verbatim>\<open>while\<close> loop over an explicit loop state, with
    \<^verbatim>\<open>break\<close> (\<open>Brk\<close>), built on \<open>while_option\<close>.
  \<^item> \<open>sat m Q\<close> says that \<open>m\<close> neither panics nor diverges and that a value it returns
    satisfies \<open>Q\<close>; \<open>rwhile_sat\<close> is the loop rule (invariant and measure).  \<open>stops m Q\<close>
    is the same but allows a panic.
  \<^item> byte buffers are lists of \<open>8 word\<close>; \<open>idx\<close>, \<open>slice\<close>, \<open>slice_from\<close> and the
    \<open>u16_at\<close> family are the checked reads of Rust: out of range they panic.

  Positions and lengths (\<^verbatim>\<open>usize\<close>) are natural numbers: a Rust slice holds at most
  \<open>2^63\<close> bytes, so the sums of positions and 16-bit lengths that the parsers form never
  wrap around.  Integers that are read from the wire keep their width.
\<close>

type_synonym u8 = "8 word"
type_synonym u16 = "16 word"
type_synonym u32 = "32 word"
type_synonym u64 = "64 word"
type_synonym u128 = "128 word"
type_synonym bytes = "8 word list"

named_theorems sat_intros \<open>introduction rules for sat\<close>
named_theorems read_simps \<open>characterisations of checked reads\<close>

subsection \<open>Results, panics and the question mark operator\<close>

datatype ('e, 'a) outcome = Ok 'a | Err 'e | Panic | Diverge

definition rbind :: "('e, 'a) outcome \<Rightarrow> ('a \<Rightarrow> ('e, 'b) outcome) \<Rightarrow> ('e, 'b) outcome" where
  "rbind m f = (case m of Ok x \<Rightarrow> f x | Err e \<Rightarrow> Err e | Panic \<Rightarrow> Panic | Diverge \<Rightarrow> Diverge)"

text \<open>\<^verbatim>\<open>Result::unwrap_or_default\<close>, \<^verbatim>\<open>Result::unwrap_or_else\<close>: an error becomes the
  given value, a panic stays a panic.\<close>

definition unwrap_or :: "('e, 'a) outcome \<Rightarrow> 'a \<Rightarrow> ('f, 'a) outcome" where
  "unwrap_or m d =
     (case m of Ok x \<Rightarrow> Ok x | Err e \<Rightarrow> Ok d | Panic \<Rightarrow> Panic | Diverge \<Rightarrow> Diverge)"

text \<open>\<^verbatim>\<open>Result::ok\<close>.\<close>

definition ok :: "('e, 'a) outcome \<Rightarrow> ('f, 'a option) outcome" where
  "ok m = (case m of Ok x \<Rightarrow> Ok (Some x) | Err e \<Rightarrow> Ok None | Panic \<Rightarrow> Panic | Diverge \<Rightarrow> Diverge)"

definition sat :: "('e, 'a) outcome \<Rightarrow> ('a \<Rightarrow> bool) \<Rightarrow> bool" where
  "sat m Q \<longleftrightarrow> (case m of Ok x \<Rightarrow> Q x | Err e \<Rightarrow> True | Panic \<Rightarrow> False | Diverge \<Rightarrow> False)"

text \<open>The same for code that may panic: it stops, and a value it returns satisfies \<open>Q\<close>.\<close>

definition stops :: "('e, 'a) outcome \<Rightarrow> ('a \<Rightarrow> bool) \<Rightarrow> bool" where
  "stops m Q \<longleftrightarrow> (case m of Ok x \<Rightarrow> Q x | Err e \<Rightarrow> True | Panic \<Rightarrow> True | Diverge \<Rightarrow> False)"

subsection \<open>Loops\<close>

datatype 's ctl = Cont 's | Brk 's

datatype ('e, 's) loop = Run 's | Stop "('e, 's) outcome"

definition loop_running :: "('e, 's) loop \<Rightarrow> bool" where
  "loop_running l = (case l of Run s \<Rightarrow> True | Stop r \<Rightarrow> False)"

definition loop_step ::
    "('s \<Rightarrow> bool) \<Rightarrow> ('s \<Rightarrow> ('e, 's ctl) outcome) \<Rightarrow> ('e, 's) loop \<Rightarrow> ('e, 's) loop" where
  "loop_step b c l =
     (case l of
        Stop r \<Rightarrow> Stop r
      | Run s \<Rightarrow>
          (if b s
           then (case c s of
                   Ok (Cont s') \<Rightarrow> Run s'
                 | Ok (Brk s') \<Rightarrow> Stop (Ok s')
                 | Err e \<Rightarrow> Stop (Err e)
                 | Panic \<Rightarrow> Stop Panic
                 | Diverge \<Rightarrow> Stop Diverge)
           else Stop (Ok s)))"

definition rwhile :: "('s \<Rightarrow> bool) \<Rightarrow> ('s \<Rightarrow> ('e, 's ctl) outcome) \<Rightarrow> 's \<Rightarrow> ('e, 's) outcome" where
  "rwhile b c s =
     (case while_option loop_running (loop_step b c) (Run s) of
        Some (Stop r) \<Rightarrow> r
      | _ \<Rightarrow> Diverge)"

text \<open>\<^verbatim>\<open>for x in xs { v.push(f(x)?) }\<close>.\<close>

fun rmap :: "('a \<Rightarrow> ('e, 'b) outcome) \<Rightarrow> 'a list \<Rightarrow> ('e, 'b list) outcome" where
  "rmap f [] = Ok []"
| "rmap f (x # xs) = rbind (f x) (\<lambda>y. rbind (rmap f xs) (\<lambda>ys. Ok (y # ys)))"

subsection \<open>Checked reads of byte buffers\<close>

definition idx :: "'a list \<Rightarrow> nat \<Rightarrow> ('e, 'a) outcome" where
  "idx xs i = (if i < length xs then Ok (xs ! i) else Panic)"

definition slice :: "'a list \<Rightarrow> nat \<Rightarrow> nat \<Rightarrow> ('e, 'a list) outcome" where
  "slice xs a b = (if a \<le> b \<and> b \<le> length xs then Ok (take (b - a) (drop a xs)) else Panic)"

definition slice_from :: "'a list \<Rightarrow> nat \<Rightarrow> ('e, 'a list) outcome" where
  "slice_from xs a = (if a \<le> length xs then Ok (drop a xs) else Panic)"

text \<open>Big-endian decoding, \<^verbatim>\<open>from_be_bytes\<close>.\<close>

definition be_nat :: "bytes \<Rightarrow> nat" where
  "be_nat bs = foldl (\<lambda>acc b. acc * 256 + unat b) 0 bs"

definition from_be :: "bytes \<Rightarrow> 'a::len word" where
  "from_be bs = word_of_nat (be_nat bs)"

definition u16_at :: "bytes \<Rightarrow> nat \<Rightarrow> ('e, u16) outcome" where
  "u16_at xs i = rbind (slice xs i (i + 2)) (\<lambda>bs. Ok (from_be bs))"

text \<open>\<^verbatim>\<open>u32::from_be_bytes([0, b[i], b[i+1], b[i+2]])\<close>.\<close>

definition u24_at :: "bytes \<Rightarrow> nat \<Rightarrow> ('e, u32) outcome" where
  "u24_at xs i = rbind (slice xs i (i + 3)) (\<lambda>bs. Ok (from_be bs))"

definition u32_at :: "bytes \<Rightarrow> nat \<Rightarrow> ('e, u32) outcome" where
  "u32_at xs i = rbind (slice xs i (i + 4)) (\<lambda>bs. Ok (from_be bs))"

definition u64_at :: "bytes \<Rightarrow> nat \<Rightarrow> ('e, u64) outcome" where
  "u64_at xs i = rbind (slice xs i (i + 8)) (\<lambda>bs. Ok (from_be bs))"

text \<open>A 16-bit length field, \<^verbatim>\<open>u16::from_be_bytes(..) as usize\<close>, and an 8-bit one.\<close>

definition len16_at :: "bytes \<Rightarrow> nat \<Rightarrow> ('e, nat) outcome" where
  "len16_at xs i = rbind (slice xs i (i + 2)) (\<lambda>bs. Ok (be_nat bs))"

definition len8_at :: "bytes \<Rightarrow> nat \<Rightarrow> ('e, nat) outcome" where
  "len8_at xs i = rbind (idx xs i) (\<lambda>b. Ok (unat b))"

text \<open>\<^verbatim>\<open>let mut a = [0u8; n]; a[..k].copy_from_slice(chunk)\<close>: the slice \<^verbatim>\<open>a[..k]\<close>
  panics when \<open>k > n\<close>; the copy needs a chunk of exactly \<open>k\<close> bytes.\<close>

definition pad_array :: "nat \<Rightarrow> nat \<Rightarrow> bytes \<Rightarrow> ('e, bytes) outcome" where
  "pad_array n k chunk =
     (if k \<le> n \<and> length chunk = k then Ok (chunk @ replicate (n - k) 0) else Panic)"

text \<open>Big-endian encoding, \<^verbatim>\<open>to_be_bytes\<close>, of the low \<open>n\<close> bytes.\<close>

fun to_be :: "nat \<Rightarrow> nat \<Rightarrow> bytes" where
  "to_be 0 v = []"
| "to_be (Suc n) v = to_be n (v div 256) @ [word_of_nat v]"

subsection \<open>Laws of the outcome monad\<close>

lemma rbind_simps [simp]:
  "rbind (Ok x) f = f x"
  "rbind (Err e) f = Err e"
  "rbind Panic f = Panic"
  "rbind Diverge f = Diverge"
  by (simp_all add: rbind_def)

lemma rbind_cong [fundef_cong]:
  assumes "m = m'" and "\<And>x. m' = Ok x \<Longrightarrow> f x = f' x"
  shows "rbind m f = rbind m' f'"
  using assms by (cases m') (simp_all add: rbind_def)

lemma rbind_assoc: "rbind (rbind m f) g = rbind m (\<lambda>x. rbind (f x) g)"
  by (cases m) simp_all

lemma rbind_eq_Ok [simp]: "rbind m f = Ok y \<longleftrightarrow> (\<exists>x. m = Ok x \<and> f x = Ok y)"
  by (cases m) simp_all

lemma rbind_eq_Err [simp]:
  "rbind m f = Err e \<longleftrightarrow> m = Err e \<or> (\<exists>x. m = Ok x \<and> f x = Err e)"
  by (cases m) simp_all

lemma rbind_eq_Diverge [simp]:
  "rbind m f = Diverge \<longleftrightarrow> m = Diverge \<or> (\<exists>x. m = Ok x \<and> f x = Diverge)"
  by (cases m) simp_all

lemma unwrap_or_simps [simp]:
  "unwrap_or (Ok x) d = Ok x" "unwrap_or (Err e) d = Ok d"
  "unwrap_or Panic d = Panic" "unwrap_or Diverge d = Diverge"
  by (simp_all add: unwrap_or_def)

lemma ok_simps [simp]:
  "ok (Ok x) = Ok (Some x)" "ok (Err e) = Ok None" "ok Panic = Panic" "ok Diverge = Diverge"
  by (simp_all add: ok_def)

lemma sat_simps [simp]:
  "sat (Ok x) Q = Q x" "sat (Err e) Q" "\<not> sat Panic Q" "\<not> sat Diverge Q"
  by (simp_all add: sat_def)

lemma sat_iff:
  "sat m Q \<longleftrightarrow> m \<noteq> Panic \<and> m \<noteq> Diverge \<and> (\<forall>x. m = Ok x \<longrightarrow> Q x)"
  by (cases m) simp_all

lemma sat_OkD: "sat m Q \<Longrightarrow> m = Ok x \<Longrightarrow> Q x"
  by simp

lemma sat_not_Diverge: "sat m Q \<Longrightarrow> m \<noteq> Diverge"
  by auto

lemma sat_weaken: "sat m Q \<Longrightarrow> (\<And>x. m = Ok x \<Longrightarrow> Q x \<Longrightarrow> R x) \<Longrightarrow> sat m R"
  by (cases m) simp_all

lemma sat_rbind [simp]: "sat (rbind m f) Q \<longleftrightarrow> sat m (\<lambda>x. sat (f x) Q)"
  by (cases m) simp_all

lemma sat_bindI: "sat m P \<Longrightarrow> (\<And>x. m = Ok x \<Longrightarrow> P x \<Longrightarrow> sat (f x) Q) \<Longrightarrow> sat (rbind m f) Q"
  by (cases m) simp_all

lemma sat_if [simp]: "sat (if b then m else n) Q \<longleftrightarrow> (if b then sat m Q else sat n Q)"
  by simp

lemma sat_unwrap_or: "sat m Q \<Longrightarrow> Q d \<Longrightarrow> sat (unwrap_or m d) Q"
  by (cases m) simp_all

lemma sat_ok: "sat m Q \<Longrightarrow> sat (ok m) (\<lambda>r. case r of None \<Rightarrow> True | Some x \<Rightarrow> Q x)"
  by (cases m) simp_all

lemma stops_simps [simp]:
  "stops (Ok x) Q = Q x" "stops (Err e) Q" "stops Panic Q" "\<not> stops Diverge Q"
  by (simp_all add: stops_def)

lemma stops_iff: "stops m Q \<longleftrightarrow> m \<noteq> Diverge \<and> (\<forall>x. m = Ok x \<longrightarrow> Q x)"
  by (cases m) simp_all

lemma stops_weaken: "stops m Q \<Longrightarrow> (\<And>x. m = Ok x \<Longrightarrow> Q x \<Longrightarrow> R x) \<Longrightarrow> stops m R"
  by (cases m) simp_all

lemma stops_rbind [simp]: "stops (rbind m f) Q \<longleftrightarrow> stops m (\<lambda>x. stops (f x) Q)"
  by (cases m) simp_all

lemma stops_if [simp]: "stops (if b then m else n) Q \<longleftrightarrow> (if b then stops m Q else stops n Q)"
  by simp

lemma sat_stops: "sat m Q \<Longrightarrow> stops m Q"
  by (cases m) simp_all

lemma stops_unwrap_or: "stops m Q \<Longrightarrow> Q d \<Longrightarrow> stops (unwrap_or m d) Q"
  by (cases m) simp_all

subsection \<open>Laws of loops\<close>

lemma rwhile_unfold [code]:
  fixes b :: "'s \<Rightarrow> bool" and c :: "'s \<Rightarrow> ('e, 's ctl) outcome"
  shows "rwhile b c s =
     (if b s
      then rbind (c s) (\<lambda>r. case r of Cont s' \<Rightarrow> rwhile b c s' | Brk s' \<Rightarrow> Ok s')
      else Ok s)"
proof -
  have stop: "while_option loop_running (loop_step b c) (Stop r) = Some (Stop r)"
    for r :: "('e, 's) outcome"
    by (simp add: while_option_unfold loop_running_def)
  have run: "while_option loop_running (loop_step b c) (Run s) =
      while_option loop_running (loop_step b c) (loop_step b c (Run s))" for s
    by (simp add: while_option_unfold [of _ _ "Run s"] loop_running_def)
  show ?thesis
    by (auto simp: rwhile_def run [of s] stop loop_step_def rbind_def
        split: outcome.splits ctl.splits)
qed

text \<open>The loop rule: total correctness from an invariant and a measure.\<close>

lemma rwhile_sat:
  fixes \<mu> :: "'s \<Rightarrow> nat"
  assumes start: "I s"
    and step: "\<And>s. I s \<Longrightarrow> b s \<Longrightarrow>
      sat (c s) (\<lambda>r. case r of Cont s' \<Rightarrow> I s' \<and> \<mu> s' < \<mu> s | Brk s' \<Rightarrow> Q s')"
    and exit: "\<And>s. I s \<Longrightarrow> \<not> b s \<Longrightarrow> Q s"
  shows "sat (rwhile b c s) Q"
  using start
proof (induction "\<mu> s" arbitrary: s rule: less_induct)
  case less
  show ?case
  proof (cases "b s")
    case False
    with less.prems exit show ?thesis by (simp add: rwhile_unfold)
  next
    case True
    have "sat (c s) (\<lambda>r. sat (case r of Cont s' \<Rightarrow> rwhile b c s' | Brk s' \<Rightarrow> Ok s') Q)"
      using step [OF less.prems True]
      by (rule sat_weaken) (auto split: ctl.splits intro: less.hyps)
    with True show ?thesis by (simp add: rwhile_unfold)
  qed
qed

lemma rwhile_stops:
  fixes \<mu> :: "'s \<Rightarrow> nat"
  assumes start: "I s"
    and step: "\<And>s. I s \<Longrightarrow> b s \<Longrightarrow>
      stops (c s) (\<lambda>r. case r of Cont s' \<Rightarrow> I s' \<and> \<mu> s' < \<mu> s | Brk s' \<Rightarrow> Q s')"
    and exit: "\<And>s. I s \<Longrightarrow> \<not> b s \<Longrightarrow> Q s"
  shows "stops (rwhile b c s) Q"
  using start
proof (induction "\<mu> s" arbitrary: s rule: less_induct)
  case less
  show ?case
  proof (cases "b s")
    case False
    with less.prems exit show ?thesis by (simp add: rwhile_unfold)
  next
    case True
    have "stops (c s) (\<lambda>r. stops (case r of Cont s' \<Rightarrow> rwhile b c s' | Brk s' \<Rightarrow> Ok s') Q)"
      using step [OF less.prems True]
      by (rule stops_weaken) (auto split: ctl.splits intro: less.hyps)
    with True show ?thesis by (simp add: rwhile_unfold)
  qed
qed

text \<open>Termination alone, for a body that may panic.\<close>

lemma rwhile_not_Diverge:
  fixes \<mu> :: "'s \<Rightarrow> nat"
  assumes body: "\<And>s. b s \<Longrightarrow> c s \<noteq> Diverge"
    and decr: "\<And>s s'. b s \<Longrightarrow> c s = Ok (Cont s') \<Longrightarrow> \<mu> s' < \<mu> s"
  shows "rwhile b c s \<noteq> Diverge"
proof (induction "\<mu> s" arbitrary: s rule: less_induct)
  case less
  show ?case
    using less body [of s] decr [of s]
    by (subst rwhile_unfold) (cases "c s"; auto split: ctl.splits)
qed

lemma rmap_eq: "(\<And>x. x \<in> set xs \<Longrightarrow> f x = Ok (g x)) \<Longrightarrow> rmap f xs = Ok (map g xs)"
  by (induction xs) simp_all

lemma rmap_cong [fundef_cong]: "xs = ys \<Longrightarrow> (\<And>x. x \<in> set ys \<Longrightarrow> f x = g x) \<Longrightarrow> rmap f xs = rmap g ys"
  by (induction ys arbitrary: xs) simp_all

lemma rmap_sat:
  "(\<And>x. x \<in> set xs \<Longrightarrow> sat (f x) P) \<Longrightarrow> sat (rmap f xs) (\<lambda>ys. length ys = length xs \<and> list_all P ys)"
proof (induction xs)
  case (Cons x xs)
  then have x: "sat (f x) P" and xs: "sat (rmap f xs) (\<lambda>ys. length ys = length xs \<and> list_all P ys)"
    by simp_all
  show ?case
    unfolding rmap.simps by (rule sat_bindI [OF x], rule sat_bindI [OF xs]) simp
qed simp

text \<open>One turn of a loop, by the outcome of its body.\<close>

lemma rwhile_stop: "\<not> b s \<Longrightarrow> rwhile b c s = Ok s"
  by (simp add: rwhile_unfold)

lemma rwhile_step: "b s \<Longrightarrow> c s = Ok (Cont s') \<Longrightarrow> rwhile b c s = rwhile b c s'"
  by (subst rwhile_unfold) simp

lemma rwhile_break: "b s \<Longrightarrow> c s = Ok (Brk s') \<Longrightarrow> rwhile b c s = Ok s'"
  by (subst rwhile_unfold) simp

lemma rwhile_fail: "b s \<Longrightarrow> c s = Err e \<Longrightarrow> rwhile b c s = Err e"
  by (subst rwhile_unfold) simp

lemma rwhile_panic: "b s \<Longrightarrow> c s = Panic \<Longrightarrow> rwhile b c s = Panic"
  by (subst rwhile_unfold) simp

text \<open>A loop whose body never fails does not fail; a loop that can always go on never ends.\<close>

lemma rwhile_not_Err:
  assumes "\<And>s. c s \<noteq> Err e"
  shows "rwhile b c s \<noteq> Err e"
proof -
  have "t \<noteq> Stop (Err e)" if "while_option loop_running (loop_step b c) (Run s) = Some t" for t
    by (rule while_option_rule [where P = "\<lambda>l. l \<noteq> Stop (Err e)", OF _ that])
      (use assms in \<open>auto simp: loop_step_def split: loop.splits outcome.splits ctl.splits\<close>)
  then show ?thesis by (auto simp: rwhile_def split: option.splits loop.splits)
qed

lemma rwhile_Diverge:
  assumes "I s" "\<And>s. I s \<Longrightarrow> b s \<and> (\<exists>s'. c s = Ok (Cont s') \<and> I s')"
  shows "rwhile b c s = Diverge"
proof -
  have "False" if "while_option loop_running (loop_step b c) (Run s) = Some t" for t
  proof -
    have "\<exists>s. t = Run s \<and> I s"
      by (rule while_option_rule [where P = "\<lambda>l. \<exists>s. l = Run s \<and> I s", OF _ that])
        (use assms in \<open>fastforce simp: loop_step_def\<close>)+
    with while_option_stop [OF that] show False by (auto simp: loop_running_def)
  qed
  then show ?thesis unfolding rwhile_def by (cases "while_option loop_running (loop_step b c) (Run s)") auto
qed

text \<open>Two loops in lock step: a loop over the image of a state under \<open>f\<close>.\<close>

lemma rwhile_map:
  fixes \<mu> :: "'s \<Rightarrow> nat"
  assumes start: "I s"
    and guard: "\<And>s. I s \<Longrightarrow> b' (f s) = b s"
    and body: "\<And>s. I s \<Longrightarrow> b s \<Longrightarrow> c' (f s) = rbind (c s) (\<lambda>r. Ok (map_ctl f r))"
    and decr: "\<And>s s'. I s \<Longrightarrow> b s \<Longrightarrow> c s = Ok (Cont s') \<Longrightarrow> I s' \<and> \<mu> s' < \<mu> s"
  shows "rwhile b' c' (f s) = rbind (rwhile b c s) (\<lambda>t. Ok (f t))"
  using start
proof (induction "\<mu> s" arbitrary: s rule: less_induct)
  case less
  show ?case
  proof (cases "b s")
    case False
    with less.prems show ?thesis by (simp add: rwhile_stop guard)
  next
    case True
    have "rbind (c s) (\<lambda>r. case map_ctl f r of Cont s' \<Rightarrow> rwhile b' c' s' | Brk s' \<Rightarrow> Ok s') =
        rbind (c s) (\<lambda>r. rbind (case r of Cont s' \<Rightarrow> rwhile b c s' | Brk s' \<Rightarrow> Ok s') (\<lambda>t. Ok (f t)))"
      using decr [OF less.prems True] less.hyps
      by (intro rbind_cong refl) (auto split: ctl.splits)
    with True less.prems show ?thesis
      by (subst (1 2) rwhile_unfold) (simp add: guard body rbind_assoc)
  qed
qed

subsection \<open>Laws of checked reads\<close>

lemma sat_idx [simp]: "sat (idx xs i) Q \<longleftrightarrow> i < length xs \<and> Q (xs ! i)"
  by (simp add: idx_def)

lemma sat_slice [simp]:
  "sat (slice xs a b) Q \<longleftrightarrow> a \<le> b \<and> b \<le> length xs \<and> Q (take (b - a) (drop a xs))"
  by (auto simp: slice_def)

lemma sat_slice_from [simp]: "sat (slice_from xs a) Q \<longleftrightarrow> a \<le> length xs \<and> Q (drop a xs)"
  by (simp add: slice_from_def)

lemma sat_u16_at [simp]:
  "sat (u16_at xs i) Q \<longleftrightarrow> i + 2 \<le> length xs \<and> Q (from_be (take 2 (drop i xs)))"
  by (simp add: u16_at_def)

lemma sat_u24_at [simp]:
  "sat (u24_at xs i) Q \<longleftrightarrow> i + 3 \<le> length xs \<and> Q (from_be (take 3 (drop i xs)))"
  by (simp add: u24_at_def)

lemma sat_u32_at [simp]:
  "sat (u32_at xs i) Q \<longleftrightarrow> i + 4 \<le> length xs \<and> Q (from_be (take 4 (drop i xs)))"
  by (simp add: u32_at_def)

lemma sat_u64_at [simp]:
  "sat (u64_at xs i) Q \<longleftrightarrow> i + 8 \<le> length xs \<and> Q (from_be (take 8 (drop i xs)))"
  by (simp add: u64_at_def)

lemma sat_len16_at [simp]:
  "sat (len16_at xs i) Q \<longleftrightarrow> i + 2 \<le> length xs \<and> Q (be_nat (take 2 (drop i xs)))"
  by (simp add: len16_at_def)

lemma sat_len8_at [simp]: "sat (len8_at xs i) Q \<longleftrightarrow> i < length xs \<and> Q (unat (xs ! i))"
  by (simp add: len8_at_def)

lemma sat_pad_array [simp]:
  "sat (pad_array n k c) Q \<longleftrightarrow> k \<le> n \<and> length c = k \<and> Q (c @ replicate (n - k) 0)"
  by (auto simp: pad_array_def)

lemma stops_reads [simp]:
  "stops (idx ys i) P \<longleftrightarrow> (i < length ys \<longrightarrow> P (ys ! i))"
  "stops (slice ys a b) P' \<longleftrightarrow> (a \<le> b \<and> b \<le> length ys \<longrightarrow> P' (take (b - a) (drop a ys)))"
  "stops (slice_from ys a) P' \<longleftrightarrow> (a \<le> length ys \<longrightarrow> P' (drop a ys))"
  "stops (u16_at xs i) Q2 \<longleftrightarrow> (i + 2 \<le> length xs \<longrightarrow> Q2 (from_be (take 2 (drop i xs))))"
  "stops (u24_at xs i) Q4 \<longleftrightarrow> (i + 3 \<le> length xs \<longrightarrow> Q4 (from_be (take 3 (drop i xs))))"
  "stops (u32_at xs i) Q4 \<longleftrightarrow> (i + 4 \<le> length xs \<longrightarrow> Q4 (from_be (take 4 (drop i xs))))"
  "stops (pad_array n k xs) P'' \<longleftrightarrow> (k \<le> n \<and> length xs = k \<longrightarrow> P'' (xs @ replicate (n - k) 0))"
  by (auto simp: idx_def slice_def slice_from_def u16_at_def u24_at_def u32_at_def pad_array_def)

lemma idx_Ok [read_simps]: "idx xs i = Ok x \<longleftrightarrow> i < length xs \<and> x = xs ! i"
  by (auto simp: idx_def)

lemma slice_Ok [read_simps]:
  "slice xs a b = Ok ys \<longleftrightarrow> a \<le> b \<and> b \<le> length xs \<and> ys = take (b - a) (drop a xs)"
  by (auto simp: slice_def)

lemma slice_from_Ok [read_simps]: "slice_from xs a = Ok ys \<longleftrightarrow> a \<le> length xs \<and> ys = drop a xs"
  by (auto simp: slice_from_def)

lemma u16_at_Ok [read_simps]:
  "u16_at xs i = Ok v \<longleftrightarrow> i + 2 \<le> length xs \<and> v = from_be (take 2 (drop i xs))"
  by (auto simp: u16_at_def slice_Ok)

lemma u32_at_Ok [read_simps]:
  "u32_at xs i = Ok v \<longleftrightarrow> i + 4 \<le> length xs \<and> v = from_be (take 4 (drop i xs))"
  by (auto simp: u32_at_def slice_Ok)

lemma u24_at_Ok [read_simps]:
  "u24_at xs i = Ok v \<longleftrightarrow> i + 3 \<le> length xs \<and> v = from_be (take 3 (drop i xs))"
  by (auto simp: u24_at_def slice_Ok)

lemma u64_at_Ok [read_simps]:
  "u64_at xs i = Ok v \<longleftrightarrow> i + 8 \<le> length xs \<and> v = from_be (take 8 (drop i xs))"
  by (auto simp: u64_at_def slice_Ok)

lemma len16_at_Ok [read_simps]:
  "len16_at xs i = Ok v \<longleftrightarrow> i + 2 \<le> length xs \<and> v = be_nat (take 2 (drop i xs))"
  by (auto simp: len16_at_def slice_Ok)

lemma len8_at_Ok [read_simps]: "len8_at xs i = Ok v \<longleftrightarrow> i < length xs \<and> v = unat (xs ! i)"
  by (auto simp: len8_at_def idx_Ok)

lemma reads_not_Err [simp]:
  "idx xs i \<noteq> Err e" "slice ys a b \<noteq> Err e" "slice_from ys a \<noteq> Err e" "u16_at bs i \<noteq> Err e"
  "u24_at bs i \<noteq> Err e" "u32_at bs i \<noteq> Err e" "u64_at bs i \<noteq> Err e" "len16_at bs i \<noteq> Err e"
  "len8_at bs i \<noteq> Err e" "pad_array n k bs \<noteq> Err e"
  by (simp_all add: idx_def slice_def slice_from_def u16_at_def u24_at_def u32_at_def u64_at_def
      len16_at_def len8_at_def pad_array_def)

lemma reads_not_Diverge [simp]:
  "idx xs i \<noteq> Diverge" "slice ys a b \<noteq> Diverge" "slice_from ys a \<noteq> Diverge" "u16_at bs i \<noteq> Diverge"
  "u24_at bs i \<noteq> Diverge" "u32_at bs i \<noteq> Diverge" "u64_at bs i \<noteq> Diverge" "len16_at bs i \<noteq> Diverge"
  "len8_at bs i \<noteq> Diverge" "pad_array n k bs \<noteq> Diverge"
  by (simp_all add: idx_def slice_def slice_from_def u16_at_def u24_at_def u32_at_def u64_at_def
      len16_at_def len8_at_def pad_array_def)

subsection \<open>Big-endian numbers\<close>

lemma foldl_be_acc:
  "foldl (\<lambda>acc b. acc * 256 + unat (b::u8)) a bs =
     a * 256 ^ length bs + foldl (\<lambda>acc b. acc * 256 + unat b) 0 bs"
proof (induction bs arbitrary: a)
  case Nil
  then show ?case by simp
next
  case (Cons x xs)
  show ?case
    using Cons.IH [of "a * 256 + unat x"] Cons.IH [of "unat x"] by (simp add: algebra_simps)
qed

lemma be_nat_Nil [simp]: "be_nat [] = 0"
  by (simp add: be_nat_def)

lemma be_nat_Cons: "be_nat (b # bs) = unat b * 256 ^ length bs + be_nat bs"
  using foldl_be_acc [of "unat b" bs] by (simp add: be_nat_def)

lemma be_nat_snoc: "be_nat (bs @ [b]) = be_nat bs * 256 + unat b"
  by (simp add: be_nat_def)

lemma unat_u8_less: "unat (b :: u8) < 256"
  using unsigned_less [of b] by simp

lemma be_nat_bound: "be_nat bs < 256 ^ length bs"
proof (induction bs rule: rev_induct)
  case Nil
  then show ?case by simp
next
  case (snoc b bs)
  have "unat b < 256" using unsigned_less [of b] by simp
  with snoc.IH show ?case by (simp add: be_nat_snoc)
qed

lemma length_to_be [simp]: "length (to_be n v) = n"
  by (induction n arbitrary: v) simp_all

lemma be_nat_to_be: "be_nat (to_be n v) = v mod 256 ^ n"
proof (induction n arbitrary: v)
  case 0
  then show ?case by simp
next
  case (Suc n)
  have "be_nat (to_be (Suc n) v) = (v div 256 mod 256 ^ n) * 256 + v mod 256"
    by (simp add: be_nat_snoc Suc.IH unat_of_nat)
  then show ?case by (simp add: mod_mult2_eq algebra_simps)
qed

lemma to_be_be_nat: "to_be (length bs) (be_nat bs) = bs"
proof (induction bs rule: rev_induct)
  case Nil
  then show ?case by simp
next
  case (snoc b bs)
  have "unat b < 256" using unsigned_less [of b] by simp
  moreover have "word_of_nat (be_nat bs * 256 + unat b) = b"
  proof -
    have "(256 :: u8) = 0" by simp
    then have "word_of_nat (be_nat bs * 256) = (0 :: u8)" by (simp only: of_nat_mult of_nat_numeral mult_zero_right)
    then show ?thesis by simp
  qed
  ultimately show ?case by (simp add: be_nat_snoc snoc.IH)
qed

lemma be_nat_inject: "length xs = length ys \<Longrightarrow> be_nat xs = be_nat ys \<longleftrightarrow> xs = ys"
  by (metis to_be_be_nat)

lemma be_nat_append_zeros: "be_nat (bs @ replicate j 0) = be_nat bs * 256 ^ j"
  by (induction j) (simp_all add: be_nat_snoc replicate_append_same [symmetric] append_assoc [symmetric]
      del: append_assoc)

lemma to_be_split: "to_be (k + j) v = to_be k (v div 256 ^ j) @ to_be j v"
  by (induction j arbitrary: v) (simp_all add: div_mult2_eq [symmetric])

text \<open>The first \<open>k\<close> bytes, padded with zeros, give the number back when the rest is zero.\<close>

lemma be_nat_truncated:
  assumes "k \<le> n" "v < 256 ^ n" "256 ^ (n - k) dvd v"
  shows "be_nat (take k (to_be n v) @ replicate (n - k) 0) = v"
proof -
  from assms(3) obtain w where v: "v = w * 256 ^ (n - k)" by (metis dvd_div_mult_self)
  have "256 ^ n = 256 ^ k * (256 :: nat) ^ (n - k)"
    using assms(1) by (simp flip: power_add)
  with assms(2) v have w: "w < 256 ^ k" by simp
  have "take k (to_be n v) = to_be k w"
    using to_be_split [of k "n - k" v] assms(1) v by simp
  with w v show ?thesis by (simp add: be_nat_append_zeros be_nat_to_be)
qed

lemma from_be_code [code]: "from_be bs = foldl (\<lambda>acc b. acc * 256 + ucast b) 0 bs"
  by (induction bs rule: rev_induct) (simp_all add: from_be_def be_nat_snoc)

lemma unat_from_be:
  "256 ^ length bs \<le> (2::nat) ^ LENGTH('a::len) \<Longrightarrow> unat (from_be bs :: 'a word) = be_nat bs"
  using be_nat_bound [of bs] by (simp add: from_be_def unat_of_nat)

lemma from_be_to_be:
  fixes w :: "'a::len word"
  assumes "LENGTH('a) = 8 * n"
  shows "from_be (to_be n (unat w)) = w"
proof -
  have "unat w < 256 ^ n" using unsigned_less [of w] assms by (simp add: power_mult)
  then show ?thesis by (simp add: from_be_def be_nat_to_be)
qed

lemma ucast_from_be_to_be:
  fixes v :: "'b::len word"
  assumes "unat v < 256 ^ n" "256 ^ n \<le> (2::nat) ^ LENGTH('a::len)"
  shows "ucast (from_be (to_be n (unat v)) :: 'a word) = v"
proof -
  have "unat (from_be (to_be n (unat v)) :: 'a word) = unat v"
    using assms by (simp add: unat_from_be be_nat_to_be)
  then have "word_of_nat (unat (from_be (to_be n (unat v)) :: 'a word)) = v" by simp
  then show ?thesis by simp
qed

lemma from_be_to_be_width [simp]:
  "from_be (to_be (Suc 0) (unat b8)) = (b8 :: u8)"
  "from_be (to_be 2 (unat b16)) = (b16 :: u16)"
  "from_be (to_be 4 (unat b32)) = (b32 :: u32)"
  "from_be (to_be 8 (unat b64)) = (b64 :: u64)"
  "from_be (to_be 16 (unat b128)) = (b128 :: u128)"
  by (rule from_be_to_be, simp)+

text \<open>A 20-bit MPLS label in the top bits of a 3-byte field, with \<open>b\<close> in the low four.\<close>

lemma unat_label_field:
  fixes l :: u32
  assumes "unat l < 2 ^ 20" "b < 16"
  shows "unat (from_be (to_be 3 (unat l * 16 + b)) :: u32) = unat l * 16 + b"
  using assms by (simp add: unat_from_be be_nat_to_be)

lemma drop_label_field:
  fixes l :: u32
  assumes "unat l < 2 ^ 20" "b < 16"
  shows "drop_bit 4 (from_be (to_be 3 (unat l * 16 + b)) :: u32) = l"
proof (rule word_unat_eq_iff [THEN iffD2])
  show "unat (drop_bit 4 (from_be (to_be 3 (unat l * 16 + b)) :: u32)) = unat l"
    using unat_label_field [OF assms] assms(2) by (simp add: drop_bit_eq_div unat_div)
qed

end
