(* ===== verification/Rust_Std.thy ===== *)
theory Rust_Std
  imports Prelude
begin

text \<open>
  The parts of the Rust standard library that the parsers use beyond slices: IP addresses and
  their \<^verbatim>\<open>Display\<close> form, decimal and hexadecimal formatting, and
  \<^verbatim>\<open>String::from_utf8_lossy\<close>.  A Rust \<^verbatim>\<open>String\<close> is its UTF-8 encoding, one
  \<open>char\<close> per byte.
\<close>

unbundle bit_operations_syntax

subsection \<open>Formatting of numbers\<close>

fun digits_in :: "nat \<Rightarrow> nat \<Rightarrow> nat list" where
  "digits_in b n = (if b < 2 \<or> n < b then [n] else digits_in b (n div b) @ [n mod b])"

declare digits_in.simps [simp del]

definition digit_char :: "nat \<Rightarrow> char" where
  "digit_char d = ''0123456789abcdef'' ! d"

definition show_nat :: "nat \<Rightarrow> string" where
  "show_nat n = map digit_char (digits_in 10 n)"

text \<open>The format \<^verbatim>\<open>{:x}\<close>, and \<^verbatim>\<open>{:02x}\<close> on a byte.\<close>

definition show_hex :: "nat \<Rightarrow> string" where
  "show_hex n = map digit_char (digits_in 16 n)"

definition show_hex2 :: "u8 \<Rightarrow> string" where
  "show_hex2 b = [digit_char (unat b div 16), digit_char (unat b mod 16)]"

definition join :: "string \<Rightarrow> string list \<Rightarrow> string" where
  "join sep xs = (case xs of [] \<Rightarrow> [] | y # ys \<Rightarrow> y @ concat (map (\<lambda>z. sep @ z) ys))"

subsection \<open>IP addresses\<close>

type_synonym ipv4 = u32
type_synonym ipv6 = u128

datatype ip_addr = IpV4 ipv4 | IpV6 ipv6

text \<open>\<^verbatim>\<open>Ipv4Addr::from([b[i], .., b[i+3]])\<close> and \<^verbatim>\<open>Ipv6Addr::from\<close> on 16 bytes.\<close>

definition ipv4_at :: "bytes \<Rightarrow> nat \<Rightarrow> ('e, ipv4) outcome" where
  "ipv4_at xs i = rbind (slice xs i (i + 4)) (\<lambda>bs. Ok (from_be bs))"

definition ipv6_at :: "bytes \<Rightarrow> nat \<Rightarrow> ('e, ipv6) outcome" where
  "ipv6_at xs i = rbind (slice xs i (i + 16)) (\<lambda>bs. Ok (from_be bs))"

definition octets4 :: "ipv4 \<Rightarrow> bytes" where
  "octets4 a = map (\<lambda>i. ucast (drop_bit (24 - 8 * i) a)) [0..<4]"

definition show_ipv4 :: "ipv4 \<Rightarrow> string" where
  "show_ipv4 a = join ''.'' (map (\<lambda>b. show_nat (unat b)) (octets4 a))"

definition segments6 :: "ipv6 \<Rightarrow> u16 list" where
  "segments6 a = map (\<lambda>i. ucast (drop_bit (112 - 16 * i) a)) [0..<8]"

text \<open>The longest run of zero segments, the first among equals, as (start, length).\<close>

fun zero_run :: "nat \<Rightarrow> u16 list \<Rightarrow> nat \<times> nat \<Rightarrow> nat \<times> nat \<Rightarrow> nat \<times> nat" where
  "zero_run i [] cur longest = longest"
| "zero_run i (s # ss) cur longest =
     (if s = 0
      then (let start = (if snd cur = 0 then i else fst cur); n = snd cur + 1;
                best = (if n > snd longest then (start, n) else longest)
            in zero_run (i + 1) ss (start, n) best)
      else zero_run (i + 1) ss (0, 0) longest)"

definition show_ipv6 :: "ipv6 \<Rightarrow> string" where
  "show_ipv6 a =
     (let segs = segments6 a;
          fmt = (\<lambda>xs. join '':'' (map (\<lambda>s. show_hex (unat s)) xs))
      in if take 5 segs = replicate 5 0 \<and> segs ! 5 = 65535
         then ''::ffff:'' @ show_ipv4 (ucast a)
         else (case zero_run 0 segs (0, 0) (0, 0) of (start, n) \<Rightarrow>
                 if n > 1 then fmt (take start segs) @ ''::'' @ fmt (drop (start + n) segs)
                 else fmt segs))"

definition show_ip :: "ip_addr \<Rightarrow> string" where
  "show_ip a = (case a of IpV4 x \<Rightarrow> show_ipv4 x | IpV6 x \<Rightarrow> show_ipv6 x)"

subsection \<open>Lossy UTF-8 decoding\<close>

definition peek :: "bytes \<Rightarrow> nat \<Rightarrow> u8" where
  "peek xs i = (if i < length xs then xs ! i else 0)"

definition utf8_cont :: "u8 \<Rightarrow> bool" where
  "utf8_cont b \<longleftrightarrow> b AND 0xC0 = 0x80"

definition utf8_second3 :: "u8 \<Rightarrow> u8 \<Rightarrow> bool" where
  "utf8_second3 b n \<longleftrightarrow>
     (b = 0xE0 \<and> 0xA0 \<le> n \<and> n \<le> 0xBF) \<or> (0xE1 \<le> b \<and> b \<le> 0xEC \<and> 0x80 \<le> n \<and> n \<le> 0xBF)
   \<or> (b = 0xED \<and> 0x80 \<le> n \<and> n \<le> 0x9F) \<or> (0xEE \<le> b \<and> b \<le> 0xEF \<and> 0x80 \<le> n \<and> n \<le> 0xBF)"

definition utf8_second4 :: "u8 \<Rightarrow> u8 \<Rightarrow> bool" where
  "utf8_second4 b n \<longleftrightarrow>
     (b = 0xF0 \<and> 0x90 \<le> n \<and> n \<le> 0xBF) \<or> (0xF1 \<le> b \<and> b \<le> 0xF3 \<and> 0x80 \<le> n \<and> n \<le> 0xBF)
   \<or> (b = 0xF4 \<and> 0x80 \<le> n \<and> n \<le> 0x8F)"

text \<open>One step of the decoder at first byte \<open>b\<close>: whether a well-formed sequence starts here, and
  how many of the following bytes belong to the sequence (or to its maximal invalid prefix).\<close>

definition utf8_chunk :: "u8 \<Rightarrow> bytes \<Rightarrow> bool \<times> nat" where
  "utf8_chunk b rest =
     (if b < 0x80 then (True, 0)
      else if 0xC2 \<le> b \<and> b \<le> 0xDF then (if utf8_cont (peek rest 0) then (True, 1) else (False, 0))
      else if 0xE0 \<le> b \<and> b \<le> 0xEF then
        (if utf8_second3 b (peek rest 0)
         then (if utf8_cont (peek rest 1) then (True, 2) else (False, 1))
         else (False, 0))
      else if 0xF0 \<le> b \<and> b \<le> 0xF4 then
        (if utf8_second4 b (peek rest 0)
         then (if utf8_cont (peek rest 1)
               then (if utf8_cont (peek rest 2) then (True, 3) else (False, 2))
               else (False, 1))
         else (False, 0))
      else (False, 0))"

fun utf8_lossy :: "bytes \<Rightarrow> bytes" where
  "utf8_lossy [] = []"
| "utf8_lossy (b # bs) =
     (let r = utf8_chunk b bs
      in (if fst r then b # take (snd r) bs else [0xEF, 0xBF, 0xBD])
           @ utf8_lossy (drop (snd r) bs))"

definition from_utf8_lossy :: "bytes \<Rightarrow> string" where
  "from_utf8_lossy bs = map (\<lambda>b. char_of (unat b)) (utf8_lossy bs)"

subsection \<open>Lemmas\<close>

lemma sat_ipv4_at [simp]:
  "sat (ipv4_at xs i) Q \<longleftrightarrow> i + 4 \<le> length xs \<and> Q (from_be (take 4 (drop i xs)))"
  by (simp add: ipv4_at_def)

lemma sat_ipv6_at [simp]:
  "sat (ipv6_at xs i) Q \<longleftrightarrow> i + 16 \<le> length xs \<and> Q (from_be (take 16 (drop i xs)))"
  by (simp add: ipv6_at_def)

lemma ip_at_not_Err [simp]: "ipv4_at xs i \<noteq> Err e" "ipv6_at xs i \<noteq> Err e"
  by (simp_all add: ipv4_at_def ipv6_at_def)

lemma ip_at_not_Diverge [simp]: "ipv4_at xs i \<noteq> Diverge" "ipv6_at xs i \<noteq> Diverge"
  by (simp_all add: ipv4_at_def ipv6_at_def)

lemma ipv4_at_Ok [read_simps]:
  "ipv4_at xs i = Ok v \<longleftrightarrow> i + 4 \<le> length xs \<and> v = from_be (take 4 (drop i xs))"
  by (auto simp: ipv4_at_def slice_Ok)

lemma ipv6_at_Ok [read_simps]:
  "ipv6_at xs i = Ok v \<longleftrightarrow> i + 16 \<le> length xs \<and> v = from_be (take 16 (drop i xs))"
  by (auto simp: ipv6_at_def slice_Ok)

text \<open>Decimal and hexadecimal text determines the number.\<close>

lemma digits_in_value: "foldl (\<lambda>a d. a * b + d) 0 (digits_in b n) = n"
proof (induction b n rule: digits_in.induct)
  case (1 b n)
  then show ?case by (subst digits_in.simps) auto
qed

lemma digits_in_bound: "2 \<le> b \<Longrightarrow> d \<in> set (digits_in b n) \<Longrightarrow> d < b"
proof (induction b n rule: digits_in.induct)
  case (1 b n)
  then show ?case by (subst (asm) digits_in.simps) (auto split: if_splits)
qed

lemma digit_char_inj: "d < 16 \<Longrightarrow> e < 16 \<Longrightarrow> digit_char d = digit_char e \<Longrightarrow> d = e"
  by (simp add: digit_char_def nth_eq_iff_index_eq)

lemma map_digit_char_inj:
  assumes "map digit_char xs = map digit_char ys"
    and "\<forall>x \<in> set xs. x < 16" and "\<forall>y \<in> set ys. y < 16"
  shows "xs = ys"
proof (rule map_inj_on [OF assms(1)])
  show "inj_on digit_char (set xs \<union> set ys)"
    using assms(2,3) by (intro inj_onI digit_char_inj) auto
qed

lemma digits_10_lt_16: "\<forall>d \<in> set (digits_in 10 n). d < 16"
proof
  fix d
  assume "d \<in> set (digits_in 10 n)"
  with digits_in_bound [of 10 d n] show "d < 16" by simp
qed

lemma show_nat_inj: "show_nat m = show_nat n \<longleftrightarrow> m = n"
proof
  assume "show_nat m = show_nat n"
  then have "digits_in 10 m = digits_in 10 n"
    unfolding show_nat_def by (rule map_digit_char_inj) (rule digits_10_lt_16)+
  then show "m = n" by (metis digits_in_value)
qed simp

lemma digit_char_decimal: "d < 10 \<Longrightarrow> digit_char d \<in> set ''0123456789''"
  using nth_mem [of d "''0123456789''"] nth_append [of "''0123456789''" "''abcdef''" d]
  by (simp add: digit_char_def)

lemma set_show_nat: "set (show_nat n) \<subseteq> set ''0123456789''"
proof
  fix c
  assume "c \<in> set (show_nat n)"
  then obtain d where "d \<in> set (digits_in 10 n)" and c: "c = digit_char d"
    by (auto simp: show_nat_def)
  then have "d < 10" using digits_in_bound [of 10 d n] by simp
  then show "c \<in> set ''0123456789''" unfolding c by (rule digit_char_decimal)
qed

lemma utf8_lossy_ascii: "\<forall>b \<in> set bs. b < 0x80 \<Longrightarrow> utf8_lossy bs = bs"
  by (induction bs) (auto simp: utf8_chunk_def)

end
