(* ===== verification/Crates.thy ===== *)
theory Crates
  imports Rust_Std
begin

text \<open>
  The third-party crates that rustybmp calls, as parameters.  Their code is not part of the
  repository, so nothing is defined for them: a record \<open>crates\<close> of functions is an argument of
  every definition that uses them, and what the code relies on is stated as a predicate over the
  record, from the crates' documentation.

  \<^item> \<^verbatim>\<open>bytes::Buf\<close> on a byte slice: \<^verbatim>\<open>get_u8\<close>, \<^verbatim>\<open>get_u16\<close>, \<^verbatim>\<open>get_u32\<close>
    and \<^verbatim>\<open>copy_to_bytes\<close> read big-endian values from the front, advance the cursor, and panic
    when not enough bytes remain (\<open>None\<close>); \<^verbatim>\<open>remaining\<close> is the number of bytes left.
  \<^item> \<^verbatim>\<open>ipnet\<close>: \<^verbatim>\<open>Ipv4Net::new\<close> refuses a prefix length above 32 (128 for IPv6),
    \<^verbatim>\<open>trunc\<close> clears the host bits, \<^verbatim>\<open>Display\<close> prints \<^verbatim>\<open>address/length\<close>,
    \<^verbatim>\<open>contains\<close> compares the address under the network mask.
  \<^item> \<^verbatim>\<open>chrono\<close>: an instant is an integer number of nanoseconds; \<^verbatim>\<open>timestamp_opt\<close> is
    defined for fewer than \<open>2 * 10^9\<close> nanoseconds; \<^verbatim>\<open>num_seconds\<close> truncates a duration
    to whole seconds.

  \<open>doc_crates\<close> is one instance that satisfies the documented behaviour; it is used for
  evaluation on concrete inputs.
\<close>

unbundle bit_operations_syntax

datatype ipv4net = Ipv4Net (net4_addr: ipv4) (net4_len: u8)

datatype ipv6net = Ipv6Net (net6_addr: ipv6) (net6_len: u8)

type_synonym datetime = int

record crates =
  c_get_u8 :: "bytes \<Rightarrow> (u8 \<times> bytes) option"
  c_get_u16 :: "bytes \<Rightarrow> (u16 \<times> bytes) option"
  c_get_u32 :: "bytes \<Rightarrow> (u32 \<times> bytes) option"
  c_copy_to_bytes :: "nat \<Rightarrow> bytes \<Rightarrow> (bytes \<times> bytes) option"
  c_ipv4net_new :: "ipv4 \<Rightarrow> u8 \<Rightarrow> ipv4net option"
  c_ipv6net_new :: "ipv6 \<Rightarrow> u8 \<Rightarrow> ipv6net option"
  c_ipv4net_trunc :: "ipv4net \<Rightarrow> ipv4net"
  c_ipv6net_trunc :: "ipv6net \<Rightarrow> ipv6net"
  c_ipv4net_display :: "ipv4net \<Rightarrow> string"
  c_ipv6net_display :: "ipv6net \<Rightarrow> string"
  c_timestamp_opt :: "u32 \<Rightarrow> u32 \<Rightarrow> datetime option"
  c_num_seconds :: "int \<Rightarrow> int"

text \<open>A call of a crate function that may panic.\<close>

definition call :: "'a option \<Rightarrow> ('e, 'a) outcome" where
  "call r = (case r of None \<Rightarrow> Panic | Some x \<Rightarrow> Ok x)"

abbreviation buf_get_u8 :: "crates \<Rightarrow> bytes \<Rightarrow> ('e, u8 \<times> bytes) outcome" where
  "buf_get_u8 C buf \<equiv> call (c_get_u8 C buf)"

abbreviation buf_get_u16 :: "crates \<Rightarrow> bytes \<Rightarrow> ('e, u16 \<times> bytes) outcome" where
  "buf_get_u16 C buf \<equiv> call (c_get_u16 C buf)"

abbreviation buf_get_u32 :: "crates \<Rightarrow> bytes \<Rightarrow> ('e, u32 \<times> bytes) outcome" where
  "buf_get_u32 C buf \<equiv> call (c_get_u32 C buf)"

abbreviation buf_copy_to_bytes :: "crates \<Rightarrow> nat \<Rightarrow> bytes \<Rightarrow> ('e, bytes \<times> bytes) outcome" where
  "buf_copy_to_bytes C n buf \<equiv> call (c_copy_to_bytes C n buf)"

subsection \<open>Documented behaviour\<close>

definition netmask4 :: "u8 \<Rightarrow> ipv4" where
  "netmask4 l = push_bit (32 - unat l) (mask (unat l))"

definition netmask6 :: "u8 \<Rightarrow> ipv6" where
  "netmask6 l = push_bit (128 - unat l) (mask (unat l))"

definition bytes_ok :: "crates \<Rightarrow> bool" where
  "bytes_ok C \<longleftrightarrow>
     (\<forall>buf. c_get_u8 C buf = (if length buf < 1 then None else Some (from_be (take 1 buf), drop 1 buf)))
   \<and> (\<forall>buf. c_get_u16 C buf = (if length buf < 2 then None else Some (from_be (take 2 buf), drop 2 buf)))
   \<and> (\<forall>buf. c_get_u32 C buf = (if length buf < 4 then None else Some (from_be (take 4 buf), drop 4 buf)))
   \<and> (\<forall>n buf. c_copy_to_bytes C n buf = (if length buf < n then None else Some (take n buf, drop n buf)))"

definition ipnet_ok :: "crates \<Rightarrow> bool" where
  "ipnet_ok C \<longleftrightarrow>
     (\<forall>a l. c_ipv4net_new C a l = (if unat l \<le> 32 then Some (Ipv4Net a l) else None))
   \<and> (\<forall>a l. c_ipv6net_new C a l = (if unat l \<le> 128 then Some (Ipv6Net a l) else None))
   \<and> (\<forall>a l. unat l \<le> 32 \<longrightarrow> c_ipv4net_trunc C (Ipv4Net a l) = Ipv4Net (a AND netmask4 l) l)
   \<and> (\<forall>a l. unat l \<le> 128 \<longrightarrow> c_ipv6net_trunc C (Ipv6Net a l) = Ipv6Net (a AND netmask6 l) l)"

definition ipnet_display_ok :: "crates \<Rightarrow> bool" where
  "ipnet_display_ok C \<longleftrightarrow>
     (\<forall>a l. c_ipv4net_display C (Ipv4Net a l) = show_ipv4 a @ ''/'' @ show_nat (unat l))
   \<and> (\<forall>a l. c_ipv6net_display C (Ipv6Net a l) = show_ipv6 a @ ''/'' @ show_nat (unat l))"

definition chrono_ok :: "crates \<Rightarrow> bool" where
  "chrono_ok C \<longleftrightarrow>
     (\<forall>s n. unat n < 1000000000 \<longrightarrow>
        c_timestamp_opt C s n = Some (uint s * 1000000000 + uint n))
   \<and> (\<forall>d. c_num_seconds C d = sgn d * (\<bar>d\<bar> div 1000000000))"

definition doc_crates :: crates where
  "doc_crates = \<lparr>
     c_get_u8 = (\<lambda>buf. if length buf < 1 then None else Some (from_be (take 1 buf), drop 1 buf)),
     c_get_u16 = (\<lambda>buf. if length buf < 2 then None else Some (from_be (take 2 buf), drop 2 buf)),
     c_get_u32 = (\<lambda>buf. if length buf < 4 then None else Some (from_be (take 4 buf), drop 4 buf)),
     c_copy_to_bytes = (\<lambda>n buf. if length buf < n then None else Some (take n buf, drop n buf)),
     c_ipv4net_new = (\<lambda>a l. if unat l \<le> 32 then Some (Ipv4Net a l) else None),
     c_ipv6net_new = (\<lambda>a l. if unat l \<le> 128 then Some (Ipv6Net a l) else None),
     c_ipv4net_trunc = (\<lambda>n. Ipv4Net (net4_addr n AND netmask4 (net4_len n)) (net4_len n)),
     c_ipv6net_trunc = (\<lambda>n. Ipv6Net (net6_addr n AND netmask6 (net6_len n)) (net6_len n)),
     c_ipv4net_display = (\<lambda>n. show_ipv4 (net4_addr n) @ ''/'' @ show_nat (unat (net4_len n))),
     c_ipv6net_display = (\<lambda>n. show_ipv6 (net6_addr n) @ ''/'' @ show_nat (unat (net6_len n))),
     c_timestamp_opt = (\<lambda>s n. if unat n < 1000000000
                              then Some (uint s * 1000000000 + uint n) else None),
     c_num_seconds = (\<lambda>d. sgn d * (\<bar>d\<bar> div 1000000000)) \<rparr>"

subsection \<open>Lemmas\<close>

lemma call_simps [simp]: "call None = Panic" "call (Some x) = Ok x"
  by (simp_all add: call_def)

lemma call_not_Err [simp]: "call r \<noteq> Err e" "call r \<noteq> Diverge"
  by (cases r; simp)+

lemma call_eq_Ok [simp]: "call r = Ok x \<longleftrightarrow> r = Some x"
  by (cases r) simp_all

lemma bytes_ok_doc [simp]: "bytes_ok doc_crates"
  by (simp add: bytes_ok_def doc_crates_def)

lemma ipnet_ok_doc [simp]: "ipnet_ok doc_crates"
  by (simp add: ipnet_ok_def doc_crates_def)

lemma ipnet_display_ok_doc [simp]: "ipnet_display_ok doc_crates"
  by (simp add: ipnet_display_ok_def doc_crates_def)

lemma chrono_ok_doc [simp]: "chrono_ok doc_crates"
  by (simp add: chrono_ok_def doc_crates_def)

lemma sat_get_u8:
  "bytes_ok C \<Longrightarrow> sat (buf_get_u8 C buf) Q \<longleftrightarrow>
     1 \<le> length buf \<and> Q (from_be (take 1 buf), drop 1 buf)"
  by (cases buf) (auto simp: bytes_ok_def)

lemma sat_get_u16:
  "bytes_ok C \<Longrightarrow> sat (buf_get_u16 C buf) Q \<longleftrightarrow>
     2 \<le> length buf \<and> Q (from_be (take 2 buf), drop 2 buf)"
  by (auto simp: bytes_ok_def)

lemma sat_get_u32:
  "bytes_ok C \<Longrightarrow> sat (buf_get_u32 C buf) Q \<longleftrightarrow>
     4 \<le> length buf \<and> Q (from_be (take 4 buf), drop 4 buf)"
  by (auto simp: bytes_ok_def)

lemma sat_copy_to_bytes:
  "bytes_ok C \<Longrightarrow> sat (buf_copy_to_bytes C n buf) Q \<longleftrightarrow>
     n \<le> length buf \<and> Q (take n buf, drop n buf)"
  by (auto simp: bytes_ok_def)

lemmas sat_buf = sat_get_u8 sat_get_u16 sat_get_u32 sat_copy_to_bytes

lemma stops_buf:
  assumes "bytes_ok C"
  shows "stops (buf_get_u8 C buf) P \<longleftrightarrow> (1 \<le> length buf \<longrightarrow> P (from_be (take 1 buf), drop 1 buf))"
    and "stops (buf_get_u16 C buf) P2 \<longleftrightarrow> (2 \<le> length buf \<longrightarrow> P2 (from_be (take 2 buf), drop 2 buf))"
    and "stops (buf_get_u32 C buf) P4 \<longleftrightarrow> (4 \<le> length buf \<longrightarrow> P4 (from_be (take 4 buf), drop 4 buf))"
    and "stops (buf_copy_to_bytes C n buf) R \<longleftrightarrow> (n \<le> length buf \<longrightarrow> R (take n buf, drop n buf))"
  using assms by (auto simp: bytes_ok_def not_less Suc_le_eq)

lemma get_u8_Cons: "bytes_ok C \<Longrightarrow> c_get_u8 C (b # bs) = Some (b, bs)"
  by (simp add: bytes_ok_def from_be_def be_nat_def)

lemma get_u16_eq: "bytes_ok C \<Longrightarrow> 2 \<le> length buf \<Longrightarrow> c_get_u16 C buf = Some (from_be (take 2 buf), drop 2 buf)"
  by (simp add: bytes_ok_def)

lemma get_u32_eq: "bytes_ok C \<Longrightarrow> 4 \<le> length buf \<Longrightarrow> c_get_u32 C buf = Some (from_be (take 4 buf), drop 4 buf)"
  by (simp add: bytes_ok_def)

lemma copy_to_bytes_eq: "bytes_ok C \<Longrightarrow> n \<le> length buf \<Longrightarrow> c_copy_to_bytes C n buf = Some (take n buf, drop n buf)"
  by (simp add: bytes_ok_def)

lemma ipv4net_new_eq:
  "ipnet_ok C \<Longrightarrow> c_ipv4net_new C a l = (if unat l \<le> 32 then Some (Ipv4Net a l) else None)"
  by (simp add: ipnet_ok_def)

lemma ipv6net_new_eq:
  "ipnet_ok C \<Longrightarrow> c_ipv6net_new C a l = (if unat l \<le> 128 then Some (Ipv6Net a l) else None)"
  by (simp add: ipnet_ok_def)

lemma ipv4net_trunc_eq:
  "ipnet_ok C \<Longrightarrow> unat l \<le> 32 \<Longrightarrow> c_ipv4net_trunc C (Ipv4Net a l) = Ipv4Net (a AND netmask4 l) l"
  by (simp add: ipnet_ok_def)

lemma ipv6net_trunc_eq:
  "ipnet_ok C \<Longrightarrow> unat l \<le> 128 \<Longrightarrow> c_ipv6net_trunc C (Ipv6Net a l) = Ipv6Net (a AND netmask6 l) l"
  by (simp add: ipnet_ok_def)

lemmas ipnet_eqs = ipv4net_new_eq ipv6net_new_eq ipv4net_trunc_eq ipv6net_trunc_eq

lemma buf_Some:
  assumes "bytes_ok C"
  shows "c_get_u8 C buf = Some p \<longleftrightarrow> 1 \<le> length buf \<and> p = (from_be (take 1 buf), drop 1 buf)"
    and "c_get_u16 C buf = Some q \<longleftrightarrow> 2 \<le> length buf \<and> q = (from_be (take 2 buf), drop 2 buf)"
    and "c_get_u32 C buf = Some r \<longleftrightarrow> 4 \<le> length buf \<and> r = (from_be (take 4 buf), drop 4 buf)"
    and "c_copy_to_bytes C n buf = Some s \<longleftrightarrow> n \<le> length buf \<and> s = (take n buf, drop n buf)"
  using assms by (auto simp: bytes_ok_def not_less Suc_le_eq)

lemma timestamp_opt_eq:
  "chrono_ok C \<Longrightarrow> unat n < 1000000000 \<Longrightarrow> c_timestamp_opt C s n = Some (uint s * 1000000000 + uint n)"
  unfolding chrono_ok_def by blast

end
