(* ===== verification/Bgp_Types.thy ===== *)
theory Bgp_Types
  imports Crates
begin

text \<open>
  \<^verbatim>\<open>rbmp-core/src/error.rs\<close> and the protocol vocabulary of
  \<^verbatim>\<open>rbmp-core/src/bgp/types.rs\<close>: address families, prefixes, route distinguishers, AS paths,
  communities, ORIGIN, capabilities and the BGP-LS NLRI types, with their accessors and
  \<^verbatim>\<open>Display\<close> forms.  A fixed-size array \<^verbatim>\<open>[u8; n]\<close> is a list of bytes; the decoders
  are proved to build lists of length \<open>n\<close>.  \<^verbatim>\<open>SmallVec\<close> and \<^verbatim>\<open>Box\<close> are transparent.

  Results: numbering of AFI/SAFI is lossless (\<open>afi_as_u16_from\<close>, \<open>safi_as_u8_from\<close>),
  community construction is lossless, the AS path predicates mean what they are named after, and
  the well-formedness of prefixes (\<open>prefix_wf\<close>) is what makes their text form computable.
\<close>

unbundle bit_operations_syntax

subsection \<open>Errors (error.rs)\<close>

datatype io_kind = IoUnexpectedEof | IoOther

datatype error =
    BmpParse string
  | BgpParse string
  | UnexpectedEof (needed: nat) (have_bytes: nat)
  | InvalidBmpVersion u8
  | InvalidMessageType u8
  | FrameTooLarge u32 u32
  | InvalidBgpMarker
  | InvalidBgpMessageType u8
  | InvalidAfi u16
  | InvalidSafi u8
  | InvalidPrefixLen (err_prefix_len: u8) (err_afi: u16)
  | TruncatedAttribute (attr_type: u8) (declared: nat) (available: nat)
  | Io io_kind

type_synonym 'a result = "(error, 'a) outcome"

subsection \<open>LLGR state\<close>

datatype llgr_state = Normal | StaleMarked | Deleted

subsection \<open>AFI and SAFI\<close>

datatype afi = Afi_Ipv4 | Afi_Ipv6 | Afi_L2Vpn | Afi_BgpLs | Afi_Unknown u16

definition afi_from :: "u16 \<Rightarrow> afi" where
  "afi_from v =
     (if v = 1 then Afi_Ipv4 else if v = 2 then Afi_Ipv6 else if v = 25 then Afi_L2Vpn
      else if v = 16388 then Afi_BgpLs else Afi_Unknown v)"

datatype safi =
    Safi_Unicast | Safi_Multicast | Safi_MplsVpnMulticast | Safi_LabeledUnicast | Safi_MplsVpn
  | Safi_Evpn | Safi_BgpLs | Safi_BgpLsSrv6 | Safi_SrPolicy | Safi_Flowspec | Safi_FlowspecVpn
  | Safi_Vpls | Safi_RouteTargetConstraint | Safi_McastVpn | Safi_Unknown u8

definition safi_from :: "u8 \<Rightarrow> safi" where
  "safi_from v =
     (if v = 1 then Safi_Unicast else if v = 2 then Safi_Multicast
      else if v = 4 then Safi_LabeledUnicast else if v = 5 then Safi_MplsVpnMulticast
      else if v = 65 then Safi_Vpls else if v = 70 then Safi_Evpn else if v = 71 then Safi_BgpLs
      else if v = 72 then Safi_BgpLsSrv6 else if v = 73 then Safi_SrPolicy
      else if v = 128 then Safi_MplsVpn else if v = 129 then Safi_McastVpn
      else if v = 132 then Safi_RouteTargetConstraint else if v = 133 then Safi_Flowspec
      else if v = 134 then Safi_FlowspecVpn else Safi_Unknown v)"

datatype afi_safi = AfiSafi (afi_of: afi) (safi_of: safi)

definition afi_safi_new :: "u16 \<Rightarrow> u8 \<Rightarrow> afi_safi" where
  "afi_safi_new a s = AfiSafi (afi_from a) (safi_from s)"

fun afi_as_u16 :: "afi \<Rightarrow> u16" where
  "afi_as_u16 Afi_Ipv4 = 1"
| "afi_as_u16 Afi_Ipv6 = 2"
| "afi_as_u16 Afi_L2Vpn = 25"
| "afi_as_u16 Afi_BgpLs = 16388"
| "afi_as_u16 (Afi_Unknown v) = v"

fun safi_as_u8 :: "safi \<Rightarrow> u8" where
  "safi_as_u8 Safi_Unicast = 1"
| "safi_as_u8 Safi_Multicast = 2"
| "safi_as_u8 Safi_LabeledUnicast = 4"
| "safi_as_u8 Safi_MplsVpnMulticast = 5"
| "safi_as_u8 Safi_Vpls = 65"
| "safi_as_u8 Safi_Evpn = 70"
| "safi_as_u8 Safi_BgpLs = 71"
| "safi_as_u8 Safi_BgpLsSrv6 = 72"
| "safi_as_u8 Safi_SrPolicy = 73"
| "safi_as_u8 Safi_MplsVpn = 128"
| "safi_as_u8 Safi_McastVpn = 129"
| "safi_as_u8 Safi_RouteTargetConstraint = 132"
| "safi_as_u8 Safi_Flowspec = 133"
| "safi_as_u8 Safi_FlowspecVpn = 134"
| "safi_as_u8 (Safi_Unknown v) = v"

fun show_afi_safi :: "afi_safi \<Rightarrow> string" where
  "show_afi_safi (AfiSafi Afi_Ipv4 Safi_Unicast) = ''ipv4-unicast''"
| "show_afi_safi (AfiSafi Afi_Ipv6 Safi_Unicast) = ''ipv6-unicast''"
| "show_afi_safi (AfiSafi Afi_Ipv4 Safi_Multicast) = ''ipv4-multicast''"
| "show_afi_safi (AfiSafi Afi_Ipv6 Safi_Multicast) = ''ipv6-multicast''"
| "show_afi_safi (AfiSafi Afi_Ipv4 Safi_LabeledUnicast) = ''ipv4-labeled-unicast''"
| "show_afi_safi (AfiSafi Afi_Ipv6 Safi_LabeledUnicast) = ''ipv6-labeled-unicast''"
| "show_afi_safi (AfiSafi Afi_Ipv4 Safi_MplsVpn) = ''ipv4-vpn''"
| "show_afi_safi (AfiSafi Afi_Ipv6 Safi_MplsVpn) = ''ipv6-vpn''"
| "show_afi_safi (AfiSafi Afi_L2Vpn Safi_Evpn) = ''l2vpn-evpn''"
| "show_afi_safi (AfiSafi Afi_Ipv4 Safi_Flowspec) = ''ipv4-flowspec''"
| "show_afi_safi (AfiSafi Afi_Ipv6 Safi_Flowspec) = ''ipv6-flowspec''"
| "show_afi_safi (AfiSafi a s) =
     ''afi'' @ show_nat (unat (afi_as_u16 a)) @ ''-safi'' @ show_nat (unat (safi_as_u8 s))"

subsection \<open>Route distinguishers and prefixes\<close>

text \<open>A field of a fixed-size array: \<open>n\<close> bytes at offset \<open>i\<close>, big-endian.\<close>

definition be_field :: "nat \<Rightarrow> bytes \<Rightarrow> nat \<Rightarrow> 'a::len word" where
  "be_field n xs i = from_be (take n (drop i xs))"

definition hex_encode :: "bytes \<Rightarrow> string" where
  "hex_encode bs = concat (map show_hex2 bs)"

datatype route_distinguisher = RouteDistinguisher (rd_bytes: bytes)

definition rd_type :: "route_distinguisher \<Rightarrow> u16" where
  "rd_type rd = be_field 2 (rd_bytes rd) 0"

definition rd_is_zero :: "route_distinguisher \<Rightarrow> bool" where
  "rd_is_zero rd \<longleftrightarrow> rd_bytes rd = replicate 8 0"

definition show_rd :: "route_distinguisher \<Rightarrow> string" where
  "show_rd rd =
     (let b = rd_bytes rd in
      if rd_type rd = 0 then
        show_nat (unat (be_field 2 b 2 :: u16)) @ '':'' @ show_nat (unat (be_field 4 b 4 :: u32))
      else if rd_type rd = 1 then
        show_ipv4 (be_field 4 b 2) @ '':'' @ show_nat (unat (be_field 2 b 6 :: u16))
      else if rd_type rd = 2 then
        show_nat (unat (be_field 4 b 2 :: u32)) @ '':'' @ show_nat (unat (be_field 2 b 6 :: u16))
      else ''0x'' @ hex_encode b)"

datatype prefix =
    Prefix_V4 ipv4net
  | Prefix_V6 ipv6net
  | Prefix_Labeled prefix "u32 list"
  | Prefix_Vpn route_distinguisher prefix "u32 list"

fun addr_family :: "prefix \<Rightarrow> afi" where
  "addr_family (Prefix_V4 n) = Afi_Ipv4"
| "addr_family (Prefix_V6 n) = Afi_Ipv6"
| "addr_family (Prefix_Labeled p labels) = addr_family p"
| "addr_family (Prefix_Vpn rd p labels) = addr_family p"

text \<open>The \<^verbatim>\<open>Display\<close> form indexes \<^verbatim>\<open>labels[0]\<close>, which panics on an empty stack.\<close>

fun show_prefix :: "crates \<Rightarrow> prefix \<Rightarrow> ('e, string) outcome" where
  "show_prefix C (Prefix_V4 n) = Ok (c_ipv4net_display C n)"
| "show_prefix C (Prefix_V6 n) = Ok (c_ipv6net_display C n)"
| "show_prefix C (Prefix_Labeled p labels) =
     rbind (show_prefix C p) (\<lambda>s.
     rbind (idx labels 0) (\<lambda>l.
       Ok (s @ '' label='' @ show_nat (unat l))))"
| "show_prefix C (Prefix_Vpn rd p labels) =
     rbind (show_prefix C p) (\<lambda>s.
     rbind (idx labels 0) (\<lambda>l.
       Ok (show_rd rd @ '':'' @ s @ '' label='' @ show_nat (unat l))))"

subsection \<open>AS paths\<close>

datatype as_path_segment =
    AS_Set "u32 list" | AS_Sequence "u32 list" | AS_ConfedSequence "u32 list" | AS_ConfedSet "u32 list"

fun seg_asns :: "as_path_segment \<Rightarrow> u32 list" where
  "seg_asns (AS_Set v) = v"
| "seg_asns (AS_Sequence v) = v"
| "seg_asns (AS_ConfedSequence v) = v"
| "seg_asns (AS_ConfedSet v) = v"

datatype as_path = AsPath (segments: "as_path_segment list")

definition hop_count :: "as_path \<Rightarrow> nat" where
  "hop_count p =
     sum_list (map (\<lambda>seg. case seg of AS_Sequence v \<Rightarrow> length v | _ \<Rightarrow> 0) (segments p))"

fun find_map :: "('a \<Rightarrow> 'b option) \<Rightarrow> 'a list \<Rightarrow> 'b option" where
  "find_map f [] = None"
| "find_map f (x # xs) = (case f x of None \<Rightarrow> find_map f xs | Some y \<Rightarrow> Some y)"

definition slice_first :: "'a list \<Rightarrow> 'a option" where
  "slice_first xs = (case xs of [] \<Rightarrow> None | x # _ \<Rightarrow> Some x)"

definition slice_last :: "'a list \<Rightarrow> 'a option" where
  "slice_last xs = (if xs = [] then None else Some (last xs))"

definition origin_asn :: "as_path \<Rightarrow> u32 option" where
  "origin_asn p =
     find_map (\<lambda>seg. case seg of AS_Sequence v \<Rightarrow> slice_last v | _ \<Rightarrow> None) (segments p)"

definition first_asn :: "as_path \<Rightarrow> u32 option" where
  "first_asn p =
     find_map (\<lambda>seg. case seg of AS_Sequence v \<Rightarrow> slice_first v | _ \<Rightarrow> None) (segments p)"

fun repeats :: "'a option \<Rightarrow> 'a list \<Rightarrow> bool" where
  "repeats prev [] = False"
| "repeats prev (asn # rest) = (if Some asn = prev then True else repeats (Some asn) rest)"

definition has_prepending :: "as_path \<Rightarrow> bool" where
  "has_prepending p =
     list_ex (\<lambda>seg. case seg of AS_Sequence v \<Rightarrow> repeats None v | _ \<Rightarrow> False) (segments p)"

fun seen_twice :: "u32 set \<Rightarrow> u32 list \<Rightarrow> bool" where
  "seen_twice seen [] = False"
| "seen_twice seen (asn # rest) =
     (if asn \<in> seen then True else seen_twice (insert asn seen) rest)"

definition has_loop :: "as_path \<Rightarrow> bool" where
  "has_loop p = seen_twice {} (concat (map seg_asns (segments p)))"

definition show_segment :: "as_path_segment \<Rightarrow> string" where
  "show_segment seg =
     (let str = (\<lambda>a :: u32. show_nat (unat a)) in
      case seg of
        AS_Sequence v \<Rightarrow> join '' '' (map str v)
      | AS_Set v \<Rightarrow> ''{'' @ join '','' (map str v) @ ''}''
      | AS_ConfedSequence v \<Rightarrow> ''('' @ join '' '' (map str v) @ '')''
      | AS_ConfedSet v \<Rightarrow> ''['' @ join '','' (map str v) @ '']'')"

definition show_as_path :: "as_path \<Rightarrow> string" where
  "show_as_path p = join '' '' (map show_segment (segments p))"

subsection \<open>Communities\<close>

datatype standard_community = StandardCommunity (comm: u32)

definition comm_new :: "u16 \<Rightarrow> u16 \<Rightarrow> standard_community" where
  "comm_new asn val = StandardCommunity (push_bit 16 (ucast asn) OR ucast val)"

definition comm_asn :: "standard_community \<Rightarrow> u16" where
  "comm_asn c = ucast (drop_bit 16 (comm c))"

definition comm_value :: "standard_community \<Rightarrow> u16" where
  "comm_value c = ucast (comm c AND 0xFFFF)"

definition comm_is_well_known :: "standard_community \<Rightarrow> bool" where
  "comm_is_well_known c \<longleftrightarrow> 0xFFFF0000 \<le> comm c"

definition comm_name :: "standard_community \<Rightarrow> string option" where
  "comm_name c =
     (if comm c = 0xFFFFFF01 then Some ''NO_EXPORT''
      else if comm c = 0xFFFFFF02 then Some ''NO_ADVERTISE''
      else if comm c = 0xFFFFFF03 then Some ''NO_EXPORT_SUBCONFED''
      else if comm c = 0xFFFF029A then Some ''BLACKHOLE''
      else if comm c = 0xFFFF0000 then Some ''GRACEFUL_SHUTDOWN''
      else if comm c = 0xFFFF0001 then Some ''ACCEPT_OWN''
      else None)"

definition comm_pair :: "standard_community \<Rightarrow> string" where
  "comm_pair c = show_nat (unat (comm_asn c)) @ '':'' @ show_nat (unat (comm_value c))"

definition show_community :: "standard_community \<Rightarrow> string" where
  "show_community c = (case comm_name c of Some name \<Rightarrow> name | None \<Rightarrow> comm_pair c)"

datatype extended_community = ExtendedCommunity (type_high: u8) (type_low: u8) (ec_value: bytes)

definition ext_from_bytes :: "bytes \<Rightarrow> extended_community" where
  "ext_from_bytes b = ExtendedCommunity (b ! 0) (b ! 1) (drop 2 b)"

definition ext_is_transitive :: "extended_community \<Rightarrow> bool" where
  "ext_is_transitive c \<longleftrightarrow> type_high c AND 0x40 = 0"

text \<open>The match is on \<^verbatim>\<open>type_high & 0x3F\<close>, so the pattern \<^verbatim>\<open>0x41\<close> of the VNI arm never
  applies; the arm's other pattern is \<open>(0x01, 0x0C)\<close>.\<close>

definition ext_kind :: "extended_community \<Rightarrow> string" where
  "ext_kind c =
     (let h = type_high c AND 0x3F; l = type_low c in
      if (h = 0 \<and> l = 2) \<or> (h = 2 \<and> l = 2) \<or> (h = 1 \<and> l = 2) then ''route-target''
      else if (h = 0 \<and> l = 3) \<or> (h = 2 \<and> l = 3) \<or> (h = 1 \<and> l = 3) then ''route-origin-soo''
      else if h = 3 \<and> l = 0x0B then ''sr-te-color''
      else if (h = 0x41 \<and> l = 0x0C) \<or> (h = 1 \<and> l = 0x0C) then ''vxlan-vni''
      else ''extended-community'')"

definition show_ext_community :: "extended_community \<Rightarrow> string" where
  "show_ext_community c =
     (let h = type_high c AND 0x3F; l = type_low c; v = ec_value c;
          as_form = (\<lambda>tag. tag @ show_nat (unat (be_field 2 v 0 :: u16)) @ '':''
                           @ show_nat (unat (be_field 4 v 2 :: u32)));
          ip_form = (\<lambda>tag. tag @ show_ipv4 (be_field 4 v 0) @ '':''
                           @ show_nat (unat (be_field 2 v 4 :: u16)))
      in if (h = 0 \<and> l = 2) \<or> (h = 2 \<and> l = 2) then as_form ''rt:''
         else if h = 1 \<and> l = 2 then ip_form ''rt:''
         else if (h = 0 \<and> l = 3) \<or> (h = 2 \<and> l = 3) then as_form ''soo:''
         else if h = 1 \<and> l = 3 then ip_form ''soo:''
         else if h = 3 \<and> l = 0x0B then ''color:'' @ show_nat (unat (be_field 4 v 2 :: u32))
         else if (h = 0x41 \<and> l = 0x0C) \<or> (h = 1 \<and> l = 0x0C)
              then ''vni:'' @ show_nat (unat (be_field 3 v 3 :: u32))
         else ''ext:0x'' @ show_hex2 (type_high c) @ show_hex2 (type_low c) @ '':'' @ hex_encode v)"

datatype large_community =
  LargeCommunity (global_admin: u32) (local_data_1: u32) (local_data_2: u32)

definition show_large_community :: "large_community \<Rightarrow> string" where
  "show_large_community c =
     show_nat (unat (global_admin c)) @ '':'' @ show_nat (unat (local_data_1 c)) @ '':''
     @ show_nat (unat (local_data_2 c))"

subsection \<open>ORIGIN\<close>

datatype origin = Igp | Egp | Incomplete

definition origin_try_from :: "u8 \<Rightarrow> origin result" where
  "origin_try_from v =
     (if v = 0 then Ok Igp else if v = 1 then Ok Egp else if v = 2 then Ok Incomplete
      else Err (BgpParse (''invalid ORIGIN value '' @ show_nat (unat v))))"

fun show_origin :: "origin \<Rightarrow> string" where
  "show_origin Igp = ''IGP''"
| "show_origin Egp = ''EGP''"
| "show_origin Incomplete = ''INCOMPLETE''"

subsection \<open>Capabilities\<close>

datatype bgp_capability =
    Multiprotocol afi_safi
  | RouteRefresh
  | ExtendedNextHop afi safi afi
  | ExtendedMessage
  | BgpRole u8
  | GracefulRestart u16 "(afi_safi \<times> u8) list"
  | FourByteAsn u32
  | AddPath "(afi_safi \<times> u8) list"
  | EnhancedRouteRefresh
  | LongLivedGracefulRestart bytes
  | Fqdn string string
  | Cap_Unknown u8 bytes

fun cap_code :: "bgp_capability \<Rightarrow> u8" where
  "cap_code (Multiprotocol a) = 1"
| "cap_code RouteRefresh = 2"
| "cap_code (ExtendedNextHop a s n) = 5"
| "cap_code ExtendedMessage = 6"
| "cap_code (BgpRole r) = 9"
| "cap_code (GracefulRestart t es) = 64"
| "cap_code (FourByteAsn a) = 65"
| "cap_code (AddPath es) = 69"
| "cap_code EnhancedRouteRefresh = 70"
| "cap_code (LongLivedGracefulRestart es) = 71"
| "cap_code (Fqdn h d) = 73"
| "cap_code (Cap_Unknown code d) = code"

subsection \<open>Prefix-SID, tunnel encapsulation and BGP-LS vocabulary\<close>

datatype srv6_sub_sub_tlv =
  Srv6SubSubTlv (tlv_sid: bytes) (sid_flags: u8) (endpoint_behavior: u16)

datatype srv6_l3_service = Srv6L3Service (sub_sub_tlvs: "srv6_sub_sub_tlv list")

record prefix_sid_attr =
  label_index :: "u32 option"
  originator_srgb :: "(u16 \<times> (u32 \<times> u32) list) option"
  srv6_l3_service :: "srv6_l3_service option"
  raw_tlvs :: "(u8 \<times> bytes) list"

record tunnel_encap_entry =
  tunnel_type :: u16
  te_type_name :: string
  te_endpoint :: "ip_addr option"
  te_color :: "u32 option"

definition tunnel_type_name :: "u16 \<Rightarrow> string" where
  "tunnel_type_name t =
     (if t = 1 then ''l2tpv3-over-ip'' else if t = 2 then ''gre''
      else if t = 3 then ''transmit-tunnel-endpoint'' else if t = 4 then ''ipsec-in-tunnel-mode''
      else if t = 5 then ''ip-in-ip-with-ipsec'' else if t = 6 then ''mpls-in-ip-with-ipsec''
      else if t = 7 then ''ip-in-ip'' else if t = 8 then ''vxlan'' else if t = 9 then ''nvgre''
      else if t = 10 then ''mpls'' else if t = 11 then ''mpls-in-gre''
      else if t = 12 then ''vxlan-gpe'' else if t = 13 then ''mpls-in-udp''
      else if t = 14 then ''ipv6-tunnel'' else if t = 15 then ''sr-mpls''
      else if t = 16 then ''geneve'' else if t = 17 then ''endpoint'' else if t = 23 then ''srv6''
      else ''unknown'')"

datatype raw_attribute = RawAttribute (raw_flags: u8) (raw_type_code: u8) (raw_value: bytes)

datatype bgpls_nlri_type =
    Ls_Node | Ls_Link | Ls_Ipv4Prefix | Ls_Ipv6Prefix | Ls_Srv6Sid | Ls_Unknown u16

definition bgpls_nlri_type_from :: "u16 \<Rightarrow> bgpls_nlri_type" where
  "bgpls_nlri_type_from v =
     (if v = 1 then Ls_Node else if v = 2 then Ls_Link else if v = 3 then Ls_Ipv4Prefix
      else if v = 4 then Ls_Ipv6Prefix else if v = 6 then Ls_Srv6Sid else Ls_Unknown v)"

datatype bgpls_protocol =
    IsIsLevel1 | IsIsLevel2 | Ospfv2 | Proto_Direct | StaticConfig | Ospfv3 | Proto_Unknown u8

definition bgpls_protocol_from :: "u8 \<Rightarrow> bgpls_protocol" where
  "bgpls_protocol_from v =
     (if v = 1 then IsIsLevel1 else if v = 2 then IsIsLevel2 else if v = 3 then Ospfv2
      else if v = 4 then Proto_Direct else if v = 5 then StaticConfig else if v = 6 then Ospfv3
      else Proto_Unknown v)"

datatype router_id = RouterId (router_id_bytes: bytes)

definition show_router_id :: "router_id \<Rightarrow> string" where
  "show_router_id r =
     (let b = router_id_bytes r in
      if length b = 4 then join ''.'' (map (\<lambda>x. show_nat (unat x)) b)
      else join '':'' (map show_hex2 b))"

record node_descriptor =
  nd_asn :: "u32 option"
  nd_bgp_ls_id :: "u32 option"
  nd_ospf_area :: "u32 option"
  nd_igp_router :: "router_id option"

definition node_descriptor_default :: node_descriptor where
  "node_descriptor_default =
     \<lparr>nd_asn = None, nd_bgp_ls_id = None, nd_ospf_area = None, nd_igp_router = None\<rparr>"

record link_descriptor =
  ld_local_addr :: "ip_addr option"
  ld_remote_addr :: "ip_addr option"
  ld_local_id :: "u32 option"
  ld_remote_id :: "u32 option"

definition link_descriptor_default :: link_descriptor where
  "link_descriptor_default =
     \<lparr>ld_local_addr = None, ld_remote_addr = None, ld_local_id = None, ld_remote_id = None\<rparr>"

record srv6_sid_nlri =
  ss_protocol_id :: u8
  ss_identifier :: u64
  ss_local_node :: node_descriptor
  srv6_sid :: bytes
  ss_endpoint_behavior :: "u16 option"
  sid_structure :: "(u8 \<times> u8 \<times> u8 \<times> u8) option"

definition behavior_name :: "u16 \<Rightarrow> string" where
  "behavior_name b =
     (if b = 1 then ''End'' else if b = 2 then ''End.X'' else if b = 3 then ''End.T''
      else if b = 4 then ''End.DX6'' else if b = 5 then ''End.DX4'' else if b = 6 then ''End.DT6''
      else if b = 7 then ''End.DT46'' else if b = 8 then ''End.DT4''
      else if b = 9 then ''End.B6.Encaps'' else if b = 10 then ''End.BM''
      else if b = 0x41 then ''End.X (PSP)'' else if b = 0x48 then ''End.OP''
      else if b = 0x49 then ''End.Otp'' else ''Unknown'')"

definition sid_string :: "srv6_sid_nlri \<Rightarrow> string" where
  "sid_string n =
     join '':'' (map (\<lambda>i. show_hex2 (srv6_sid n ! (2 * i)) @ show_hex2 (srv6_sid n ! (2 * i + 1))) [0..<8])"

datatype bgpls_nlri =
    LsNlri_Node bgpls_protocol u64 node_descriptor
  | LsNlri_Link bgpls_protocol u64 node_descriptor node_descriptor link_descriptor
  | LsNlri_Prefix bgpls_protocol u64 node_descriptor prefix
  | LsNlri_Srv6Sid srv6_sid_nlri
  | LsNlri_Unknown u16 bytes

record bgpls_reach_nlri =
  lr_next_hop :: "ip_addr option"
  lr_nlris :: "bgpls_nlri list"

record bgpls_unreach_nlri =
  lu_nlris :: "bgpls_nlri list"

record vpls_nlri =
  vpls_rd :: bytes
  ve_id :: u16
  ve_block_offset :: u16
  ve_block_size :: u16
  label_base :: u32

record mp_reach_nlri =
  mr_afi_safi :: afi_safi
  mr_next_hops :: "ip_addr list"
  mr_prefixes :: "prefix list"

record mp_unreach_nlri =
  mu_afi_safi :: afi_safi
  mu_prefixes :: "prefix list"

subsection \<open>Well-formed prefixes\<close>

text \<open>What the decoders build: networks with a valid length and no host bits, and wrapped prefixes
  that carry at least one label and, for VPN, an 8-byte route distinguisher.\<close>

fun prefix_wf :: "prefix \<Rightarrow> bool" where
  "prefix_wf (Prefix_V4 n) \<longleftrightarrow> unat (net4_len n) \<le> 32 \<and> net4_addr n AND netmask4 (net4_len n) = net4_addr n"
| "prefix_wf (Prefix_V6 n) \<longleftrightarrow> unat (net6_len n) \<le> 128 \<and> net6_addr n AND netmask6 (net6_len n) = net6_addr n"
| "prefix_wf (Prefix_Labeled p labels) \<longleftrightarrow> prefix_wf p \<and> labels \<noteq> []"
| "prefix_wf (Prefix_Vpn rd p labels) \<longleftrightarrow> prefix_wf p \<and> labels \<noteq> [] \<and> length (rd_bytes rd) = 8"

subsection \<open>Lemmas\<close>

lemma afi_as_u16_from [simp]: "afi_as_u16 (afi_from v) = v"
  by (simp add: afi_from_def)

lemma safi_as_u8_from [simp]: "safi_as_u8 (safi_from v) = v"
  by (simp add: safi_from_def)

lemma afi_safi_new_inject: "afi_safi_new a s = afi_safi_new b t \<longleftrightarrow> a = b \<and> s = t"
  by (metis afi_as_u16_from afi_safi.inject afi_safi_new_def safi_as_u8_from)

lemma mask_16: "(0xFFFF :: u32) = mask 16"
  by (simp add: mask_eq_exp_minus_1)

lemma comm_asn_new: "comm_asn (comm_new a v) = a"
  by (rule bit_word_eqI) (auto simp: comm_asn_def comm_new_def bit_simps dest: bit_imp_le_length)

lemma comm_value_new: "comm_value (comm_new a v) = v"
  by (rule bit_word_eqI) (auto simp: comm_value_def comm_new_def mask_16 bit_simps)

lemma comm_new_parts: "comm_new (comm_asn c) (comm_value c) = c"
proof (cases c)
  case (StandardCommunity w)
  have "push_bit 16 (ucast (ucast (drop_bit 16 w) :: u16)) OR ucast (ucast (w AND 0xFFFF) :: u16) = w"
    by (rule bit_word_eqI) (auto simp: mask_16 bit_simps)
  with StandardCommunity show ?thesis by (simp add: comm_new_def comm_asn_def comm_value_def)
qed

lemma ex_nat_Suc: "(\<exists>i::nat. P i) \<longleftrightarrow> P 0 \<or> (\<exists>i. P (Suc i))"
  by (metis not0_implies_Suc)

lemma repeats_iff:
  "repeats prev xs \<longleftrightarrow> (xs \<noteq> [] \<and> prev = Some (hd xs)) \<or> (\<exists>i. Suc i < length xs \<and> xs ! i = xs ! Suc i)"
proof (induction prev xs rule: repeats.induct)
  case (1 prev)
  then show ?case by simp
next
  case (2 prev asn rest)
  have "(\<exists>i. Suc i < length (asn # rest) \<and> (asn # rest) ! i = (asn # rest) ! Suc i) \<longleftrightarrow>
      (rest \<noteq> [] \<and> asn = hd rest) \<or> (\<exists>i. Suc i < length rest \<and> rest ! i = rest ! Suc i)"
    by (subst ex_nat_Suc) (auto simp: hd_conv_nth)
  with 2 show ?case by auto
qed

lemma seen_twice_iff: "seen_twice seen xs \<longleftrightarrow> \<not> distinct xs \<or> (\<exists>x \<in> set xs. x \<in> seen)"
  by (induction seen xs rule: seen_twice.induct) auto

lemma has_loop_iff: "has_loop p \<longleftrightarrow> \<not> distinct (concat (map seg_asns (segments p)))"
  by (simp add: has_loop_def seen_twice_iff)

lemma show_prefix_sat: "prefix_wf p \<Longrightarrow> sat (show_prefix C p) (\<lambda>_. True)"
  by (induction p) auto

end
