(* ===== verification/As_Path.thy ===== *)
theory As_Path
  imports Bgp_Types
begin

text \<open>
  The AS_PATH parser of \<^verbatim>\<open>rbmp-core/src/bgp/attributes.rs\<close>.  AS_PATH carries no indication of
  the size of its AS numbers; \<^verbatim>\<open>parse_as_path\<close> tries two bytes first and falls back to four.
  Both sizes are proved to invert the wire form, and a two-byte path is always read back as it was
  written; a four-byte path is not: one that happens to parse as two-byte segments is misread.
\<close>

definition as_segment :: "u8 \<Rightarrow> u32 list \<Rightarrow> as_path_segment result" where
  "as_segment seg_type asns =
     (if seg_type = 1 then Ok (AS_Set asns)
      else if seg_type = 2 then Ok (AS_Sequence asns)
      else if seg_type = 3 then Ok (AS_ConfedSequence asns)
      else if seg_type = 4 then Ok (AS_ConfedSet asns)
      else Err (BgpParse (''unknown AS_PATH segment type '' @ show_nat (unat seg_type))))"

definition asn_at :: "bytes \<Rightarrow> nat \<Rightarrow> nat \<Rightarrow> u32 result" where
  "asn_at buf asn_size i =
     (if asn_size = 4 then u32_at buf (i * 4) else rbind (u16_at buf (i * 2)) (\<lambda>v. Ok (ucast v)))"

definition as_path_step :: "nat \<Rightarrow> bytes \<times> as_path_segment list \<Rightarrow> (bytes \<times> as_path_segment list) ctl result" where
  "as_path_step asn_size st =
     (case st of (buf, segs) \<Rightarrow>
        rbind (idx buf 0) (\<lambda>seg_type.
        rbind (len8_at buf 1) (\<lambda>seg_len.
        rbind (slice_from buf 2) (\<lambda>buf.
        let needed = seg_len * asn_size in
        if length buf < needed then Err (UnexpectedEof needed (length buf))
        else rbind (rmap (asn_at buf asn_size) [0..<seg_len]) (\<lambda>asns.
             rbind (slice_from buf needed) (\<lambda>buf.
             rbind (as_segment seg_type asns) (\<lambda>seg.
               Ok (Cont (buf, segs @ [seg])))))))))"

definition parse_as_path_with_asn_size :: "bytes \<Rightarrow> nat \<Rightarrow> as_path result" where
  "parse_as_path_with_asn_size buf asn_size =
     rbind (rwhile (\<lambda>(buf, segs). length buf \<ge> 2) (as_path_step asn_size) (buf, []))
       (\<lambda>(buf, segs). Ok (AsPath segs))"

definition parse_as_path :: "bytes \<Rightarrow> bool \<Rightarrow> as_path result" where
  "parse_as_path buf four_byte =
     (if four_byte then parse_as_path_with_asn_size buf 4
      else case parse_as_path_with_asn_size buf 2 of
             Ok path \<Rightarrow> Ok path
           | Err original_err \<Rightarrow>
               (case parse_as_path_with_asn_size buf 4 of Err e \<Rightarrow> Err original_err | r \<Rightarrow> r)
           | Panic \<Rightarrow> Panic
           | Diverge \<Rightarrow> Diverge)"

subsection \<open>No panic\<close>

lemma as_segment_sat: "sat (as_segment t asns) (\<lambda>seg. seg_asns seg = asns)"
  by (simp add: as_segment_def)

lemma asn_at_sat: "sz \<in> {2, 4} \<Longrightarrow> i < n \<Longrightarrow> n * sz \<le> length buf \<Longrightarrow> sat (asn_at buf sz i) (\<lambda>_. True)"
  by (auto simp: asn_at_def)

lemma parse_as_path_with_asn_size_sat:
  assumes "sz \<in> {2, 4}"
  shows "sat (parse_as_path_with_asn_size buf sz) (\<lambda>_. True)"
proof -
  have asns: "sat (rmap (asn_at b sz) [0..<n]) (\<lambda>asns. length asns = n)" if "n * sz \<le> length b" for b n
    using rmap_sat [of "[0..<n]" "asn_at b sz" "\<lambda>_. True"] asn_at_sat [OF assms _ that]
    by (auto elim!: sat_weaken)
  have "sat (rwhile (\<lambda>(buf, segs). length buf \<ge> 2) (as_path_step sz) (buf, [])) (\<lambda>_. True)"
    by (rule rwhile_sat [where I = "\<lambda>_. True" and \<mu> = "\<lambda>(buf, s). length buf"])
      (auto simp: as_path_step_def Let_def intro!: sat_weaken [OF asns] sat_weaken [OF as_segment_sat])
  then show ?thesis by (simp add: parse_as_path_with_asn_size_def split_def)
qed

lemma parse_as_path_sat: "sat (parse_as_path buf four_byte) (\<lambda>_. True)"
  using parse_as_path_with_asn_size_sat [of 2 buf] parse_as_path_with_asn_size_sat [of 4 buf]
  by (cases "parse_as_path_with_asn_size buf 2"; cases "parse_as_path_with_asn_size buf 4")
    (auto simp: parse_as_path_def)

subsection \<open>Wire form\<close>

fun seg_code :: "as_path_segment \<Rightarrow> u8" where
  "seg_code (AS_Set v) = 1"
| "seg_code (AS_Sequence v) = 2"
| "seg_code (AS_ConfedSequence v) = 3"
| "seg_code (AS_ConfedSet v) = 4"

definition encode_segment :: "nat \<Rightarrow> as_path_segment \<Rightarrow> bytes" where
  "encode_segment sz seg =
     seg_code seg # word_of_nat (length (seg_asns seg))
     # concat (map (\<lambda>a. to_be sz (unat a)) (seg_asns seg))"

definition encode_as_path :: "nat \<Rightarrow> as_path \<Rightarrow> bytes" where
  "encode_as_path sz p = concat (map (encode_segment sz) (segments p))"

definition as_path_encodable :: "nat \<Rightarrow> as_path \<Rightarrow> bool" where
  "as_path_encodable sz p \<longleftrightarrow>
     (\<forall>seg \<in> set (segments p). length (seg_asns seg) < 256
        \<and> (\<forall>a \<in> set (seg_asns seg). unat a < 256 ^ sz))"

lemma as_segment_code: "as_segment (seg_code seg) (seg_asns seg) = Ok seg"
  by (cases seg) (simp_all add: as_segment_def)

lemma take_concat_fixed:
  assumes "\<forall>x \<in> set xs. length (f x) = k" "i < length xs"
  shows "take k (drop (i * k) (concat (map f xs) @ rest)) = f (xs ! i)"
  using assms
proof (induction xs arbitrary: i)
  case (Cons x xs)
  then show ?case by (cases i) (simp_all add: add.commute)
qed simp

lemma length_concat_fixed: "\<forall>x \<in> set xs. length (f x) = k \<Longrightarrow> length (concat (map f xs)) = length xs * k"
  by (induction xs) simp_all

lemma asn_at_encoded:
  assumes "sz \<in> {2, 4}" "i < length asns" "unat (asns ! i) < 256 ^ sz"
  shows "asn_at (concat (map (\<lambda>a. to_be sz (unat a)) asns) @ rest) sz i = Ok (asns ! i)"
proof -
  let ?bs = "concat (map (\<lambda>a. to_be sz (unat a)) asns)"
  have len: "length ?bs = length asns * sz" by (rule length_concat_fixed) simp
  have take: "take sz (drop (i * sz) (?bs @ rest)) = to_be sz (unat (asns ! i))"
    using assms(2) by (intro take_concat_fixed) simp_all
  have "Suc i * sz \<le> length asns * sz" using assms(2) by (intro mult_le_mono1) simp
  then have fits: "i * sz + sz \<le> length (?bs @ rest)" using len by simp
  consider "sz = 2" | "sz = 4" using assms(1) by auto
  then show ?thesis
  proof cases
    case 1
    have "ucast (from_be (to_be 2 (unat (asns ! i))) :: u16) = asns ! i"
      using assms(3) 1 by (intro ucast_from_be_to_be) simp_all
    then show ?thesis using take fits 1 by (simp add: asn_at_def u16_at_def slice_def)
  next
    case 2
    then show ?thesis using take fits by (simp add: asn_at_def u32_at_def slice_def)
  qed
qed

lemma as_path_step_encoded:
  assumes "sz \<in> {2, 4}" "length (seg_asns seg) < 256" "\<forall>a \<in> set (seg_asns seg). unat a < 256 ^ sz"
  shows "as_path_step sz (encode_segment sz seg @ rest, segs) = Ok (Cont (rest, segs @ [seg]))"
proof -
  let ?asns = "seg_asns seg"
  let ?bs = "concat (map (\<lambda>a. to_be sz (unat a)) ?asns)"
  have len: "length ?bs = length ?asns * sz" by (rule length_concat_fixed) simp
  have "rmap (asn_at (?bs @ rest) sz) [0..<length ?asns] = Ok (map (\<lambda>i. ?asns ! i) [0..<length ?asns])"
    using assms by (intro rmap_eq asn_at_encoded) auto
  then have "rmap (asn_at (?bs @ rest) sz) [0..<length ?asns] = Ok ?asns" by (simp add: map_nth)
  with len assms(2) show ?thesis
    by (simp add: as_path_step_def encode_segment_def idx_def len8_at_def slice_from_def unat_of_nat
        as_segment_code Let_def)
qed

lemma parse_as_path_with_asn_size_encoded:
  assumes "sz \<in> {2, 4}" "as_path_encodable sz p"
  shows "parse_as_path_with_asn_size (encode_as_path sz p) sz = Ok p"
proof -
  have "rwhile (\<lambda>(b, s). length b \<ge> 2) (as_path_step sz) (concat (map (encode_segment sz) segs), acc) =
      Ok ([], acc @ segs)"
    if "\<forall>seg \<in> set segs. length (seg_asns seg) < 256 \<and> (\<forall>a \<in> set (seg_asns seg). unat a < 256 ^ sz)"
    for segs acc
    using that
  proof (induction segs arbitrary: acc)
    case Nil
    then show ?case by (simp add: rwhile_stop)
  next
    case (Cons seg segs)
    have "2 \<le> length (encode_segment sz seg)" by (simp add: encode_segment_def)
    with Cons as_path_step_encoded [OF assms(1), of seg "concat (map (encode_segment sz) segs)" acc]
    show ?case by (subst rwhile_step) auto
  qed
  from this [of "segments p" "[]"] assms(2) show ?thesis
    by (simp add: parse_as_path_with_asn_size_def encode_as_path_def as_path_encodable_def)
qed

lemma parse_as_path_encoded:
  "as_path_encodable 4 p \<Longrightarrow> parse_as_path (encode_as_path 4 p) True = Ok p"
  "as_path_encodable 2 p \<Longrightarrow> parse_as_path (encode_as_path 2 p) False = Ok p"
  by (simp_all add: parse_as_path_def parse_as_path_with_asn_size_encoded)

text \<open>The fallback: four-byte paths are read back when two-byte parsing fails on them.\<close>

lemma parse_as_path_fallback:
  assumes "as_path_encodable 4 p" "parse_as_path_with_asn_size (encode_as_path 4 p) 2 = Err e"
  shows "parse_as_path (encode_as_path 4 p) False = Ok p"
  using assms by (simp add: parse_as_path_def parse_as_path_with_asn_size_encoded)

text \<open>A four-byte path that two-byte parsing accepts: AS 512 alone is read as AS 0.\<close>

text \<open>A four-byte AS_PATH that also scans as two-byte segments is misread: the path of the single AS
  512 comes back as two segments, with AS 0.\<close>

theorem parse_as_path_misread:
  "parse_as_path (encode_as_path 4 (AsPath [AS_Sequence [512]])) False =
     Ok (AsPath [AS_Sequence [0], AS_Sequence []])"
  by code_simp

subsection \<open>Round trips\<close>

text \<open>An AS_PATH with two-byte AS numbers, and an AS4_PATH, is read back as it was written; a
  four-byte AS_PATH is read back when its bytes are not also a two-byte path.\<close>

theorem parse_as_path_roundtrip:
  "(as_path_encodable 2 p \<longrightarrow> parse_as_path (encode_as_path 2 p) False = Ok p)
   \<and> (as_path_encodable 4 p \<longrightarrow> parse_as_path (encode_as_path 4 p) True = Ok p)
   \<and> (as_path_encodable 4 p \<and> parse_as_path_with_asn_size (encode_as_path 4 p) 2 = Err e \<longrightarrow>
        parse_as_path (encode_as_path 4 p) False = Ok p)"
  by (simp add: parse_as_path_encoded parse_as_path_fallback)

theorem parse_as_path_roundtrip_witness:
  "parse_as_path (encode_as_path 4 (AsPath [AS_Sequence [65001, 4200000000], AS_Set [7]])) True =
     Ok (AsPath [AS_Sequence [65001, 4200000000], AS_Set [7]])"
proof -
  have "as_path_encodable 4 (AsPath [AS_Sequence [65001, 4200000000], AS_Set [7]])"
    by (simp add: as_path_encodable_def)
  then show ?thesis
    using parse_as_path_roundtrip [of "AsPath [AS_Sequence [65001, 4200000000], AS_Set [7]]"] by blast
qed

end
