(* ===== verification/Nlri.thy ===== *)
theory Nlri
  imports Bgp_Types
begin

text \<open>
  \<^verbatim>\<open>rbmp-core/src/bgp/nlri.rs\<close>: the NLRI decoders.  A \<^verbatim>\<open>Buf\<close> cursor is the list of the
  bytes that remain; each decoder is a loop over the cursor and the vector built so far.  The block
  that reads the address bytes and builds the network, which the source repeats in each decoder,
  is \<open>read_net\<close>.

  Shown here: the unlabelled decoder never panics, always stops, and yields well-formed prefixes
  of the requested family; it inverts the RFC 4271 encoding; without Add-Path the path-id decoder
  is the plain one.  The labelled and VPN decoders lack the length check of the plain one, and the
  Add-Path decoder reads the length byte unchecked: three inputs on which they panic are given.
\<close>

unbundle bit_operations_syntax

definition max_bits :: "afi \<Rightarrow> nat" where
  "max_bits a = (case a of Afi_Ipv6 \<Rightarrow> 128 | _ \<Rightarrow> 32)"

definition octets_for :: "u8 \<Rightarrow> nat" where
  "octets_for prefix_len = (unat prefix_len + 7) div 8"

text \<open>\<^verbatim>\<open>addr[..octets].copy_from_slice(&buf.copy_to_bytes(octets))\<close>, then
  \<^verbatim>\<open>Ipv6Net::new(..).map_err(..)?\<close> and \<^verbatim>\<open>trunc()\<close>; likewise for IPv4.\<close>

definition read_net :: "crates \<Rightarrow> afi \<Rightarrow> u8 \<Rightarrow> nat \<Rightarrow> bytes \<Rightarrow> (prefix \<times> bytes) result" where
  "read_net C afi prefix_len octets buf =
     (case afi of
        Afi_Ipv6 \<Rightarrow>
          rbind (buf_copy_to_bytes C octets buf) (\<lambda>(chunk, buf).
          rbind (pad_array 16 octets chunk) (\<lambda>addr.
            case c_ipv6net_new C (from_be addr) prefix_len of
              None \<Rightarrow> Err (InvalidPrefixLen prefix_len (afi_as_u16 afi))
            | Some net \<Rightarrow> Ok (Prefix_V6 (c_ipv6net_trunc C net), buf)))
      | _ \<Rightarrow>
          rbind (buf_copy_to_bytes C octets buf) (\<lambda>(chunk, buf).
          rbind (pad_array 4 octets chunk) (\<lambda>addr.
            case c_ipv4net_new C (from_be addr) prefix_len of
              None \<Rightarrow> Err (InvalidPrefixLen prefix_len (afi_as_u16 afi))
            | Some net \<Rightarrow> Ok (Prefix_V4 (c_ipv4net_trunc C net), buf))))"

definition read_path_id :: "crates \<Rightarrow> bool \<Rightarrow> bytes \<Rightarrow> (u32 option \<times> bytes) result" where
  "read_path_id C add_path buf =
     (if add_path
      then if length buf < 4 then Err (UnexpectedEof 4 (length buf))
           else rbind (buf_get_u32 C buf) (\<lambda>(i, buf). Ok (Some i, buf))
      else Ok (None, buf))"

definition decode_nlri_with_path_id ::
    "crates \<Rightarrow> bytes \<Rightarrow> afi \<Rightarrow> bool \<Rightarrow> (prefix \<times> u32 option) list result" where
  "decode_nlri_with_path_id C buf afi add_path =
     rbind (rwhile (\<lambda>(buf, prefixes). length buf > 0)
       (\<lambda>(buf, prefixes).
         rbind (read_path_id C add_path buf) (\<lambda>(path_id, buf).
         rbind (buf_get_u8 C buf) (\<lambda>(prefix_len, buf).
           let octets = octets_for prefix_len in
           if length buf < octets then Err (UnexpectedEof octets (length buf))
           else if unat prefix_len > max_bits afi
                then Err (InvalidPrefixLen prefix_len (afi_as_u16 afi))
           else rbind (read_net C afi prefix_len octets buf) (\<lambda>(prefix, buf).
                  Ok (Cont (buf, prefixes @ [(prefix, path_id)]))))))
       (buf, []))
     (\<lambda>(buf, prefixes). Ok prefixes)"

definition nlri_step :: "crates \<Rightarrow> afi \<Rightarrow> bytes \<times> prefix list \<Rightarrow> (bytes \<times> prefix list) ctl result" where
  "nlri_step C afi st =
     (case st of (buf, prefixes) \<Rightarrow>
        rbind (buf_get_u8 C buf) (\<lambda>(prefix_len, buf).
          let octets = octets_for prefix_len in
          if length buf < octets then Err (UnexpectedEof octets (length buf))
          else if unat prefix_len > max_bits afi
               then Err (InvalidPrefixLen prefix_len (afi_as_u16 afi))
          else rbind (read_net C afi prefix_len octets buf) (\<lambda>(prefix, buf).
                 Ok (Cont (buf, prefixes @ [prefix])))))"

definition decode_nlri :: "crates \<Rightarrow> bytes \<Rightarrow> afi \<Rightarrow> prefix list result" where
  "decode_nlri C buf afi =
     rbind (rwhile (\<lambda>(buf, prefixes). length buf > 0) (nlri_step C afi) (buf, []))
       (\<lambda>(buf, prefixes). Ok prefixes)"

text \<open>The inner loop of the labelled decoder: labels until the bottom-of-stack bit.\<close>

definition read_labels :: "crates \<Rightarrow> bytes \<Rightarrow> (bytes \<times> u32 list) result" where
  "read_labels C buf =
     rwhile (\<lambda>_. True)
       (\<lambda>(buf, labels).
          if length buf < 3 then Err (UnexpectedEof 3 (length buf))
          else rbind (buf_copy_to_bytes C 3 buf) (\<lambda>(b, buf).
               rbind (u24_at b 0) (\<lambda>raw.
                 let labels = labels @ [drop_bit 4 raw] in
                 if raw AND 1 \<noteq> 0 then Ok (Brk (buf, labels)) else Ok (Cont (buf, labels)))))
       (buf, [])"

text \<open>\<^verbatim>\<open>(total_len.saturating_sub(n)) as u8\<close>.\<close>

definition len_after :: "u8 \<Rightarrow> nat \<Rightarrow> u8" where
  "len_after total_len n = word_of_nat (unat total_len - n)"

definition decode_labeled_nlri :: "crates \<Rightarrow> bytes \<Rightarrow> afi \<Rightarrow> prefix list result" where
  "decode_labeled_nlri C buf afi =
     rbind (rwhile (\<lambda>(buf, prefixes). length buf > 0)
       (\<lambda>(buf, prefixes).
          rbind (buf_get_u8 C buf) (\<lambda>(total_len, buf).
          rbind (read_labels C buf) (\<lambda>(buf, labels).
            let prefix_len = len_after total_len (length labels * 24);
                octets = octets_for prefix_len in
            if length buf < octets then Err (UnexpectedEof octets (length buf))
            else rbind (read_net C afi prefix_len octets buf) (\<lambda>(inner, buf).
                   Ok (Cont (buf, prefixes @ [Prefix_Labeled inner labels]))))))
       (buf, []))
     (\<lambda>(buf, prefixes). Ok prefixes)"

definition decode_vpn_nlri :: "crates \<Rightarrow> bytes \<Rightarrow> afi \<Rightarrow> prefix list result" where
  "decode_vpn_nlri C buf afi =
     rbind (rwhile (\<lambda>(buf, prefixes). length buf > 0)
       (\<lambda>(buf, prefixes).
          rbind (buf_get_u8 C buf) (\<lambda>(total_len, buf).
          if length buf < 3 then Err (UnexpectedEof 3 (length buf))
          else rbind (buf_copy_to_bytes C 3 buf) (\<lambda>(b, buf).
          rbind (u24_at b 0) (\<lambda>raw.
          if length buf < 8 then Err (UnexpectedEof 8 (length buf))
          else rbind (buf_copy_to_bytes C 8 buf) (\<lambda>(rd, buf).
            let prefix_len = len_after total_len (24 + 64);
                octets = octets_for prefix_len in
            if length buf < octets then Err (UnexpectedEof octets (length buf))
            else rbind (read_net C afi prefix_len octets buf) (\<lambda>(inner, buf).
                   Ok (Cont (buf, prefixes @
                     [Prefix_Vpn (RouteDistinguisher rd) inner [drop_bit 4 raw]]))))))))
       (buf, []))
     (\<lambda>(buf, prefixes). Ok prefixes)"

definition decode_vpls_nlri :: "crates \<Rightarrow> bytes \<Rightarrow> vpls_nlri list result" where
  "decode_vpls_nlri C buf =
     rbind (rwhile (\<lambda>(cur, result). length cur \<ge> 2)
       (\<lambda>(cur, result).
          rbind (buf_get_u16 C cur) (\<lambda>(l, cur).
            let nlri_len = unat l in
            if length cur < nlri_len then Ok (Brk (cur, result))
            else rbind (buf_copy_to_bytes C nlri_len cur) (\<lambda>(nlri, cur).
              if length nlri < 17 then Ok (Cont (cur, result))
              else rbind (slice nlri 0 8) (\<lambda>rd.
                   rbind (u16_at nlri 8) (\<lambda>ve.
                   rbind (u16_at nlri 10) (\<lambda>off.
                   rbind (u16_at nlri 12) (\<lambda>size.
                   rbind (u24_at nlri 14) (\<lambda>label_raw.
                     Ok (Cont (cur, result @
                       [\<lparr>vpls_rd = rd, ve_id = ve, ve_block_offset = off, ve_block_size = size,
                         label_base = drop_bit 4 label_raw\<rparr>])))))))))) 
       (buf, []))
     (\<lambda>(cur, result). Ok result)"

definition hop_size :: "afi \<Rightarrow> nat" where
  "hop_size a = (case a of Afi_Ipv6 \<Rightarrow> 16 | _ \<Rightarrow> 4)"

definition hop_at :: "afi \<Rightarrow> bytes \<Rightarrow> nat \<Rightarrow> ip_addr result" where
  "hop_at a bs pos =
     (case a of
        Afi_Ipv6 \<Rightarrow> rbind (ipv6_at bs pos) (\<lambda>x. Ok (IpV6 x))
      | _ \<Rightarrow> rbind (ipv4_at bs pos) (\<lambda>x. Ok (IpV4 x)))"

definition decode_next_hops :: "crates \<Rightarrow> bytes \<Rightarrow> afi \<Rightarrow> (ip_addr list \<times> bytes) result" where
  "decode_next_hops C buf afi =
     rbind (buf_get_u8 C buf) (\<lambda>(n, buf).
       let nh_len = unat n in
       if length buf < nh_len then Err (UnexpectedEof nh_len (length buf))
       else rbind (buf_copy_to_bytes C nh_len buf) (\<lambda>(nh_bytes, buf).
            rbind (rwhile (\<lambda>(pos, hops). pos + hop_size afi \<le> length nh_bytes)
                    (\<lambda>(pos, hops). rbind (hop_at afi nh_bytes pos) (\<lambda>a.
                       Ok (Cont (pos + hop_size afi, hops @ [a]))))
                    (0, []))
              (\<lambda>(pos, hops). Ok (hops, buf))))"

subsection \<open>The plain decoder\<close>

text \<open>The family of the prefixes built for an AFI: every AFI but IPv6 is decoded as IPv4.\<close>

definition nlri_family :: "afi \<Rightarrow> afi" where
  "nlri_family a = (if a = Afi_Ipv6 then Afi_Ipv6 else Afi_Ipv4)"

lemma octets_for_le: "unat l \<le> 8 * n \<Longrightarrow> octets_for l \<le> n"
  by (simp add: octets_for_def)

lemma read_net_sat:
  assumes "bytes_ok C" "ipnet_ok C" "unat l \<le> max_bits afi" "octets_for l \<le> length buf"
  shows "sat (read_net C afi l (octets_for l) buf)
           (\<lambda>(p, rest). prefix_wf p \<and> addr_family p = nlri_family afi \<and> rest = drop (octets_for l) buf)"
proof (cases "afi = Afi_Ipv6")
  case True
  with assms octets_for_le [of l 16] show ?thesis
    by (simp add: read_net_def sat_buf ipnet_eqs max_bits_def nlri_family_def and.assoc)
next
  case False
  with assms octets_for_le [of l 4] show ?thesis
    by (cases afi) (simp_all add: read_net_def sat_buf ipnet_eqs max_bits_def nlri_family_def and.assoc)
qed

lemma nlri_step_sat:
  assumes "bytes_ok C" "ipnet_ok C" "buf \<noteq> []"
  shows "sat (nlri_step C afi (buf, ps))
     (\<lambda>r. \<exists>rest p. r = Cont (rest, ps @ [p]) \<and> length rest < length buf
            \<and> prefix_wf p \<and> addr_family p = nlri_family afi)"
proof -
  obtain l rest where buf: "buf = l # rest" using assms(3) by (cases buf) auto
  show ?thesis
    using assms(1,2)
    by (auto simp: nlri_step_def buf get_u8_Cons Let_def split: prod.splits
        intro!: sat_weaken [OF read_net_sat])
qed

lemma decode_nlri_sat:
  assumes "bytes_ok C" "ipnet_ok C"
  shows "sat (decode_nlri C buf afi)
           (\<lambda>ps. \<forall>p \<in> set ps. prefix_wf p \<and> addr_family p = nlri_family afi)"
proof -
  let ?I = "\<lambda>(buf, ps). \<forall>p \<in> set ps. prefix_wf p \<and> addr_family p = nlri_family afi"
  have "sat (rwhile (\<lambda>(buf, prefixes). length buf > 0) (nlri_step C afi) (buf, [])) ?I"
  proof (rule rwhile_sat [where I = ?I and \<mu> = "\<lambda>(buf, ps). length buf"])
    fix s :: "bytes \<times> prefix list"
    assume "?I s" and "case s of (buf, prefixes) \<Rightarrow> length buf > 0"
    then show "sat (nlri_step C afi s)
        (\<lambda>r. case r of Cont s' \<Rightarrow> ?I s' \<and> (case s' of (buf, ps) \<Rightarrow> length buf) < (case s of (buf, ps) \<Rightarrow> length buf)
             | Brk s' \<Rightarrow> ?I s')"
      using assms by (cases s) (auto intro!: sat_weaken [OF nlri_step_sat])
  qed simp_all
  then show ?thesis by (auto simp: decode_nlri_def intro: sat_weaken)
qed

subsection \<open>Round trip\<close>

text \<open>The wire form of RFC 4271 section 4.3: the length in bits, then the fewest octets that hold
  the prefix.\<close>

fun prefix_bits :: "prefix \<Rightarrow> u8" where
  "prefix_bits (Prefix_V4 n) = net4_len n"
| "prefix_bits (Prefix_V6 n) = net6_len n"
| "prefix_bits (Prefix_Labeled p labels) = prefix_bits p"
| "prefix_bits (Prefix_Vpn rd p labels) = prefix_bits p"

fun prefix_octets :: "prefix \<Rightarrow> bytes" where
  "prefix_octets (Prefix_V4 n) = take (octets_for (net4_len n)) (to_be 4 (unat (net4_addr n)))"
| "prefix_octets (Prefix_V6 n) = take (octets_for (net6_len n)) (to_be 16 (unat (net6_addr n)))"
| "prefix_octets (Prefix_Labeled p labels) = prefix_octets p"
| "prefix_octets (Prefix_Vpn rd p labels) = prefix_octets p"

definition encode_prefix :: "prefix \<Rightarrow> bytes" where
  "encode_prefix p = prefix_bits p # prefix_octets p"

fun plain :: "prefix \<Rightarrow> bool" where
  "plain (Prefix_V4 n) = True"
| "plain (Prefix_V6 n) = True"
| "plain (Prefix_Labeled p labels) = False"
| "plain (Prefix_Vpn rd p labels) = False"

lemma net_example: "prefix_wf (Prefix_V4 (Ipv4Net 0x0A010000 16))"
  by code_simp

lemma host_bits_zero:
  fixes a :: "'a::len word"
  assumes "a AND push_bit n m = a"
  shows "2 ^ n dvd unat a"
proof -
  have "take_bit n a = 0"
    by (rule bit_word_eqI) (metis assms bit_0_eq bit_and_iff bit_push_bit_iff bit_take_bit_iff bot_apply bot_bool_def leD)
  then have "take_bit n (unat a) = 0" by (metis unsigned_0 unsigned_take_bit_eq)
  then show ?thesis by (simp add: take_bit_eq_0_iff)
qed

lemma octets_cover: "8 * (n - octets_for l) \<le> 8 * n - unat l"
  by (simp add: octets_for_def)

lemma padded_addr:
  fixes a :: "'a::len word"
  assumes "LENGTH('a) = 8 * n" "unat l \<le> 8 * n" "a AND push_bit (8 * n - unat l) m = a"
  shows "from_be (take (octets_for l) (to_be n (unat a)) @ replicate (n - octets_for l) 0) = a"
proof -
  have pow: "(256 :: nat) ^ j = 2 ^ (8 * j)" for j by (simp add: power_mult)
  have "2 ^ (8 * n - unat l) dvd unat a" using assms(3) by (rule host_bits_zero)
  then have "256 ^ (n - octets_for l) dvd unat a"
    unfolding pow by (rule dvd_trans [OF le_imp_power_dvd [OF octets_cover]])
  moreover have "unat a < 256 ^ n" unfolding pow using unsigned_less [of a] assms(1) by simp
  moreover have "octets_for l \<le> n" using assms(2) by (rule octets_for_le)
  ultimately have "be_nat (take (octets_for l) (to_be n (unat a)) @ replicate (n - octets_for l) 0) = unat a"
    by (intro be_nat_truncated)
  then show ?thesis by (simp add: from_be_def)
qed

lemma read_net_encoded:
  assumes "bytes_ok C" "ipnet_ok C" "prefix_wf p" "plain p" "addr_family p = nlri_family afi"
  shows "read_net C afi (prefix_bits p) (octets_for (prefix_bits p)) (prefix_octets p @ rest) = Ok (p, rest)
    \<and> unat (prefix_bits p) \<le> max_bits afi \<and> length (prefix_octets p) = octets_for (prefix_bits p)"
proof (cases p)
  case (Prefix_V4 net)
  obtain a l where net: "net = Ipv4Net a l" by (cases net)
  from assms(3) have l: "unat l \<le> 32" and host: "a AND netmask4 l = a"
    by (simp_all add: Prefix_V4 net)
  from l have oct: "octets_for l \<le> 4" by (intro octets_for_le) simp
  have "from_be (take (octets_for l) (to_be 4 (unat a)) @ replicate (4 - octets_for l) 0) = a"
    using host l by (intro padded_addr) (simp_all add: netmask4_def)
  moreover from assms(5) have "afi \<noteq> Afi_Ipv6" by (auto simp: Prefix_V4 nlri_family_def)
  ultimately show ?thesis
    using assms(1,2) l host oct
    by (cases afi) (simp_all add: read_net_def Prefix_V4 net copy_to_bytes_eq max_bits_def
        pad_array_def ipnet_eqs)
next
  case (Prefix_V6 net)
  obtain a l where net: "net = Ipv6Net a l" by (cases net)
  from assms(3) have l: "unat l \<le> 128" and host: "a AND netmask6 l = a"
    by (simp_all add: Prefix_V6 net)
  from l have oct: "octets_for l \<le> 16" by (intro octets_for_le) simp
  have "from_be (take (octets_for l) (to_be 16 (unat a)) @ replicate (16 - octets_for l) 0) = a"
    using host l by (intro padded_addr) (simp_all add: netmask6_def)
  moreover from assms(5) have "afi = Afi_Ipv6" by (auto simp: Prefix_V6 nlri_family_def split: if_splits)
  ultimately show ?thesis
    using assms(1,2) l host oct
    by (simp add: read_net_def Prefix_V6 net copy_to_bytes_eq max_bits_def pad_array_def ipnet_eqs)
qed (use assms(4) in simp_all)

lemma nlri_step_encoded:
  assumes "bytes_ok C" "ipnet_ok C" "prefix_wf p" "plain p" "addr_family p = nlri_family afi"
  shows "nlri_step C afi (encode_prefix p @ rest, ps) = Ok (Cont (rest, ps @ [p]))"
  using read_net_encoded [OF assms, of rest] assms(1)
  by (simp add: nlri_step_def encode_prefix_def get_u8_Cons)

lemma encode_prefix_nonempty: "encode_prefix p \<noteq> []"
  by (simp add: encode_prefix_def)

lemma decode_nlri_encoded:
  assumes "bytes_ok C" "ipnet_ok C"
    and "\<forall>p \<in> set ps. prefix_wf p \<and> plain p \<and> addr_family p = nlri_family afi"
  shows "decode_nlri C (concat (map encode_prefix ps)) afi = Ok ps"
proof -
  have "rwhile (\<lambda>(buf, prefixes). length buf > 0) (nlri_step C afi)
          (concat (map encode_prefix ps), acc) = Ok ([], acc @ ps)" for acc
    using assms(3)
  proof (induction ps arbitrary: acc)
    case Nil
    then show ?case by (simp add: rwhile_stop)
  next
    case (Cons p ps)
    then have "encode_prefix p \<noteq> []" by (simp add: encode_prefix_nonempty)
    moreover have "nlri_step C afi (encode_prefix p @ concat (map encode_prefix ps), acc) =
        Ok (Cont (concat (map encode_prefix ps), acc @ [p]))"
      using Cons.prems assms(1,2) by (intro nlri_step_encoded) simp_all
    ultimately show ?case using Cons by (subst rwhile_step) auto
  qed
  from this [of "[]"] show ?thesis by (simp add: decode_nlri_def)
qed

subsection \<open>The Add-Path decoder\<close>

text \<open>Without Add-Path the decoder is the plain one, with no path identifier on any prefix.\<close>

lemma decode_nlri_with_path_id_plain:
  assumes "bytes_ok C" "ipnet_ok C"
  shows "decode_nlri_with_path_id C buf afi False =
           rbind (decode_nlri C buf afi) (\<lambda>ps. Ok (map (\<lambda>p. (p, None)) ps))"
proof -
  let ?f = "\<lambda>(buf :: bytes, ps :: prefix list). (buf, map (\<lambda>p. (p, None :: u32 option)) ps)"
  let ?c = "\<lambda>(buf, prefixes).
      rbind (read_path_id C False buf) (\<lambda>(path_id, buf).
      rbind (buf_get_u8 C buf) (\<lambda>(prefix_len, buf).
        let octets = octets_for prefix_len in
        if length buf < octets then Err (UnexpectedEof octets (length buf))
        else if unat prefix_len > max_bits afi then Err (InvalidPrefixLen prefix_len (afi_as_u16 afi))
        else rbind (read_net C afi prefix_len octets buf) (\<lambda>(prefix, buf).
               Ok (Cont (buf, prefixes @ [(prefix, path_id)])))))"
  have "rwhile (\<lambda>(buf, prefixes). length buf > 0) ?c (?f (buf, [])) =
      rbind (rwhile (\<lambda>(buf, prefixes). length buf > 0) (nlri_step C afi) (buf, [])) (\<lambda>t. Ok (?f t))"
  proof (rule rwhile_map [where I = "\<lambda>_. True" and \<mu> = "\<lambda>(buf, ps). length buf"])
    fix s :: "bytes \<times> prefix list"
    show "?c (?f s) = rbind (nlri_step C afi s) (\<lambda>r. Ok (map_ctl ?f r))"
      by (cases s) (auto simp: nlri_step_def read_path_id_def Let_def rbind_assoc intro!: rbind_cong)
  next
    fix s s' :: "bytes \<times> prefix list"
    assume "case s of (buf, prefixes) \<Rightarrow> length buf > 0" and "nlri_step C afi s = Ok (Cont s')"
    with assms show "True \<and> (case s' of (buf, ps) \<Rightarrow> length buf) < (case s of (buf, ps) \<Rightarrow> length buf)"
      by (cases s) (auto dest!: nlri_step_sat [of C _ afi, THEN sat_OkD, rotated 3])
  qed auto
  then show ?thesis
    by (simp add: decode_nlri_with_path_id_def decode_nlri_def rbind_assoc case_prod_beta)
qed

text \<open>Four bytes left with Add-Path: the path identifier is read, then \<^verbatim>\<open>get_u8\<close> panics.\<close>

lemma decode_nlri_with_path_id_truncated:
  assumes "bytes_ok C" "length buf = 4"
  shows "decode_nlri_with_path_id C buf afi True = Panic"
  unfolding decode_nlri_with_path_id_def using assms
  by (subst rwhile_panic) (auto simp: read_path_id_def bytes_ok_def)

subsection \<open>Labelled prefixes\<close>

text \<open>The RFC 8277 label field: 20 bits of label, 3 unused bits, bottom-of-stack bit.\<close>

fun encode_labels :: "u32 list \<Rightarrow> bytes" where
  "encode_labels [] = []"
| "encode_labels [l] = to_be 3 (unat l * 16 + 1)"
| "encode_labels (l # m # ls) = to_be 3 (unat l * 16) @ encode_labels (m # ls)"

lemma bos_label_field:
  fixes l :: u32
  assumes "unat l < 2 ^ 20" "b < 2"
  shows "(from_be (to_be 3 (unat l * 16 + b)) :: u32) AND 1 \<noteq> 0 \<longleftrightarrow> b = 1"
proof -
  let ?w = "from_be (to_be 3 (unat l * 16 + b)) :: u32"
  have "?w AND 1 \<noteq> 0 \<longleftrightarrow> odd ?w" by (simp add: and_one_eq odd_iff_mod_2_eq_one)
  also have "\<dots> \<longleftrightarrow> odd (unat ?w)" by (simp add: bit_unsigned_iff flip: bit_0)
  also have "\<dots> \<longleftrightarrow> b = 1" using unat_label_field [of l b] assms by (auto simp: less_2_cases_iff)
  finally show ?thesis .
qed

lemma read_labels_encoded:
  assumes "bytes_ok C" "ls \<noteq> []" "\<forall>l \<in> set ls. unat l < 2 ^ 20"
  shows "read_labels C (encode_labels ls @ rest) = Ok (rest, ls)"
proof -
  let ?c = "\<lambda>(buf, labels).
      if length buf < 3 then Err (UnexpectedEof 3 (length buf))
      else rbind (buf_copy_to_bytes C 3 buf) (\<lambda>(b, buf).
           rbind (u24_at b 0) (\<lambda>raw.
             let labels = labels @ [drop_bit 4 raw] in
             if raw AND 1 \<noteq> 0 then Ok (Brk (buf, labels)) else Ok (Cont (buf, labels))))"
  have step: "?c (to_be 3 (unat l * 16 + b) @ rest, acc) =
      Ok ((if b = 1 then Brk else Cont) (rest, acc @ [l]))"
    if "unat l < 2 ^ 20" "b < 2" for l b rest acc
  proof -
    have "u24_at (to_be 3 (unat l * 16 + b)) 0 = (Ok (from_be (to_be 3 (unat l * 16 + b))) :: u32 result)"
      by (simp add: u24_at_def slice_def)
    with that bos_label_field [OF that] drop_label_field [of l b] assms(1) show ?thesis
      by (simp add: copy_to_bytes_eq)
  qed
  have "rwhile (\<lambda>_. True) ?c (encode_labels ls @ rest, acc) = Ok (rest, acc @ ls)" for acc
    using assms(2,3)
  proof (induction ls arbitrary: acc rule: encode_labels.induct)
    case (2 l)
    with step [of l 1 rest acc] show ?case by (subst rwhile_break) auto
  next
    case (3 l m ls)
    with step [of l 0 "encode_labels (m # ls) @ rest" acc] show ?case by (subst rwhile_step) auto
  qed simp
  then show ?thesis by (simp add: read_labels_def)
qed

text \<open>The length octet counts the bits that precede the prefix as well.\<close>

definition wrapped_len :: "nat \<Rightarrow> prefix \<Rightarrow> u8" where
  "wrapped_len n p = word_of_nat (unat (prefix_bits p) + n)"

definition encode_labeled :: "prefix \<times> u32 list \<Rightarrow> bytes" where
  "encode_labeled e = (case e of (p, ls) \<Rightarrow>
     wrapped_len (length ls * 24) p # encode_labels ls @ prefix_octets p)"

definition labeled_ok :: "afi \<Rightarrow> prefix \<times> u32 list \<Rightarrow> bool" where
  "labeled_ok afi e \<longleftrightarrow> (case e of (p, ls) \<Rightarrow>
     prefix_wf p \<and> plain p \<and> addr_family p = nlri_family afi \<and> ls \<noteq> []
     \<and> (\<forall>l \<in> set ls. unat l < 2 ^ 20) \<and> unat (prefix_bits p) + length ls * 24 < 256)"

lemma len_after_wrapped: "unat (prefix_bits p) + n < 256 \<Longrightarrow> len_after (wrapped_len n p) n = prefix_bits p"
  by (simp add: len_after_def wrapped_len_def unat_of_nat del: of_nat_add)

text \<open>Decoding inverts the wire form of a labeled-unicast NLRI list (RFC 8277): a list of
  prefixes with non-empty label stacks is read back unchanged, for either address family.\<close>

theorem decode_labeled_nlri_encoded:
  assumes "bytes_ok C" "ipnet_ok C" "\<forall>e \<in> set es. labeled_ok afi e"
  shows "decode_labeled_nlri C (concat (map encode_labeled es)) afi =
           Ok (map (\<lambda>(p, ls). Prefix_Labeled p ls) es)"
proof -
  let ?c = "\<lambda>(buf, prefixes).
      rbind (buf_get_u8 C buf) (\<lambda>(total_len, buf).
      rbind (read_labels C buf) (\<lambda>(buf, labels).
        let prefix_len = len_after total_len (length labels * 24);
            octets = octets_for prefix_len in
        if length buf < octets then Err (UnexpectedEof octets (length buf))
        else rbind (read_net C afi prefix_len octets buf) (\<lambda>(inner, buf).
               Ok (Cont (buf, prefixes @ [Prefix_Labeled inner labels])))))"
  have step: "?c (encode_labeled (p, ls) @ rest, acc) = Ok (Cont (rest, acc @ [Prefix_Labeled p ls]))"
    if "labeled_ok afi (p, ls)" for p ls rest acc
    using that read_net_encoded [OF assms(1,2), of p afi rest] assms(1) read_labels_encoded [OF assms(1), of ls]
    by (simp add: encode_labeled_def labeled_ok_def get_u8_Cons len_after_wrapped)
  have "rwhile (\<lambda>(buf, prefixes). length buf > 0) ?c (concat (map encode_labeled es), acc) =
      Ok ([], acc @ map (\<lambda>(p, ls). Prefix_Labeled p ls) es)" for acc
    using assms(3)
  proof (induction es arbitrary: acc)
    case Nil
    then show ?case by (simp add: rwhile_stop)
  next
    case (Cons e es)
    obtain p ls where e: "e = (p, ls)" by (cases e)
    have "encode_labeled e @ concat (map encode_labeled es) \<noteq> []" by (simp add: encode_labeled_def e)
    with Cons step [of p ls "concat (map encode_labeled es)" acc] show ?case
      by (subst rwhile_step) (auto simp: e)
  qed
  from this [of "[]"] show ?thesis by (simp add: decode_labeled_nlri_def)
qed

theorem decode_labeled_nlri_encoded_witness:
  "decode_labeled_nlri doc_crates
     (concat (map encode_labeled [(Prefix_V4 (Ipv4Net 0x0A010000 16), [100, 200])])) Afi_Ipv4 =
   Ok [Prefix_Labeled (Prefix_V4 (Ipv4Net 0x0A010000 16)) [100, 200]]"
proof -
  have "labeled_ok Afi_Ipv4 (Prefix_V4 (Ipv4Net 0x0A010000 16), [100, 200])"
    using net_example by (simp add: labeled_ok_def nlri_family_def)
  with decode_labeled_nlri_encoded [of doc_crates "[(Prefix_V4 (Ipv4Net 0x0A010000 16), [100, 200])]" Afi_Ipv4]
  show ?thesis by simp
qed

text \<open>The declared length is never compared with the size of an address: a single label and a
  longer prefix make \<^verbatim>\<open>addr[..octets]\<close> panic.\<close>

lemma read_net_too_long:
  assumes "bytes_ok C" "octets > hop_size afi" "octets \<le> length buf"
  shows "read_net C afi l octets buf = Panic"
  using assms by (cases afi) (simp_all add: read_net_def copy_to_bytes_eq pad_array_def hop_size_def)

lemma octets_for_gt: "8 * n < unat l \<Longrightarrow> n < octets_for l"
  by (simp add: octets_for_def)

lemma unat_len_after: "unat (len_after t n) = unat t - n"
  using unat_u8_less [of t] by (simp add: len_after_def unat_of_nat)

lemma decode_labeled_nlri_overlong:
  assumes "bytes_ok C" "unat l < 2 ^ 20" "24 + 8 * hop_size afi < unat total_len"
    and "octets_for (len_after total_len 24) \<le> length rest"
  shows "decode_labeled_nlri C (total_len # encode_labels [l] @ rest) afi = Panic"
proof -
  have "hop_size afi < octets_for (len_after total_len 24)"
    using assms(3) by (intro octets_for_gt) (simp add: unat_len_after)
  with assms read_labels_encoded [of C "[l]" rest] show ?thesis
    unfolding decode_labeled_nlri_def
    by (subst rwhile_panic) (simp_all add: get_u8_Cons read_net_too_long del: encode_labels.simps)
qed

subsection \<open>VPN prefixes\<close>

definition encode_vpn :: "bytes \<times> prefix \<times> u32 \<Rightarrow> bytes" where
  "encode_vpn e = (case e of (rd, p, l) \<Rightarrow>
     wrapped_len (24 + 64) p # encode_labels [l] @ rd @ prefix_octets p)"

definition vpn_ok :: "afi \<Rightarrow> bytes \<times> prefix \<times> u32 \<Rightarrow> bool" where
  "vpn_ok afi e \<longleftrightarrow> (case e of (rd, p, l) \<Rightarrow>
     prefix_wf p \<and> plain p \<and> addr_family p = nlri_family afi \<and> length rd = 8
     \<and> unat l < 2 ^ 20 \<and> unat (prefix_bits p) + (24 + 64) < 256)"

lemma label_at_encoded:
  assumes "unat l < 2 ^ 20"
  shows "\<exists>raw. u24_at (encode_labels [l]) 0 = (Ok raw :: u32 result) \<and> drop_bit 4 raw = l"
  using drop_label_field [OF assms, of 1] by (simp add: u24_at_def slice_def)

text \<open>Decoding inverts the wire form of an L3VPN NLRI list (RFC 4364): route distinguisher,
  prefix and label are read back unchanged.\<close>

theorem decode_vpn_nlri_encoded:
  assumes "bytes_ok C" "ipnet_ok C" "\<forall>e \<in> set es. vpn_ok afi e"
  shows "decode_vpn_nlri C (concat (map encode_vpn es)) afi =
           Ok (map (\<lambda>(rd, p, l). Prefix_Vpn (RouteDistinguisher rd) p [l]) es)"
proof -
  let ?c = "\<lambda>(buf, prefixes).
      rbind (buf_get_u8 C buf) (\<lambda>(total_len, buf).
      if length buf < 3 then Err (UnexpectedEof 3 (length buf))
      else rbind (buf_copy_to_bytes C 3 buf) (\<lambda>(b, buf).
      rbind (u24_at b 0) (\<lambda>raw.
      if length buf < 8 then Err (UnexpectedEof 8 (length buf))
      else rbind (buf_copy_to_bytes C 8 buf) (\<lambda>(rd, buf).
        let prefix_len = len_after total_len (24 + 64);
            octets = octets_for prefix_len in
        if length buf < octets then Err (UnexpectedEof octets (length buf))
        else rbind (read_net C afi prefix_len octets buf) (\<lambda>(inner, buf).
               Ok (Cont (buf, prefixes @
                 [Prefix_Vpn (RouteDistinguisher rd) inner [drop_bit 4 raw]])))))))"
  have step: "?c (encode_vpn (rd, p, l) @ rest, acc) =
      Ok (Cont (rest, acc @ [Prefix_Vpn (RouteDistinguisher rd) p [l]]))"
    if ok: "vpn_ok afi (rd, p, l)" for rd p l rest acc
  proof -
    obtain raw where raw: "u24_at (encode_labels [l]) 0 = (Ok raw :: u32 result)" "drop_bit 4 raw = l"
      using ok label_at_encoded [of l] by (auto simp: vpn_ok_def)
    have 3: "length (encode_labels [l]) = 3" by simp
    show ?thesis
      using ok raw 3 read_net_encoded [OF assms(1,2), of p afi rest] assms(1) len_after_wrapped [of p "24 + 64"]
      by (simp add: encode_vpn_def vpn_ok_def get_u8_Cons copy_to_bytes_eq Let_def
          del: encode_labels.simps)
  qed
  have "rwhile (\<lambda>(buf, prefixes). length buf > 0) ?c (concat (map encode_vpn es), acc) =
      Ok ([], acc @ map (\<lambda>(rd, p, l). Prefix_Vpn (RouteDistinguisher rd) p [l]) es)" for acc
    using assms(3)
  proof (induction es arbitrary: acc)
    case Nil
    then show ?case by (simp add: rwhile_stop)
  next
    case (Cons e es)
    obtain rd p l where e: "e = (rd, p, l)" by (cases e)
    have "encode_vpn e @ concat (map encode_vpn es) \<noteq> []" by (simp add: encode_vpn_def e)
    with Cons step [of rd p l "concat (map encode_vpn es)" acc] show ?case
      by (subst rwhile_step) (auto simp: e)
  qed
  from this [of "[]"] show ?thesis by (simp add: decode_vpn_nlri_def)
qed

theorem decode_vpn_nlri_encoded_witness:
  "decode_vpn_nlri doc_crates
     (concat (map encode_vpn [([0, 0, 0, 100, 0, 0, 0, 1], Prefix_V4 (Ipv4Net 0x0A010000 16), 77)])) Afi_Ipv4 =
   Ok [Prefix_Vpn (RouteDistinguisher [0, 0, 0, 100, 0, 0, 0, 1]) (Prefix_V4 (Ipv4Net 0x0A010000 16)) [77]]"
proof -
  have "vpn_ok Afi_Ipv4 ([0, 0, 0, 100, 0, 0, 0, 1], Prefix_V4 (Ipv4Net 0x0A010000 16), 77)"
    using net_example by (simp add: vpn_ok_def nlri_family_def)
  with decode_vpn_nlri_encoded
    [of doc_crates "[([0, 0, 0, 100, 0, 0, 0, 1], Prefix_V4 (Ipv4Net 0x0A010000 16), 77)]" Afi_Ipv4]
  show ?thesis by simp
qed

text \<open>The L3VPN decoder panics on an entry whose length octet claims more prefix bits than the
  address family has, when the bytes are there: the copy into the fixed-size address is unchecked.\<close>

theorem decode_vpn_nlri_overlong:
  assumes "bytes_ok C" "length label = 3" "length rd = 8" "24 + 64 + 8 * hop_size afi < unat total_len"
    and "octets_for (len_after total_len (24 + 64)) \<le> length rest"
  shows "decode_vpn_nlri C (total_len # label @ rd @ rest) afi = Panic"
proof -
  have "hop_size afi < octets_for (len_after total_len (24 + 64))"
    using assms(4) by (intro octets_for_gt) (simp add: unat_len_after)
  with assms show ?thesis
    unfolding decode_vpn_nlri_def
    by (subst rwhile_panic)
      (simp_all add: get_u8_Cons copy_to_bytes_eq u24_at_def slice_def read_net_too_long Let_def)
qed

theorem decode_vpn_nlri_overlong_witness:
  "decode_vpn_nlri doc_crates (128 # [0, 0, 1] @ replicate 8 0 @ replicate 5 0) Afi_Ipv4 = Panic"
proof -
  have "24 + 64 + 8 * hop_size Afi_Ipv4 < unat (128 :: u8)"
    "octets_for (len_after 128 (24 + 64)) \<le> length (replicate 5 (0 :: u8))" by code_simp+
  then show ?thesis
    using decode_vpn_nlri_overlong [of doc_crates "[0, 0, 1]" "replicate 8 0" Afi_Ipv4 128 "replicate 5 0"]
    by simp
qed

subsection \<open>Next hops and VPLS\<close>

lemma hop_at_sat: "pos + hop_size afi \<le> length bs \<Longrightarrow> sat (hop_at afi bs pos) (\<lambda>_. True)"
  by (cases afi) (simp_all add: hop_at_def hop_size_def)

lemma hop_size_pos: "0 < hop_size afi"
  by (cases afi) (simp_all add: hop_size_def)

text \<open>The hop loop reads exactly the whole addresses that fit.\<close>

lemma next_hop_loop_sat:
  "sat (rwhile (\<lambda>(pos, hops). pos + hop_size afi \<le> length bs)
          (\<lambda>(pos, hops). rbind (hop_at afi bs pos) (\<lambda>a. Ok (Cont (pos + hop_size afi, hops @ [a]))))
          (0, []))
     (\<lambda>(pos, hops). length hops = length bs div hop_size afi)"
proof (rule rwhile_sat [where I = "\<lambda>(pos, hops). pos = length hops * hop_size afi \<and> pos \<le> length bs"
      and \<mu> = "\<lambda>(pos, hops). length bs - pos"], goal_cases)
  case 1
  then show ?case by simp
next
  case (2 s)
  then show ?case
    using hop_size_pos [of afi]
    by (cases s) (auto intro!: sat_weaken [OF hop_at_sat])
next
  case (3 s)
  obtain pos hops where s: "s = (pos, hops)" by (cases s)
  with 3 have "length hops * hop_size afi \<le> length bs" "length bs < Suc (length hops) * hop_size afi"
    by auto
  then have "length bs div hop_size afi = length hops" by (intro div_nat_eqI) (simp_all add: mult.commute)
  then show ?case by (simp add: s)
qed

lemma decode_next_hops_sat:
  assumes "bytes_ok C" "buf \<noteq> []"
  shows "sat (decode_next_hops C buf afi)
     (\<lambda>(hops, rest). length hops = unat (hd buf) div hop_size afi \<and> rest = drop (1 + unat (hd buf)) buf)"
proof -
  obtain n bs where buf: "buf = n # bs" using assms(2) by (cases buf) auto
  show ?thesis
  proof (cases "length bs < unat n")
    case True
    with assms(1) show ?thesis by (simp add: decode_next_hops_def buf get_u8_Cons)
  next
    case False
    then have len: "length (take (unat n) bs) = unat n" by simp
    show ?thesis
      using assms(1) False sat_weaken [OF next_hop_loop_sat [of afi "take (unat n) bs", unfolded len]]
      by (auto simp: decode_next_hops_def buf get_u8_Cons sat_copy_to_bytes)
  qed
qed

lemma decode_vpls_nlri_sat:
  assumes "bytes_ok C"
  shows "sat (decode_vpls_nlri C buf) (\<lambda>es. \<forall>e \<in> set es. length (vpls_rd e) = 8)"
proof -
  let ?I = "\<lambda>(cur :: bytes, es). \<forall>e \<in> set es. length (vpls_rd e) = 8"
  show ?thesis
    unfolding decode_vpls_nlri_def
    by (rule sat_bindI [where P = ?I],
        rule rwhile_sat [where I = ?I and \<mu> = "\<lambda>(cur, es). length cur"])
      (auto simp: sat_buf [OF assms] Let_def split: prod.splits)
qed

subsection \<open>Termination and well-formed results of the labelled decoders\<close>

text \<open>The labelled decoders may panic on an overlong length; what they return is well formed.\<close>

lemma read_net_stops:
  assumes "bytes_ok C" "ipnet_ok C"
  shows "stops (read_net C afi l octets buf)
     (\<lambda>(p, rest). prefix_wf p \<and> addr_family p = nlri_family afi \<and> rest = drop octets buf)"
  using assms
  by (cases afi) (auto simp: read_net_def stops_buf ipnet_eqs nlri_family_def and.assoc)

lemma read_labels_sat:
  assumes "bytes_ok C"
  shows "sat (read_labels C buf) (\<lambda>(rest, labels). length rest < length buf \<and> labels \<noteq> [])"
  unfolding read_labels_def
  by (rule rwhile_sat [where I = "\<lambda>(b, labels). length b \<le> length buf" and \<mu> = "\<lambda>(b, labels). length b"])
    (auto simp: sat_buf [OF assms] Let_def)

lemma decode_labeled_nlri_stops:
  assumes "bytes_ok C" "ipnet_ok C"
  shows "stops (decode_labeled_nlri C buf afi)
     (\<lambda>ps. \<forall>p \<in> set ps. prefix_wf p \<and> addr_family p = nlri_family afi)"
proof -
  let ?I = "\<lambda>(b :: bytes, ps). \<forall>p \<in> set ps. prefix_wf p \<and> addr_family p = nlri_family afi"
  show ?thesis
    unfolding decode_labeled_nlri_def stops_rbind
    by (rule stops_weaken [OF rwhile_stops [where I = ?I and \<mu> = "\<lambda>(b, ps). length b" and Q = ?I]])
      (auto simp: stops_buf [OF assms(1)] Let_def less_diff_conv intro!: stops_weaken [OF sat_stops [OF read_labels_sat [OF assms(1)]]]
        stops_weaken [OF read_net_stops [OF assms]] less_imp_diff_less)
qed

lemma decode_vpn_nlri_stops:
  assumes "bytes_ok C" "ipnet_ok C"
  shows "stops (decode_vpn_nlri C buf afi)
     (\<lambda>ps. \<forall>p \<in> set ps. prefix_wf p \<and> addr_family p = nlri_family afi)"
proof -
  let ?I = "\<lambda>(b :: bytes, ps). \<forall>p \<in> set ps. prefix_wf p \<and> addr_family p = nlri_family afi"
  show ?thesis
    unfolding decode_vpn_nlri_def stops_rbind
    by (rule stops_weaken [OF rwhile_stops [where I = ?I and \<mu> = "\<lambda>(b, ps). length b" and Q = ?I]])
      (auto simp: stops_buf [OF assms(1)] Let_def intro!: stops_weaken [OF read_net_stops [OF assms]])
qed

subsection \<open>Properties of the plain decoder\<close>

text \<open>\<^verbatim>\<open>decode_nlri\<close> never panics and never loops, and every prefix it returns has a length its
  family allows, no host bits set, and the family the AFI selects.\<close>

theorem decode_nlri_safe:
  assumes "bytes_ok C" "ipnet_ok C"
  shows "sat (decode_nlri C buf afi)
           (\<lambda>ps. \<forall>p \<in> set ps. prefix_wf p \<and> addr_family p = nlri_family afi)"
  using assms by (rule decode_nlri_sat)

theorem decode_nlri_safe_witness:
  "sat (decode_nlri doc_crates [24, 10, 1, 2, 8, 10] Afi_Ipv4)
     (\<lambda>ps. \<forall>p \<in> set ps. prefix_wf p \<and> addr_family p = nlri_family Afi_Ipv4)"
  by (rule decode_nlri_safe) simp_all

text \<open>C8: \<^verbatim>\<open>decode_nlri\<close> inverts the wire form of RFC 4271: the encoding of a list of well-formed
  prefixes of the AFI's family is decoded to that list.\<close>

theorem decode_nlri_roundtrip:
  assumes "bytes_ok C" "ipnet_ok C"
    and "\<forall>p \<in> set ps. prefix_wf p \<and> plain p \<and> addr_family p = nlri_family afi"
  shows "decode_nlri C (concat (map encode_prefix ps)) afi = Ok ps"
  using assms by (rule decode_nlri_encoded)

theorem decode_nlri_roundtrip_witness:
  "decode_nlri doc_crates (concat (map encode_prefix
       [Prefix_V4 (Ipv4Net 0x0A010000 16), Prefix_V4 (Ipv4Net 0xC0000280 25)])) Afi_Ipv4 =
   Ok [Prefix_V4 (Ipv4Net 0x0A010000 16), Prefix_V4 (Ipv4Net 0xC0000280 25)]"
proof -
  have "\<forall>p \<in> set [Prefix_V4 (Ipv4Net 0x0A010000 16), Prefix_V4 (Ipv4Net 0xC0000280 25)].
      prefix_wf p \<and> plain p \<and> addr_family p = nlri_family Afi_Ipv4" by code_simp
  then show ?thesis by (rule decode_nlri_roundtrip [OF bytes_ok_doc ipnet_ok_doc])
qed

end
