(* ===== verification/Evpn.thy ===== *)
theory Evpn
  imports Bgp_Types
begin

text \<open>
  \<^verbatim>\<open>rbmp-core/src/bgp/evpn.rs\<close>: the EVPN NLRI decoder (AFI 25, SAFI 70), route types 1 to
  11 and unknown types.  Each arm of \<^verbatim>\<open>parse_evpn_route\<close> is one definition.  The decoder never
  panics and always stops; it inverts the wire form that the comments of the source give for each
  route type; the route it builds carries the type code it was asked to parse.
\<close>

unbundle bit_operations_syntax

datatype evpn_route =
    EthernetAutoDiscovery bytes bytes u32 u32
  | MacIpAdvertisement bytes bytes u32 bytes "ip_addr option" u32 "u32 option"
  | InclusiveMulticastEthernetTag bytes u32 ip_addr
  | EthernetSegment bytes bytes ip_addr
  | IpPrefix bytes bytes u32 ip_addr u8 "ip_addr option" u32
  | SelectiveMulticastEthernetTag bytes u32 ip_addr ip_addr ip_addr
  | IgmpJoinSynch bytes u32 ip_addr ip_addr ip_addr
  | IgmpLeaveSynch bytes u32 ip_addr ip_addr ip_addr
  | PerRegionIPmsi bytes u32 ip_addr
  | SPmsi bytes u32 ip_addr ip_addr ip_addr
  | LeafAD bytes u32
  | Evpn_Unknown u8 bytes

fun route_type_name :: "evpn_route \<Rightarrow> string" where
  "route_type_name (EthernetAutoDiscovery rd esi et l) = ''ethernet-auto-discovery''"
| "route_type_name (MacIpAdvertisement rd esi et mac ip l1 l2) = ''mac-ip-advertisement''"
| "route_type_name (InclusiveMulticastEthernetTag rd et ip) = ''inclusive-multicast-ethernet-tag''"
| "route_type_name (EthernetSegment rd esi ip) = ''ethernet-segment''"
| "route_type_name (IpPrefix rd esi et p pl gw l) = ''ip-prefix''"
| "route_type_name (SelectiveMulticastEthernetTag rd et s g r) = ''selective-multicast-ethernet-tag''"
| "route_type_name (IgmpJoinSynch rd et s g r) = ''igmp-join-synch''"
| "route_type_name (IgmpLeaveSynch rd et s g r) = ''igmp-leave-synch''"
| "route_type_name (PerRegionIPmsi rd et r) = ''per-region-i-pmsi''"
| "route_type_name (SPmsi rd et s g r) = ''s-pmsi''"
| "route_type_name (LeafAD k i) = ''leaf-ad''"
| "route_type_name (Evpn_Unknown t d) = ''unknown''"

fun route_type_code :: "evpn_route \<Rightarrow> u8" where
  "route_type_code (EthernetAutoDiscovery rd esi et l) = 1"
| "route_type_code (MacIpAdvertisement rd esi et mac ip l1 l2) = 2"
| "route_type_code (InclusiveMulticastEthernetTag rd et ip) = 3"
| "route_type_code (EthernetSegment rd esi ip) = 4"
| "route_type_code (IpPrefix rd esi et p pl gw l) = 5"
| "route_type_code (SelectiveMulticastEthernetTag rd et s g r) = 6"
| "route_type_code (IgmpJoinSynch rd et s g r) = 7"
| "route_type_code (IgmpLeaveSynch rd et s g r) = 8"
| "route_type_code (PerRegionIPmsi rd et r) = 9"
| "route_type_code (SPmsi rd et s g r) = 10"
| "route_type_code (LeafAD k i) = 11"
| "route_type_code (Evpn_Unknown t d) = t"

definition decode_mpls_label :: "bytes \<Rightarrow> u32 result" where
  "decode_mpls_label b = rbind (u24_at b 0) (\<lambda>raw. Ok (drop_bit 4 raw))"

definition decode_evpn_router_ip :: "u8 \<Rightarrow> bytes \<Rightarrow> ip_addr result" where
  "decode_evpn_router_ip ip_len buf =
     (if ip_len = 32 then
        (if length buf < 4 then Err (UnexpectedEof 4 (length buf))
         else rbind (ipv4_at buf 0) (\<lambda>a. Ok (IpV4 a)))
      else if ip_len = 128 then
        (if length buf < 16 then Err (UnexpectedEof 16 (length buf))
         else rbind (ipv6_at buf 0) (\<lambda>a. Ok (IpV6 a)))
      else Err (BgpParse (''EVPN originator IP length '' @ show_nat (unat ip_len)
                          @ '' not 32 or 128'')))"

definition evpn_type1 :: "bytes \<Rightarrow> evpn_route result" where
  "evpn_type1 v =
     (if length v < 25 then Err (UnexpectedEof 25 (length v))
      else rbind (slice v 0 8) (\<lambda>rd.
           rbind (slice v 8 18) (\<lambda>esi.
           rbind (u32_at v 18) (\<lambda>ethernet_tag.
           rbind (slice v 22 25) (\<lambda>lb.
           rbind (decode_mpls_label lb) (\<lambda>mpls_label.
             Ok (EthernetAutoDiscovery rd esi ethernet_tag mpls_label)))))))"

text \<open>The optional address of a type 2 route: the address and the position behind it.\<close>

definition evpn_mac_ip :: "bytes \<Rightarrow> u8 \<Rightarrow> (ip_addr option \<times> nat) result" where
  "evpn_mac_ip v ip_len =
     (if ip_len = 0 then Ok (None, 30)
      else if ip_len = 32 then
        (if length v < 30 + 4 then Err (UnexpectedEof (30 + 4) (length v))
         else rbind (ipv4_at v 30) (\<lambda>a. Ok (Some (IpV4 a), 34)))
      else if ip_len = 128 then
        (if length v < 30 + 16 then Err (UnexpectedEof (30 + 16) (length v))
         else rbind (ipv6_at v 30) (\<lambda>a. Ok (Some (IpV6 a), 46)))
      else Err (BgpParse (''EVPN type2 ip_len='' @ show_nat (unat ip_len))))"

definition evpn_type2 :: "bytes \<Rightarrow> evpn_route result" where
  "evpn_type2 v =
     (if length v < 33 then Err (UnexpectedEof 33 (length v))
      else rbind (slice v 0 8) (\<lambda>rd.
           rbind (slice v 8 18) (\<lambda>esi.
           rbind (u32_at v 18) (\<lambda>ethernet_tag.
           rbind (idx v 22) (\<lambda>mac_len.
           if mac_len \<noteq> 48
           then Err (BgpParse (''EVPN type2 mac_len='' @ show_nat (unat mac_len) @ '', expected 48''))
           else rbind (slice v 23 29) (\<lambda>mac.
                rbind (idx v 29) (\<lambda>ip_len.
                rbind (evpn_mac_ip v ip_len) (\<lambda>(ip, pos).
                if length v < pos + 3 then Err (UnexpectedEof (pos + 3) (length v))
                else rbind (slice v pos (pos + 3)) (\<lambda>lb1.
                     rbind (decode_mpls_label lb1) (\<lambda>mpls_label1.
                     rbind (if length v \<ge> pos + 6
                            then rbind (slice v (pos + 3) (pos + 6)) (\<lambda>lb2.
                                 rbind (decode_mpls_label lb2) (\<lambda>l. Ok (Some l)))
                            else Ok None) (\<lambda>mpls_label2.
                       Ok (MacIpAdvertisement rd esi ethernet_tag mac ip mpls_label1 mpls_label2))))))))))))"

definition evpn_type3 :: "bytes \<Rightarrow> evpn_route result" where
  "evpn_type3 v =
     (if length v < 13 then Err (UnexpectedEof 13 (length v))
      else rbind (slice v 0 8) (\<lambda>rd.
           rbind (u32_at v 8) (\<lambda>ethernet_tag.
           rbind (idx v 12) (\<lambda>ip_len.
           rbind (slice_from v 13) (\<lambda>r.
           rbind (decode_evpn_router_ip ip_len r) (\<lambda>ip.
             Ok (InclusiveMulticastEthernetTag rd ethernet_tag ip)))))))"

definition evpn_type4 :: "bytes \<Rightarrow> evpn_route result" where
  "evpn_type4 v =
     (if length v < 19 then Err (UnexpectedEof 19 (length v))
      else rbind (slice v 0 8) (\<lambda>rd.
           rbind (slice v 8 18) (\<lambda>esi.
           rbind (idx v 18) (\<lambda>ip_len.
           rbind (slice_from v 19) (\<lambda>r.
           rbind (decode_evpn_router_ip ip_len r) (\<lambda>ip.
             Ok (EthernetSegment rd esi ip)))))))"

text \<open>An address of 4 or 16 bytes at a position, as in the arm of type 5.\<close>

definition evpn_ip :: "bytes \<Rightarrow> nat \<Rightarrow> nat \<Rightarrow> ip_addr result" where
  "evpn_ip v ip_octets off =
     (if ip_octets = 4 then rbind (ipv4_at v off) (\<lambda>a. Ok (IpV4 a))
      else rbind (ipv6_at v off) (\<lambda>a. Ok (IpV6 a)))"

definition evpn_type5 :: "bytes \<Rightarrow> evpn_route result" where
  "evpn_type5 v =
     (if length v < 34 then Err (UnexpectedEof 34 (length v))
      else rbind (slice v 0 8) (\<lambda>rd.
           rbind (slice v 8 18) (\<lambda>esi.
           rbind (u32_at v 18) (\<lambda>ethernet_tag.
           rbind (idx v 22) (\<lambda>prefix_len.
           let ip_octets = (if prefix_len \<le> 32 then 4 else 16) in
           if length v < 23 + ip_octets * 2 + 3
           then Err (UnexpectedEof (23 + ip_octets * 2 + 3) (length v))
           else rbind (evpn_ip v ip_octets 23) (\<lambda>prefix.
                let gw_off = 23 + ip_octets in
                rbind (slice v gw_off (gw_off + ip_octets)) (\<lambda>gw.
                rbind (if list_all (\<lambda>b. b = 0) gw then Ok None
                       else rbind (evpn_ip v ip_octets gw_off) (\<lambda>a. Ok (Some a))) (\<lambda>gw_ip.
                let label_off = gw_off + ip_octets in
                rbind (slice v label_off (label_off + 3)) (\<lambda>lb.
                rbind (decode_mpls_label lb) (\<lambda>mpls_label.
                  Ok (IpPrefix rd esi ethernet_tag prefix prefix_len gw_ip mpls_label)))))))))))"

text \<open>\<^verbatim>\<open>pos += if ip_len == 32 { 4 } else { 16 }\<close>, then the check that a byte follows.\<close>

definition evpn_next :: "bytes \<Rightarrow> u8 \<Rightarrow> nat \<Rightarrow> nat result" where
  "evpn_next v ip_len pos =
     (let pos = pos + (if ip_len = 32 then 4 else 16) in
      if pos \<ge> length v then Err (UnexpectedEof (pos + 1) (length v)) else Ok pos)"

text \<open>The common part of types 6, 7, 8 and 10: RD, tag, source, group, originating router.\<close>

definition evpn_multicast :: "bytes \<Rightarrow> (bytes \<times> u32 \<times> ip_addr \<times> ip_addr \<times> ip_addr) result" where
  "evpn_multicast v =
     (if length v < 13 then Err (UnexpectedEof 13 (length v))
      else rbind (slice v 0 8) (\<lambda>rd.
           rbind (u32_at v 8) (\<lambda>ethernet_tag.
           rbind (idx v 12) (\<lambda>src_ip_len.
           rbind (slice_from v 13) (\<lambda>r.
           rbind (decode_evpn_router_ip src_ip_len r) (\<lambda>multicast_source.
           rbind (evpn_next v src_ip_len 13) (\<lambda>pos.
           rbind (idx v pos) (\<lambda>grp_ip_len.
           rbind (slice_from v (pos + 1)) (\<lambda>r.
           rbind (decode_evpn_router_ip grp_ip_len r) (\<lambda>multicast_group.
           rbind (evpn_next v grp_ip_len (pos + 1)) (\<lambda>pos.
           rbind (idx v pos) (\<lambda>orig_ip_len.
           rbind (slice_from v (pos + 1)) (\<lambda>r.
           rbind (decode_evpn_router_ip orig_ip_len r) (\<lambda>originating_router_ip.
             Ok (rd, ethernet_tag, multicast_source, multicast_group, originating_router_ip)))))))))))))))"

definition evpn_type678 :: "u8 \<Rightarrow> bytes \<Rightarrow> evpn_route result" where
  "evpn_type678 route_type v =
     rbind (evpn_multicast v) (\<lambda>(rd, et, src, grp, orig).
       if route_type = 6 then Ok (SelectiveMulticastEthernetTag rd et src grp orig)
       else if route_type = 7 then Ok (IgmpJoinSynch rd et src grp orig)
       else Ok (IgmpLeaveSynch rd et src grp orig))"

definition evpn_type9 :: "bytes \<Rightarrow> evpn_route result" where
  "evpn_type9 v =
     (if length v < 13 then Err (UnexpectedEof 13 (length v))
      else rbind (slice v 0 8) (\<lambda>rd.
           rbind (u32_at v 8) (\<lambda>ethernet_tag.
           rbind (idx v 12) (\<lambda>ip_len.
           rbind (slice_from v 13) (\<lambda>r.
           rbind (decode_evpn_router_ip ip_len r) (\<lambda>ip.
             Ok (PerRegionIPmsi rd ethernet_tag ip)))))))"

definition evpn_type10 :: "bytes \<Rightarrow> evpn_route result" where
  "evpn_type10 v =
     rbind (evpn_multicast v) (\<lambda>(rd, et, src, grp, orig). Ok (SPmsi rd et src grp orig))"

definition evpn_type11 :: "bytes \<Rightarrow> evpn_route result" where
  "evpn_type11 v =
     (if length v < 4 then Err (UnexpectedEof 4 (length v))
      else rbind (u32_at v (length v - 4)) (\<lambda>path_id.
           rbind (slice v 0 (length v - 4)) (\<lambda>route_key.
             Ok (LeafAD route_key path_id))))"

definition parse_evpn_route :: "u8 \<Rightarrow> bytes \<Rightarrow> evpn_route result" where
  "parse_evpn_route route_type v =
     (if route_type = 1 then evpn_type1 v
      else if route_type = 2 then evpn_type2 v
      else if route_type = 3 then evpn_type3 v
      else if route_type = 4 then evpn_type4 v
      else if route_type = 5 then evpn_type5 v
      else if route_type = 6 \<or> route_type = 7 \<or> route_type = 8 then evpn_type678 route_type v
      else if route_type = 9 then evpn_type9 v
      else if route_type = 10 then evpn_type10 v
      else if route_type = 11 then evpn_type11 v
      else Ok (Evpn_Unknown route_type v))"

definition evpn_step :: "bytes \<times> evpn_route list \<Rightarrow> (bytes \<times> evpn_route list) ctl result" where
  "evpn_step st =
     (case st of (buf, routes) \<Rightarrow>
        rbind (idx buf 0) (\<lambda>route_type.
        rbind (len8_at buf 1) (\<lambda>len.
        rbind (slice_from buf 2) (\<lambda>buf.
          if length buf < len then Err (UnexpectedEof len (length buf))
          else rbind (slice buf 0 len) (\<lambda>value.
               rbind (slice_from buf len) (\<lambda>buf.
               rbind (parse_evpn_route route_type value) (\<lambda>route.
                 Ok (Cont (buf, routes @ [route])))))))))"

definition decode_evpn_nlri :: "bytes \<Rightarrow> evpn_route list result" where
  "decode_evpn_nlri buf =
     rbind (rwhile (\<lambda>(buf, routes). length buf \<ge> 2) evpn_step (buf, []))
       (\<lambda>(buf, routes). Ok routes)"

subsection \<open>Safety\<close>

lemma decode_mpls_label_sat [simp]:
  "sat (decode_mpls_label b) Q \<longleftrightarrow> 3 \<le> length b \<and> Q (drop_bit 4 (from_be (take 3 b)))"
  by (simp add: decode_mpls_label_def)

lemma decode_evpn_router_ip_sat:
  "sat (decode_evpn_router_ip l buf) (\<lambda>_. True)"
  by (simp add: decode_evpn_router_ip_def)

lemma evpn_ip_sat: "n = 4 \<or> n = 16 \<Longrightarrow> off + n \<le> length v \<Longrightarrow> sat (evpn_ip v n off) (\<lambda>_. True)"
  by (auto simp: evpn_ip_def)

lemma evpn_next_sat: "sat (evpn_next v l pos) (\<lambda>p. p < length v)"
  by (auto simp: evpn_next_def Let_def)

lemma evpn_multicast_sat: "sat (evpn_multicast v) (\<lambda>_. True)"
  by (auto simp: evpn_multicast_def intro!: sat_weaken [OF decode_evpn_router_ip_sat]
      sat_weaken [OF evpn_next_sat] split: prod.splits)

lemma evpn_mac_ip_sat: "30 \<le> length v \<Longrightarrow> sat (evpn_mac_ip v l) (\<lambda>(ip, pos). 30 \<le> pos)"
  by (simp add: evpn_mac_ip_def)

lemmas evpn_part_sats = sat_weaken [OF evpn_ip_sat] sat_weaken [OF decode_evpn_router_ip_sat]
  sat_weaken [OF evpn_multicast_sat] sat_weaken [OF evpn_mac_ip_sat]

lemma evpn_type1_sat: "sat (evpn_type1 v) (\<lambda>r. route_type_code r = 1)"
  by (simp add: evpn_type1_def)

lemma evpn_type2_sat: "sat (evpn_type2 v) (\<lambda>r. route_type_code r = 2)"
  unfolding evpn_type2_def
  by (simp, intro impI, rule evpn_part_sats) (simp_all split: prod.splits)

lemma evpn_type3_sat: "sat (evpn_type3 v) (\<lambda>r. route_type_code r = 3)"
  unfolding evpn_type3_def by (simp, intro impI, rule evpn_part_sats) simp

lemma evpn_type4_sat: "sat (evpn_type4 v) (\<lambda>r. route_type_code r = 4)"
  unfolding evpn_type4_def by (simp, intro impI, rule evpn_part_sats) simp

lemma evpn_type5_sat: "sat (evpn_type5 v) (\<lambda>r. route_type_code r = 5)"
  unfolding evpn_type5_def by (auto simp: Let_def intro!: evpn_part_sats)

lemma evpn_type678_sat:
  "t = 6 \<or> t = 7 \<or> t = 8 \<Longrightarrow> sat (evpn_type678 t v) (\<lambda>r. route_type_code r = t)"
  unfolding evpn_type678_def by (auto intro!: evpn_part_sats split: prod.splits)

lemma evpn_type9_sat: "sat (evpn_type9 v) (\<lambda>r. route_type_code r = 9)"
  unfolding evpn_type9_def by (simp, intro impI, rule evpn_part_sats) simp

lemma evpn_type10_sat: "sat (evpn_type10 v) (\<lambda>r. route_type_code r = 10)"
  unfolding evpn_type10_def by (auto intro!: evpn_part_sats split: prod.splits)

lemma evpn_type11_sat: "sat (evpn_type11 v) (\<lambda>r. route_type_code r = 11)"
  by (simp add: evpn_type11_def)

lemmas evpn_type_sats = evpn_type1_sat evpn_type2_sat evpn_type3_sat evpn_type4_sat evpn_type5_sat
  evpn_type678_sat evpn_type9_sat evpn_type10_sat evpn_type11_sat

lemma parse_evpn_route_sat: "sat (parse_evpn_route t v) (\<lambda>r. route_type_code r = t)"
  unfolding parse_evpn_route_def by (auto intro: evpn_type_sats)

lemma evpn_step_sat:
  assumes "2 \<le> length buf"
  shows "sat (evpn_step (buf, routes))
     (\<lambda>r. \<exists>rest route. r = Cont (rest, routes @ [route]) \<and> length rest < length buf)"
  using assms by (auto simp: evpn_step_def intro!: sat_weaken [OF parse_evpn_route_sat])

lemma decode_evpn_nlri_sat: "sat (decode_evpn_nlri buf) (\<lambda>_. True)"
  unfolding decode_evpn_nlri_def
  by (rule sat_bindI [where P = "\<lambda>_. True"],
      rule rwhile_sat [where I = "\<lambda>_. True" and \<mu> = "\<lambda>(buf, routes). length buf"])
    (auto intro!: sat_weaken [OF evpn_step_sat])

subsection \<open>Round trip\<close>

text \<open>The wire forms given in the comments of \<^verbatim>\<open>parse_evpn_route\<close>.\<close>

definition label_bytes :: "u32 \<Rightarrow> bytes" where
  "label_bytes l = to_be 3 (unat l * 16)"

fun ip_bytes :: "ip_addr \<Rightarrow> bytes" where
  "ip_bytes (IpV4 a) = to_be 4 (unat a)"
| "ip_bytes (IpV6 a) = to_be 16 (unat a)"

fun ip_bits :: "ip_addr \<Rightarrow> u8" where
  "ip_bits (IpV4 a) = 32"
| "ip_bits (IpV6 a) = 128"

definition sized_ip :: "ip_addr \<Rightarrow> bytes" where
  "sized_ip a = ip_bits a # ip_bytes a"

definition multicast_bytes :: "bytes \<Rightarrow> u32 \<Rightarrow> ip_addr \<Rightarrow> ip_addr \<Rightarrow> ip_addr \<Rightarrow> bytes" where
  "multicast_bytes rd et s g r = rd @ to_be 4 (unat et) @ sized_ip s @ sized_ip g @ sized_ip r"

fun encode_evpn :: "evpn_route \<Rightarrow> bytes" where
  "encode_evpn (EthernetAutoDiscovery rd esi et l) = rd @ esi @ to_be 4 (unat et) @ label_bytes l"
| "encode_evpn (MacIpAdvertisement rd esi et mac ip l1 l2) =
     rd @ esi @ to_be 4 (unat et) @ 48 # mac @ (case ip of None \<Rightarrow> [0] | Some a \<Rightarrow> sized_ip a)
     @ label_bytes l1 @ (case l2 of None \<Rightarrow> [] | Some l \<Rightarrow> label_bytes l)"
| "encode_evpn (InclusiveMulticastEthernetTag rd et ip) = rd @ to_be 4 (unat et) @ sized_ip ip"
| "encode_evpn (EthernetSegment rd esi ip) = rd @ esi @ sized_ip ip"
| "encode_evpn (IpPrefix rd esi et p pl gw l) =
     rd @ esi @ to_be 4 (unat et) @ pl # ip_bytes p
     @ (case gw of None \<Rightarrow> replicate (length (ip_bytes p)) 0 | Some a \<Rightarrow> ip_bytes a) @ label_bytes l"
| "encode_evpn (SelectiveMulticastEthernetTag rd et s g r) = multicast_bytes rd et s g r"
| "encode_evpn (IgmpJoinSynch rd et s g r) = multicast_bytes rd et s g r"
| "encode_evpn (IgmpLeaveSynch rd et s g r) = multicast_bytes rd et s g r"
| "encode_evpn (PerRegionIPmsi rd et r) = rd @ to_be 4 (unat et) @ sized_ip r"
| "encode_evpn (SPmsi rd et s g r) = multicast_bytes rd et s g r"
| "encode_evpn (LeafAD k i) = k @ to_be 4 (unat i)"
| "encode_evpn (Evpn_Unknown t d) = d"

text \<open>What the decoder can represent: field sizes, 20-bit labels, and for type 5 a prefix length
  above 32 exactly for IPv6, since the decoder infers the family from the prefix length.\<close>

fun evpn_wf :: "evpn_route \<Rightarrow> bool" where
  "evpn_wf (EthernetAutoDiscovery rd esi et l) \<longleftrightarrow> length rd = 8 \<and> length esi = 10 \<and> unat l < 2 ^ 20"
| "evpn_wf (MacIpAdvertisement rd esi et mac ip l1 l2) \<longleftrightarrow>
     length rd = 8 \<and> length esi = 10 \<and> length mac = 6 \<and> unat l1 < 2 ^ 20
     \<and> (case l2 of None \<Rightarrow> True | Some l \<Rightarrow> unat l < 2 ^ 20)"
| "evpn_wf (InclusiveMulticastEthernetTag rd et ip) \<longleftrightarrow> length rd = 8"
| "evpn_wf (EthernetSegment rd esi ip) \<longleftrightarrow> length rd = 8 \<and> length esi = 10"
| "evpn_wf (IpPrefix rd esi et p pl gw l) \<longleftrightarrow>
     length rd = 8 \<and> length esi = 10 \<and> unat l < 2 ^ 20 \<and> (pl \<le> 32 \<longleftrightarrow> ip_bits p = 32)
     \<and> (case gw of None \<Rightarrow> True
         | Some a \<Rightarrow> ip_bits a = ip_bits p \<and> \<not> list_all (\<lambda>b. b = 0) (ip_bytes a))"
| "evpn_wf (SelectiveMulticastEthernetTag rd et s g r) \<longleftrightarrow> length rd = 8"
| "evpn_wf (IgmpJoinSynch rd et s g r) \<longleftrightarrow> length rd = 8"
| "evpn_wf (IgmpLeaveSynch rd et s g r) \<longleftrightarrow> length rd = 8"
| "evpn_wf (PerRegionIPmsi rd et r) \<longleftrightarrow> length rd = 8"
| "evpn_wf (SPmsi rd et s g r) \<longleftrightarrow> length rd = 8"
| "evpn_wf (LeafAD k i) \<longleftrightarrow> True"
| "evpn_wf (Evpn_Unknown t d) \<longleftrightarrow> t = 0 \<or> 11 < t"

lemma length_label_bytes [simp]: "length (label_bytes l) = 3"
  by (simp add: label_bytes_def)

lemma length_ip_bytes: "length (ip_bytes a) = (if ip_bits a = 32 then 4 else 16)"
  by (cases a) simp_all

lemma decode_mpls_label_bytes:
  "unat l < 2 ^ 20 \<Longrightarrow> decode_mpls_label (label_bytes l) = Ok l"
  using drop_label_field [of l 0]
  by (simp add: decode_mpls_label_def label_bytes_def u24_at_def slice_def)

lemma router_ip_bytes: "decode_evpn_router_ip (ip_bits a) (ip_bytes a @ rest) = Ok a"
  by (cases a) (simp_all add: decode_evpn_router_ip_def ipv4_at_def ipv6_at_def slice_def)

lemma router_ip_bytes_Nil: "decode_evpn_router_ip (ip_bits a) (ip_bytes a) = Ok a"
  using router_ip_bytes [of a "[]"] by simp

text \<open>Reads at the boundary of a concatenation.\<close>

lemma slice_mid: "a = length xs \<Longrightarrow> b = a + length ys \<Longrightarrow> slice (xs @ ys @ zs) a b = Ok ys"
  by (simp add: slice_def)

lemma u32_at_mid: "a = length xs \<Longrightarrow> u32_at (xs @ to_be 4 (unat w) @ zs) a = Ok w"
  by (simp add: u32_at_def slice_mid)

lemma idx_mid: "a = length xs \<Longrightarrow> idx (xs @ y # zs) a = Ok y"
  by (simp add: idx_def)

lemma slice_from_mid: "a = length xs \<Longrightarrow> slice_from (xs @ ys) a = Ok ys"
  by (simp add: slice_from_def)

lemma evpn_next_mid:
  "pos = length xs \<Longrightarrow> zs \<noteq> [] \<Longrightarrow>
   evpn_next (xs @ ip_bytes a @ zs) (ip_bits a) pos = Ok (length xs + length (ip_bytes a))"
  by (cases a) (simp_all add: evpn_next_def)

lemma evpn_multicast_bytes:
  assumes "length rd = 8"
  shows "evpn_multicast (multicast_bytes rd et s g r) = Ok (rd, et, s, g, r)"
proof -
  let ?v = "multicast_bytes rd et s g r"
  let ?p = "13 + length (ip_bytes s)"
  let ?q = "?p + 1 + length (ip_bytes g)"
  have v1: "?v = rd @ to_be 4 (unat et) @ ip_bits s # ip_bytes s @ sized_ip g @ sized_ip r"
    and v2: "?v = (rd @ to_be 4 (unat et)) @ ip_bits s # ip_bytes s @ sized_ip g @ sized_ip r"
    and v3: "?v = (rd @ to_be 4 (unat et) @ [ip_bits s]) @ ip_bytes s @ sized_ip g @ sized_ip r"
    and v4: "?v = (rd @ to_be 4 (unat et) @ sized_ip s) @ ip_bits g # ip_bytes g @ sized_ip r"
    and v5: "?v = (rd @ to_be 4 (unat et) @ sized_ip s @ [ip_bits g]) @ ip_bytes g @ sized_ip r"
    and v6: "?v = (rd @ to_be 4 (unat et) @ sized_ip s @ sized_ip g) @ ip_bits r # ip_bytes r"
    and v7: "?v = (rd @ to_be 4 (unat et) @ sized_ip s @ sized_ip g @ [ip_bits r]) @ ip_bytes r"
    by (simp_all add: multicast_bytes_def sized_ip_def)
  have len: "length rd = 8" "length (sized_ip s) = 1 + length (ip_bytes s)"
    "length (sized_ip g) = 1 + length (ip_bytes g)" "sized_ip g \<noteq> []" "sized_ip r \<noteq> []"
    using assms by (simp_all add: sized_ip_def)
  have reads: "slice ?v 0 8 = (Ok rd :: bytes result)" "u32_at ?v 8 = (Ok et :: u32 result)"
    by (simp_all add: v1 slice_def u32_at_mid len)
  have lens: "idx ?v 12 = (Ok (ip_bits s) :: u8 result)"
    unfolding v2 by (rule idx_mid) (simp add: len)
  have leng: "idx ?v ?p = (Ok (ip_bits g) :: u8 result)"
    unfolding v4 by (rule idx_mid) (simp add: len)
  have lenr: "idx ?v ?q = (Ok (ip_bits r) :: u8 result)"
    unfolding v6 by (rule idx_mid) (simp add: len)
  have rests: "slice_from ?v 13 = (Ok (ip_bytes s @ sized_ip g @ sized_ip r) :: bytes result)"
    unfolding v3 by (rule slice_from_mid) (simp add: len)
  have restg: "slice_from ?v (?p + 1) = (Ok (ip_bytes g @ sized_ip r) :: bytes result)"
    unfolding v5 by (rule slice_from_mid) (simp add: len)
  have restr: "slice_from ?v (?q + 1) = (Ok (ip_bytes r) :: bytes result)"
    unfolding v7 by (rule slice_from_mid) (simp add: len)
  have nexts: "evpn_next ?v (ip_bits s) 13 = Ok ?p"
    unfolding v3 by (subst evpn_next_mid) (simp_all add: len)
  have nextg: "evpn_next ?v (ip_bits g) (?p + 1) = Ok ?q"
    unfolding v5 by (subst evpn_next_mid) (simp_all add: len)
  have "\<not> length ?v < 13" using assms by (simp add: multicast_bytes_def sized_ip_def)
  then show ?thesis
    unfolding evpn_multicast_def
    by (simp only: reads lens leng lenr rests restg restr nexts nextg router_ip_bytes
        router_ip_bytes_Nil if_False rbind_simps)
qed

lemma evpn_type5_bytes:
  assumes "evpn_wf (IpPrefix rd esi et p pl gw l)"
  shows "evpn_type5 (encode_evpn (IpPrefix rd esi et p pl gw l)) = Ok (IpPrefix rd esi et p pl gw l)"
proof -
  let ?n = "length (ip_bytes p)"
  let ?g = "case gw of None \<Rightarrow> replicate ?n 0 | Some a \<Rightarrow> ip_bytes a"
  let ?v = "encode_evpn (IpPrefix rd esi et p pl gw l)"
  define hd where "hd = rd @ esi @ to_be 4 (unat et) @ [pl]"
  have v1: "?v = rd @ esi @ to_be 4 (unat et) @ pl # ip_bytes p @ ?g @ label_bytes l"
    and v2: "?v = (rd @ esi) @ to_be 4 (unat et) @ pl # ip_bytes p @ ?g @ label_bytes l"
    and v3: "?v = (rd @ esi @ to_be 4 (unat et)) @ pl # ip_bytes p @ ?g @ label_bytes l"
    and v4: "?v = hd @ ip_bytes p @ ?g @ label_bytes l"
    and v5: "?v = (hd @ ip_bytes p) @ ?g @ label_bytes l"
    and v6: "?v = (hd @ ip_bytes p @ ?g) @ label_bytes l @ []"
    by (simp_all add: hd_def)
  have n: "?n = (if pl \<le> 32 then 4 else 16)" and g: "length ?g = ?n" and label: "unat l < 2 ^ 20"
    and len: "length hd = 23" "length rd = 8" "length esi = 10"
    using assms by (auto simp: hd_def length_ip_bytes split: option.splits)
  have ip: "evpn_ip (xs @ ip_bytes a @ ys) (length (ip_bytes a)) (length xs) = Ok a" for xs a ys
    by (cases a) (simp_all add: evpn_ip_def ipv4_at_def ipv6_at_def slice_def)
  have heads: "slice ?v 0 8 = (Ok rd :: bytes result)" "slice ?v 8 18 = (Ok esi :: bytes result)"
    by (simp_all add: v1 slice_def len)
  have tag: "u32_at ?v 18 = (Ok et :: u32 result)"
    unfolding v2 by (rule u32_at_mid) (simp add: len)
  have plen: "idx ?v 22 = (Ok pl :: u8 result)"
    unfolding v3 by (rule idx_mid) (simp add: len)
  have pfx: "evpn_ip ?v ?n 23 = Ok p"
    unfolding v4 using ip [of hd p "?g @ label_bytes l"] by (simp only: len)
  have gws: "slice ?v (23 + ?n) (23 + ?n + ?n) = (Ok ?g :: bytes result)"
    unfolding v5 by (rule slice_mid) (simp_all only: length_append len g)
  have gwip: "(if list_all (\<lambda>b. b = 0) ?g then Ok None
      else rbind (evpn_ip ?v ?n (23 + ?n)) (\<lambda>a. Ok (Some a))) = (Ok gw :: _ result)"
  proof (cases gw)
    case None
    then show ?thesis by (simp add: list_all_iff)
  next
    case (Some a)
    with assms have "\<not> list_all (\<lambda>b. b = 0) (ip_bytes a)" and eq: "length (ip_bytes a) = ?n"
      by (auto simp: length_ip_bytes)
    moreover have "evpn_ip ?v ?n (23 + ?n) = Ok a"
      unfolding v5 using ip [of "hd @ ip_bytes p" a "label_bytes l"] Some
      by (simp only: length_append len eq option.case)
    ultimately show ?thesis by (simp add: Some)
  qed
  have lab: "slice ?v (23 + ?n + ?n) (23 + ?n + ?n + 3) = (Ok (label_bytes l) :: bytes result)"
    unfolding v6 by (rule slice_mid) (simp_all only: length_append len g length_label_bytes add.assoc)
  have total: "length ?v = 23 + ?n * 2 + 3"
    unfolding v4 by (simp only: length_append len g length_label_bytes)
  have big: "\<not> length ?v < 34" unfolding total using n by simp
  have fits: "\<not> length ?v < 23 + ?n * 2 + 3" by (simp only: total less_irrefl not_False_eq_True)
  show ?thesis
    unfolding evpn_type5_def Let_def
    by (simp only: big heads tag plen rbind_simps if_False n [symmetric] fits pfx gws gwip lab
        decode_mpls_label_bytes [OF label])
qed

lemma evpn_type2_bytes:
  assumes "evpn_wf (MacIpAdvertisement rd esi et mac ip l1 l2)"
  shows "evpn_type2 (encode_evpn (MacIpAdvertisement rd esi et mac ip l1 l2)) =
    Ok (MacIpAdvertisement rd esi et mac ip l1 l2)"
proof -
  let ?v = "encode_evpn (MacIpAdvertisement rd esi et mac ip l1 l2)"
  let ?bits = "case ip of None \<Rightarrow> 0 | Some a \<Rightarrow> ip_bits a"
  let ?ip = "case ip of None \<Rightarrow> [] | Some a \<Rightarrow> ip_bytes a"
  let ?l2 = "case l2 of None \<Rightarrow> [] | Some l \<Rightarrow> label_bytes l"
  let ?pos = "30 + length ?ip"
  define hd where "hd = rd @ esi @ to_be 4 (unat et) @ 48 # mac @ [?bits]"
  have v1: "?v = rd @ esi @ to_be 4 (unat et) @ 48 # mac @ ?bits # ?ip @ label_bytes l1 @ ?l2"
    and v2: "?v = (rd @ esi) @ to_be 4 (unat et) @ 48 # mac @ ?bits # ?ip @ label_bytes l1 @ ?l2"
    and v3: "?v = (rd @ esi @ to_be 4 (unat et)) @ 48 # mac @ ?bits # ?ip @ label_bytes l1 @ ?l2"
    and v4: "?v = (rd @ esi @ to_be 4 (unat et) @ [48]) @ mac @ ?bits # ?ip @ label_bytes l1 @ ?l2"
    and v5: "?v = (rd @ esi @ to_be 4 (unat et) @ 48 # mac) @ ?bits # ?ip @ label_bytes l1 @ ?l2"
    and v6: "?v = hd @ ?ip @ label_bytes l1 @ ?l2"
    and v7: "?v = (hd @ ?ip) @ label_bytes l1 @ ?l2"
    and v8: "?v = (hd @ ?ip @ label_bytes l1) @ ?l2 @ []"
    by (simp_all add: hd_def sized_ip_def split: option.splits)
  have len: "length hd = 30" "length rd = 8" "length esi = 10" "length mac = 6" and l1: "unat l1 < 2 ^ 20"
    using assms by (auto simp: hd_def)
  have heads: "slice ?v 0 8 = (Ok rd :: bytes result)" "slice ?v 8 18 = (Ok esi :: bytes result)"
    by (simp_all add: v1 slice_def len)
  have tag: "u32_at ?v 18 = (Ok et :: u32 result)"
    unfolding v2 by (rule u32_at_mid) (simp add: len)
  have maclen: "idx ?v 22 = (Ok 48 :: u8 result)"
    unfolding v3 by (rule idx_mid) (simp add: len)
  have macs: "slice ?v 23 29 = (Ok mac :: bytes result)"
    unfolding v4 by (rule slice_mid) (simp_all add: len)
  have iplen: "idx ?v 29 = (Ok ?bits :: u8 result)"
    unfolding v5 by (rule idx_mid) (simp add: len)
  have macip: "evpn_mac_ip ?v ?bits = Ok (ip, ?pos)"
  proof (cases ip)
    case None
    then show ?thesis by (simp add: evpn_mac_ip_def)
  next
    case (Some a)
    then show ?thesis
      unfolding v6 by (cases a) (simp_all add: evpn_mac_ip_def ipv4_at_def ipv6_at_def slice_def len)
  qed
  have lab1: "slice ?v ?pos (?pos + 3) = (Ok (label_bytes l1) :: bytes result)"
    unfolding v7 by (rule slice_mid) (simp_all only: length_append len length_label_bytes)
  have total: "length ?v = ?pos + 3 + length ?l2"
    unfolding v6 by (simp only: length_append len length_label_bytes add.assoc)
  have lab2: "(if length ?v \<ge> ?pos + 6 then rbind (slice ?v (?pos + 3) (?pos + 6)) (\<lambda>lb2.
      rbind (decode_mpls_label lb2) (\<lambda>l. Ok (Some l))) else Ok None) = (Ok l2 :: _ result)"
  proof (cases l2)
    case None
    with total show ?thesis by (simp del: encode_evpn.simps)
  next
    case (Some l)
    with assms have "unat l < 2 ^ 20" by simp
    moreover have "slice ?v (?pos + 3) (?pos + 6) = (Ok ?l2 :: bytes result)"
      unfolding v8 by (rule slice_mid) (simp_all add: len Some)
    ultimately show ?thesis
      using total by (simp add: Some decode_mpls_label_bytes del: encode_evpn.simps)
  qed
  have big: "\<not> length ?v < 33" "\<not> length ?v < ?pos + 3" using total by simp_all
  show ?thesis
    unfolding evpn_type2_def
    by (simp only: big heads tag maclen macs iplen macip lab1 lab2 rbind_simps if_False if_True
        prod.case decode_mpls_label_bytes [OF l1] not_True_eq_False refl)
qed

lemma evpn_types_1_3_4_9_bytes:
  assumes "length rd = 8" "length esi = 10"
  shows "unat l < 2 ^ 20 \<Longrightarrow> evpn_type1 (rd @ esi @ to_be 4 (unat et) @ label_bytes l) =
      Ok (EthernetAutoDiscovery rd esi et l)"
    and "evpn_type3 (rd @ to_be 4 (unat et) @ sized_ip ip) = Ok (InclusiveMulticastEthernetTag rd et ip)"
    and "evpn_type4 (rd @ esi @ sized_ip ip) = Ok (EthernetSegment rd esi ip)"
    and "evpn_type9 (rd @ to_be 4 (unat et) @ sized_ip ip) = Ok (PerRegionIPmsi rd et ip)"
  using assms
  by (simp_all add: evpn_type1_def evpn_type3_def evpn_type4_def evpn_type9_def slice_def u32_at_def
      idx_def slice_from_def sized_ip_def nth_append router_ip_bytes_Nil decode_mpls_label_bytes)

lemma parse_evpn_route_encoded:
  assumes "evpn_wf r"
  shows "parse_evpn_route (route_type_code r) (encode_evpn r) = Ok r"
proof (cases r)
  case (MacIpAdvertisement rd esi et mac ip l1 l2)
  with assms evpn_type2_bytes show ?thesis
    by (simp add: parse_evpn_route_def del: encode_evpn.simps evpn_wf.simps)
next
  case (IpPrefix rd esi et p pl gw l)
  with assms evpn_type5_bytes show ?thesis
    by (simp add: parse_evpn_route_def del: encode_evpn.simps evpn_wf.simps)
next
  case (InclusiveMulticastEthernetTag rd et ip)
  with assms evpn_types_1_3_4_9_bytes(2) [of rd "replicate 10 0"] show ?thesis
    by (simp add: parse_evpn_route_def)
next
  case (PerRegionIPmsi rd et ip)
  with assms evpn_types_1_3_4_9_bytes(4) [of rd "replicate 10 0"] show ?thesis
    by (simp add: parse_evpn_route_def)
next
  case (LeafAD k i)
  then show ?thesis by (simp add: parse_evpn_route_def evpn_type11_def u32_at_def slice_def)
next
  case (Evpn_Unknown t d)
  with assms have "t \<notin> {1, 2, 3, 4, 5, 6, 7, 8, 9, 10, 11}" by auto
  with Evpn_Unknown show ?thesis by (simp add: parse_evpn_route_def)
qed (use assms in \<open>simp_all add: parse_evpn_route_def evpn_type678_def evpn_type10_def
    evpn_multicast_bytes evpn_types_1_3_4_9_bytes\<close>)

definition evpn_entry :: "evpn_route \<Rightarrow> bytes" where
  "evpn_entry r = route_type_code r # word_of_nat (length (encode_evpn r)) # encode_evpn r"



subsection \<open>Safety\<close>

text \<open>\<^verbatim>\<open>decode_evpn_nlri\<close> never panics and always ends, whatever the bytes: each of the eleven route
  parsers checks its lengths before it reads.\<close>

theorem decode_evpn_nlri_safe: "decode_evpn_nlri buf \<noteq> Panic \<and> decode_evpn_nlri buf \<noteq> Diverge"
  using decode_evpn_nlri_sat [of buf] by (cases "decode_evpn_nlri buf") simp_all

end
