(* ===== verification/Flowspec.thy ===== *)
theory Flowspec
  imports Bgp_Types
begin

text \<open>
  \<^verbatim>\<open>rbmp-core/src/bgp/flowspec.rs\<close>: Flowspec NLRI, a sequence of length-prefixed rules, each
  a sequence of typed components with numeric or bitmask operator lists.  The operator loops are
  proved to stop within the buffer and to invert the wire form of an operator list; the decoder
  does not panic for IPv4, and for IPv6 it panics on a prefix length above 128.
\<close>

unbundle bit_operations_syntax

record numeric_op =
  num_lt :: bool
  num_gt :: bool
  num_eq :: bool
  num_and_bit :: bool
  num_value :: u64

record bitmask_op =
  bm_not :: bool
  bm_match_bit :: bool
  bm_and_bit :: bool
  bm_value :: u64

datatype flowspec_component =
    DestPrefix string u8
  | SrcPrefix string u8
  | IpProtocol "numeric_op list"
  | Port "numeric_op list"
  | DstPort "numeric_op list"
  | SrcPort "numeric_op list"
  | IcmpType "numeric_op list"
  | IcmpCode "numeric_op list"
  | TcpFlags "bitmask_op list"
  | PktLen "numeric_op list"
  | Dscp "numeric_op list"
  | Fragment "bitmask_op list"
  | Flowspec_Unknown u8 bytes

record flowspec_nlri =
  fs_components :: "flowspec_component list"
  fs_summary :: string

text \<open>\<^verbatim>\<open>1usize << ((op_byte >> 4) & 0x03)\<close>.\<close>

definition op_vlen :: "u8 \<Rightarrow> nat" where
  "op_vlen op_byte = 2 ^ unat (drop_bit 4 op_byte AND 0x03)"

definition parse_numeric_step :: "bytes \<Rightarrow> nat \<times> numeric_op list \<Rightarrow> (nat \<times> numeric_op list) ctl result" where
  "parse_numeric_step buf st =
     (case st of (pos, ops) \<Rightarrow>
        rbind (idx buf pos) (\<lambda>op_byte.
        let pos = pos + 1;
            eol = op_byte AND 0x80 \<noteq> 0;
            and_bit = op_byte AND 0x40 \<noteq> 0;
            lt = op_byte AND 0x04 \<noteq> 0;
            gt = op_byte AND 0x02 \<noteq> 0;
            eq = op_byte AND 0x01 \<noteq> 0;
            vlen = op_vlen op_byte
        in if pos + vlen > length buf then Ok (Brk (pos, ops))
           else rbind (if vlen = 1 then rbind (idx buf pos) (\<lambda>b. Ok (ucast b))
                       else if vlen = 2 then rbind (u16_at buf pos) (\<lambda>v. Ok (ucast v))
                       else if vlen = 4 then rbind (u32_at buf pos) (\<lambda>v. Ok (ucast v))
                       else if vlen = 8 then u64_at buf pos
                       else Ok 0) (\<lambda>value.
                let st' = (pos + vlen, ops @ [\<lparr>num_lt = lt, num_gt = gt, num_eq = eq,
                                               num_and_bit = and_bit, num_value = value\<rparr>])
                in if eol then Ok (Brk st') else Ok (Cont st'))))"

definition parse_numeric_ops :: "bytes \<Rightarrow> (numeric_op list \<times> nat) result" where
  "parse_numeric_ops buf =
     rbind (rwhile (\<lambda>(pos, ops). \<not> pos \<ge> length buf) (parse_numeric_step buf) (0, []))
       (\<lambda>(pos, ops). Ok (ops, pos))"

definition parse_bitmask_step :: "bytes \<Rightarrow> nat \<times> bitmask_op list \<Rightarrow> (nat \<times> bitmask_op list) ctl result" where
  "parse_bitmask_step buf st =
     (case st of (pos, ops) \<Rightarrow>
        rbind (idx buf pos) (\<lambda>op_byte.
        let pos = pos + 1;
            eol = op_byte AND 0x80 \<noteq> 0;
            and_bit = op_byte AND 0x40 \<noteq> 0;
            not_bit = op_byte AND 0x02 \<noteq> 0;
            match_bit = op_byte AND 0x01 \<noteq> 0;
            vlen = op_vlen op_byte
        in if pos + vlen > length buf then Ok (Brk (pos, ops))
           else rbind (if vlen = 1 then rbind (idx buf pos) (\<lambda>b. Ok (ucast b))
                       else if vlen = 2 then rbind (u16_at buf pos) (\<lambda>v. Ok (ucast v))
                       else Ok 0) (\<lambda>value.
                let st' = (pos + vlen, ops @ [\<lparr>bm_not = not_bit, bm_match_bit = match_bit,
                                               bm_and_bit = and_bit, bm_value = value\<rparr>])
                in if eol then Ok (Brk st') else Ok (Cont st'))))"

definition parse_bitmask_ops :: "bytes \<Rightarrow> (bitmask_op list \<times> nat) result" where
  "parse_bitmask_ops buf =
     rbind (rwhile (\<lambda>(pos, ops). \<not> pos \<ge> length buf) (parse_bitmask_step buf) (0, []))
       (\<lambda>(pos, ops). Ok (ops, pos))"

text \<open>Components 1 and 2: the IPv6 branch slices \<^verbatim>\<open>a[..octets]\<close> of a 16-byte array unchecked.\<close>

definition flowspec_prefix :: "u8 \<Rightarrow> bytes \<Rightarrow> bool \<Rightarrow> (flowspec_component \<times> string \<times> nat) result" where
  "flowspec_prefix t buf ipv6 =
     (if buf = [] then Err (UnexpectedEof 1 0)
      else rbind (idx buf 0) (\<lambda>prefix_len.
           let octets = (unat prefix_len + 7) div 8 in
           if length buf < 1 + octets then Err (UnexpectedEof (1 + octets) (length buf))
           else rbind (if ipv6
                       then rbind (slice buf 1 (1 + octets)) (\<lambda>chunk.
                            rbind (pad_array 16 octets chunk) (\<lambda>a. Ok (show_ipv6 (from_be a))))
                       else let n = min octets 4 in
                            rbind (slice buf 1 (1 + n)) (\<lambda>chunk.
                            rbind (pad_array 4 n chunk) (\<lambda>a. Ok (show_ipv4 (from_be a))))) (\<lambda>prefix.
                Ok (if t = 1 then DestPrefix prefix prefix_len else SrcPrefix prefix prefix_len,
                    (if t = 1 then ''dst'' else ''src'') @ ''='' @ prefix @ ''/''
                      @ show_nat (unat prefix_len),
                    1 + octets))))"

definition flowspec_numeric :: "u8 \<Rightarrow> bytes \<Rightarrow> (flowspec_component \<times> string \<times> nat) result" where
  "flowspec_numeric t buf =
     rbind (parse_numeric_ops buf) (\<lambda>(ops, consumed).
       Ok (if t = 3 then IpProtocol ops else if t = 4 then Port ops else if t = 5 then DstPort ops
           else if t = 6 then SrcPort ops else if t = 7 then IcmpType ops
           else if t = 8 then IcmpCode ops else if t = 10 then PktLen ops else Dscp ops,
           (if t = 3 then ''proto'' else if t = 4 then ''port'' else if t = 5 then ''dstport''
            else if t = 6 then ''srcport'' else if t = 7 then ''icmptype''
            else if t = 8 then ''icmpcode'' else if t = 10 then ''pktlen'' else ''dscp'')
             @ ''='' @ join '','' (map (\<lambda>o'. show_nat (unat (num_value o'))) ops),
           consumed))"

definition flowspec_bitmask :: "u8 \<Rightarrow> bytes \<Rightarrow> (flowspec_component \<times> string \<times> nat) result" where
  "flowspec_bitmask t buf =
     rbind (parse_bitmask_ops buf) (\<lambda>(ops, consumed).
       Ok (if t = 9 then TcpFlags ops else Fragment ops,
           (if t = 9 then ''tcpflags'' else ''fragment'') @ ''=0x''
             @ show_hex (case slice_first ops of Some o' \<Rightarrow> unat (bm_value o') | None \<Rightarrow> 0),
           consumed))"

definition parse_flowspec_component :: "u8 \<Rightarrow> bytes \<Rightarrow> bool \<Rightarrow> (flowspec_component \<times> string \<times> nat) result" where
  "parse_flowspec_component t buf ipv6 =
     (if t = 1 \<or> t = 2 then flowspec_prefix t buf ipv6
      else if (3 \<le> t \<and> t \<le> 8) \<or> t = 10 \<or> t = 11 then flowspec_numeric t buf
      else if t = 9 \<or> t = 12 then flowspec_bitmask t buf
      else Ok (Flowspec_Unknown t buf, ''unknown-type-'' @ show_nat (unat t), length buf))"

definition parse_flowspec_nlri :: "bytes \<Rightarrow> bool \<Rightarrow> flowspec_nlri result" where
  "parse_flowspec_nlri buf ipv6 =
     rbind (rwhile (\<lambda>(buf, components, parts). buf \<noteq> [])
       (\<lambda>(buf, components, parts).
          rbind (idx buf 0) (\<lambda>comp_type.
          rbind (slice_from buf 1) (\<lambda>buf.
          rbind (parse_flowspec_component comp_type buf ipv6) (\<lambda>(comp, summary, consumed).
          rbind (slice_from buf consumed) (\<lambda>buf.
            Ok (Cont (buf, components @ [comp], parts @ [summary])))))))
       (buf, [], []))
     (\<lambda>(buf, components, parts). Ok \<lparr>fs_components = components, fs_summary = join '' '' parts\<rparr>)"

text \<open>The length of a rule and the size of its header; \<open>None\<close> is the \<^verbatim>\<open>break\<close> on a lone byte.\<close>

definition flowspec_header :: "bytes \<Rightarrow> (nat \<times> nat) option result" where
  "flowspec_header buf =
     rbind (idx buf 0) (\<lambda>b.
       if b < 0xF0 then Ok (Some (unat b, 1))
       else if length buf \<ge> 2
       then rbind (idx buf 1) (\<lambda>c. Ok (Some ((unat b mod 16) * 256 + unat c, 2)))
       else Ok None)"

definition decode_flowspec_nlri :: "bytes \<Rightarrow> bool \<Rightarrow> flowspec_nlri list result" where
  "decode_flowspec_nlri buf ipv6 =
     rbind (rwhile (\<lambda>(buf, result). buf \<noteq> [])
       (\<lambda>(buf, result).
          rbind (flowspec_header buf) (\<lambda>hdr.
            case hdr of None \<Rightarrow> Ok (Brk (buf, result))
            | Some (len, header_size) \<Rightarrow>
               if length buf < header_size + len then Ok (Brk (buf, result))
               else rbind (slice buf header_size (header_size + len)) (\<lambda>nlri_bytes.
                    rbind (slice_from buf (header_size + len)) (\<lambda>buf.
                    rbind (parse_flowspec_nlri nlri_bytes ipv6) (\<lambda>r.
                      Ok (Cont (buf, result @ [r])))))))
       (buf, []))
     (\<lambda>(buf, result). Ok result)"

subsection \<open>No panic\<close>

lemma op_vlen_cases: "op_vlen b \<in> {1, 2, 4, 8}"
proof -
  have "drop_bit 4 b AND 0x03 = take_bit 2 (drop_bit 4 b)"
    by (simp add: take_bit_eq_mask mask_eq_exp_minus_1)
  then have "unat (drop_bit 4 b AND 0x03) = unat (drop_bit 4 b) mod 4"
    by (simp only: unsigned_take_bit_eq) (simp add: take_bit_eq_mod)
  moreover have "unat (drop_bit 4 b) mod 4 < 4" by simp
  ultimately have "unat (drop_bit 4 b AND 0x03) \<in> {0, 1, 2, 3}" by auto
  then show ?thesis by (auto simp: op_vlen_def)
qed

lemma op_vlen_pos [simp]: "0 < op_vlen b"
  by (simp add: op_vlen_def)

lemma parse_numeric_ops_sat: "sat (parse_numeric_ops buf) (\<lambda>(ops, n). n \<le> length buf \<and> length ops \<le> n)"
proof -
  have "sat (rwhile (\<lambda>(pos, ops). \<not> pos \<ge> length buf) (parse_numeric_step buf) (0, []))
     (\<lambda>(pos, ops). pos \<le> length buf \<and> length ops \<le> pos)"
    by (rule rwhile_sat [where I = "\<lambda>(pos, ops). pos \<le> length buf \<and> length ops \<le> pos"
          and \<mu> = "\<lambda>(pos, ops). length buf - pos"])
      (auto simp: parse_numeric_step_def Let_def)
  then show ?thesis by (auto simp: parse_numeric_ops_def intro: sat_weaken)
qed

lemma parse_bitmask_ops_sat: "sat (parse_bitmask_ops buf) (\<lambda>(ops, n). n \<le> length buf \<and> length ops \<le> n)"
proof -
  have "sat (rwhile (\<lambda>(pos, ops). \<not> pos \<ge> length buf) (parse_bitmask_step buf) (0, []))
     (\<lambda>(pos, ops). pos \<le> length buf \<and> length ops \<le> pos)"
    by (rule rwhile_sat [where I = "\<lambda>(pos, ops). pos \<le> length buf \<and> length ops \<le> pos"
          and \<mu> = "\<lambda>(pos, ops). length buf - pos"])
      (auto simp: parse_bitmask_step_def Let_def)
  then show ?thesis by (auto simp: parse_bitmask_ops_def intro: sat_weaken)
qed

lemma flowspec_prefix_sat: "sat (flowspec_prefix t buf False) (\<lambda>(c, s, n). n \<le> length buf)"
  by (auto simp: flowspec_prefix_def Let_def)

lemma flowspec_numeric_sat: "sat (flowspec_numeric t buf) (\<lambda>(c, s, n). n \<le> length buf)"
  unfolding flowspec_numeric_def by (rule sat_bindI [OF parse_numeric_ops_sat]) auto

lemma flowspec_bitmask_sat: "sat (flowspec_bitmask t buf) (\<lambda>(c, s, n). n \<le> length buf)"
  unfolding flowspec_bitmask_def by (rule sat_bindI [OF parse_bitmask_ops_sat]) auto

lemma parse_flowspec_component_sat:
  "sat (parse_flowspec_component t buf False) (\<lambda>(c, s, n). n \<le> length buf)"
  by (simp add: parse_flowspec_component_def flowspec_prefix_sat flowspec_numeric_sat flowspec_bitmask_sat)

lemma parse_flowspec_nlri_sat: "sat (parse_flowspec_nlri buf False) (\<lambda>_. True)"
proof -
  have "sat (rwhile (\<lambda>(buf, components, parts). buf \<noteq> [])
       (\<lambda>(buf, components, parts).
          rbind (idx buf 0) (\<lambda>comp_type.
          rbind (slice_from buf 1) (\<lambda>buf.
          rbind (parse_flowspec_component comp_type buf False) (\<lambda>(comp, summary, consumed).
          rbind (slice_from buf consumed) (\<lambda>buf.
            Ok (Cont (buf, components @ [comp], parts @ [summary])))))))
       (buf, [], [])) (\<lambda>_. True)"
    by (rule rwhile_sat [where I = "\<lambda>_. True" and \<mu> = "\<lambda>(buf, c, p). length buf"])
      (auto simp: Suc_le_eq intro!: sat_weaken [OF parse_flowspec_component_sat])
  then show ?thesis by (simp add: parse_flowspec_nlri_def split_def)
qed

lemma flowspec_header_sat:
  "buf \<noteq> [] \<Longrightarrow> sat (flowspec_header buf) (\<lambda>h. case h of None \<Rightarrow> True | Some (l, hs) \<Rightarrow> 0 < hs)"
  by (auto simp: flowspec_header_def)

lemma decode_flowspec_nlri_sat: "sat (decode_flowspec_nlri buf False) (\<lambda>_. True)"
  unfolding decode_flowspec_nlri_def
  by (rule sat_bindI [OF rwhile_sat [where I = "\<lambda>_. True" and \<mu> = "\<lambda>(buf, r). length buf" and Q = "\<lambda>_. True"]])
    (auto split: option.splits intro!: sat_bindI [OF flowspec_header_sat] sat_weaken [OF parse_flowspec_nlri_sat])

lemma flowspec_prefix_overlong:
  assumes "128 < unat l" "(unat l + 7) div 8 \<le> length rest"
  shows "flowspec_prefix t (l # rest) True = Panic"
proof -
  have "\<not> (unat l + 7) div 8 \<le> 16" using assms(1) by linarith
  with assms(2) show ?thesis by (simp add: flowspec_prefix_def idx_def slice_def pad_array_def Let_def)
qed

text \<open>For IPv6 too the decoder always stops.\<close>

lemma parse_flowspec_component_stops:
  "stops (parse_flowspec_component t buf v6) (\<lambda>(c, s, n). n \<le> length buf)"
proof -
  have "stops (flowspec_prefix t buf v6) (\<lambda>(c, s, n). n \<le> length buf)"
    by (auto simp: flowspec_prefix_def Let_def)
  then show ?thesis
    by (simp add: parse_flowspec_component_def sat_stops [OF flowspec_numeric_sat]
        sat_stops [OF flowspec_bitmask_sat])
qed

lemma parse_flowspec_nlri_stops: "stops (parse_flowspec_nlri buf v6) (\<lambda>_. True)"
  unfolding parse_flowspec_nlri_def stops_rbind
  by (rule stops_weaken [OF rwhile_stops [where I = "\<lambda>_. True" and \<mu> = "\<lambda>(b, c, p). length b" and Q = "\<lambda>_. True"]])
    (auto intro!: stops_weaken [OF parse_flowspec_component_stops])

lemma decode_flowspec_nlri_stops: "stops (decode_flowspec_nlri buf v6) (\<lambda>_. True)"
  unfolding decode_flowspec_nlri_def stops_rbind
  by (rule stops_weaken [OF rwhile_stops [where I = "\<lambda>_. True" and \<mu> = "\<lambda>(b, r). length b" and Q = "\<lambda>_. True"]])
    (auto split: option.splits intro!: stops_weaken [OF sat_stops [OF flowspec_header_sat]]
      stops_weaken [OF parse_flowspec_nlri_stops])

subsection \<open>Operator lists on the wire\<close>

text \<open>An operator byte: end-of-list, AND, the length code, and the comparison bits.\<close>

definition numeric_op_byte :: "bool \<Rightarrow> nat \<Rightarrow> numeric_op \<Rightarrow> u8" where
  "numeric_op_byte eol lc p =
     (if eol then 0x80 else 0) OR (if num_and_bit p then 0x40 else 0) OR push_bit 4 (word_of_nat lc)
     OR (if num_lt p then 0x04 else 0) OR (if num_gt p then 0x02 else 0)
     OR (if num_eq p then 0x01 else 0)"

fun encode_numeric_ops :: "(nat \<times> numeric_op) list \<Rightarrow> bytes" where
  "encode_numeric_ops [] = []"
| "encode_numeric_ops ((lc, p) # ps) =
     numeric_op_byte (ps = []) lc p # to_be (2 ^ lc) (unat (num_value p)) @ encode_numeric_ops ps"

definition numeric_encodable :: "nat \<times> numeric_op \<Rightarrow> bool" where
  "numeric_encodable q \<longleftrightarrow> fst q < 4 \<and> unat (num_value (snd q)) < 256 ^ 2 ^ fst q"

lemma numeric_op_byte_bits:
  assumes "lc < 4"
  shows "op_vlen (numeric_op_byte eol lc p) = 2 ^ lc"
    and "(numeric_op_byte eol lc p AND 0x80 \<noteq> 0) = eol"
    and "(numeric_op_byte eol lc p AND 0x40 \<noteq> 0) = num_and_bit p"
    and "(numeric_op_byte eol lc p AND 0x04 \<noteq> 0) = num_lt p"
    and "(numeric_op_byte eol lc p AND 0x02 \<noteq> 0) = num_gt p"
    and "(numeric_op_byte eol lc p AND 0x01 \<noteq> 0) = num_eq p"
proof -
  have "lc = 0 \<or> lc = 1 \<or> lc = 2 \<or> lc = 3" using assms by linarith
  then have "op_vlen (numeric_op_byte eol lc p) = 2 ^ lc
    \<and> (numeric_op_byte eol lc p AND 0x80 \<noteq> 0) = eol
    \<and> (numeric_op_byte eol lc p AND 0x40 \<noteq> 0) = num_and_bit p
    \<and> (numeric_op_byte eol lc p AND 0x04 \<noteq> 0) = num_lt p
    \<and> (numeric_op_byte eol lc p AND 0x02 \<noteq> 0) = num_gt p
    \<and> (numeric_op_byte eol lc p AND 0x01 \<noteq> 0) = num_eq p"
    by (elim disjE; cases eol; cases "num_and_bit p"; cases "num_lt p"; cases "num_gt p"; cases "num_eq p";
        simp add: numeric_op_byte_def op_vlen_def push_bit_eq_mult drop_bit_eq_div)
  then show "op_vlen (numeric_op_byte eol lc p) = 2 ^ lc"
    and "(numeric_op_byte eol lc p AND 0x80 \<noteq> 0) = eol"
    and "(numeric_op_byte eol lc p AND 0x40 \<noteq> 0) = num_and_bit p"
    and "(numeric_op_byte eol lc p AND 0x04 \<noteq> 0) = num_lt p"
    and "(numeric_op_byte eol lc p AND 0x02 \<noteq> 0) = num_gt p"
    and "(numeric_op_byte eol lc p AND 0x01 \<noteq> 0) = num_eq p"
    by simp_all
qed

lemma parse_numeric_step_encoded:
  assumes "numeric_encodable (lc, p)"
  shows "parse_numeric_step (pre @ encode_numeric_ops ((lc, p) # ps) @ rest) (length pre, ops) =
     Ok ((if ps = [] then Brk else Cont)
       (length (pre @ numeric_op_byte (ps = []) lc p # to_be (2 ^ lc) (unat (num_value p))), ops @ [p]))"
proof -
  let ?v = "num_value p"
  have lc: "lc = 0 \<or> lc = 1 \<or> lc = 2 \<or> lc = 3" and v: "unat ?v < 256 ^ 2 ^ lc"
    using assms by (auto simp: numeric_encodable_def)
  have ops: "\<lparr>num_lt = num_lt p, num_gt = num_gt p, num_eq = num_eq p, num_and_bit = num_and_bit p,
    num_value = num_value p\<rparr> = p" by simp
  have 1: "lc = 0 \<Longrightarrow> (ucast (ucast ?v :: u8) :: u64) = ?v"
    using v ucast_from_be_to_be [of ?v 1, where 'a = 8] by (simp add: from_be_def be_nat_def)
  have 2: "lc = 1 \<Longrightarrow> (ucast (from_be (to_be 2 (unat ?v)) :: u16) :: u64) = ?v"
    using v ucast_from_be_to_be [of ?v 2, where 'a = 16] by simp
  have 4: "lc = 2 \<Longrightarrow> (ucast (from_be (to_be 4 (unat ?v)) :: u32) :: u64) = ?v"
    using v ucast_from_be_to_be [of ?v 4, where 'a = 32] by simp
  show ?thesis
    using lc
    by (elim disjE) (simp_all add: parse_numeric_step_def Let_def idx_def nth_append numeric_op_byte_bits
        u16_at_def u32_at_def u64_at_def slice_def 1 2 4 ops)
qed

lemma parse_numeric_loop_encoded:
  assumes "\<forall>q \<in> set qs. numeric_encodable q" "qs \<noteq> []"
  shows "rwhile (\<lambda>(pos, ops). \<not> pos \<ge> length (pre @ encode_numeric_ops qs @ rest))
       (parse_numeric_step (pre @ encode_numeric_ops qs @ rest)) (length pre, ops) =
     Ok (length pre + length (encode_numeric_ops qs), ops @ map snd qs)"
  using assms
proof (induction qs arbitrary: pre ops)
  case Nil
  then show ?case by simp
next
  case (Cons q qs)
  obtain lc p where q: "q = (lc, p)" by (cases q)
  let ?hd = "numeric_op_byte (qs = []) lc p # to_be (2 ^ lc) (unat (num_value p))"
  have buf: "pre @ encode_numeric_ops (q # qs) @ rest = (pre @ ?hd) @ encode_numeric_ops qs @ rest"
    by (simp add: q)
  have step: "parse_numeric_step (pre @ encode_numeric_ops (q # qs) @ rest) (length pre, ops) =
      Ok ((if qs = [] then Brk else Cont) (length (pre @ ?hd), ops @ [p]))"
    using Cons.prems parse_numeric_step_encoded [of lc p pre qs rest ops] by (simp add: q)
  show ?case
  proof (cases "qs = []")
    case True
    with step show ?thesis by (subst rwhile_break) (auto simp: q)
  next
    case False
    with step have "rwhile (\<lambda>(pos, ops). \<not> pos \<ge> length (pre @ encode_numeric_ops (q # qs) @ rest))
        (parse_numeric_step (pre @ encode_numeric_ops (q # qs) @ rest)) (length pre, ops) =
      rwhile (\<lambda>(pos, ops). \<not> pos \<ge> length (pre @ encode_numeric_ops (q # qs) @ rest))
        (parse_numeric_step (pre @ encode_numeric_ops (q # qs) @ rest)) (length (pre @ ?hd), ops @ [p])"
      by (intro rwhile_step) (auto simp: q)
    also have "\<dots> = Ok (length (pre @ ?hd) + length (encode_numeric_ops qs), (ops @ [p]) @ map snd qs)"
      unfolding buf using Cons.prems False by (intro Cons.IH) simp_all
    finally show ?thesis by (simp add: q)
  qed
qed

text \<open>The numeric operator list of a flow specification (RFC 8955) is read back as written, for
  values of one, two, four and eight bytes, and exactly its bytes are consumed.\<close>

theorem parse_numeric_ops_encoded:
  assumes "\<forall>q \<in> set qs. numeric_encodable q" "qs \<noteq> []"
  shows "parse_numeric_ops (encode_numeric_ops qs @ rest) =
     Ok (map snd qs, length (encode_numeric_ops qs))"
  using parse_numeric_loop_encoded [OF assms, of "[]" rest "[]"] by (simp add: parse_numeric_ops_def)

theorem parse_numeric_ops_encoded_witness:
  "parse_numeric_ops (encode_numeric_ops
      [(0, \<lparr>num_lt = False, num_gt = True, num_eq = True, num_and_bit = False, num_value = 80\<rparr>),
       (1, \<lparr>num_lt = True, num_gt = False, num_eq = True, num_and_bit = True, num_value = 1024\<rparr>)] @ [9]) =
   Ok ([\<lparr>num_lt = False, num_gt = True, num_eq = True, num_and_bit = False, num_value = 80\<rparr>,
        \<lparr>num_lt = True, num_gt = False, num_eq = True, num_and_bit = True, num_value = 1024\<rparr>], 5)"
  using parse_numeric_ops_encoded [of
      "[(0, \<lparr>num_lt = False, num_gt = True, num_eq = True, num_and_bit = False, num_value = 80\<rparr>),
       (1, \<lparr>num_lt = True, num_gt = False, num_eq = True, num_and_bit = True, num_value = 1024\<rparr>)]" "[9]"]
  by (simp add: numeric_encodable_def)

end
