(* ===== verification/Tlv.thy ===== *)
theory Tlv
  imports Crates
begin

text \<open>
  The type-length-value loop.  The parsers of rustybmp walk TLV sequences with one loop that the
  source writes out at every use: while a header fits, read type and length, stop when the value
  does not fit, otherwise hand the value to a \<^verbatim>\<open>match\<close> on the type and go on behind it.
  \<open>tlv_scan\<close> is that loop over a position in a slice, with the header size, the two reads and
  the match arm as arguments; \<open>cursor_tlvs\<close> is the same loop over a \<^verbatim>\<open>Buf\<close> cursor with
  16-bit types and lengths.

  The specification is a function from bytes to the list of complete TLVs at their front,
  \<open>tlv_list\<close>, and a fold of the match arm over that list, \<open>fold_ctl\<close>.  The locale
  \<open>tlv_format\<close> is the interface between the two: what the reads of a header return.  In it the
  loop is proved equal to the fold; the three wire formats of the code are its interpretations.

  Arrays of fixed-size elements are read by a second loop, \<open>chunk_scan\<close> over a position or
  \<open>slice_scan\<close> over a shrinking slice; the locale \<open>chunk_format\<close> proves both equal to a map
  over the list of complete chunks.
\<close>

definition tlv_scan ::
    "nat \<Rightarrow> (bytes \<Rightarrow> nat \<Rightarrow> ('e, 't) outcome) \<Rightarrow> (bytes \<Rightarrow> nat \<Rightarrow> ('e, nat) outcome)
     \<Rightarrow> bytes \<Rightarrow> nat \<Rightarrow> ('t \<Rightarrow> bytes \<Rightarrow> 's \<Rightarrow> ('e, 's ctl) outcome) \<Rightarrow> 's \<Rightarrow> ('e, 's) outcome" where
  "tlv_scan h rt rl buf start f s =
     rbind (rwhile (\<lambda>(pos, s). pos + h \<le> length buf)
       (\<lambda>(pos, s).
          rbind (rt buf pos) (\<lambda>t.
          rbind (rl buf pos) (\<lambda>l.
            if pos + h + l > length buf then Ok (Brk (pos + h, s))
            else rbind (slice buf (pos + h) (pos + h + l)) (\<lambda>data.
                 rbind (f t data s) (\<lambda>r.
                   case r of Cont s' \<Rightarrow> Ok (Cont (pos + h + l, s'))
                           | Brk s' \<Rightarrow> Ok (Brk (pos + h + l, s')))))))
       (start, s))
     (\<lambda>(pos, s). Ok s)"

text \<open>The formats of the code: 16-bit type and length; 8-bit type and 16-bit length; 8-bit both.\<close>

abbreviation scan_16_16 ::
    "bytes \<Rightarrow> nat \<Rightarrow> (u16 \<Rightarrow> bytes \<Rightarrow> 's \<Rightarrow> ('e, 's ctl) outcome) \<Rightarrow> 's \<Rightarrow> ('e, 's) outcome" where
  "scan_16_16 \<equiv> tlv_scan 4 u16_at (\<lambda>b p. len16_at b (p + 2))"

abbreviation scan_8_16 ::
    "bytes \<Rightarrow> nat \<Rightarrow> (u8 \<Rightarrow> bytes \<Rightarrow> 's \<Rightarrow> ('e, 's ctl) outcome) \<Rightarrow> 's \<Rightarrow> ('e, 's) outcome" where
  "scan_8_16 \<equiv> tlv_scan 3 idx (\<lambda>b p. len16_at b (p + 1))"

abbreviation scan_8_8 ::
    "bytes \<Rightarrow> nat \<Rightarrow> (u8 \<Rightarrow> bytes \<Rightarrow> 's \<Rightarrow> ('e, 's ctl) outcome) \<Rightarrow> 's \<Rightarrow> ('e, 's) outcome" where
  "scan_8_8 \<equiv> tlv_scan 2 idx (\<lambda>b p. len8_at b (p + 1))"

definition cursor_tlvs ::
    "crates \<Rightarrow> bytes \<Rightarrow> (u16 \<Rightarrow> bytes \<Rightarrow> 's \<Rightarrow> ('e, 's ctl) outcome) \<Rightarrow> 's \<Rightarrow> ('e, 's) outcome" where
  "cursor_tlvs C cur f s =
     rbind (rwhile (\<lambda>(cur, s). length cur \<ge> 4)
       (\<lambda>(cur, s).
          rbind (buf_get_u16 C cur) (\<lambda>(t, cur).
          rbind (buf_get_u16 C cur) (\<lambda>(l, cur).
            if length cur < unat l then Ok (Brk (cur, s))
            else rbind (buf_copy_to_bytes C (unat l) cur) (\<lambda>(data, cur).
                 rbind (f t data s) (\<lambda>r.
                   case r of Cont s' \<Rightarrow> Ok (Cont (cur, s')) | Brk s' \<Rightarrow> Ok (Brk (cur, s')))))))
       (cur, s))
     (\<lambda>(cur, s). Ok s)"

subsection \<open>Specification\<close>

function tlv_list :: "nat \<Rightarrow> (bytes \<Rightarrow> 't) \<Rightarrow> (bytes \<Rightarrow> nat) \<Rightarrow> bytes \<Rightarrow> ('t \<times> bytes) list" where
  "tlv_list h ty ln bs =
     (if h = 0 \<or> length bs < h \<or> length (drop h bs) < ln bs then []
      else (ty bs, take (ln bs) (drop h bs)) # tlv_list h ty ln (drop (h + ln bs) bs))"
  by pat_completeness auto
termination
  by (relation "measure (\<lambda>(h, ty, ln, bs). length bs)") auto

declare tlv_list.simps [simp del]

fun fold_ctl :: "('t \<Rightarrow> 'd \<Rightarrow> 's \<Rightarrow> ('e, 's ctl) outcome) \<Rightarrow> ('t \<times> 'd) list \<Rightarrow> 's \<Rightarrow> ('e, 's) outcome" where
  "fold_ctl f [] s = Ok s"
| "fold_ctl f ((t, d) # xs) s =
     rbind (f t d s) (\<lambda>r. case r of Cont s' \<Rightarrow> fold_ctl f xs s' | Brk s' \<Rightarrow> Ok s')"

lemma fold_ctl_sat:
  assumes "I s"
    and "\<And>t d s. (t, d) \<in> set xs \<Longrightarrow> I s \<Longrightarrow>
       sat (f t d s) (\<lambda>r. case r of Cont s' \<Rightarrow> I s' | Brk s' \<Rightarrow> I s')"
  shows "sat (fold_ctl f xs s) I"
  using assms
proof (induction xs arbitrary: s)
  case Nil
  then show ?case by simp
next
  case (Cons x xs)
  obtain t d where x: "x = (t, d)" by (cases x)
  have "sat (f t d s) (\<lambda>r. case r of Cont s' \<Rightarrow> I s' | Brk s' \<Rightarrow> I s')"
    using Cons.prems by (simp add: x)
  then show ?case
    unfolding x fold_ctl.simps
    by (rule sat_bindI) (use Cons in \<open>auto simp: x split: ctl.splits\<close>)
qed

lemma fold_ctl_not_Err:
  "(\<And>t d s. f t d s \<noteq> Err e) \<Longrightarrow> fold_ctl f xs s \<noteq> Err e"
proof (induction xs arbitrary: s)
  case (Cons x xs)
  then show ?case by (cases x) (auto split: ctl.splits)
qed simp

lemma fold_ctl_not_Diverge:
  "(\<And>t d s. f t d s \<noteq> Diverge) \<Longrightarrow> fold_ctl f xs s \<noteq> Diverge"
proof (induction xs arbitrary: s)
  case (Cons x xs)
  then show ?case by (cases x) (auto split: ctl.splits)
qed simp

lemma fold_ctl_pure:
  "(\<And>t d s. f t d s = Ok (Cont (g t d s))) \<Longrightarrow> fold_ctl f xs s = Ok (fold (\<lambda>(t, d) s. g t d s) xs s)"
  by (induction xs arbitrary: s) auto

text \<open>The values of a TLV list lie in the buffer: together with their headers they fill its front.\<close>

lemma tlv_list_bound:
  "sum_list (map (\<lambda>(t, d). h + length d) (tlv_list h ty ln bs)) \<le> length bs"
proof (induction h ty ln bs rule: tlv_list.induct)
  case (1 h ty ln bs)
  then show ?case by (subst tlv_list.simps) auto
qed

lemma tlv_list_short: "length bs < h + ln bs \<Longrightarrow> tlv_list h ty ln bs = []"
  by (subst tlv_list.simps) auto

lemma tlv_list_cons:
  "0 < h \<Longrightarrow> h + ln bs \<le> length bs \<Longrightarrow>
   tlv_list h ty ln bs = (ty bs, take (ln bs) (drop h bs)) # tlv_list h ty ln (drop (h + ln bs) bs)"
  by (subst tlv_list.simps) auto

subsection \<open>The interface of a TLV format\<close>

locale tlv_format =
  fixes h :: nat
    and rt :: "bytes \<Rightarrow> nat \<Rightarrow> ('e, 't) outcome"
    and rl :: "bytes \<Rightarrow> nat \<Rightarrow> ('e, nat) outcome"
    and ty :: "bytes \<Rightarrow> 't"
    and ln :: "bytes \<Rightarrow> nat"
  assumes header: "0 < h"
    and type_read: "pos + h \<le> length buf \<Longrightarrow> rt buf pos = Ok (ty (drop pos buf))"
    and length_read: "pos + h \<le> length buf \<Longrightarrow> rl buf pos = Ok (ln (drop pos buf))"
begin

lemma scan_eq_fold:
  "tlv_scan h rt rl buf pos f s = fold_ctl f (tlv_list h ty ln (drop pos buf)) s"
proof (induction "length buf - pos" arbitrary: pos s rule: less_induct)
  case less
  let ?ln = "ln (drop pos buf)"
  have unroll: "tlv_scan h rt rl buf pos f s =
      rbind (f (ty (drop pos buf)) (take ?ln (drop (pos + h) buf)) s) (\<lambda>r.
        case r of Cont s' \<Rightarrow> tlv_scan h rt rl buf (pos + h + ?ln) f s' | Brk s' \<Rightarrow> Ok s')"
    if "pos + h + ?ln \<le> length buf"
    using that unfolding tlv_scan_def
    by (subst rwhile_unfold) (auto simp: type_read length_read slice_def rbind_assoc intro!: rbind_cong
        split: ctl.splits)
  show ?case
  proof (cases "pos + h + ?ln \<le> length buf")
    case True
    with header have "length buf - (pos + h + ?ln) < length buf - pos" by linarith
    then have IH: "tlv_scan h rt rl buf (pos + h + ?ln) f s' =
        fold_ctl f (tlv_list h ty ln (drop (pos + h + ?ln) buf)) s'" for s'
      by (rule less.hyps)
    have "tlv_list h ty ln (drop pos buf) =
        (ty (drop pos buf), take ?ln (drop (pos + h) buf)) # tlv_list h ty ln (drop (pos + h + ?ln) buf)"
      using True header by (subst tlv_list_cons) (auto simp: ac_simps)
    then show ?thesis
      by (auto simp: unroll [OF True] IH intro!: rbind_cong split: ctl.splits)
  next
    case False
    with header have "length (drop pos buf) < h + ?ln" unfolding length_drop by linarith
    then have "tlv_list h ty ln (drop pos buf) = []" by (rule tlv_list_short)
    moreover have "tlv_scan h rt rl buf pos f s = Ok s"
      using False unfolding tlv_scan_def
      by (subst rwhile_unfold) (auto simp: type_read length_read)
    ultimately show ?thesis by simp
  qed
qed

text \<open>Hence the loop always stops, and it panics only if a match arm panics.\<close>

lemma scan_sat:
  assumes "I s"
    and "\<And>t d s. length d \<le> length buf \<Longrightarrow> I s \<Longrightarrow>
       sat (f t d s) (\<lambda>r. case r of Cont s' \<Rightarrow> I s' | Brk s' \<Rightarrow> I s')"
  shows "sat (tlv_scan h rt rl buf pos f s) I"
  unfolding scan_eq_fold
proof (rule fold_ctl_sat [where I = I, OF assms(1)])
  fix t d s
  assume td: "(t, d) \<in> set (tlv_list h ty ln (drop pos buf))" and "I s"
  have "h + length d \<le> sum_list (map (\<lambda>(t, d). h + length d) (tlv_list h ty ln (drop pos buf)))"
    using td by (auto intro!: member_le_sum_list)
  also have "\<dots> \<le> length (drop pos buf)" by (rule tlv_list_bound)
  finally have "length d \<le> length buf" by simp
  then show "sat (f t d s) (\<lambda>r. case r of Cont s' \<Rightarrow> I s' | Brk s' \<Rightarrow> I s')"
    using \<open>I s\<close> by (rule assms(2))
qed

lemma scan_pure:
  "(\<And>t d s. f t d s = Ok (Cont (g t d s))) \<Longrightarrow>
   tlv_scan h rt rl buf pos f s = Ok (fold (\<lambda>(t, d) s. g t d s) (tlv_list h ty ln (drop pos buf)) s)"
  unfolding scan_eq_fold by (rule fold_ctl_pure)

end

abbreviation tlvs_16_16 :: "bytes \<Rightarrow> (u16 \<times> bytes) list" where
  "tlvs_16_16 \<equiv> tlv_list 4 (\<lambda>bs. from_be (take 2 bs)) (\<lambda>bs. be_nat (take 2 (drop 2 bs)))"

abbreviation tlvs_8_16 :: "bytes \<Rightarrow> (u8 \<times> bytes) list" where
  "tlvs_8_16 \<equiv> tlv_list 3 hd (\<lambda>bs. be_nat (take 2 (drop 1 bs)))"

abbreviation tlvs_8_8 :: "bytes \<Rightarrow> (u8 \<times> bytes) list" where
  "tlvs_8_8 \<equiv> tlv_list 2 hd (\<lambda>bs. unat (bs ! 1))"

interpretation f16_16: tlv_format 4 u16_at "\<lambda>b p. len16_at b (p + 2)"
  "\<lambda>bs. from_be (take 2 bs)" "\<lambda>bs. be_nat (take 2 (drop 2 bs))"
  by unfold_locales (auto simp: u16_at_Ok len16_at_Ok add.commute)

interpretation f8_16: tlv_format 3 idx "\<lambda>b p. len16_at b (p + 1)"
  hd "\<lambda>bs. be_nat (take 2 (drop 1 bs))"
  by unfold_locales (auto simp: idx_Ok len16_at_Ok hd_drop_conv_nth add.commute)

interpretation f8_8: tlv_format 2 idx "\<lambda>b p. len8_at b (p + 1)" hd "\<lambda>bs. unat (bs ! 1)"
  by unfold_locales (auto simp: idx_Ok len8_at_Ok hd_drop_conv_nth)

subsection \<open>The cursor loop\<close>

lemma cursor_tlvs_eq_fold:
  assumes "bytes_ok C"
  shows "cursor_tlvs C cur f s = fold_ctl f (tlvs_16_16 cur) s"
proof (induction "length cur" arbitrary: cur s rule: less_induct)
  case less
  let ?ln = "be_nat (take 2 (drop 2 cur))"
  have len: "unat (from_be (take 2 (drop 2 cur)) :: u16) = ?ln"
    by (rule unat_from_be) (cases "length cur < 4"; simp add: power_increasing [of _ 2 "256 :: nat", simplified])
  show ?case
  proof (cases "4 + ?ln \<le> length cur")
    case True
    have IH: "cursor_tlvs C (drop (4 + ?ln) cur) f s' = fold_ctl f (tlvs_16_16 (drop (4 + ?ln) cur)) s'" for s'
      using True by (intro less.hyps) auto
    have "cursor_tlvs C cur f s =
      rbind (f (from_be (take 2 cur)) (take ?ln (drop 4 cur)) s) (\<lambda>r.
        case r of Cont s' \<Rightarrow> cursor_tlvs C (drop (4 + ?ln) cur) f s' | Brk s' \<Rightarrow> Ok s')"
      using True assms unfolding cursor_tlvs_def
      by (subst rwhile_unfold) (auto simp: get_u16_eq copy_to_bytes_eq len rbind_assoc add.commute
          intro!: rbind_cong split: ctl.splits)
    with True show ?thesis
      by (subst tlv_list_cons) (auto simp: IH intro!: rbind_cong split: ctl.splits)
  next
    case False
    then have "cursor_tlvs C cur f s = Ok s"
      using assms unfolding cursor_tlvs_def
      by (subst rwhile_unfold) (auto simp: get_u16_eq len)
    with False show ?thesis by (subst tlv_list_short) auto
  qed
qed

lemma cursor_tlvs_sat:
  assumes "bytes_ok C" "I s"
    and "\<And>t d s. I s \<Longrightarrow> sat (f t d s) (\<lambda>r. case r of Cont s' \<Rightarrow> I s' | Brk s' \<Rightarrow> I s')"
  shows "sat (cursor_tlvs C cur f s) I"
  unfolding cursor_tlvs_eq_fold [OF assms(1)] by (rule fold_ctl_sat [where I = I]) (use assms in auto)

subsection \<open>Arrays of fixed-size elements\<close>

text \<open>\<^verbatim>\<open>while i + k <= data.len() { v.push(..); i += k }\<close>, from position \<open>start\<close>.\<close>

definition chunk_scan :: "nat \<Rightarrow> (bytes \<Rightarrow> nat \<Rightarrow> ('e, 'a) outcome) \<Rightarrow> bytes \<Rightarrow> nat \<Rightarrow> ('e, 'a list) outcome" where
  "chunk_scan k rd data start =
     rbind (rwhile (\<lambda>(i, rs). i + k \<le> length data)
       (\<lambda>(i, rs). rbind (rd data i) (\<lambda>r. Ok (Cont (i + k, rs @ [r])))) (start, []))
     (\<lambda>(i, rs). Ok rs)"

text \<open>\<^verbatim>\<open>while cb.len() >= k { v.push(..); cb = &cb[k..] }\<close>.\<close>

definition slice_scan :: "nat \<Rightarrow> (bytes \<Rightarrow> nat \<Rightarrow> ('e, 'a) outcome) \<Rightarrow> bytes \<Rightarrow> ('e, 'a list) outcome" where
  "slice_scan k rd cb =
     rbind (rwhile (\<lambda>(cb, rs). length cb \<ge> k)
       (\<lambda>(cb, rs). rbind (rd cb 0) (\<lambda>r. rbind (slice_from cb k) (\<lambda>cb. Ok (Cont (cb, rs @ [r])))))
       (cb, []))
     (\<lambda>(cb, rs). Ok rs)"

function chunks :: "nat \<Rightarrow> bytes \<Rightarrow> bytes list" where
  "chunks k bs = (if k = 0 \<or> length bs < k then [] else take k bs # chunks k (drop k bs))"
  by pat_completeness auto
termination
  by (relation "measure (\<lambda>(k, bs). length bs)") auto

declare chunks.simps [simp del]

lemma chunks_short: "length bs < k \<Longrightarrow> chunks k bs = []"
  by (simp add: chunks.simps)

lemma chunks_append: "0 < k \<Longrightarrow> length xs = k \<Longrightarrow> chunks k (xs @ ys) = xs # chunks k ys"
  by (subst chunks.simps) simp

lemma length_chunks: "0 < k \<Longrightarrow> length (chunks k bs) = length bs div k"
proof (induction k bs rule: chunks.induct)
  case (1 k bs)
  then show ?case by (cases "length bs < k") (simp_all add: chunks.simps [of k bs] le_div_geq)
qed

lemma chunks_concat:
  "0 < k \<Longrightarrow> \<forall>x \<in> set xs. length (enc x) = k \<Longrightarrow> chunks k (concat (map enc xs)) = map enc xs"
  by (induction xs) (simp_all add: chunks_short chunks_append)

lemma chunks_length: "c \<in> set (chunks k bs) \<Longrightarrow> length c = k"
proof (induction k bs rule: chunks.induct)
  case (1 k bs)
  then show ?case by (cases "k = 0 \<or> length bs < k") (auto simp: chunks.simps [of k bs])
qed

locale chunk_format =
  fixes k :: nat
    and rd :: "bytes \<Rightarrow> nat \<Rightarrow> ('e, 'a) outcome"
    and g :: "bytes \<Rightarrow> 'a"
  assumes size: "0 < k"
    and element_read: "pos + k \<le> length buf \<Longrightarrow> rd buf pos = Ok (g (take k (drop pos buf)))"
begin

lemma chunk_loop_eq:
  "rwhile (\<lambda>(i, rs). i + k \<le> length data)
     (\<lambda>(i, rs). rbind (rd data i) (\<lambda>r. Ok (Cont (i + k, rs @ [r])))) (start, rs) =
   Ok (start + k * length (chunks k (drop start data)), rs @ map g (chunks k (drop start data)))"
proof (induction "length data - start" arbitrary: start rs rule: less_induct)
  case less
  show ?case
  proof (cases "start + k \<le> length data")
    case True
    have "chunks k (drop start data) = take k (drop start data) # chunks k (drop (start + k) data)"
      using True size by (subst chunks.simps) (simp add: add.commute)
    moreover have "length data - (start + k) < length data - start" using True size by linarith
    ultimately show ?thesis
      using True less.hyps [of "start + k"] by (subst rwhile_unfold) (simp add: element_read)
  next
    case False
    with size show ?thesis by (simp add: rwhile_stop chunks_short)
  qed
qed

lemma chunk_scan_eq: "chunk_scan k rd data start = Ok (map g (chunks k (drop start data)))"
  unfolding chunk_scan_def chunk_loop_eq by simp

lemma slice_loop_eq:
  "rwhile (\<lambda>(cb, rs). length cb \<ge> k)
     (\<lambda>(cb, rs). rbind (rd cb 0) (\<lambda>r. rbind (slice_from cb k) (\<lambda>cb. Ok (Cont (cb, rs @ [r])))))
     (cb, rs) = Ok (drop (k * length (chunks k cb)) cb, rs @ map g (chunks k cb))"
proof (induction "length cb" arbitrary: cb rs rule: less_induct)
  case less
  show ?case
  proof (cases "k \<le> length cb")
    case True
    have "chunks k cb = take k cb # chunks k (drop k cb)"
      using True size by (subst chunks.simps) simp
    with True size less.hyps [of "drop k cb"] show ?thesis
      by (subst rwhile_unfold) (simp add: element_read slice_from_Ok [THEN iffD2] add.commute)
  next
    case False
    with size show ?thesis by (simp add: rwhile_stop chunks_short)
  qed
qed

lemma slice_scan_eq: "slice_scan k rd cb = Ok (map g (chunks k cb))"
  unfolding slice_scan_def slice_loop_eq by simp

end

interpretation u32_chunks: chunk_format 4 u32_at from_be
  by unfold_locales (auto simp: u32_at_Ok)

interpretation ipv4_chunks: chunk_format 4 ipv4_at from_be
  by unfold_locales (auto simp: ipv4_at_Ok)

end
