(* ===== verification/Srv6.thy ===== *)
theory Srv6
  imports Tlv Bgp_Types
begin

text \<open>
  \<^verbatim>\<open>rbmp-core/src/bgp/srv6.rs\<close>: the BGP Prefix-SID attribute (type 40) and its SRv6 L3
  Service TLV.  Both parsers are total and never panic; every SID they build has 16 bytes, and
  every TLV of an unrecognised type is kept, in order.
\<close>

definition parse_srv6_l3_service :: "bytes \<Rightarrow> srv6_l3_service result" where
  "parse_srv6_l3_service buf =
     rbind (scan_8_16 buf 1
       (\<lambda>sub_type sub_data tlvs.
          if sub_type = 1 \<and> length sub_data \<ge> 19
          then rbind (slice sub_data 0 16) (\<lambda>sid.
               rbind (idx sub_data 16) (\<lambda>flags.
               rbind (u16_at sub_data 17) (\<lambda>behavior.
                 Ok (Cont (tlvs @ [Srv6SubSubTlv sid flags behavior])))))
          else Ok (Cont tlvs))
       [])
     (\<lambda>tlvs. Ok (Srv6L3Service tlvs))"

text \<open>\<^verbatim>\<open>while i + 6 <= tlv_data.len()\<close>: 3-byte base, 3-byte range.\<close>

definition parse_srgbs :: "bytes \<Rightarrow> (u32 \<times> u32) list result" where
  "parse_srgbs tlv_data =
     rbind (rwhile (\<lambda>(i, srgbs). i + 6 \<le> length tlv_data)
       (\<lambda>(i, srgbs).
          rbind (u24_at tlv_data i) (\<lambda>base.
          rbind (u24_at tlv_data (i + 3)) (\<lambda>range.
            Ok (Cont (i + 6, srgbs @ [(base, range)])))))
       (2, []))
     (\<lambda>(i, srgbs). Ok srgbs)"

definition parse_prefix_sid :: "bytes \<Rightarrow> prefix_sid_attr result" where
  "parse_prefix_sid buf =
     scan_8_16 buf 0
       (\<lambda>tlv_type tlv_data sid.
          if tlv_type = 1 then
            (if length tlv_data \<ge> 6
             then rbind (u32_at tlv_data 2) (\<lambda>v. Ok (Cont (sid\<lparr>label_index := Some v\<rparr>)))
             else Ok (Cont sid))
          else if tlv_type = 3 then
            (if length tlv_data \<ge> 2
             then rbind (u16_at tlv_data 0) (\<lambda>flags.
                  rbind (parse_srgbs tlv_data) (\<lambda>srgbs.
                    Ok (Cont (sid\<lparr>originator_srgb := Some (flags, srgbs)\<rparr>))))
             else Ok (Cont sid))
          else if tlv_type = 5 then
            rbind (parse_srv6_l3_service tlv_data) (\<lambda>svc.
              Ok (Cont (sid\<lparr>srv6_l3_service := Some svc\<rparr>)))
          else Ok (Cont (sid\<lparr>raw_tlvs := raw_tlvs sid @ [(tlv_type, tlv_data)]\<rparr>)))
       \<lparr>label_index = None, originator_srgb = None, srv6_l3_service = None, raw_tlvs = []\<rparr>"

subsection \<open>Lemmas\<close>

definition srv6_service_wf :: "srv6_l3_service \<Rightarrow> bool" where
  "srv6_service_wf s \<longleftrightarrow> (\<forall>t \<in> set (sub_sub_tlvs s). length (tlv_sid t) = 16)"

lemma parse_srv6_l3_service_sat: "sat (parse_srv6_l3_service buf) srv6_service_wf"
  unfolding parse_srv6_l3_service_def
  by (rule sat_bindI, rule f8_16.scan_sat [where I = "\<lambda>ts. \<forall>t \<in> set ts. length (tlv_sid t) = 16"])
    (auto simp: srv6_service_wf_def)

lemma parse_srgbs_sat: "sat (parse_srgbs d) (\<lambda>srgbs. length srgbs = (length d - 2) div 6)"
proof -
  let ?I = "\<lambda>(i, srgbs :: (u32 \<times> u32) list). i = 2 + 6 * length srgbs \<and> (length srgbs \<noteq> 0 \<longrightarrow> i \<le> length d)"
  have "sat (rwhile (\<lambda>(i, srgbs). i + 6 \<le> length d)
       (\<lambda>(i, srgbs). rbind (u24_at d i) (\<lambda>base. rbind (u24_at d (i + 3)) (\<lambda>range.
            Ok (Cont (i + 6, srgbs @ [(base, range)]))))) (2, []))
       (\<lambda>(i, srgbs). length srgbs = (length d - 2) div 6)"
    by (rule rwhile_sat [where I = ?I and \<mu> = "\<lambda>(i, srgbs). length d - i"]) (auto split: prod.splits)
  then show ?thesis by (auto simp: parse_srgbs_def intro: sat_weaken)
qed

lemma parse_prefix_sid_sat:
  "sat (parse_prefix_sid buf) (\<lambda>sid. \<forall>s. srv6_l3_service sid = Some s \<longrightarrow> srv6_service_wf s)"
  unfolding parse_prefix_sid_def
  by (rule f8_16.scan_sat)
    (auto intro!: sat_weaken [OF parse_srgbs_sat] sat_weaken [OF parse_srv6_l3_service_sat])

text \<open>Unrecognised TLVs are kept: the raw list is the TLV list without types 1, 3 and 5.\<close>

lemma fold_ctl_collect:
  assumes "fold_ctl f xs s = Ok s'"
    and "\<And>t d s r. f t d s = Ok r \<Longrightarrow>
       (case r of Cont s1 \<Rightarrow> g s1 = g s @ (if P t then [(t, d)] else []) | Brk s1 \<Rightarrow> False)"
  shows "g s' = g s @ filter (\<lambda>(t, d). P t) xs"
  using assms(1)
proof (induction xs arbitrary: s)
  case Nil
  then show ?case by simp
next
  case (Cons x xs)
  obtain t d where x: "x = (t, d)" by (cases x)
  from Cons.prems obtain r where r: "f t d s = Ok r"
    and rest: "(case r of Cont s1 \<Rightarrow> fold_ctl f xs s1 | Brk s1 \<Rightarrow> Ok s1) = Ok s'"
    by (auto simp: x)
  from assms(2) [OF r] rest Cons.IH show ?case by (cases r) (auto simp: x)
qed

lemma parse_prefix_sid_keeps_unknown:
  assumes "parse_prefix_sid buf = Ok sid"
  shows "raw_tlvs sid = filter (\<lambda>(t, d). t \<noteq> 1 \<and> t \<noteq> 3 \<and> t \<noteq> 5) (tlvs_8_16 buf)"
  using assms unfolding parse_prefix_sid_def f8_16.scan_eq_fold drop_0
  by (subst fold_ctl_collect [where g = raw_tlvs and P = "\<lambda>t. t \<noteq> 1 \<and> t \<noteq> 3 \<and> t \<noteq> 5"])
    (auto split: if_splits)

end
