(* ===== verification/Bgpls.thy ===== *)
theory Bgpls
  imports Tlv Bgp_Types
begin

text \<open>
  \<^verbatim>\<open>rbmp-core/src/bgp/bgpls.rs\<close>: BGP-LS NLRI (node, link, prefix and SRv6 SID) and the BGP-LS
  path attribute (type 29).  The NLRI decoders walk nested TLVs with a \<^verbatim>\<open>Buf\<close> cursor, the
  attribute parser with a position.  A 32-bit float of the attribute is its bit pattern.

  Results: the attribute parser is total, never panics, and every TLV it does not recognise is
  preserved in order; node, link and SRv6 SID NLRI never panic; a prefix NLRI panics exactly when
  its prefix length needs more octets than the address family has.
\<close>

unbundle bit_operations_syntax

definition ND_AS_NUMBER :: u16 where "ND_AS_NUMBER = 512"
definition ND_BGP_LS_ID :: u16 where "ND_BGP_LS_ID = 513"
definition ND_OSPF_AREA :: u16 where "ND_OSPF_AREA = 514"
definition ND_IGP_ROUTER_ID :: u16 where "ND_IGP_ROUTER_ID = 515"
definition LD_LINK_LOCAL_REMOTE_ID :: u16 where "LD_LINK_LOCAL_REMOTE_ID = 258"
definition LD_IPV4_IF_ADDR :: u16 where "LD_IPV4_IF_ADDR = 259"
definition LD_IPV4_NEIGHBOR_ADDR :: u16 where "LD_IPV4_NEIGHBOR_ADDR = 260"
definition LD_IPV6_IF_ADDR :: u16 where "LD_IPV6_IF_ADDR = 261"
definition LD_IPV6_NEIGHBOR_ADDR :: u16 where "LD_IPV6_NEIGHBOR_ADDR = 262"
definition PD_OSPF_ROUTE_TYPE :: u16 where "PD_OSPF_ROUTE_TYPE = 264"
definition PD_IP_REACHABILITY :: u16 where "PD_IP_REACHABILITY = 265"

lemmas bgpls_codes = ND_AS_NUMBER_def ND_BGP_LS_ID_def ND_OSPF_AREA_def ND_IGP_ROUTER_ID_def
  LD_LINK_LOCAL_REMOTE_ID_def LD_IPV4_IF_ADDR_def LD_IPV4_NEIGHBOR_ADDR_def LD_IPV6_IF_ADDR_def
  LD_IPV6_NEIGHBOR_ADDR_def PD_OSPF_ROUTE_TYPE_def PD_IP_REACHABILITY_def

subsection \<open>Node descriptors\<close>

definition node_sub_tlv :: "u16 \<Rightarrow> bytes \<Rightarrow> node_descriptor \<Rightarrow> node_descriptor result" where
  "node_sub_tlv sub_type val nd =
     (if sub_type = ND_AS_NUMBER \<and> length val \<ge> 4
      then rbind (u32_at val 0) (\<lambda>v. Ok (nd\<lparr>nd_asn := Some v\<rparr>))
      else if sub_type = ND_BGP_LS_ID \<and> length val \<ge> 4
      then rbind (u32_at val 0) (\<lambda>v. Ok (nd\<lparr>nd_bgp_ls_id := Some v\<rparr>))
      else if sub_type = ND_OSPF_AREA \<and> length val \<ge> 4
      then rbind (u32_at val 0) (\<lambda>v. Ok (nd\<lparr>nd_ospf_area := Some v\<rparr>))
      else if sub_type = ND_IGP_ROUTER_ID then Ok (nd\<lparr>nd_igp_router := Some (RouterId val)\<rparr>)
      else Ok nd)"

definition decode_node_sub_tlvs :: "crates \<Rightarrow> bytes \<Rightarrow> node_descriptor \<Rightarrow> node_descriptor result" where
  "decode_node_sub_tlvs C buf nd =
     cursor_tlvs C buf (\<lambda>t val nd. rbind (node_sub_tlv t val nd) (\<lambda>nd'. Ok (Cont nd'))) nd"

definition decode_node_descriptor :: "crates \<Rightarrow> bytes \<Rightarrow> node_descriptor result" where
  "decode_node_descriptor C buf =
     (let nd = node_descriptor_default in
      if length buf < 4 then Ok nd
      else rbind (buf_get_u16 C buf) (\<lambda>(outer_type, cur).
           rbind (buf_get_u16 C cur) (\<lambda>(outer_len, cur).
           if length cur < unat outer_len then Ok nd
           else rbind (buf_copy_to_bytes C (unat outer_len) cur) (\<lambda>(sub_bytes, cur).
                  decode_node_sub_tlvs C sub_bytes nd))))"

subsection \<open>Link NLRI\<close>

definition link_tlv ::
    "crates \<Rightarrow> u16 \<Rightarrow> bytes \<Rightarrow> node_descriptor \<times> node_descriptor \<times> link_descriptor
     \<Rightarrow> (node_descriptor \<times> node_descriptor \<times> link_descriptor) result" where
  "link_tlv C tlv_type val st =
     (case st of (local_node, remote_node, link) \<Rightarrow>
        if tlv_type = 256
        then rbind (decode_node_sub_tlvs C val local_node) (\<lambda>nd. Ok (nd, remote_node, link))
        else if tlv_type = 257
        then rbind (decode_node_sub_tlvs C val remote_node) (\<lambda>nd. Ok (local_node, nd, link))
        else if tlv_type = LD_LINK_LOCAL_REMOTE_ID \<and> length val \<ge> 8
        then rbind (u32_at val 0) (\<lambda>l. rbind (u32_at val 4) (\<lambda>r.
               Ok (local_node, remote_node, link\<lparr>ld_local_id := Some l, ld_remote_id := Some r\<rparr>)))
        else if tlv_type = LD_IPV4_IF_ADDR \<and> length val \<ge> 4
        then rbind (ipv4_at val 0) (\<lambda>a. Ok (local_node, remote_node, link\<lparr>ld_local_addr := Some (IpV4 a)\<rparr>))
        else if tlv_type = LD_IPV4_NEIGHBOR_ADDR \<and> length val \<ge> 4
        then rbind (ipv4_at val 0) (\<lambda>a. Ok (local_node, remote_node, link\<lparr>ld_remote_addr := Some (IpV4 a)\<rparr>))
        else if tlv_type = LD_IPV6_IF_ADDR \<and> length val \<ge> 16
        then rbind (ipv6_at val 0) (\<lambda>a. Ok (local_node, remote_node, link\<lparr>ld_local_addr := Some (IpV6 a)\<rparr>))
        else if tlv_type = LD_IPV6_NEIGHBOR_ADDR \<and> length val \<ge> 16
        then rbind (ipv6_at val 0) (\<lambda>a. Ok (local_node, remote_node, link\<lparr>ld_remote_addr := Some (IpV6 a)\<rparr>))
        else Ok (local_node, remote_node, link))"

definition decode_link_nlri :: "crates \<Rightarrow> bgpls_protocol \<Rightarrow> u64 \<Rightarrow> bytes \<Rightarrow> bgpls_nlri result" where
  "decode_link_nlri C protocol identifier buf =
     rbind (cursor_tlvs C buf (\<lambda>t val st. rbind (link_tlv C t val st) (\<lambda>st'. Ok (Cont st')))
              (node_descriptor_default, node_descriptor_default, link_descriptor_default))
       (\<lambda>(local_node, remote_node, link).
          Ok (LsNlri_Link protocol identifier local_node remote_node link))"

subsection \<open>Prefix NLRI\<close>

text \<open>The value of an IP reachability TLV; \<open>None\<close> when it is shorter than its prefix length asks.
  The copy into the 4- or 16-byte array panics when the prefix length is too long for it.\<close>

definition ip_reachability :: "crates \<Rightarrow> bool \<Rightarrow> bytes \<Rightarrow> prefix option \<Rightarrow> prefix option result" where
  "ip_reachability C is_v6 val prefix_opt =
     rbind (idx val 0) (\<lambda>plen.
     let octets = (unat plen + 7) div 8 in
     if length val \<ge> 1 + octets
     then rbind (slice val 1 (1 + octets)) (\<lambda>chunk.
          if is_v6
          then rbind (pad_array 16 octets chunk) (\<lambda>a.
                 Ok (map_option (\<lambda>n. Prefix_V6 (c_ipv6net_trunc C n)) (c_ipv6net_new C (from_be a) plen)))
          else rbind (pad_array 4 octets chunk) (\<lambda>a.
                 Ok (map_option (\<lambda>n. Prefix_V4 (c_ipv4net_trunc C n)) (c_ipv4net_new C (from_be a) plen))))
     else Ok prefix_opt)"

definition prefix_tlv ::
    "crates \<Rightarrow> bool \<Rightarrow> u16 \<Rightarrow> bytes \<Rightarrow> node_descriptor \<times> prefix option
     \<Rightarrow> (node_descriptor \<times> prefix option) result" where
  "prefix_tlv C is_v6 tlv_type val st =
     (case st of (local_node, prefix_opt) \<Rightarrow>
        if tlv_type = 256
        then rbind (decode_node_sub_tlvs C val local_node) (\<lambda>nd. Ok (nd, prefix_opt))
        else if tlv_type = PD_IP_REACHABILITY \<and> length val \<ge> 1
        then rbind (ip_reachability C is_v6 val prefix_opt) (\<lambda>p. Ok (local_node, p))
        else Ok (local_node, prefix_opt))"

definition decode_prefix_nlri :: "crates \<Rightarrow> bgpls_protocol \<Rightarrow> u64 \<Rightarrow> bytes \<Rightarrow> bool \<Rightarrow> bgpls_nlri result" where
  "decode_prefix_nlri C protocol identifier buf is_v6 =
     rbind (cursor_tlvs C buf (\<lambda>t val st. rbind (prefix_tlv C is_v6 t val st) (\<lambda>st'. Ok (Cont st')))
              (node_descriptor_default, None))
       (\<lambda>(local_node, prefix_opt).
          rbind (if is_v6 then rbind (call (c_ipv6net_new C 0 0)) (\<lambda>n. Ok (Prefix_V6 n))
                 else rbind (call (c_ipv4net_new C 0 0)) (\<lambda>n. Ok (Prefix_V4 n))) (\<lambda>dflt.
            Ok (LsNlri_Prefix protocol identifier local_node
                  (case prefix_opt of Some p \<Rightarrow> p | None \<Rightarrow> dflt))))"

subsection \<open>SRv6 SID NLRI\<close>

type_synonym srv6_state = "bytes \<times> u16 option \<times> (u8 \<times> u8 \<times> u8 \<times> u8) option"

definition srv6_sub_tlv :: "u16 \<Rightarrow> bytes \<Rightarrow> srv6_state \<Rightarrow> srv6_state ctl result" where
  "srv6_sub_tlv sub_type sub_data st =
     (case st of (sid, eb, ss) \<Rightarrow>
        if sub_type = 1 \<and> length sub_data \<ge> 2
        then rbind (u16_at sub_data 0) (\<lambda>b. Ok (Cont (sid, Some b, ss)))
        else if sub_type = 2 \<and> length sub_data \<ge> 4
        then rbind (idx sub_data 0) (\<lambda>a. rbind (idx sub_data 1) (\<lambda>b.
             rbind (idx sub_data 2) (\<lambda>c. rbind (idx sub_data 3) (\<lambda>d.
               Ok (Cont (sid, eb, Some (a, b, c, d)))))))
        else Ok (Cont (sid, eb, ss)))"

definition srv6_tlv :: "u16 \<Rightarrow> bytes \<Rightarrow> srv6_state \<Rightarrow> srv6_state ctl result" where
  "srv6_tlv tlv_type tlv_data st =
     (case st of (sid, eb, ss) \<Rightarrow>
        if tlv_type = 1 \<and> length tlv_data \<ge> 16
        then rbind (slice tlv_data 0 16) (\<lambda>sid.
             rbind (scan_16_16 tlv_data 16 srv6_sub_tlv (sid, eb, ss)) (\<lambda>st. Ok (Cont st)))
        else Ok (Cont (sid, eb, ss)))"

definition decode_srv6_sid_nlri :: "crates \<Rightarrow> u8 \<Rightarrow> u64 \<Rightarrow> bytes \<Rightarrow> bgpls_nlri result" where
  "decode_srv6_sid_nlri C protocol_id identifier buf =
     rbind (decode_node_descriptor C buf) (\<lambda>local_node.
     rbind (if length buf \<ge> 4
            then rbind (len16_at buf 2) (\<lambda>l. Ok (min (l + 4) (length buf)))
            else Ok (length buf)) (\<lambda>nd_consumed.
     rbind (buf_copy_to_bytes C (min nd_consumed (length buf)) buf) (\<lambda>(skipped, cur).
     rbind (cursor_tlvs C cur srv6_tlv (replicate 16 0, None, None)) (\<lambda>(sid, eb, ss).
       Ok (LsNlri_Srv6Sid \<lparr>ss_protocol_id = protocol_id, ss_identifier = identifier,
             ss_local_node = local_node, srv6_sid = sid, ss_endpoint_behavior = eb,
             sid_structure = ss\<rparr>)))))"

subsection \<open>NLRI lists\<close>

definition decode_one :: "crates \<Rightarrow> u16 \<Rightarrow> bytes \<Rightarrow> bgpls_nlri result" where
  "decode_one C nlri_type buf =
     (if length buf < 9 then Ok (LsNlri_Unknown nlri_type buf)
      else rbind (idx buf 0) (\<lambda>proto.
           rbind (u64_at buf 1) (\<lambda>identifier.
           rbind (slice_from buf 9) (\<lambda>rest.
           case bgpls_nlri_type_from nlri_type of
             Ls_Node \<Rightarrow> rbind (decode_node_descriptor C rest) (\<lambda>nd.
                 Ok (LsNlri_Node (bgpls_protocol_from proto) identifier nd))
           | Ls_Link \<Rightarrow> decode_link_nlri C (bgpls_protocol_from proto) identifier rest
           | Ls_Ipv4Prefix \<Rightarrow> decode_prefix_nlri C (bgpls_protocol_from proto) identifier rest (nlri_type = 4)
           | Ls_Ipv6Prefix \<Rightarrow> decode_prefix_nlri C (bgpls_protocol_from proto) identifier rest (nlri_type = 4)
           | Ls_Srv6Sid \<Rightarrow> decode_srv6_sid_nlri C proto identifier rest
           | Ls_Unknown v \<Rightarrow> Ok (LsNlri_Unknown nlri_type buf)))))"

definition decode_bgpls_nlri :: "crates \<Rightarrow> bytes \<Rightarrow> bgpls_nlri list result" where
  "decode_bgpls_nlri C buf =
     rbind (rwhile (\<lambda>(cur, nlris). length cur \<ge> 4)
       (\<lambda>(cur, nlris).
          rbind (buf_get_u16 C cur) (\<lambda>(nlri_type, cur).
          rbind (buf_get_u16 C cur) (\<lambda>(nlri_len, cur).
            if length cur < unat nlri_len then Err (UnexpectedEof (unat nlri_len) (length cur))
            else rbind (buf_copy_to_bytes C (unat nlri_len) cur) (\<lambda>(nlri_bytes, cur).
                 rbind (decode_one C nlri_type nlri_bytes) (\<lambda>nlri.
                   Ok (Cont (cur, nlris @ [nlri])))))))
       (buf, []))
     (\<lambda>(cur, nlris). Ok nlris)"

definition decode_bgpls_reach :: "crates \<Rightarrow> ip_addr option \<Rightarrow> bytes \<Rightarrow> bgpls_reach_nlri result" where
  "decode_bgpls_reach C next_hop nlri_buf =
     rbind (decode_bgpls_nlri C nlri_buf) (\<lambda>nlris. Ok \<lparr>lr_next_hop = next_hop, lr_nlris = nlris\<rparr>)"

definition decode_bgpls_unreach :: "crates \<Rightarrow> bytes \<Rightarrow> bgpls_unreach_nlri result" where
  "decode_bgpls_unreach C buf =
     rbind (decode_bgpls_nlri C buf) (\<lambda>nlris. Ok \<lparr>lu_nlris = nlris\<rparr>)"

subsection \<open>The BGP-LS attribute\<close>

type_synonym f32 = u32

record sr_block =
  sr_flags :: u8
  sr_ranges :: "(u32 \<times> u32) list"

datatype adj_sid = AdjSid (as_flags: u8) (as_weight: u8) (as_label: u32)

datatype lan_adj_sid = LanAdjSid (las_flags: u8) (las_weight: u8) (neighbor_id: bytes) (las_label: u32)

datatype ls_prefix_sid = LsPrefixSid (lps_flags: u8) (lps_algorithm: u8) (lps_label: u32)

record flex_algo_def =
  fa_algo_id :: u8
  fa_metric_type :: u8
  fa_calc_type :: u8
  fa_priority :: u8
  exclude_any :: "u32 option"
  include_any :: "u32 option"
  include_all :: "u32 option"

datatype flex_algo_prefix_metric = FlexAlgoPrefixMetric (fapm_algo_id: u8) (fapm_metric: u32)

record bgpls_attribute =
  node_flags :: "u8 option"
  node_name :: "string option"
  isis_area_id :: "bytes option"
  ipv4_router_id :: "ipv4 option"
  ipv6_router_id :: "ipv6 option"
  sr_capabilities :: "sr_block option"
  sr_algorithm :: bytes
  sr_local_block :: "sr_block option"
  link_metric_igp :: "u32 option"
  link_metric_te :: "u32 option"
  admin_group :: "u32 option"
  max_bandwidth :: "f32 option"
  max_reservable_bw :: "f32 option"
  unreserved_bw :: "f32 list"
  srlg :: "u32 list"
  adj_sids :: "adj_sid list"
  lan_adj_sids :: "lan_adj_sid list"
  peer_node_sid :: "u32 option"
  peer_adj_sid :: "u32 option"
  peer_set_sid :: "u32 option"
  prefix_metric :: "u32 option"
  ospf_fwd_addr :: "ip_addr option"
  ls_prefix_sids :: "ls_prefix_sid list"
  flex_algo_defs :: "flex_algo_def list"
  flex_algo_prefix_metrics :: "flex_algo_prefix_metric list"
  unknown_tlvs :: "(u16 \<times> bytes) list"

definition bgpls_attribute_default :: bgpls_attribute where
  "bgpls_attribute_default = \<lparr>
     node_flags = None, node_name = None, isis_area_id = None, ipv4_router_id = None,
     ipv6_router_id = None, sr_capabilities = None, sr_algorithm = [], sr_local_block = None,
     link_metric_igp = None, link_metric_te = None, admin_group = None, max_bandwidth = None,
     max_reservable_bw = None, unreserved_bw = [], srlg = [], adj_sids = [], lan_adj_sids = [],
     peer_node_sid = None, peer_adj_sid = None, peer_set_sid = None, prefix_metric = None,
     ospf_fwd_addr = None, ls_prefix_sids = [], flex_algo_defs = [], flex_algo_prefix_metrics = [],
     unknown_tlvs = [] \<rparr>"

text \<open>An SRGB block of 8 bytes: range, SID sub-TLV header, base; an SRLB block of 6: range, base.\<close>

definition srgb_range_at :: "bytes \<Rightarrow> nat \<Rightarrow> (u32 \<times> u32) result" where
  "srgb_range_at data i =
     rbind (u24_at data i) (\<lambda>range. rbind (u24_at data (i + 5)) (\<lambda>base. Ok (base, range)))"

definition srlb_range_at :: "bytes \<Rightarrow> nat \<Rightarrow> (u32 \<times> u32) result" where
  "srlb_range_at data i =
     rbind (u24_at data i) (\<lambda>range. rbind (u24_at data (i + 3)) (\<lambda>base. Ok (base, range)))"

text \<open>The arms of the match, by group; \<open>None\<close> when no arm of the group applies.  An arm's guard
  is the condition on \<^verbatim>\<open>tlv_len\<close> in the source.\<close>

definition ls_node_arm :: "u16 \<Rightarrow> bytes \<Rightarrow> bgpls_attribute \<Rightarrow> bgpls_attribute option result" where
  "ls_node_arm t data attr =
     (let n = length data in
      if t = 1024 \<and> n \<ge> 1 then rbind (idx data 0) (\<lambda>v. Ok (Some (attr\<lparr>node_flags := Some v\<rparr>)))
      else if t = 1026 then Ok (Some (attr\<lparr>node_name := Some (from_utf8_lossy data)\<rparr>))
      else if t = 1027 then Ok (Some (attr\<lparr>isis_area_id := Some data\<rparr>))
      else if t = 1028 \<and> n = 4 then
        rbind (ipv4_at data 0) (\<lambda>a. Ok (Some (attr\<lparr>ipv4_router_id := Some a\<rparr>)))
      else if t = 1029 \<and> n = 16 then
        rbind (ipv6_at data 0) (\<lambda>a. Ok (Some (attr\<lparr>ipv6_router_id := Some a\<rparr>)))
      else if t = 1034 \<and> n \<ge> 2 then
        rbind (idx data 0) (\<lambda>flags. rbind (chunk_scan 8 srgb_range_at data 2) (\<lambda>ranges.
          Ok (Some (attr\<lparr>sr_capabilities := Some \<lparr>sr_flags = flags, sr_ranges = ranges\<rparr>\<rparr>))))
      else if t = 1035 then Ok (Some (attr\<lparr>sr_algorithm := data\<rparr>))
      else if t = 1036 \<and> n \<ge> 2 then
        rbind (idx data 0) (\<lambda>flags. rbind (chunk_scan 6 srlb_range_at data 2) (\<lambda>ranges.
          Ok (Some (attr\<lparr>sr_local_block := Some \<lparr>sr_flags = flags, sr_ranges = ranges\<rparr>\<rparr>))))
      else Ok None)"

definition igp_metric :: "bytes \<Rightarrow> u32 result" where
  "igp_metric data =
     (if length data = 1 then rbind (idx data 0) (\<lambda>b. Ok (ucast b))
      else if length data = 2 then rbind (u16_at data 0) (\<lambda>v. Ok (ucast v))
      else if length data = 3 then u24_at data 0
      else u32_at data 0)"

definition ls_link_arm :: "u16 \<Rightarrow> bytes \<Rightarrow> bgpls_attribute \<Rightarrow> bgpls_attribute option result" where
  "ls_link_arm t data attr =
     (let n = length data in
      if t = 1081 \<and> n = 4 then rbind (u32_at data 0) (\<lambda>v. Ok (Some (attr\<lparr>max_bandwidth := Some v\<rparr>)))
      else if t = 1082 \<and> n = 4 then
        rbind (u32_at data 0) (\<lambda>v. Ok (Some (attr\<lparr>max_reservable_bw := Some v\<rparr>)))
      else if t = 1083 \<and> n = 32 then
        rbind (chunk_scan 4 u32_at data 0) (\<lambda>vs. Ok (Some (attr\<lparr>unreserved_bw := unreserved_bw attr @ vs\<rparr>)))
      else if t = 1088 \<and> n = 4 then rbind (u32_at data 0) (\<lambda>v. Ok (Some (attr\<lparr>admin_group := Some v\<rparr>)))
      else if t = 1092 \<and> n = 4 then rbind (u32_at data 0) (\<lambda>v. Ok (Some (attr\<lparr>link_metric_te := Some v\<rparr>)))
      else if t = 1094 then
        rbind (chunk_scan 4 u32_at data 0) (\<lambda>vs. Ok (Some (attr\<lparr>srlg := srlg attr @ vs\<rparr>)))
      else if t = 1095 \<and> n \<ge> 1 \<and> n \<le> 4 then
        rbind (igp_metric data) (\<lambda>v. Ok (Some (attr\<lparr>link_metric_igp := Some v\<rparr>)))
      else if t = 1099 \<and> n \<ge> 7 then
        rbind (idx data 0) (\<lambda>flags. rbind (idx data 1) (\<lambda>weight. rbind (u24_at data 4) (\<lambda>label.
          Ok (Some (attr\<lparr>adj_sids := adj_sids attr @ [AdjSid flags weight label]\<rparr>)))))
      else if t = 1100 \<and> n \<ge> 14 then
        rbind (idx data 0) (\<lambda>flags. rbind (idx data 1) (\<lambda>weight. rbind (slice data 2 9) (\<lambda>nid.
        rbind (u24_at data 11) (\<lambda>label.
          Ok (Some (attr\<lparr>lan_adj_sids := lan_adj_sids attr @ [LanAdjSid flags weight nid label]\<rparr>))))))
      else if t = 1101 \<and> n \<ge> 7 then rbind (u24_at data 4) (\<lambda>v. Ok (Some (attr\<lparr>peer_node_sid := Some v\<rparr>)))
      else if t = 1102 \<and> n \<ge> 7 then rbind (u24_at data 4) (\<lambda>v. Ok (Some (attr\<lparr>peer_adj_sid := Some v\<rparr>)))
      else if t = 1103 \<and> n \<ge> 7 then rbind (u24_at data 4) (\<lambda>v. Ok (Some (attr\<lparr>peer_set_sid := Some v\<rparr>)))
      else Ok None)"

type_synonym affinity = "u32 option \<times> u32 option \<times> u32 option"

definition flex_algo_sub :: "u16 \<Rightarrow> bytes \<Rightarrow> affinity \<Rightarrow> affinity ctl result" where
  "flex_algo_sub st sv a =
     (case a of (ex, iany, iall) \<Rightarrow>
        if length sv \<ge> 4
        then rbind (u32_at sv 0) (\<lambda>v.
               Ok (Cont (if st = 1 then (Some v, iany, iall)
                         else if st = 2 then (ex, Some v, iall)
                         else if st = 3 then (ex, iany, Some v)
                         else (ex, iany, iall))))
        else Ok (Cont (ex, iany, iall)))"

definition flex_algo_subs :: "bytes \<Rightarrow> affinity result" where
  "flex_algo_subs data = scan_16_16 data 4 flex_algo_sub (None, None, None)"

definition ls_prefix_arm :: "u16 \<Rightarrow> bytes \<Rightarrow> bgpls_attribute \<Rightarrow> bgpls_attribute option result" where
  "ls_prefix_arm t data attr =
     (let n = length data in
      if t = 1155 \<and> n = 4 then rbind (u32_at data 0) (\<lambda>v. Ok (Some (attr\<lparr>prefix_metric := Some v\<rparr>)))
      else if t = 1156 \<and> n = 4 then
        rbind (ipv4_at data 0) (\<lambda>a. Ok (Some (attr\<lparr>ospf_fwd_addr := Some (IpV4 a)\<rparr>)))
      else if t = 1156 \<and> n = 16 then
        rbind (ipv6_at data 0) (\<lambda>a. Ok (Some (attr\<lparr>ospf_fwd_addr := Some (IpV6 a)\<rparr>)))
      else if t = 1158 \<and> n \<ge> 7 then
        rbind (idx data 0) (\<lambda>flags. rbind (idx data 1) (\<lambda>algorithm.
        rbind (if n \<ge> 8 then u32_at data 4 else u24_at data 4) (\<lambda>label.
          Ok (Some (attr\<lparr>ls_prefix_sids := ls_prefix_sids attr @ [LsPrefixSid flags algorithm label]\<rparr>)))))
      else if t = 1039 \<and> n \<ge> 4 then
        rbind (idx data 0) (\<lambda>algo_id. rbind (idx data 1) (\<lambda>metric_type.
        rbind (idx data 2) (\<lambda>calc_type. rbind (idx data 3) (\<lambda>priority.
        rbind (flex_algo_subs data) (\<lambda>(ex, iany, iall).
          Ok (Some (attr\<lparr>flex_algo_defs := flex_algo_defs attr @
            [\<lparr>fa_algo_id = algo_id, fa_metric_type = metric_type, fa_calc_type = calc_type,
              fa_priority = priority, exclude_any = ex, include_any = iany, include_all = iall\<rparr>]\<rparr>)))))))
      else if t = 1044 \<and> n \<ge> 5 then
        rbind (idx data 0) (\<lambda>algo_id. rbind (u32_at data 1) (\<lambda>metric.
          Ok (Some (attr\<lparr>flex_algo_prefix_metrics := flex_algo_prefix_metrics attr @
            [FlexAlgoPrefixMetric algo_id metric]\<rparr>))))
      else Ok None)"

definition bgpls_attribute_tlv :: "u16 \<Rightarrow> bytes \<Rightarrow> bgpls_attribute \<Rightarrow> bgpls_attribute ctl result" where
  "bgpls_attribute_tlv t data attr =
     rbind (ls_node_arm t data attr) (\<lambda>r. case r of Some a \<Rightarrow> Ok (Cont a) | None \<Rightarrow>
     rbind (ls_link_arm t data attr) (\<lambda>r. case r of Some a \<Rightarrow> Ok (Cont a) | None \<Rightarrow>
     rbind (ls_prefix_arm t data attr) (\<lambda>r. case r of Some a \<Rightarrow> Ok (Cont a) | None \<Rightarrow>
       Ok (Cont (attr\<lparr>unknown_tlvs := unknown_tlvs attr @ [(t, data)]\<rparr>)))))"

definition parse_bgpls_attribute :: "bytes \<Rightarrow> bgpls_attribute result" where
  "parse_bgpls_attribute buf = scan_16_16 buf 0 bgpls_attribute_tlv bgpls_attribute_default"

subsection \<open>The attribute parser is total and keeps what it does not know\<close>

definition ls_known :: "u16 \<Rightarrow> nat \<Rightarrow> bool" where
  "ls_known t n \<longleftrightarrow>
     t \<in> {1026, 1027, 1035, 1094}
   \<or> (t \<in> {1028, 1081, 1082, 1088, 1092, 1155} \<and> n = 4) \<or> (t = 1029 \<and> n = 16)
   \<or> (t = 1083 \<and> n = 32) \<or> (t = 1156 \<and> (n = 4 \<or> n = 16))
   \<or> (t = 1024 \<and> 1 \<le> n) \<or> (t \<in> {1034, 1036} \<and> 2 \<le> n) \<or> (t = 1095 \<and> 1 \<le> n \<and> n \<le> 4)
   \<or> (t \<in> {1099, 1101, 1102, 1103, 1158} \<and> 7 \<le> n) \<or> (t = 1100 \<and> 14 \<le> n)
   \<or> (t = 1039 \<and> 4 \<le> n) \<or> (t = 1044 \<and> 5 \<le> n)"

interpretation srgb_chunks: chunk_format 8 srgb_range_at "\<lambda>c. (from_be (drop 5 c), from_be (take 3 c))"
  by unfold_locales (auto simp: srgb_range_at_def u24_at_Ok drop_take add.commute)

interpretation srlb_chunks: chunk_format 6 srlb_range_at "\<lambda>c. (from_be (drop 3 c), from_be (take 3 c))"
  by unfold_locales (auto simp: srlb_range_at_def u24_at_Ok drop_take add.commute)

lemma flex_algo_sub_sat: "sat (flex_algo_sub st sv a) (\<lambda>r. case r of Cont _ \<Rightarrow> True | Brk _ \<Rightarrow> True)"
  by (auto simp: flex_algo_sub_def split: prod.splits)

definition ls_node_known :: "u16 \<Rightarrow> nat \<Rightarrow> bool" where
  "ls_node_known t n \<longleftrightarrow> t \<in> {1026, 1027, 1035} \<or> (t = 1028 \<and> n = 4) \<or> (t = 1029 \<and> n = 16)
   \<or> (t = 1024 \<and> 1 \<le> n) \<or> (t \<in> {1034, 1036} \<and> 2 \<le> n)"

definition ls_link_known :: "u16 \<Rightarrow> nat \<Rightarrow> bool" where
  "ls_link_known t n \<longleftrightarrow> t = 1094 \<or> (t \<in> {1081, 1082, 1088, 1092} \<and> n = 4) \<or> (t = 1083 \<and> n = 32)
   \<or> (t = 1095 \<and> 1 \<le> n \<and> n \<le> 4) \<or> (t \<in> {1099, 1101, 1102, 1103} \<and> 7 \<le> n) \<or> (t = 1100 \<and> 14 \<le> n)"

definition ls_prefix_known :: "u16 \<Rightarrow> nat \<Rightarrow> bool" where
  "ls_prefix_known t n \<longleftrightarrow> (t = 1155 \<and> n = 4) \<or> (t = 1156 \<and> (n = 4 \<or> n = 16)) \<or> (t = 1158 \<and> 7 \<le> n)
   \<or> (t = 1039 \<and> 4 \<le> n) \<or> (t = 1044 \<and> 5 \<le> n)"

text \<open>An arm applies exactly to its known TLVs, and leaves the unknown ones alone.\<close>

definition arm_ok :: "bool \<Rightarrow> bgpls_attribute \<Rightarrow> bgpls_attribute option \<Rightarrow> bool" where
  "arm_ok known attr r =
     (case r of None \<Rightarrow> \<not> known | Some a \<Rightarrow> known \<and> unknown_tlvs a = unknown_tlvs attr)"

lemma ls_node_arm_sat: "sat (ls_node_arm t data attr) (arm_ok (ls_node_known t (length data)) attr)"
  by (simp add: ls_node_arm_def Let_def arm_ok_def ls_node_known_def srgb_chunks.chunk_scan_eq
      srlb_chunks.chunk_scan_eq) auto

lemma ls_link_arm_sat: "sat (ls_link_arm t data attr) (arm_ok (ls_link_known t (length data)) attr)"
  by (simp add: ls_link_arm_def Let_def arm_ok_def ls_link_known_def u32_chunks.chunk_scan_eq igp_metric_def)
    auto

lemma flex_algo_subs_sat: "sat (flex_algo_subs data) (\<lambda>_. True)"
  unfolding flex_algo_subs_def by (rule f16_16.scan_sat) (auto intro!: sat_weaken [OF flex_algo_sub_sat])

lemma ls_prefix_arm_sat: "sat (ls_prefix_arm t data attr) (arm_ok (ls_prefix_known t (length data)) attr)"
  by (auto simp: ls_prefix_arm_def Let_def arm_ok_def ls_prefix_known_def intro!: sat_weaken [OF flex_algo_subs_sat])

lemma ls_known_cases:
  "ls_known t n \<longleftrightarrow> ls_node_known t n \<or> ls_link_known t n \<or> ls_prefix_known t n"
  by (auto simp: ls_known_def ls_node_known_def ls_link_known_def ls_prefix_known_def)

lemma bgpls_attribute_tlv_sat:
  "sat (bgpls_attribute_tlv t data attr) (\<lambda>r. case r of
      Cont a \<Rightarrow> unknown_tlvs a = unknown_tlvs attr @ (if ls_known t (length data) then [] else [(t, data)])
    | Brk a \<Rightarrow> False)"
  using ls_node_arm_sat [of t data attr] ls_link_arm_sat [of t data attr] ls_prefix_arm_sat [of t data attr]
  by (cases "ls_node_arm t data attr"; cases "ls_link_arm t data attr"; cases "ls_prefix_arm t data attr")
    (auto simp: bgpls_attribute_tlv_def arm_ok_def ls_known_cases split: option.splits)

lemma parse_bgpls_attribute_sat: "sat (parse_bgpls_attribute buf) (\<lambda>_. True)"
  unfolding parse_bgpls_attribute_def
  by (rule f16_16.scan_sat) (auto intro!: sat_weaken [OF bgpls_attribute_tlv_sat] split: ctl.splits)

lemma flex_algo_subs_not_Err [simp]: "flex_algo_subs data \<noteq> Err e"
  unfolding flex_algo_subs_def f16_16.scan_eq_fold
  by (rule fold_ctl_not_Err) (auto simp: flex_algo_sub_def split: if_splits)

lemma arms_not_Err [simp]:
  "ls_node_arm t data attr \<noteq> Err e" "ls_link_arm t data attr \<noteq> Err e" "ls_prefix_arm t data attr \<noteq> Err e"
  by (auto simp: ls_node_arm_def ls_link_arm_def ls_prefix_arm_def Let_def igp_metric_def
      srgb_chunks.chunk_scan_eq srlb_chunks.chunk_scan_eq u32_chunks.chunk_scan_eq)

text \<open>The parser returns an attribute on every input, with exactly the unrecognised TLVs in
  \<open>unknown_tlvs\<close>.\<close>

lemma parse_bgpls_attribute_total: "\<exists>attr. parse_bgpls_attribute buf = Ok attr"
proof -
  have "parse_bgpls_attribute buf \<noteq> Err e" for e
    unfolding parse_bgpls_attribute_def f16_16.scan_eq_fold
    by (rule fold_ctl_not_Err) (auto simp: bgpls_attribute_tlv_def split: option.splits)
  with parse_bgpls_attribute_sat [of buf] show ?thesis by (cases "parse_bgpls_attribute buf") auto
qed

text \<open>The BGP-LS attribute parser drops nothing it does not know: the TLVs that no arm handles,
  by type and length, are kept in order.\<close>

theorem parse_bgpls_attribute_unknown:
  assumes "parse_bgpls_attribute buf = Ok attr"
  shows "unknown_tlvs attr = filter (\<lambda>(t, d). \<not> ls_known t (length d)) (tlvs_16_16 buf)"
proof -
  have "unknown_tlvs a' = unknown_tlvs a @ filter (\<lambda>(t, d). \<not> ls_known t (length d)) xs"
    if "fold_ctl bgpls_attribute_tlv xs a = Ok a'" for xs a a'
    using that
  proof (induction xs arbitrary: a)
    case (Cons x xs)
    obtain t d where x: "x = (t, d)" by (cases x)
    from Cons.prems bgpls_attribute_tlv_sat [of t d a] Cons.IH show ?case
      by (cases "bgpls_attribute_tlv t d a") (auto simp: x split: ctl.splits)
  qed simp
  from this [of "tlvs_16_16 buf" bgpls_attribute_default attr] assms show ?thesis
    unfolding parse_bgpls_attribute_def f16_16.scan_eq_fold drop_0 by (simp add: bgpls_attribute_default_def)
qed

theorem parse_bgpls_attribute_unknown_witness:
  "\<exists>attr. parse_bgpls_attribute [4, 2, 0, 1, 65, 9, 9, 0, 2, 7, 8] = Ok attr
     \<and> unknown_tlvs attr = filter (\<lambda>(t, d). \<not> ls_known t (length d)) (tlvs_16_16 [4, 2, 0, 1, 65, 9, 9, 0, 2, 7, 8])"
proof -
  obtain attr where "parse_bgpls_attribute [4, 2, 0, 1, 65, 9, 9, 0, 2, 7, 8] = Ok attr"
    using parse_bgpls_attribute_total by blast
  with parse_bgpls_attribute_unknown [OF this] show ?thesis by blast
qed

subsection \<open>The NLRI decoders\<close>

lemma node_sub_tlv_sat: "sat (node_sub_tlv t val nd) (\<lambda>_. True)"
  by (simp add: node_sub_tlv_def)

lemma decode_node_sub_tlvs_sat: "bytes_ok C \<Longrightarrow> sat (decode_node_sub_tlvs C buf nd) (\<lambda>_. True)"
  unfolding decode_node_sub_tlvs_def
  by (rule cursor_tlvs_sat) (auto intro!: sat_weaken [OF node_sub_tlv_sat])

lemma decode_node_descriptor_sat: "bytes_ok C \<Longrightarrow> sat (decode_node_descriptor C buf) (\<lambda>_. True)"
  by (auto simp: decode_node_descriptor_def Let_def sat_buf decode_node_sub_tlvs_sat)

lemma link_tlv_sat: "bytes_ok C \<Longrightarrow> sat (link_tlv C t val st) (\<lambda>_. True)"
  by (auto simp: link_tlv_def intro!: sat_weaken [OF decode_node_sub_tlvs_sat] split: prod.splits)

lemma decode_link_nlri_sat: "bytes_ok C \<Longrightarrow> sat (decode_link_nlri C p i buf) (\<lambda>_. True)"
  unfolding decode_link_nlri_def
  by (rule sat_bindI, rule cursor_tlvs_sat [where I = "\<lambda>_. True"])
    (auto intro!: sat_weaken [OF link_tlv_sat])

lemma srv6_sub_tlv_sat:
  "sat (srv6_sub_tlv t d st) (\<lambda>r. case r of Cont st' \<Rightarrow> fst st' = fst st | Brk st' \<Rightarrow> fst st' = fst st)"
  by (auto simp: srv6_sub_tlv_def split: prod.splits)

lemma srv6_tlv_sat:
  assumes "length (fst st) = 16"
  shows "sat (srv6_tlv t d st) (\<lambda>r. case r of Cont st' \<Rightarrow> length (fst st') = 16 | Brk st' \<Rightarrow> length (fst st') = 16)"
proof -
  have "sat (scan_16_16 d 16 srv6_sub_tlv (take 16 d, eb, ss)) (\<lambda>st. length (fst st) = 16)"
    if "16 \<le> length d" for eb ss
    by (rule f16_16.scan_sat) (use that in \<open>auto intro!: sat_weaken [OF srv6_sub_tlv_sat] split: ctl.splits\<close>)
  with assms show ?thesis by (auto simp: srv6_tlv_def split: prod.splits)
qed

definition ls_sid_wf :: "bgpls_nlri \<Rightarrow> bool" where
  "ls_sid_wf n = (case n of LsNlri_Srv6Sid s \<Rightarrow> length (srv6_sid s) = 16 | _ \<Rightarrow> True)"

lemma decode_srv6_sid_nlri_sat:
  assumes C: "bytes_ok C"
  shows "sat (decode_srv6_sid_nlri C p i buf) ls_sid_wf"
proof -
  have loop: "sat (cursor_tlvs C cur srv6_tlv (replicate 16 0, None, None)) (\<lambda>st. length (fst st) = 16)" for cur
    by (rule cursor_tlvs_sat [OF C]) (auto intro!: srv6_tlv_sat)
  show ?thesis
    by (auto simp: decode_srv6_sid_nlri_def sat_buf [OF C] ls_sid_wf_def min_def
        intro!: sat_weaken [OF decode_node_descriptor_sat [OF C]] sat_weaken [OF loop])
qed

text \<open>A prefix NLRI panics exactly on a reachability TLV whose prefix length does not fit the
  address; otherwise the prefix it builds is well formed.\<close>

text \<open>Exactly when an IP reachability TLV of a BGP-LS prefix NLRI makes the parser panic: the bytes
  for its prefix length are there and are more than the address family has.\<close>

theorem ip_reachability_panics_iff:
  assumes "val \<noteq> []"
  shows "ip_reachability C is_v6 val p = Panic \<longleftrightarrow>
     (let octets = (unat (hd val) + 7) div 8
      in octets < length val \<and> octets > (if is_v6 then 16 else 4))"
  using assms by (auto simp: ip_reachability_def Let_def idx_def slice_def pad_array_def hd_conv_nth)

theorem ip_reachability_panics_iff_witness:
  "ip_reachability doc_crates False [40, 1, 2, 3, 4, 5] None = Panic"
  using ip_reachability_panics_iff [of "[40, 1, 2, 3, 4, 5]" doc_crates False None] by simp

lemma ip_reachability_sat:
  assumes "ipnet_ok C" "val \<noteq> []" "(unat (hd val) + 7) div 8 \<le> (if is_v6 then 16 else 4)"
    and "case p of None \<Rightarrow> True | Some q \<Rightarrow> prefix_wf q"
  shows "sat (ip_reachability C is_v6 val p) (\<lambda>r. case r of None \<Rightarrow> True | Some q \<Rightarrow> prefix_wf q)"
  using assms by (auto simp: ip_reachability_def Let_def hd_conv_nth ipnet_eqs and.assoc split: option.splits)

definition bgpls_prefix_fits :: "bool \<Rightarrow> bytes \<Rightarrow> bool" where
  "bgpls_prefix_fits is_v6 buf \<longleftrightarrow>
     (\<forall>(t, d) \<in> set (tlvs_16_16 buf). t = PD_IP_REACHABILITY \<and> d \<noteq> [] \<longrightarrow>
        (unat (hd d) + 7) div 8 \<le> (if is_v6 then 16 else 4))"

lemma decode_prefix_nlri_sat:
  assumes C: "bytes_ok C" "ipnet_ok C" and fits: "bgpls_prefix_fits is_v6 buf"
  shows "sat (decode_prefix_nlri C proto i buf is_v6)
     (\<lambda>n. case n of LsNlri_Prefix proto' i' nd p \<Rightarrow> prefix_wf p | _ \<Rightarrow> False)"
proof -
  let ?I = "\<lambda>(nd :: node_descriptor, p). case p of None \<Rightarrow> True | Some q \<Rightarrow> prefix_wf q"
  have fit: "(unat (hd d) + 7) div 8 \<le> (if is_v6 then 16 else 4)"
    if "(PD_IP_REACHABILITY, d) \<in> set (tlvs_16_16 buf)" "d \<noteq> []" for d
    using bspec [OF fits [unfolded bgpls_prefix_fits_def] that(1)] that(2) by simp
  have arm: "sat (prefix_tlv C is_v6 t d st) ?I"
    if "(t, d) \<in> set (tlvs_16_16 buf)" "?I st" for t d st
  proof (cases "t = PD_IP_REACHABILITY \<and> d \<noteq> []")
    case True
    with that fit C show ?thesis
      by (cases st) (auto simp: prefix_tlv_def bgpls_codes Suc_le_eq intro!: sat_weaken [OF ip_reachability_sat])
  next
    case False
    with that C show ?thesis
      by (cases st) (auto simp: prefix_tlv_def Suc_le_eq intro!: sat_weaken [OF decode_node_sub_tlvs_sat])
  qed
  have "sat (cursor_tlvs C buf (\<lambda>t val st. rbind (prefix_tlv C is_v6 t val st) (\<lambda>st'. Ok (Cont st')))
      (node_descriptor_default, None)) ?I"
    unfolding cursor_tlvs_eq_fold [OF C(1)]
    by (rule fold_ctl_sat [where I = ?I]) (auto intro!: sat_weaken [OF arm] split: option.splits)
  then show ?thesis
    using C(2) unfolding decode_prefix_nlri_def
    by (intro sat_bindI [where P = ?I]) (auto simp: ipnet_eqs split: option.splits)
qed

subsection \<open>Termination of the NLRI list decoder\<close>

lemma decode_prefix_nlri_not_Diverge: "bytes_ok C \<Longrightarrow> decode_prefix_nlri C p i buf v6 \<noteq> Diverge"
  by (auto simp: decode_prefix_nlri_def cursor_tlvs_eq_fold prefix_tlv_def ip_reachability_def Let_def
      sat_not_Diverge [OF decode_node_sub_tlvs_sat] dest!: fold_ctl_not_Diverge [THEN notE, rotated]
      split: if_splits prod.splits)

lemma decode_one_not_Diverge: "bytes_ok C \<Longrightarrow> decode_one C t buf \<noteq> Diverge"
  by (auto simp: decode_one_def decode_prefix_nlri_not_Diverge sat_not_Diverge [OF decode_link_nlri_sat]
      sat_not_Diverge [OF decode_node_descriptor_sat] sat_not_Diverge [OF decode_srv6_sid_nlri_sat]
      split: bgpls_nlri_type.splits)

lemma decode_bgpls_nlri_not_Diverge: "bytes_ok C \<Longrightarrow> decode_bgpls_nlri C buf \<noteq> Diverge"
proof -
  assume C: "bytes_ok C"
  have "rwhile (\<lambda>(cur, nlris). length cur \<ge> 4)
       (\<lambda>(cur, nlris).
          rbind (buf_get_u16 C cur) (\<lambda>(nlri_type, cur).
          rbind (buf_get_u16 C cur) (\<lambda>(nlri_len, cur).
            if length cur < unat nlri_len then Err (UnexpectedEof (unat nlri_len) (length cur))
            else rbind (buf_copy_to_bytes C (unat nlri_len) cur) (\<lambda>(nlri_bytes, cur).
                 rbind (decode_one C nlri_type nlri_bytes) (\<lambda>nlri.
                   Ok (Cont (cur, nlris @ [nlri])))))))
       (buf, []) \<noteq> Diverge"
    by (rule rwhile_not_Diverge [where \<mu> = "\<lambda>(cur, r). length cur"])
      (use C in \<open>auto simp: get_u16_eq copy_to_bytes_eq decode_one_not_Diverge split: if_splits\<close>)
  then show ?thesis by (auto simp: decode_bgpls_nlri_def)
qed

end
