(* ===== verification/Srpolicy.thy ===== *)
theory Srpolicy
  imports Tlv Bgp_Types
begin

text \<open>
  \<^verbatim>\<open>rbmp-core/src/bgp/srpolicy.rs\<close>: SR Policy NLRI, the candidate paths of the tunnel
  encapsulation sub-TLVs with their segment lists, and Route Target Constraint NLRI.  A segment
  sub-list (type 11) is parsed by a recursive call on its own bytes, so \<open>segments_from\<close> is a
  recursive function, the \<^verbatim>\<open>while\<close> loop with its position and result as arguments.

  No parser of the module panics or runs on; of the candidate paths at most one is marked best, and
  it has the highest preference; a decoded RTC entry carries exactly the octets its length asks for.
\<close>

unbundle bit_operations_syntax

record srpolicy_nlri =
  sp_distinguisher :: u32
  sp_color :: u32
  sp_endpoint :: ip_addr

datatype segment =
    Seg_MplsLabel u32 u8 bool u8
  | Seg_Srv6Sid bytes "u16 option"
  | Seg_Ipv4Prefix ipv4 u8 u8
  | Seg_Ipv6Prefix ipv6 u8 u8
  | Seg_Ipv4Adjacency u32 u32
  | Seg_Ipv4Interface ipv4 ipv4
  | Seg_Ipv6LocalAdj u32 ipv6 ipv6
  | Seg_Ipv6Adjacency u32 u32 ipv6 ipv6
  | Seg_Ipv4NextHop ipv4 u8
  | Seg_Ipv6NextHop ipv6 u8
  | Seg_SubList "segment list"
  | Seg_Unknown u8 bytes

record segment_list =
  sl_weight :: u32
  sl_segments :: "segment list"

record candidate_path =
  cp_preference :: u32
  cp_name :: "string option"
  cp_segment_lists :: "segment_list list"
  cp_is_best :: bool

definition decode_srpolicy_nlri :: "bytes \<Rightarrow> bool \<Rightarrow> srpolicy_nlri list result" where
  "decode_srpolicy_nlri buf ipv6 =
     (let ep_octets = (if ipv6 then 16 else 4);
          nlri_size = 4 + 4 + ep_octets
      in rbind (rwhile (\<lambda>(pos, policies). pos + nlri_size \<le> length buf)
           (\<lambda>(pos, policies).
              rbind (u32_at buf pos) (\<lambda>distinguisher.
              rbind (u32_at buf (pos + 4)) (\<lambda>color.
              rbind (if ipv6 then rbind (ipv6_at buf (pos + 8)) (\<lambda>a. Ok (IpV6 a))
                     else rbind (ipv4_at buf (pos + 8)) (\<lambda>a. Ok (IpV4 a))) (\<lambda>endpoint.
                Ok (Cont (pos + 8 + ep_octets,
                          policies @ [\<lparr>sp_distinguisher = distinguisher, sp_color = color,
                                       sp_endpoint = endpoint\<rparr>]))))))
           (0, []))
         (\<lambda>(pos, policies). Ok policies))"

text \<open>The arms of the segment match but type 11; type A reads a 3-byte field.\<close>

definition parse_plain_segment :: "u8 \<Rightarrow> bytes \<Rightarrow> segment result" where
  "parse_plain_segment t data =
     (if t = 1 \<and> length data \<ge> 3 then
        rbind (u24_at data 0) (\<lambda>raw.
          Ok (Seg_MplsLabel (drop_bit 12 raw) (ucast (drop_bit 9 raw AND 0x07))
                (drop_bit 8 raw AND 0x01 \<noteq> 0) (ucast (raw AND 0xFF))))
      else if t = 2 \<and> length data \<ge> 16 then
        rbind (slice data 0 16) (\<lambda>sid.
        rbind (if length data \<ge> 18 then rbind (u16_at data 16) (\<lambda>b. Ok (Some b)) else Ok None) (\<lambda>eb.
          Ok (Seg_Srv6Sid sid eb)))
      else if t = 3 \<and> length data \<ge> 6 then
        rbind (ipv4_at data 0) (\<lambda>a. rbind (idx data 4) (\<lambda>l. rbind (idx data 5) (\<lambda>alg.
          Ok (Seg_Ipv4Prefix a l alg))))
      else if t = 4 \<and> length data \<ge> 18 then
        rbind (ipv6_at data 0) (\<lambda>a. rbind (idx data 16) (\<lambda>l. rbind (idx data 17) (\<lambda>alg.
          Ok (Seg_Ipv6Prefix a l alg))))
      else if t = 5 \<and> length data \<ge> 8 then
        rbind (u32_at data 0) (\<lambda>l. rbind (u32_at data 4) (\<lambda>r. Ok (Seg_Ipv4Adjacency l r)))
      else if t = 6 \<and> length data \<ge> 8 then
        rbind (ipv4_at data 0) (\<lambda>l. rbind (ipv4_at data 4) (\<lambda>r. Ok (Seg_Ipv4Interface l r)))
      else if t = 7 \<and> length data \<ge> 36 then
        rbind (u32_at data 0) (\<lambda>l. rbind (ipv6_at data 4) (\<lambda>la. rbind (ipv6_at data 20) (\<lambda>ra.
          Ok (Seg_Ipv6LocalAdj l la ra))))
      else if t = 8 \<and> length data \<ge> 40 then
        rbind (u32_at data 0) (\<lambda>l. rbind (u32_at data 4) (\<lambda>r.
        rbind (ipv6_at data 8) (\<lambda>la. rbind (ipv6_at data 24) (\<lambda>ra.
          Ok (Seg_Ipv6Adjacency l r la ra)))))
      else if t = 9 \<and> length data \<ge> 5 then
        rbind (ipv4_at data 0) (\<lambda>a. rbind (idx data 4) (\<lambda>alg. Ok (Seg_Ipv4NextHop a alg)))
      else if t = 10 \<and> length data \<ge> 17 then
        rbind (ipv6_at data 0) (\<lambda>a. rbind (idx data 16) (\<lambda>alg. Ok (Seg_Ipv6NextHop a alg)))
      else Ok (Seg_Unknown t data))"

text \<open>One turn reads the header and the data; the two guards are the two \<^verbatim>\<open>break\<close>s.\<close>

function segments_from :: "bytes \<Rightarrow> nat \<Rightarrow> segment list \<Rightarrow> segment list result" where
  "segments_from buf pos segs =
     (if pos + 2 \<le> length buf then
        rbind (idx buf pos) (\<lambda>seg_type.
        rbind (len8_at buf (pos + 1)) (\<lambda>seg_len.
          let pos = pos + 2 in
          if seg_len < 2 \<or> pos + seg_len - 2 > length buf then Ok segs
          else let pos = pos + 2; data_len = seg_len - 2 in
               if pos + data_len > length buf then Ok segs
               else rbind (slice buf pos (pos + data_len)) (\<lambda>data.
                    rbind (if seg_type = 11
                           then rbind (unwrap_or (segments_from data 0 []) []) (\<lambda>s. Ok (Seg_SubList s))
                           else parse_plain_segment seg_type data) (\<lambda>seg.
                      segments_from buf (pos + data_len) (segs @ [seg])))))
      else Ok segs)"
  by pat_completeness auto
termination
  by (relation "measures [\<lambda>(buf, pos, segs). length buf, \<lambda>(buf, pos, segs). length buf - pos]")
    (auto simp: read_simps)

definition parse_segments :: "bytes \<Rightarrow> segment list result" where
  "parse_segments buf = segments_from buf 0 []"

definition parse_segment_lists :: "bytes \<Rightarrow> segment_list list result" where
  "parse_segment_lists buf =
     scan_8_16 buf 0
       (\<lambda>sub_type data lists.
          if sub_type = 132 \<and> length data \<ge> 4
          then rbind (u32_at data 0) (\<lambda>weight.
               rbind (slice_from data 4) (\<lambda>rest.
               rbind (unwrap_or (parse_segments rest) []) (\<lambda>segs.
                 Ok (Cont (lists @ [\<lparr>sl_weight = weight, sl_segments = segs\<rparr>])))))
          else Ok (Cont lists))
       []"

definition extract_path_name :: "bytes \<Rightarrow> string option result" where
  "extract_path_name buf =
     (if length buf < 8 then Ok None
      else scan_8_16 buf 8
             (\<lambda>t d name. if t = 130 then Ok (Brk (Some (from_utf8_lossy d))) else Ok (Cont name))
             None)"

text \<open>\<^verbatim>\<open>iter_mut().max_by_key\<close> returns the last of several maxima.\<close>

fun max_pref_index :: "nat \<Rightarrow> nat \<Rightarrow> u32 \<Rightarrow> candidate_path list \<Rightarrow> nat" where
  "max_pref_index i best pref [] = best"
| "max_pref_index i best pref (p # ps) =
     (if pref \<le> cp_preference p then max_pref_index (Suc i) i (cp_preference p) ps
      else max_pref_index (Suc i) best pref ps)"

definition mark_best :: "candidate_path list \<Rightarrow> candidate_path list" where
  "mark_best paths =
     (case paths of [] \<Rightarrow> []
      | p # ps \<Rightarrow> let i = max_pref_index 1 0 (cp_preference p) ps
                  in paths[i := (paths ! i)\<lparr>cp_is_best := True\<rparr>])"

definition parse_srpolicy_candidate_paths :: "bytes \<Rightarrow> candidate_path list result" where
  "parse_srpolicy_candidate_paths buf =
     rbind (scan_8_16 buf 0
       (\<lambda>sub_type sub_data paths.
          if sub_type = 128 \<and> length sub_data \<ge> 8
          then rbind (u32_at sub_data 4) (\<lambda>preference.
               rbind (if length sub_data > 8
                      then rbind (slice_from sub_data 8) (\<lambda>r. unwrap_or (parse_segment_lists r) [])
                      else Ok []) (\<lambda>seg_lists.
               rbind (extract_path_name sub_data) (\<lambda>name.
                 Ok (Cont (paths @ [\<lparr>cp_preference = preference, cp_name = name,
                                     cp_segment_lists = seg_lists, cp_is_best = False\<rparr>])))))
          else Ok (Cont paths))
       [])
     (\<lambda>paths. Ok (mark_best paths))"

subsection \<open>Route Target Constraint\<close>

datatype rtc_nlri = Rtc_Wildcard | Rtc_Specific "u32 option" u8 bytes

definition decode_rtc_step :: "bytes \<Rightarrow> nat \<times> rtc_nlri list \<Rightarrow> (nat \<times> rtc_nlri list) ctl result" where
  "decode_rtc_step buf st =
     (case st of (pos, result) \<Rightarrow>
        rbind (idx buf pos) (\<lambda>plen.
        let pos = pos + 1 in
        if unat plen = 0 then Ok (Cont (pos, result @ [Rtc_Wildcard]))
        else let octets = (unat plen + 7) div 8 in
             if pos + octets > length buf then Err (UnexpectedEof (pos + octets) (length buf))
             else rbind (slice buf pos (pos + octets)) (\<lambda>bs.
                  rbind (if octets \<ge> 4 then rbind (u32_at bs 0) (\<lambda>a. Ok (Some a)) else Ok None) (\<lambda>origin_as.
                    Ok (Cont (pos + octets, result @ [Rtc_Specific origin_as plen bs]))))))"

definition decode_rtc_nlri :: "bytes \<Rightarrow> rtc_nlri list result" where
  "decode_rtc_nlri buf =
     rbind (rwhile (\<lambda>(pos, result). pos < length buf) (decode_rtc_step buf) (0, []))
       (\<lambda>(pos, result). Ok result)"

subsection \<open>No panic, and termination of the nested segment parser\<close>

lemma parse_plain_segment_sat: "sat (parse_plain_segment t data) (\<lambda>_. True)"
  by (simp add: parse_plain_segment_def)

declare segments_from.simps [simp del]

lemma segments_from_sat: "sat (segments_from buf pos segs) (\<lambda>_. True)"
proof (induction buf pos segs rule: segments_from.induct)
  case (1 buf pos segs)
  then show ?case
    by (subst segments_from.simps)
      (auto simp: Let_def read_simps
        intro!: sat_weaken [OF sat_unwrap_or [where Q = "\<lambda>_. True"]] sat_weaken [OF parse_plain_segment_sat])
qed

lemma parse_segment_lists_sat: "sat (parse_segment_lists buf) (\<lambda>_. True)"
  unfolding parse_segment_lists_def
  by (rule f8_16.scan_sat)
    (auto simp: parse_segments_def
      intro!: sat_weaken [OF sat_unwrap_or [where Q = "\<lambda>_. True"]] segments_from_sat)

lemma extract_path_name_sat: "sat (extract_path_name buf) (\<lambda>_. True)"
proof (cases "length buf < 8")
  case False
  then show ?thesis
    unfolding extract_path_name_def by (simp only: if_False) (rule f8_16.scan_sat, auto)
qed (simp add: extract_path_name_def)

lemma decode_srpolicy_nlri_sat: "sat (decode_srpolicy_nlri buf ipv6) (\<lambda>_. True)"
  unfolding decode_srpolicy_nlri_def Let_def
  by (rule sat_bindI [OF rwhile_sat [where I = "\<lambda>_. True" and \<mu> = "\<lambda>(pos, r). length buf - pos" and Q = "\<lambda>_. True"]])
    auto

definition rtc_wf :: "rtc_nlri \<Rightarrow> bool" where
  "rtc_wf r = (case r of Rtc_Wildcard \<Rightarrow> True
     | Rtc_Specific asn plen d \<Rightarrow> 0 < unat plen \<and> length d = (unat plen + 7) div 8
         \<and> (asn = None \<longleftrightarrow> length d < 4))"

lemma decode_rtc_nlri_sat: "sat (decode_rtc_nlri buf) (list_all rtc_wf)"
  unfolding decode_rtc_nlri_def
  by (rule sat_bindI [OF rwhile_sat [where I = "\<lambda>(pos, r). pos \<le> length buf \<and> list_all rtc_wf r"
          and \<mu> = "\<lambda>(pos, r). length buf - pos" and Q = "\<lambda>(pos, r). list_all rtc_wf r"]])
    (auto simp: decode_rtc_step_def Let_def rtc_wf_def)

subsection \<open>The best candidate path\<close>

lemma max_pref_index_spec:
  assumes "best < length paths" "pref = cp_preference (paths ! best)" "i \<le> length paths"
    and "\<forall>j < i. cp_preference (paths ! j) \<le> pref"
  shows "max_pref_index i best pref (drop i paths) < length paths
    \<and> (\<forall>j < length paths. cp_preference (paths ! j) \<le>
         cp_preference (paths ! max_pref_index i best pref (drop i paths)))"
  using assms
proof (induction "length paths - i" arbitrary: i best pref)
  case 0
  then show ?case by auto
next
  case (Suc n)
  then have i: "i < length paths" by simp
  then have drop: "drop i paths = paths ! i # drop (Suc i) paths" by (simp add: Cons_nth_drop_Suc)
  show ?case
  proof (cases "pref \<le> cp_preference (paths ! i)")
    case True
    with Suc.prems have "\<forall>j < Suc i. cp_preference (paths ! j) \<le> cp_preference (paths ! i)"
      by (auto simp: less_Suc_eq intro: order_trans)
    with True i Suc.hyps show ?thesis by (simp add: drop)
  next
    case False
    with Suc.prems have "\<forall>j < Suc i. cp_preference (paths ! j) \<le> pref"
      by (auto simp: less_Suc_eq)
    with False i Suc.hyps Suc.prems show ?thesis by (simp add: drop)
  qed
qed

lemma mark_best_spec:
  assumes "paths \<noteq> []"
  obtains i where "i < length paths" "mark_best paths = paths[i := (paths ! i)\<lparr>cp_is_best := True\<rparr>]"
    "\<forall>q \<in> set paths. cp_preference q \<le> cp_preference (paths ! i)"
proof -
  from assms obtain p ps where paths: "paths = p # ps" by (cases paths) auto
  let ?i = "max_pref_index 1 0 (cp_preference p) ps"
  have "?i < length paths \<and> (\<forall>j < length paths. cp_preference (paths ! j) \<le> cp_preference (paths ! ?i))"
    using max_pref_index_spec [of 0 paths "cp_preference p" 1] by (simp add: paths)
  moreover have "mark_best paths = paths[?i := (paths ! ?i)\<lparr>cp_is_best := True\<rparr>]"
    by (simp add: paths mark_best_def Let_def)
  ultimately show ?thesis
    by (intro that [of ?i]) (auto simp: in_set_conv_nth)
qed

text \<open>The SR Policy candidate-path parser never panics, and when it returns paths exactly one of
  them is marked best, one of maximal preference.\<close>

theorem parse_srpolicy_candidate_paths_sat:
  "sat (parse_srpolicy_candidate_paths buf) (\<lambda>paths. paths = [] \<or>
     (\<exists>i < length paths. \<forall>j < length paths.
        cp_is_best (paths ! j) = (j = i) \<and> cp_preference (paths ! j) \<le> cp_preference (paths ! i)))"
proof -
  have best: "mark_best ps = [] \<or> (\<exists>i < length (mark_best ps). \<forall>j < length (mark_best ps).
        cp_is_best (mark_best ps ! j) = (j = i)
        \<and> cp_preference (mark_best ps ! j) \<le> cp_preference (mark_best ps ! i))"
    if "\<forall>p \<in> set ps. \<not> cp_is_best p" for ps
  proof (cases "ps = []")
    case True
    then show ?thesis by (simp add: mark_best_def)
  next
    case False
    then obtain i where "i < length ps" "mark_best ps = ps[i := (ps ! i)\<lparr>cp_is_best := True\<rparr>]"
      "\<forall>q \<in> set ps. cp_preference q \<le> cp_preference (ps ! i)" by (rule mark_best_spec)
    with that show ?thesis by (auto simp: nth_list_update intro!: exI [of _ i])
  qed
  show ?thesis
    unfolding parse_srpolicy_candidate_paths_def
    by (rule sat_bindI, rule f8_16.scan_sat [where I = "\<lambda>ps. \<forall>p \<in> set ps. \<not> cp_is_best p"])
      (use best in \<open>auto intro!: sat_weaken [OF sat_unwrap_or [where Q = "\<lambda>_. True"]]
        parse_segment_lists_sat sat_weaken [OF extract_path_name_sat]\<close>)
qed

theorem parse_srpolicy_candidate_paths_sat_witness:
  "sat (parse_srpolicy_candidate_paths [128, 0, 8, 0, 0, 0, 0, 0, 0, 0, 9, 128, 0, 8, 0, 0, 0, 0, 0, 0, 0, 5])
     (\<lambda>paths. paths = [] \<or>
       (\<exists>i < length paths. \<forall>j < length paths.
          cp_is_best (paths ! j) = (j = i) \<and> cp_preference (paths ! j) \<le> cp_preference (paths ! i)))"
  by (rule parse_srpolicy_candidate_paths_sat)

end
