(* ===== verification/Path_Status.thy ===== *)
theory Path_Status
  imports Tlv
begin

text \<open>
  \<^verbatim>\<open>rbmp-core/src/bmp/path_status_tlv.rs\<close>: the Path Status TLV (bitmap and reason code), its
  accessors and labels, its parser and the scan for it in a TLV stream.  The scan is proved to
  return the first TLV of the requested type among the complete TLVs at the front of the buffer.
\<close>

unbundle bit_operations_syntax

definition PATH_STATUS_TLV_TYPE :: u16 where
  "PATH_STATUS_TLV_TYPE = 6"

record path_status_tlv =
  ps_status :: u32
  ps_reason :: u16

definition STATUS_INVALID :: u32 where "STATUS_INVALID = 0x0001"
definition STATUS_BEST :: u32 where "STATUS_BEST = 0x0002"
definition STATUS_NONSELECTED :: u32 where "STATUS_NONSELECTED = 0x0004"
definition STATUS_PRIMARY :: u32 where "STATUS_PRIMARY = 0x0008"
definition STATUS_BACKUP :: u32 where "STATUS_BACKUP = 0x0010"
definition STATUS_NON_INSTALLED :: u32 where "STATUS_NON_INSTALLED = 0x0020"
definition STATUS_BEST_EXTERNAL :: u32 where "STATUS_BEST_EXTERNAL = 0x0040"
definition STATUS_ADD_PATH :: u32 where "STATUS_ADD_PATH = 0x0080"
definition STATUS_FILTERED_INBOUND :: u32 where "STATUS_FILTERED_INBOUND = 0x0100"
definition STATUS_FILTERED_OUTBOUND :: u32 where "STATUS_FILTERED_OUTBOUND = 0x0200"
definition STATUS_STALE :: u32 where "STATUS_STALE = 0x0400"
definition STATUS_SUPPRESSED :: u32 where "STATUS_SUPPRESSED = 0x0800"

lemmas STATUS_defs = STATUS_INVALID_def STATUS_BEST_def STATUS_NONSELECTED_def STATUS_PRIMARY_def
  STATUS_BACKUP_def STATUS_NON_INSTALLED_def STATUS_BEST_EXTERNAL_def STATUS_ADD_PATH_def
  STATUS_FILTERED_INBOUND_def STATUS_FILTERED_OUTBOUND_def STATUS_STALE_def STATUS_SUPPRESSED_def

text \<open>The twelve accessors \<^verbatim>\<open>is_best()\<close>, \<^verbatim>\<open>is_stale()\<close>, \<dots> test one bit each.\<close>

definition has_status :: "path_status_tlv \<Rightarrow> u32 \<Rightarrow> bool" where
  "has_status p bit_mask \<longleftrightarrow> ps_status p AND bit_mask \<noteq> 0"

definition status_label :: "path_status_tlv \<Rightarrow> string" where
  "status_label p =
     (if has_status p STATUS_BEST then ''best''
      else if has_status p STATUS_PRIMARY then ''primary''
      else if has_status p STATUS_BACKUP then ''backup''
      else if has_status p STATUS_BEST_EXTERNAL then ''best-external''
      else if has_status p STATUS_ADD_PATH then ''add-path''
      else if has_status p STATUS_NONSELECTED then ''nonselected''
      else if has_status p STATUS_FILTERED_INBOUND then ''filtered-inbound''
      else if has_status p STATUS_FILTERED_OUTBOUND then ''filtered-outbound''
      else if has_status p STATUS_STALE then ''stale''
      else if has_status p STATUS_SUPPRESSED then ''suppressed''
      else if has_status p STATUS_NON_INSTALLED then ''non-installed''
      else if has_status p STATUS_INVALID then ''invalid''
      else ''unknown'')"

definition reason_label :: "path_status_tlv \<Rightarrow> string" where
  "reason_label p =
     (if ps_reason p = 0x0001 then ''AS loop''
      else if ps_reason p = 0x0002 then ''unresolvable nexthop''
      else if ps_reason p = 0x0003 then ''not preferred: LOCAL_PREF''
      else if ps_reason p = 0x0004 then ''not preferred: AS_PATH length''
      else if ps_reason p = 0x0005 then ''not preferred: ORIGIN type''
      else if ps_reason p = 0x0006 then ''not preferred: MED''
      else if ps_reason p = 0x0007 then ''not preferred: peer type''
      else if ps_reason p = 0x0008 then ''not preferred: IGP cost''
      else if ps_reason p = 0x0009 then ''not preferred: router-ID''
      else if ps_reason p = 0x000A then ''not preferred: peer address''
      else if ps_reason p = 0x000B then ''not preferred: AIGP''
      else [])"

definition is_active :: "path_status_tlv \<Rightarrow> bool" where
  "is_active p \<longleftrightarrow> has_status p STATUS_BEST \<or> has_status p STATUS_PRIMARY"

definition parse_path_status_tlv :: "bytes \<Rightarrow> ('e, path_status_tlv option) outcome" where
  "parse_path_status_tlv data =
     (if length data < 4 then Ok None
      else rbind (u32_at data 0) (\<lambda>status.
           rbind (if length data \<ge> 6 then u16_at data 4 else Ok 0) (\<lambda>reason.
             Ok (Some \<lparr>ps_status = status, ps_reason = reason\<rparr>))))"

definition find_path_status_tlv :: "bytes \<Rightarrow> u16 \<Rightarrow> ('e, path_status_tlv option) outcome" where
  "find_path_status_tlv data tlv_type =
     scan_16_16 data 0
       (\<lambda>t d found. if t = tlv_type then rbind (parse_path_status_tlv d) (\<lambda>r. Ok (Brk r))
                    else Ok (Cont found))
       None"

subsection \<open>Lemmas\<close>

lemma parse_path_status_tlv_sat:
  "sat (parse_path_status_tlv data) (\<lambda>r. r = None \<longleftrightarrow> length data < 4)"
  by (simp add: parse_path_status_tlv_def)

lemma parse_path_status_tlv_not_Err [simp]: "parse_path_status_tlv data \<noteq> Err e"
  by (simp add: parse_path_status_tlv_def)

lemma fold_ctl_find:
  "fold_ctl (\<lambda>t d s. if t = ty then rbind (f d) (\<lambda>r. Ok (Brk r)) else Ok (Cont s)) xs s =
     (case List.find (\<lambda>(t, d). t = ty) xs of None \<Rightarrow> Ok s | Some (t, d) \<Rightarrow> f d)"
proof (induction xs)
  case Nil
  then show ?case by simp
next
  case (Cons x xs)
  obtain t d where x: "x = (t, d)" by (cases x)
  have "rbind (f d) (\<lambda>r. Ok r) = f d" by (cases "f d") simp_all
  with Cons show ?case by (auto simp: x rbind_assoc)
qed

lemma find_path_status_tlv_first:
  "find_path_status_tlv data ty =
     (case List.find (\<lambda>(t, d). t = ty) (tlvs_16_16 data) of
        None \<Rightarrow> Ok None | Some (t, d) \<Rightarrow> parse_path_status_tlv d)"
  unfolding find_path_status_tlv_def f16_16.scan_eq_fold by (simp add: fold_ctl_find)

lemma find_path_status_tlv_sat: "sat (find_path_status_tlv data ty) (\<lambda>_. True)"
  unfolding find_path_status_tlv_first
  by (auto split: option.splits prod.splits intro!: sat_weaken [OF parse_path_status_tlv_sat])

lemma find_path_status_tlv_not_Err [simp]: "find_path_status_tlv data ty \<noteq> Err e"
  unfolding find_path_status_tlv_first by (auto split: option.splits prod.splits)

end
