(* ===== verification/Attributes.thy ===== *)
theory Attributes
  imports As_Path Nlri Evpn Flowspec Srv6 Bgpls Srpolicy Path_Status
begin

text \<open>
  \<^verbatim>\<open>rbmp-core/src/bgp/attributes.rs\<close>: the path attribute section of a BGP UPDATE.  The match on
  the attribute type is split into three groups of arms (\<open>core_arm\<close>, \<open>mp_arm\<close>,
  \<open>ext_arm\<close>); an attribute that no arm takes, because of its type or of its length, is kept raw.
  MP_REACH and MP_UNREACH dispatch on the SAFI to the NLRI decoders.

  Results: the parser stops on every input; without MP attributes it never panics; every attribute
  no arm recognises is preserved, in order; a section that ends inside an attribute is an error; the
  common attributes are read back as they are written.
\<close>

unbundle bit_operations_syntax

subsection \<open>Data\<close>

record evpn_reach_nlri =
  er_next_hops :: "ip_addr list"
  er_routes :: "evpn_route list"

record bgpsec_path =
  signing_asns :: "u32 list"
  sig_block_count :: u8
  bgpsec_raw :: bytes

record path_attributes =
  pa_origin :: "origin option"
  pa_as_path :: "as_path option"
  pa_next_hop :: "ip_addr option"
  multi_exit_disc :: "u32 option"
  local_pref :: "u32 option"
  atomic_aggregate :: bool
  aggregator :: "(u32 \<times> ipv4) option"
  communities :: "standard_community list"
  extended_communities :: "extended_community list"
  large_communities :: "large_community list"
  originator_id :: "ipv4 option"
  cluster_list :: "ipv4 list"
  mp_reach :: "mp_reach_nlri option"
  mp_unreach :: "mp_unreach_nlri option"
  as4_path :: "as_path option"
  as4_aggregator :: "(u32 \<times> ipv4) option"
  evpn_reach :: "evpn_reach_nlri option"
  evpn_unreach :: "evpn_route list option"
  flowspec_reach :: "flowspec_nlri list option"
  flowspec_unreach :: "flowspec_nlri list option"
  pa_prefix_sid :: "prefix_sid_attr option"
  tunnel_encap :: "tunnel_encap_entry list option"
  only_to_customer :: "u32 option"
  bgpls_reach :: "bgpls_reach_nlri option"
  bgpls_unreach :: "bgpls_unreach_nlri option"
  bgpls_attr :: "bgpls_attribute option"
  sr_policy_nlris :: "srpolicy_nlri list"
  sr_policy_paths :: "candidate_path list"
  rtc_nlris :: "rtc_nlri list"
  pa_bgpsec_path :: "bgpsec_path option"
  path_status :: "path_status_tlv option"
  pa_unknown :: "raw_attribute list"

definition path_attributes_default :: path_attributes where
  "path_attributes_default = \<lparr>
     pa_origin = None, pa_as_path = None, pa_next_hop = None, multi_exit_disc = None, local_pref = None,
     atomic_aggregate = False, aggregator = None, communities = [], extended_communities = [],
     large_communities = [], originator_id = None, cluster_list = [], mp_reach = None,
     mp_unreach = None, as4_path = None, as4_aggregator = None, evpn_reach = None,
     evpn_unreach = None, flowspec_reach = None, flowspec_unreach = None, pa_prefix_sid = None,
     tunnel_encap = None, only_to_customer = None, bgpls_reach = None, bgpls_unreach = None,
     bgpls_attr = None, sr_policy_nlris = [], sr_policy_paths = [], rtc_nlris = [],
     pa_bgpsec_path = None, path_status = None, pa_unknown = [] \<rparr>"

subsection \<open>Tunnel encapsulation and BGPsec\<close>

definition tunnel_subtlv ::
    "u8 \<Rightarrow> bytes \<Rightarrow> ip_addr option \<times> u32 option \<Rightarrow> (ip_addr option \<times> u32 option) ctl result" where
  "tunnel_subtlv sub_type data st =
     (case st of (endpoint, color) \<Rightarrow>
        if sub_type = 1 \<and> length data = 4
        then rbind (ipv4_at data 0) (\<lambda>a. Ok (Cont (Some (IpV4 a), color)))
        else if sub_type = 1 \<and> length data = 16
        then rbind (ipv6_at data 0) (\<lambda>a. Ok (Cont (Some (IpV6 a), color)))
        else if sub_type = 9 \<and> length data \<ge> 4
        then (if length data \<ge> 6
              then rbind (u32_at data 2) (\<lambda>c. Ok (Cont (endpoint, Some c)))
              else Ok (Cont (endpoint, color)))
        else Ok (Cont (endpoint, color)))"

definition parse_tunnel_subtlvs :: "bytes \<Rightarrow> (ip_addr option \<times> u32 option) result" where
  "parse_tunnel_subtlvs buf = scan_8_8 buf 0 tunnel_subtlv (None, None)"

definition parse_tunnel_encap :: "bytes \<Rightarrow> tunnel_encap_entry list result" where
  "parse_tunnel_encap buf =
     scan_16_16 buf 0
       (\<lambda>t sub_buf entries.
          rbind (parse_tunnel_subtlvs sub_buf) (\<lambda>(endpoint, color).
            Ok (Cont (entries @ [\<lparr>tunnel_type = t, te_type_name = tunnel_type_name t,
                                  te_endpoint = endpoint, te_color = color\<rparr>]))))
       []"

text \<open>Secure_Path segments up to \<open>secure_path_end\<close>, then a count of signature blocks that wraps at
  256 (\<^verbatim>\<open>sig_block_count: u8\<close>).\<close>

definition secure_path_asns :: "bytes \<Rightarrow> nat \<Rightarrow> u32 list result" where
  "secure_path_asns buf secure_path_end =
     rbind (rwhile (\<lambda>(pos, asns). pos + 6 \<le> secure_path_end)
       (\<lambda>(pos, asns). rbind (u32_at buf (pos + 2)) (\<lambda>asn. Ok (Cont (pos + 6, asns @ [asn])))) (2, []))
     (\<lambda>(pos, asns). Ok asns)"

definition count_sig_blocks :: "bytes \<Rightarrow> nat \<Rightarrow> u8 result" where
  "count_sig_blocks buf start =
     rbind (rwhile (\<lambda>(pos, n). pos + 3 \<le> length buf)
       (\<lambda>(pos, n). rbind (len16_at buf pos) (\<lambda>block_len. Ok (Cont (pos + (2 + block_len), n + 1)))) (start, 0))
     (\<lambda>(pos, n). Ok n)"

definition parse_bgpsec_path :: "bytes \<Rightarrow> bgpsec_path result" where
  "parse_bgpsec_path buf =
     (let nothing = \<lparr>signing_asns = [], sig_block_count = 0, bgpsec_raw = buf\<rparr> in
      if length buf < 2 then Ok nothing
      else rbind (len16_at buf 0) (\<lambda>secure_path_len.
           if length buf < 2 + secure_path_len then Ok nothing
           else rbind (secure_path_asns buf (2 + secure_path_len)) (\<lambda>asns.
                rbind (count_sig_blocks buf (2 + secure_path_len)) (\<lambda>n.
                  Ok \<lparr>signing_asns = asns, sig_block_count = n, bgpsec_raw = buf\<rparr>))))"

subsection \<open>MP_REACH and MP_UNREACH\<close>

text \<open>What one multiprotocol attribute contributes.  For MP_UNREACH the SR policy component is an
  option: only an SR policy withdrawal replaces the list.\<close>

record mp_reach_result =
  mrr_mp :: mp_reach_nlri
  mrr_evpn :: "evpn_reach_nlri option"
  mrr_flowspec :: "flowspec_nlri list option"
  mrr_bgpls :: "bgpls_reach_nlri option"
  mrr_sr :: "srpolicy_nlri list"
  mrr_rtc :: "rtc_nlri list"

record mp_unreach_result =
  mur_mp :: mp_unreach_nlri
  mur_evpn :: "evpn_route list option"
  mur_flowspec :: "flowspec_nlri list option"
  mur_bgpls :: "bgpls_unreach_nlri option"
  mur_sr :: "srpolicy_nlri list option"
  mur_rtc :: "rtc_nlri list"

definition mp_reach_safi ::
    "crates \<Rightarrow> afi_safi \<Rightarrow> ip_addr list \<Rightarrow> bytes \<Rightarrow> mp_reach_result result" where
  "mp_reach_safi C as next_hops remaining =
     (let mp = (\<lambda>ps. \<lparr>mr_afi_safi = as, mr_next_hops = next_hops, mr_prefixes = ps\<rparr>);
          empty = \<lparr>mrr_mp = mp [], mrr_evpn = None, mrr_flowspec = None, mrr_bgpls = None,
                   mrr_sr = [], mrr_rtc = []\<rparr>;
          prefixes = (\<lambda>r. rbind r (\<lambda>ps. Ok (empty\<lparr>mrr_mp := mp ps\<rparr>)));
          ipv6 = (afi_of as = Afi_Ipv6)
      in case safi_of as of
           Safi_Evpn \<Rightarrow>
             rbind (unwrap_or (decode_evpn_nlri remaining) []) (\<lambda>routes.
               Ok (empty\<lparr>mrr_evpn := Some \<lparr>er_next_hops = next_hops, er_routes = routes\<rparr>\<rparr>))
         | Safi_Flowspec \<Rightarrow>
             rbind (unwrap_or (decode_flowspec_nlri remaining ipv6) []) (\<lambda>fs. Ok (empty\<lparr>mrr_flowspec := Some fs\<rparr>))
         | Safi_FlowspecVpn \<Rightarrow>
             rbind (unwrap_or (decode_flowspec_nlri remaining ipv6) []) (\<lambda>fs. Ok (empty\<lparr>mrr_flowspec := Some fs\<rparr>))
         | Safi_BgpLs \<Rightarrow>
             (let next_hop = slice_first next_hops in
              rbind (unwrap_or (decode_bgpls_reach C next_hop remaining) \<lparr>lr_next_hop = next_hop, lr_nlris = []\<rparr>)
                (\<lambda>ls. Ok (empty\<lparr>mrr_bgpls := Some ls\<rparr>)))
         | Safi_BgpLsSrv6 \<Rightarrow>
             (let next_hop = slice_first next_hops in
              rbind (unwrap_or (decode_bgpls_reach C next_hop remaining) \<lparr>lr_next_hop = next_hop, lr_nlris = []\<rparr>)
                (\<lambda>ls. Ok (empty\<lparr>mrr_bgpls := Some ls\<rparr>)))
         | Safi_Vpls \<Rightarrow> rbind (unwrap_or (decode_vpls_nlri C remaining) []) (\<lambda>_. Ok empty)
         | Safi_SrPolicy \<Rightarrow>
             rbind (unwrap_or (decode_srpolicy_nlri remaining ipv6) []) (\<lambda>nlris. Ok (empty\<lparr>mrr_sr := nlris\<rparr>))
         | Safi_RouteTargetConstraint \<Rightarrow>
             rbind (unwrap_or (decode_rtc_nlri remaining) []) (\<lambda>rtcs. Ok (empty\<lparr>mrr_rtc := rtcs\<rparr>))
         | Safi_Unicast \<Rightarrow> prefixes (decode_nlri C remaining (afi_of as))
         | Safi_Multicast \<Rightarrow> prefixes (decode_nlri C remaining (afi_of as))
         | Safi_LabeledUnicast \<Rightarrow> prefixes (decode_labeled_nlri C remaining (afi_of as))
         | Safi_MplsVpn \<Rightarrow> prefixes (decode_vpn_nlri C remaining (afi_of as))
         | _ \<Rightarrow> Ok empty)"

definition parse_mp_reach :: "crates \<Rightarrow> bytes \<Rightarrow> mp_reach_result result" where
  "parse_mp_reach C buf =
     (if length buf < 4 then Err (UnexpectedEof 4 (length buf))
      else rbind (u16_at buf 0) (\<lambda>afi.
           rbind (idx buf 2) (\<lambda>safi.
           let as = afi_safi_new afi safi in
           rbind (slice_from buf 3) (\<lambda>cur.
           rbind (decode_next_hops C cur (afi_of as)) (\<lambda>(next_hops, cur).
           if length cur < 1 then Err (UnexpectedEof 1 (length cur))
           else rbind (buf_get_u8 C cur) (\<lambda>(snpa, remaining).
                  mp_reach_safi C as next_hops remaining))))))"

definition mp_unreach_safi :: "crates \<Rightarrow> afi_safi \<Rightarrow> bytes \<Rightarrow> mp_unreach_result result" where
  "mp_unreach_safi C as remaining =
     (let mp = (\<lambda>ps. \<lparr>mu_afi_safi = as, mu_prefixes = ps\<rparr>);
          empty = \<lparr>mur_mp = mp [], mur_evpn = None, mur_flowspec = None, mur_bgpls = None,
                   mur_sr = None, mur_rtc = []\<rparr>;
          prefixes = (\<lambda>r. rbind r (\<lambda>ps. Ok (empty\<lparr>mur_mp := mp ps\<rparr>)));
          ipv6 = (afi_of as = Afi_Ipv6)
      in case safi_of as of
           Safi_Evpn \<Rightarrow>
             rbind (unwrap_or (decode_evpn_nlri remaining) []) (\<lambda>routes. Ok (empty\<lparr>mur_evpn := Some routes\<rparr>))
         | Safi_Flowspec \<Rightarrow>
             rbind (unwrap_or (decode_flowspec_nlri remaining ipv6) []) (\<lambda>fs. Ok (empty\<lparr>mur_flowspec := Some fs\<rparr>))
         | Safi_FlowspecVpn \<Rightarrow>
             rbind (unwrap_or (decode_flowspec_nlri remaining ipv6) []) (\<lambda>fs. Ok (empty\<lparr>mur_flowspec := Some fs\<rparr>))
         | Safi_BgpLs \<Rightarrow>
             rbind (unwrap_or (decode_bgpls_unreach C remaining) \<lparr>lu_nlris = []\<rparr>) (\<lambda>ls.
               Ok (empty\<lparr>mur_bgpls := Some ls\<rparr>))
         | Safi_SrPolicy \<Rightarrow>
             rbind (unwrap_or (decode_srpolicy_nlri remaining ipv6) []) (\<lambda>nlris. Ok (empty\<lparr>mur_sr := Some nlris\<rparr>))
         | Safi_RouteTargetConstraint \<Rightarrow>
             rbind (unwrap_or (decode_rtc_nlri remaining) []) (\<lambda>rtcs. Ok (empty\<lparr>mur_rtc := rtcs\<rparr>))
         | Safi_Unicast \<Rightarrow> prefixes (decode_nlri C remaining (afi_of as))
         | Safi_Multicast \<Rightarrow> prefixes (decode_nlri C remaining (afi_of as))
         | Safi_LabeledUnicast \<Rightarrow> prefixes (decode_labeled_nlri C remaining (afi_of as))
         | Safi_MplsVpn \<Rightarrow> prefixes (decode_vpn_nlri C remaining (afi_of as))
         | _ \<Rightarrow> Ok empty)"

definition parse_mp_unreach :: "crates \<Rightarrow> bytes \<Rightarrow> mp_unreach_result result" where
  "parse_mp_unreach C buf =
     (if length buf < 3 then Err (UnexpectedEof 3 (length buf))
      else rbind (u16_at buf 0) (\<lambda>afi.
           rbind (idx buf 2) (\<lambda>safi.
           rbind (slice_from buf 3) (\<lambda>remaining.
             mp_unreach_safi C (afi_safi_new afi safi) remaining))))"

subsection \<open>The attribute loop\<close>

definition FLAG_EXT_LEN :: u8 where "FLAG_EXT_LEN = 0x10"

definition asn_and_id :: "bytes \<Rightarrow> (u32 \<times> ipv4) result" where
  "asn_and_id b = rbind (u32_at b 0) (\<lambda>asn. rbind (ipv4_at b 4) (\<lambda>i. Ok (asn, i)))"

definition ext_community_at :: "bytes \<Rightarrow> nat \<Rightarrow> extended_community result" where
  "ext_community_at b i = rbind (slice b i (i + 8)) (\<lambda>raw. Ok (ext_from_bytes raw))"

definition large_community_at :: "bytes \<Rightarrow> nat \<Rightarrow> large_community result" where
  "large_community_at b i =
     rbind (u32_at b i) (\<lambda>ga. rbind (u32_at b (i + 4)) (\<lambda>ld1. rbind (u32_at b (i + 8)) (\<lambda>ld2.
       Ok (LargeCommunity ga ld1 ld2))))"

text \<open>The arms of \<^verbatim>\<open>match type_code\<close>; \<open>None\<close> when no arm of the group applies.\<close>

definition core_arm :: "u8 \<Rightarrow> bytes \<Rightarrow> path_attributes \<Rightarrow> path_attributes option result" where
  "core_arm t b attrs =
     (let n = length b in
      if t = 1 \<and> n \<ge> 1 then
        rbind (idx b 0) (\<lambda>v. rbind (origin_try_from v) (\<lambda>orig. Ok (Some (attrs\<lparr>pa_origin := Some orig\<rparr>))))
      else if t = 2 then rbind (parse_as_path b False) (\<lambda>p. Ok (Some (attrs\<lparr>pa_as_path := Some p\<rparr>)))
      else if t = 3 \<and> n = 4 then
        rbind (ipv4_at b 0) (\<lambda>a. Ok (Some (attrs\<lparr>pa_next_hop := Some (IpV4 a)\<rparr>)))
      else if t = 4 \<and> n = 4 then rbind (u32_at b 0) (\<lambda>v. Ok (Some (attrs\<lparr>multi_exit_disc := Some v\<rparr>)))
      else if t = 5 \<and> n = 4 then rbind (u32_at b 0) (\<lambda>v. Ok (Some (attrs\<lparr>local_pref := Some v\<rparr>)))
      else if t = 6 then Ok (Some (attrs\<lparr>atomic_aggregate := True\<rparr>))
      else if t = 7 \<and> n = 6 then
        rbind (u16_at b 0) (\<lambda>asn. rbind (ipv4_at b 2) (\<lambda>i.
          Ok (Some (attrs\<lparr>aggregator := Some (ucast asn, i)\<rparr>))))
      else if t = 7 \<and> n = 8 then rbind (asn_and_id b) (\<lambda>a. Ok (Some (attrs\<lparr>aggregator := Some a\<rparr>)))
      else if t = 8 then
        rbind (slice_scan 4 u32_at b) (\<lambda>vs.
          Ok (Some (attrs\<lparr>communities := communities attrs @ map StandardCommunity vs\<rparr>)))
      else if t = 9 \<and> n = 4 then rbind (ipv4_at b 0) (\<lambda>a. Ok (Some (attrs\<lparr>originator_id := Some a\<rparr>)))
      else if t = 10 then
        rbind (slice_scan 4 ipv4_at b) (\<lambda>vs. Ok (Some (attrs\<lparr>cluster_list := cluster_list attrs @ vs\<rparr>)))
      else Ok None)"

definition mp_arm :: "crates \<Rightarrow> u8 \<Rightarrow> bytes \<Rightarrow> path_attributes \<Rightarrow> path_attributes option result" where
  "mp_arm C t b attrs =
     (if t = 14 \<and> length b \<ge> 4 then
        rbind (parse_mp_reach C b) (\<lambda>r.
          Ok (Some (attrs\<lparr>mp_reach := Some (mrr_mp r), evpn_reach := mrr_evpn r,
                          flowspec_reach := mrr_flowspec r, bgpls_reach := mrr_bgpls r,
                          sr_policy_nlris := mrr_sr r, rtc_nlris := mrr_rtc r\<rparr>)))
      else if t = 15 \<and> length b \<ge> 3 then
        rbind (parse_mp_unreach C b) (\<lambda>r.
          Ok (Some (attrs\<lparr>mp_unreach := Some (mur_mp r), evpn_unreach := mur_evpn r,
                          flowspec_unreach := mur_flowspec r, bgpls_unreach := mur_bgpls r,
                          sr_policy_nlris := (case mur_sr r of Some nlris \<Rightarrow> nlris
                                                             | None \<Rightarrow> sr_policy_nlris attrs)\<rparr>)))
      else Ok None)"

definition ext_arm :: "u8 \<Rightarrow> bytes \<Rightarrow> path_attributes \<Rightarrow> path_attributes option result" where
  "ext_arm t b attrs =
     (let n = length b in
      if t = 16 then
        rbind (slice_scan 8 ext_community_at b) (\<lambda>cs.
          Ok (Some (attrs\<lparr>extended_communities := extended_communities attrs @ cs\<rparr>)))
      else if t = 17 then rbind (parse_as_path b True) (\<lambda>p. Ok (Some (attrs\<lparr>as4_path := Some p\<rparr>)))
      else if t = 18 \<and> n = 8 then rbind (asn_and_id b) (\<lambda>a. Ok (Some (attrs\<lparr>as4_aggregator := Some a\<rparr>)))
      else if t = 23 then rbind (parse_tunnel_encap b) (\<lambda>es. Ok (Some (attrs\<lparr>tunnel_encap := Some es\<rparr>)))
      else if t = 32 then
        rbind (slice_scan 12 large_community_at b) (\<lambda>cs.
          Ok (Some (attrs\<lparr>large_communities := large_communities attrs @ cs\<rparr>)))
      else if t = 35 \<and> n = 4 then rbind (u32_at b 0) (\<lambda>v. Ok (Some (attrs\<lparr>only_to_customer := Some v\<rparr>)))
      else if t = 29 then rbind (parse_bgpls_attribute b) (\<lambda>a. Ok (Some (attrs\<lparr>bgpls_attr := Some a\<rparr>)))
      else if t = 40 then rbind (ok (parse_prefix_sid b)) (\<lambda>sid. Ok (Some (attrs\<lparr>pa_prefix_sid := sid\<rparr>)))
      else if t = 30 then rbind (parse_bgpsec_path b) (\<lambda>p. Ok (Some (attrs\<lparr>pa_bgpsec_path := Some p\<rparr>)))
      else Ok None)"

definition attribute_arm :: "crates \<Rightarrow> u8 \<Rightarrow> u8 \<Rightarrow> bytes \<Rightarrow> path_attributes \<Rightarrow> path_attributes result" where
  "attribute_arm C flags t b attrs =
     rbind (core_arm t b attrs) (\<lambda>r. case r of Some a \<Rightarrow> Ok a | None \<Rightarrow>
     rbind (mp_arm C t b attrs) (\<lambda>r. case r of Some a \<Rightarrow> Ok a | None \<Rightarrow>
     rbind (ext_arm t b attrs) (\<lambda>r. case r of Some a \<Rightarrow> Ok a | None \<Rightarrow>
       Ok (attrs\<lparr>pa_unknown := pa_unknown attrs @ [RawAttribute flags t b]\<rparr>))))"

text \<open>The header of an attribute: flags, type, and a one- or two-byte length.\<close>

definition attr_header :: "crates \<Rightarrow> bytes \<Rightarrow> (u8 \<times> u8 \<times> nat \<times> bytes) result" where
  "attr_header C buf =
     rbind (buf_get_u8 C buf) (\<lambda>(flags, buf).
     rbind (buf_get_u8 C buf) (\<lambda>(type_code, buf).
       if flags AND FLAG_EXT_LEN \<noteq> 0
       then (if length buf < 2 then Err (UnexpectedEof 2 (length buf))
             else rbind (buf_get_u16 C buf) (\<lambda>(l, buf). Ok (flags, type_code, unat l, buf)))
       else rbind (buf_get_u8 C buf) (\<lambda>(l, buf). Ok (flags, type_code, unat l, buf))))"

definition attribute_step :: "crates \<Rightarrow> bytes \<times> path_attributes \<Rightarrow> (bytes \<times> path_attributes) ctl result" where
  "attribute_step C st =
     (case st of (buf, attrs) \<Rightarrow>
        rbind (attr_header C buf) (\<lambda>(flags, type_code, attr_len, buf).
          if length buf < attr_len then Err (TruncatedAttribute type_code attr_len (length buf))
          else rbind (buf_copy_to_bytes C attr_len buf) (\<lambda>(attr_data, buf).
               rbind (attribute_arm C flags type_code attr_data attrs) (\<lambda>attrs.
                 Ok (Cont (buf, attrs))))))"

definition parse_path_attributes :: "crates \<Rightarrow> bytes \<Rightarrow> path_attributes result" where
  "parse_path_attributes C buf =
     rbind (rwhile (\<lambda>(buf, attrs). length buf \<ge> 3) (attribute_step C) (buf, path_attributes_default))
       (\<lambda>(buf, attrs). Ok attrs)"

subsection \<open>Interpretations and sub-parsers\<close>

interpretation ext_chunks: chunk_format 8 ext_community_at ext_from_bytes
  by unfold_locales (auto simp: ext_community_at_def read_simps)

interpretation large_chunks: chunk_format 12 large_community_at
  "\<lambda>c. LargeCommunity (from_be (take 4 c)) (from_be (take 4 (drop 4 c))) (from_be (take 4 (drop 8 c)))"
  by unfold_locales (auto simp: large_community_at_def read_simps drop_take add.commute)

lemma parse_tunnel_subtlvs_sat: "sat (parse_tunnel_subtlvs buf) (\<lambda>_. True)"
  unfolding parse_tunnel_subtlvs_def
  by (rule f8_8.scan_sat) (auto simp: tunnel_subtlv_def split: prod.splits)

lemma parse_tunnel_encap_sat:
  "sat (parse_tunnel_encap buf) (\<lambda>es. \<forall>e \<in> set es. te_type_name e = tunnel_type_name (tunnel_type e))"
  unfolding parse_tunnel_encap_def
  by (rule f16_16.scan_sat) (auto intro!: sat_weaken [OF parse_tunnel_subtlvs_sat])

lemma secure_path_asns_sat:
  "n \<le> length buf \<Longrightarrow> sat (secure_path_asns buf n) (\<lambda>asns. length asns = (n - 2) div 6)"
proof -
  assume n: "n \<le> length buf"
  let ?I = "\<lambda>(pos, asns :: u32 list). pos = 2 + 6 * length asns \<and> (length asns \<noteq> 0 \<longrightarrow> pos \<le> n)"
  have "sat (rwhile (\<lambda>(pos, asns). pos + 6 \<le> n)
       (\<lambda>(pos, asns). rbind (u32_at buf (pos + 2)) (\<lambda>asn. Ok (Cont (pos + 6, asns @ [asn])))) (2, []))
       (\<lambda>(pos, asns). length asns = (n - 2) div 6)"
    by (rule rwhile_sat [where I = ?I and \<mu> = "\<lambda>(pos, asns). n - pos"])
      (use n in \<open>auto split: prod.splits\<close>)
  then show ?thesis by (auto simp: secure_path_asns_def intro: sat_weaken)
qed

lemma count_sig_blocks_sat: "sat (count_sig_blocks buf start) (\<lambda>_. True)"
  unfolding count_sig_blocks_def
  by (rule sat_bindI [OF rwhile_sat [where I = "\<lambda>_. True" and \<mu> = "\<lambda>(pos, n). length buf - pos" and Q = "\<lambda>_. True"]])
    auto

lemma parse_bgpsec_path_sat: "sat (parse_bgpsec_path buf) (\<lambda>p. bgpsec_raw p = buf)"
  by (auto simp: parse_bgpsec_path_def Let_def intro!: sat_weaken [OF secure_path_asns_sat] sat_weaken [OF count_sig_blocks_sat])

subsection \<open>Termination of the attribute parser\<close>

lemma stops_TrueI: "m \<noteq> Diverge \<Longrightarrow> stops m (\<lambda>_. True)"
  by (simp add: stops_iff)

lemma decode_bgpls_stops:
  assumes "bytes_ok C"
  shows "stops (decode_bgpls_reach C nh buf) (\<lambda>_. True)" "stops (decode_bgpls_unreach C buf) (\<lambda>_. True)"
  using stops_TrueI [OF decode_bgpls_nlri_not_Diverge [OF assms], of buf]
  by (simp_all add: decode_bgpls_reach_def decode_bgpls_unreach_def)

definition mp_prefixes_wf :: "prefix list \<Rightarrow> bool" where
  "mp_prefixes_wf ps \<longleftrightarrow> (\<forall>p \<in> set ps. prefix_wf p)"

lemma decoders_wf:
  assumes "bytes_ok C" "ipnet_ok C"
  shows "stops (decode_nlri C buf afi) mp_prefixes_wf" "stops (decode_labeled_nlri C buf afi) mp_prefixes_wf"
    "stops (decode_vpn_nlri C buf afi) mp_prefixes_wf"
  by (rule stops_weaken [OF sat_stops [OF decode_nlri_sat [OF assms]]]
      stops_weaken [OF decode_labeled_nlri_stops [OF assms]]
      stops_weaken [OF decode_vpn_nlri_stops [OF assms]]; simp add: mp_prefixes_wf_def)+

lemmas unwrap_stops = stops_weaken [OF stops_unwrap_or [where Q = "\<lambda>_. True"]]

lemma mp_reach_safi_stops:
  assumes "bytes_ok C" "ipnet_ok C"
  shows "stops (mp_reach_safi C as nhs buf) (\<lambda>r. mp_prefixes_wf (mr_prefixes (mrr_mp r)))"
proof -
  have nil: "mp_prefixes_wf []" by (simp add: mp_prefixes_wf_def)
  show ?thesis
    using nil
    by (cases "safi_of as")
      (auto simp: mp_reach_safi_def Let_def sat_stops [OF decode_evpn_nlri_sat]
        intro!: unwrap_stops decode_bgpls_stops [OF assms(1)] decode_flowspec_nlri_stops
          sat_stops [OF decode_srpolicy_nlri_sat] stops_weaken [OF decoders_wf(1) [OF assms]]
          stops_weaken [OF decoders_wf(2) [OF assms]] stops_weaken [OF decoders_wf(3) [OF assms]]
          stops_weaken [OF sat_stops [OF decode_rtc_nlri_sat]] stops_weaken [OF sat_stops [OF decode_vpls_nlri_sat [OF assms(1)]]])
qed

lemma mp_unreach_safi_stops:
  assumes "bytes_ok C" "ipnet_ok C"
  shows "stops (mp_unreach_safi C as buf) (\<lambda>r. mp_prefixes_wf (mu_prefixes (mur_mp r)))"
proof -
  have nil: "mp_prefixes_wf []" by (simp add: mp_prefixes_wf_def)
  show ?thesis
    using nil
    by (cases "safi_of as")
      (auto simp: mp_unreach_safi_def Let_def sat_stops [OF decode_evpn_nlri_sat]
        intro!: unwrap_stops decode_bgpls_stops [OF assms(1)] decode_flowspec_nlri_stops
          sat_stops [OF decode_srpolicy_nlri_sat] stops_weaken [OF decoders_wf(1) [OF assms]]
          stops_weaken [OF decoders_wf(2) [OF assms]] stops_weaken [OF decoders_wf(3) [OF assms]]
          stops_weaken [OF sat_stops [OF decode_rtc_nlri_sat]])
qed

lemma parse_mp_reach_stops:
  assumes "bytes_ok C" "ipnet_ok C"
  shows "stops (parse_mp_reach C buf) (\<lambda>r. mp_prefixes_wf (mr_prefixes (mrr_mp r)))"
proof -
  have hops: "stops (decode_next_hops C (drop 3 buf) afi) (\<lambda>_. True)" if "4 \<le> length buf" for afi
    using that by (intro stops_weaken [OF sat_stops [OF decode_next_hops_sat [OF assms(1)]]]) auto
  show ?thesis
    by (auto simp: parse_mp_reach_def Let_def stops_buf [OF assms(1)] not_less mp_reach_safi_stops [OF assms]
        intro!: stops_weaken [OF hops])
qed

lemma parse_mp_unreach_stops:
  assumes "bytes_ok C" "ipnet_ok C"
  shows "stops (parse_mp_unreach C buf) (\<lambda>r. mp_prefixes_wf (mu_prefixes (mur_mp r)))"
  by (simp add: parse_mp_unreach_def mp_unreach_safi_stops [OF assms])

text \<open>Prefixes that the MP attributes of a section have contributed are well formed.\<close>

definition attrs_wf :: "path_attributes \<Rightarrow> bool" where
  "attrs_wf a \<longleftrightarrow>
     (case mp_reach a of None \<Rightarrow> True | Some m \<Rightarrow> mp_prefixes_wf (mr_prefixes m))
   \<and> (case mp_unreach a of None \<Rightarrow> True | Some m \<Rightarrow> mp_prefixes_wf (mu_prefixes m))"

definition core_known :: "u8 \<Rightarrow> nat \<Rightarrow> bool" where
  "core_known t n \<longleftrightarrow> (t = 1 \<and> 1 \<le> n) \<or> t \<in> {2, 6, 8, 10} \<or> (t \<in> {3, 4, 5, 9} \<and> n = 4)
     \<or> (t = 7 \<and> (n = 6 \<or> n = 8))"

definition mp_known :: "u8 \<Rightarrow> nat \<Rightarrow> bool" where
  "mp_known t n \<longleftrightarrow> (t = 14 \<and> 4 \<le> n) \<or> (t = 15 \<and> 3 \<le> n)"

definition ext_known :: "u8 \<Rightarrow> nat \<Rightarrow> bool" where
  "ext_known t n \<longleftrightarrow> t \<in> {16, 17, 23, 29, 30, 32, 40} \<or> (t = 18 \<and> n = 8) \<or> (t = 35 \<and> n = 4)"

definition attr_arm_ok :: "bool \<Rightarrow> path_attributes \<Rightarrow> path_attributes option \<Rightarrow> bool" where
  "attr_arm_ok known attrs r =
     (case r of None \<Rightarrow> \<not> known
      | Some a \<Rightarrow> known \<and> pa_unknown a = pa_unknown attrs \<and> (attrs_wf attrs \<longrightarrow> attrs_wf a))"

lemma origin_try_from_sat: "sat (origin_try_from v) (\<lambda>_. True)"
  by (simp add: origin_try_from_def)

lemma core_arm_sat: "sat (core_arm t b attrs) (attr_arm_ok (core_known t (length b)) attrs)"
  by (simp add: core_arm_def Let_def attr_arm_ok_def core_known_def attrs_wf_def u32_chunks.slice_scan_eq
      ipv4_chunks.slice_scan_eq asn_and_id_def)
    (auto intro!: sat_weaken [OF parse_as_path_sat] sat_weaken [OF origin_try_from_sat])

lemma ext_arm_sat: "sat (ext_arm t b attrs) (attr_arm_ok (ext_known t (length b)) attrs)"
  by (simp add: ext_arm_def Let_def attr_arm_ok_def ext_known_def attrs_wf_def ext_chunks.slice_scan_eq
      large_chunks.slice_scan_eq asn_and_id_def)
    (auto intro!: sat_weaken [OF parse_as_path_sat] sat_weaken [OF parse_tunnel_encap_sat]
      sat_weaken [OF parse_bgpls_attribute_sat] sat_weaken [OF sat_ok [OF parse_prefix_sid_sat]]
      sat_weaken [OF parse_bgpsec_path_sat])

lemma mp_arm_stops:
  assumes "bytes_ok C" "ipnet_ok C"
  shows "stops (mp_arm C t b attrs) (attr_arm_ok (mp_known t (length b)) attrs)"
  by (auto simp: mp_arm_def attr_arm_ok_def mp_known_def attrs_wf_def
      intro!: stops_weaken [OF parse_mp_reach_stops [OF assms]] stops_weaken [OF parse_mp_unreach_stops [OF assms]])

definition attr_known :: "u8 \<Rightarrow> nat \<Rightarrow> bool" where
  "attr_known t n \<longleftrightarrow> core_known t n \<or> mp_known t n \<or> ext_known t n"

lemma attrs_wf_unknown [simp]: "attrs_wf (attrs\<lparr>pa_unknown := u\<rparr>) = attrs_wf attrs"
  by (simp add: attrs_wf_def)

definition arm_result_ok :: "u8 \<Rightarrow> u8 \<Rightarrow> bytes \<Rightarrow> path_attributes \<Rightarrow> path_attributes \<Rightarrow> bool" where
  "arm_result_ok flags t b attrs a \<longleftrightarrow>
     pa_unknown a = pa_unknown attrs @ (if attr_known t (length b) then [] else [RawAttribute flags t b])
   \<and> (attrs_wf attrs \<longrightarrow> attrs_wf a)"

lemma attribute_arm_stops:
  assumes "bytes_ok C" "ipnet_ok C"
  shows "stops (attribute_arm C flags t b attrs) (arm_result_ok flags t b attrs)"
  unfolding attribute_arm_def stops_rbind
proof (rule stops_weaken [OF sat_stops [OF core_arm_sat]], goal_cases)
  case (1 r)
  have ext: "stops (ext_arm t b attrs) (\<lambda>r. stops (case r of Some a \<Rightarrow> Ok a | None \<Rightarrow>
      Ok (attrs\<lparr>pa_unknown := pa_unknown attrs @ [RawAttribute flags t b]\<rparr>)) (arm_result_ok flags t b attrs))"
    if "\<not> core_known t (length b)" "\<not> mp_known t (length b)"
    by (rule stops_weaken [OF sat_stops [OF ext_arm_sat]])
      (use that in \<open>auto simp: attr_arm_ok_def arm_result_ok_def attr_known_def split: option.splits\<close>)
  have "stops (mp_arm C t b attrs) (\<lambda>r. stops (case r of Some a \<Rightarrow> Ok a | None \<Rightarrow>
      rbind (ext_arm t b attrs) (\<lambda>r. case r of Some a \<Rightarrow> Ok a | None \<Rightarrow>
      Ok (attrs\<lparr>pa_unknown := pa_unknown attrs @ [RawAttribute flags t b]\<rparr>))) (arm_result_ok flags t b attrs))"
    if "\<not> core_known t (length b)"
    by (rule stops_weaken [OF mp_arm_stops [OF assms]])
      (use that ext in \<open>auto simp: attr_arm_ok_def arm_result_ok_def attr_known_def split: option.splits\<close>)
  with 1 show ?case
    by (cases r) (simp_all add: attr_arm_ok_def arm_result_ok_def attr_known_def)
qed

subsection \<open>The attribute section as a list of attributes\<close>

definition attr_hdr_len :: "bytes \<Rightarrow> nat" where
  "attr_hdr_len bs = (if hd bs AND FLAG_EXT_LEN \<noteq> 0 then 4 else 3)"

definition attr_val_len :: "bytes \<Rightarrow> nat" where
  "attr_val_len bs = (if hd bs AND FLAG_EXT_LEN \<noteq> 0 then be_nat (take 2 (drop 2 bs)) else unat (bs ! 2))"

text \<open>The complete attributes at the front of a section: flags, type and value.\<close>

function attr_list :: "bytes \<Rightarrow> (u8 \<times> u8 \<times> bytes) list" where
  "attr_list bs =
     (if length bs < 3 \<or> length bs < attr_hdr_len bs + attr_val_len bs then []
      else (hd bs, bs ! 1, take (attr_val_len bs) (drop (attr_hdr_len bs) bs))
           # attr_list (drop (attr_hdr_len bs + attr_val_len bs) bs))"
  by pat_completeness auto
termination
  by (relation "measure length") (auto simp: attr_hdr_len_def)

declare attr_list.simps [simp del]

lemma attr_header_eq:
  assumes "bytes_ok C" "3 \<le> length buf"
  shows "attr_header C buf =
     (if length buf < attr_hdr_len buf then Err (UnexpectedEof 2 (length buf - 2))
      else Ok (hd buf, buf ! 1, attr_val_len buf, drop (attr_hdr_len buf) buf))"
proof -
  from assms(2) obtain f t l r where buf: "buf = f # t # l # r"
    by (cases buf rule: remdups_adj.cases; cases "tl (tl buf)") auto
  have len: "unat (from_be [l, c] :: u16) = be_nat [l, c]" for c
    by (rule unat_from_be) simp
  show ?thesis
    using assms(1)
    by (cases r) (auto simp: buf attr_header_def attr_hdr_len_def attr_val_len_def get_u8_Cons get_u16_eq len)
qed

lemma attribute_step_eq:
  assumes "bytes_ok C" "3 \<le> length buf"
  shows "attribute_step C (buf, attrs) =
     (if length buf < attr_hdr_len buf then Err (UnexpectedEof 2 (length buf - 2))
      else if length buf < attr_hdr_len buf + attr_val_len buf
      then Err (TruncatedAttribute (buf ! 1) (attr_val_len buf) (length buf - attr_hdr_len buf))
      else rbind (attribute_arm C (hd buf) (buf ! 1) (take (attr_val_len buf) (drop (attr_hdr_len buf) buf)) attrs)
             (\<lambda>a. Ok (Cont (drop (attr_hdr_len buf + attr_val_len buf) buf, a))))"
  using assms
  by (auto simp: attribute_step_def attr_header_eq copy_to_bytes_eq add.commute)

text \<open>The parser is a fold of the match arms over the attribute list, followed by an error if the
  section does not end with the last complete attribute (fewer than three bytes are ignored).\<close>

fun fold_attrs :: "crates \<Rightarrow> (u8 \<times> u8 \<times> bytes) list \<Rightarrow> path_attributes \<Rightarrow> path_attributes result" where
  "fold_attrs C [] attrs = Ok attrs"
| "fold_attrs C ((f, t, d) # xs) attrs = rbind (attribute_arm C f t d attrs) (\<lambda>a. fold_attrs C xs a)"

function attr_rest :: "bytes \<Rightarrow> bytes" where
  "attr_rest bs =
     (if length bs < 3 \<or> length bs < attr_hdr_len bs + attr_val_len bs then bs
      else attr_rest (drop (attr_hdr_len bs + attr_val_len bs) bs))"
  by pat_completeness auto
termination
  by (relation "measure length") (auto simp: attr_hdr_len_def)

declare attr_rest.simps [simp del]

definition rest_error :: "bytes \<Rightarrow> error" where
  "rest_error buf =
     (if length buf < attr_hdr_len buf then UnexpectedEof 2 (length buf - 2)
      else TruncatedAttribute (buf ! 1) (attr_val_len buf) (length buf - attr_hdr_len buf))"

lemma attr_hdr_len_pos: "0 < attr_hdr_len bs"
  by (simp add: attr_hdr_len_def)

lemma attribute_loop_eq:
  assumes C: "bytes_ok C"
  shows "rwhile (\<lambda>(buf, attrs). length buf \<ge> 3) (attribute_step C) (buf, attrs) =
     rbind (fold_attrs C (attr_list buf) attrs) (\<lambda>a.
       if length (attr_rest buf) < 3 then Ok (attr_rest buf, a) else Err (rest_error (attr_rest buf)))"
proof (induction "length buf" arbitrary: buf attrs rule: less_induct)
  case less
  let ?n = "attr_hdr_len buf + attr_val_len buf"
  show ?case
  proof (cases "length buf < 3 \<or> length buf < ?n")
    case True
    then have "attr_list buf = []" "attr_rest buf = buf"
      by (simp_all add: attr_list.simps [of buf] attr_rest.simps [of buf])
    with True show ?thesis
      by (subst rwhile_unfold) (auto simp: attribute_step_eq [OF C] rest_error_def)
  next
    case False
    then have eqs: "attr_list buf = (hd buf, buf ! 1, take (attr_val_len buf) (drop (attr_hdr_len buf) buf))
        # attr_list (drop ?n buf)" "attr_rest buf = attr_rest (drop ?n buf)"
      by (simp_all add: attr_list.simps [of buf] attr_rest.simps [of buf])
    have "length (drop ?n buf) < length buf"
      using False attr_hdr_len_pos [of buf] by (auto intro!: diff_less)
    then have IH: "rwhile (\<lambda>(buf, attrs). length buf \<ge> 3) (attribute_step C) (drop ?n buf, a) =
      rbind (fold_attrs C (attr_list (drop ?n buf)) a) (\<lambda>a.
       if length (attr_rest (drop ?n buf)) < 3 then Ok (attr_rest (drop ?n buf), a)
       else Err (rest_error (attr_rest (drop ?n buf))))" for a
      by (rule less.hyps)
    show ?thesis
      using False unfolding eqs fold_attrs.simps rbind_assoc IH [symmetric]
      by (subst rwhile_unfold) (simp add: attribute_step_eq [OF C] rbind_assoc)
  qed
qed

lemma parse_path_attributes_eq:
  assumes "bytes_ok C"
  shows "parse_path_attributes C buf =
     rbind (fold_attrs C (attr_list buf) path_attributes_default) (\<lambda>a.
       if length (attr_rest buf) < 3 then Ok a else Err (rest_error (attr_rest buf)))"
  by (auto simp: parse_path_attributes_def attribute_loop_eq [OF assms] rbind_assoc intro!: rbind_cong)

lemma fold_attrs_stops:
  assumes "bytes_ok C" "ipnet_ok C"
  shows "stops (fold_attrs C xs attrs) (\<lambda>a.
     pa_unknown a = pa_unknown attrs @
       map (\<lambda>(f, t, d). RawAttribute f t d) (filter (\<lambda>(f, t, d). \<not> attr_known t (length d)) xs)
     \<and> (attrs_wf attrs \<longrightarrow> attrs_wf a))"
proof (induction xs arbitrary: attrs)
  case (Cons x xs)
  obtain f t d where x: "x = (f, t, d)" by (cases x)
  show ?case
    unfolding x fold_attrs.simps stops_rbind
    by (rule stops_weaken [OF attribute_arm_stops [OF assms]], rule stops_weaken [OF Cons.IH])
      (auto simp: arm_result_ok_def)
qed simp

lemma attrs_wf_default: "attrs_wf path_attributes_default"
  by (simp add: attrs_wf_def path_attributes_default_def)

lemma parse_path_attributes_stops:
  assumes "bytes_ok C" "ipnet_ok C"
  shows "stops (parse_path_attributes C buf) (\<lambda>a. attrs_wf a
     \<and> pa_unknown a = map (\<lambda>(f, t, d). RawAttribute f t d)
         (filter (\<lambda>(f, t, d). \<not> attr_known t (length d)) (attr_list buf)))"
  unfolding parse_path_attributes_eq [OF assms(1)] stops_rbind
  by (rule stops_weaken [OF fold_attrs_stops [OF assms]])
    (auto simp: attrs_wf_default, simp_all add: path_attributes_default_def)

subsection \<open>No panic\<close>

text \<open>The address families whose decoders never panic.\<close>

definition safi_panic_free :: "afi_safi \<Rightarrow> bool" where
  "safi_panic_free as \<longleftrightarrow>
     safi_of as \<notin> {Safi_LabeledUnicast, Safi_MplsVpn, Safi_BgpLs, Safi_BgpLsSrv6}
   \<and> (safi_of as \<in> {Safi_Flowspec, Safi_FlowspecVpn} \<longrightarrow> afi_of as \<noteq> Afi_Ipv6)"

definition attr_panic_free :: "u8 \<times> u8 \<times> bytes \<Rightarrow> bool" where
  "attr_panic_free x \<longleftrightarrow> (case x of (f, t, d) \<Rightarrow>
     (t = 14 \<or> t = 15) \<and> 3 \<le> length d \<longrightarrow> safi_panic_free (afi_safi_new (from_be (take 2 d)) (d ! 2)))"

lemmas unwrap_sat = sat_weaken [OF sat_unwrap_or [where Q = "\<lambda>_. True"]]

lemma mp_reach_safi_sat:
  assumes "bytes_ok C" "ipnet_ok C" "safi_panic_free as"
  shows "sat (mp_reach_safi C as nhs buf) (\<lambda>_. True)"
  using assms(3)
  by (cases "safi_of as")
    (auto simp: mp_reach_safi_def safi_panic_free_def Let_def
      intro!: unwrap_sat decode_evpn_nlri_sat decode_flowspec_nlri_sat decode_srpolicy_nlri_sat
        sat_weaken [OF decode_nlri_sat [OF assms(1,2)]] sat_weaken [OF decode_rtc_nlri_sat]
        sat_weaken [OF decode_vpls_nlri_sat [OF assms(1)]])

lemma mp_unreach_safi_sat:
  assumes "bytes_ok C" "ipnet_ok C" "safi_panic_free as"
  shows "sat (mp_unreach_safi C as buf) (\<lambda>_. True)"
  using assms(3)
  by (cases "safi_of as")
    (auto simp: mp_unreach_safi_def safi_panic_free_def Let_def
      intro!: unwrap_sat decode_evpn_nlri_sat decode_flowspec_nlri_sat decode_srpolicy_nlri_sat
        sat_weaken [OF decode_nlri_sat [OF assms(1,2)]] sat_weaken [OF decode_rtc_nlri_sat])

lemma mp_arm_sat:
  assumes "bytes_ok C" "ipnet_ok C" "attr_panic_free (f, t, b)"
  shows "sat (mp_arm C t b attrs) (\<lambda>_. True)"
proof -
  have hops: "sat (decode_next_hops C (drop 3 b) afi) (\<lambda>_. True)" if "4 \<le> length b" for afi
    using that by (intro sat_weaken [OF decode_next_hops_sat [OF assms(1)]]) auto
  have reach: "sat (parse_mp_reach C b) (\<lambda>_. True)" if "t = 14"
    using that assms(3)
    by (auto simp: parse_mp_reach_def Let_def sat_buf [OF assms(1)] Suc_le_eq attr_panic_free_def
        intro!: sat_weaken [OF hops] sat_weaken [OF mp_reach_safi_sat [OF assms(1,2)]])
  have "sat (parse_mp_unreach C b) (\<lambda>_. True)" if "t = 15"
    using that assms(3)
    by (auto simp: parse_mp_unreach_def attr_panic_free_def
        intro!: sat_weaken [OF mp_unreach_safi_sat [OF assms(1,2)]])
  with reach show ?thesis by (auto simp: mp_arm_def elim!: sat_weaken)
qed

lemma attribute_arm_sat:
  assumes "bytes_ok C" "ipnet_ok C" "attr_panic_free (f, t, b)"
  shows "sat (attribute_arm C f t b attrs) (\<lambda>_. True)"
  using mp_arm_sat [OF assms, of attrs]
  by (auto simp: attribute_arm_def split: option.splits
      intro!: sat_weaken [OF core_arm_sat] sat_weaken [OF ext_arm_sat] elim!: sat_weaken)

lemma parse_path_attributes_sat:
  assumes "bytes_ok C" "ipnet_ok C" "list_all attr_panic_free (attr_list buf)"
  shows "sat (parse_path_attributes C buf) (\<lambda>_. True)"
proof -
  have "sat (fold_attrs C xs attrs) (\<lambda>_. True)" if "list_all attr_panic_free xs" for xs attrs
    using that
  proof (induction xs arbitrary: attrs)
    case (Cons x xs)
    obtain f t d where x: "x = (f, t, d)" by (cases x)
    show ?case
      unfolding x fold_attrs.simps
      by (rule sat_bindI [OF attribute_arm_sat [OF assms(1,2)]]) (use Cons in \<open>auto simp: x\<close>)
  qed simp
  from this [OF assms(3)] show ?thesis
    unfolding parse_path_attributes_eq [OF assms(1)] by (auto elim!: sat_bindI)
qed

subsection \<open>Attributes on the wire\<close>

definition encode_attr :: "u8 \<times> u8 \<times> bytes \<Rightarrow> bytes" where
  "encode_attr x = (case x of (f, t, d) \<Rightarrow>
     f # t # (if f AND FLAG_EXT_LEN \<noteq> 0 then to_be 2 (length d) else [word_of_nat (length d)]) @ d)"

definition attr_encodable :: "u8 \<times> u8 \<times> bytes \<Rightarrow> bool" where
  "attr_encodable x = (case x of (f, t, d) \<Rightarrow>
     length d < (if f AND FLAG_EXT_LEN \<noteq> 0 then 65536 else 256))"

lemma encode_attr_parts:
  assumes "attr_encodable (f, t, d)"
  shows "attr_hdr_len (encode_attr (f, t, d) @ rest) = (if f AND FLAG_EXT_LEN \<noteq> 0 then 4 else 3)"
    and "attr_val_len (encode_attr (f, t, d) @ rest) = length d"
  using assms
  by (auto simp: encode_attr_def attr_encodable_def attr_hdr_len_def attr_val_len_def be_nat_to_be unat_of_nat
      simp del: to_be.simps)

lemma encode_attr_shape:
  fixes f t d rest
  defines "h \<equiv> (if f AND FLAG_EXT_LEN \<noteq> 0 then 4 else 3 :: nat)"
  shows "length (encode_attr (f, t, d)) = h + length d"
    and "drop (h + length d) (encode_attr (f, t, d) @ rest) = rest"
    and "drop h (encode_attr (f, t, d)) = d"
    and "hd (encode_attr (f, t, d) @ rest) = f" "(encode_attr (f, t, d) @ rest) ! Suc 0 = t"
proof -
  show len: "length (encode_attr (f, t, d)) = h + length d"
    by (simp add: encode_attr_def h_def)
  show "drop (h + length d) (encode_attr (f, t, d) @ rest) = rest"
    by (simp add: len [symmetric])
  show "drop h (encode_attr (f, t, d)) = d"
    by (simp add: encode_attr_def h_def drop_Cons')
qed (simp_all add: encode_attr_def)

lemma attr_list_step:
  assumes "attr_encodable (f, t, d)"
  shows "attr_list (encode_attr (f, t, d) @ rest) = (f, t, d) # attr_list rest"
    and "attr_rest (encode_attr (f, t, d) @ rest) = attr_rest rest"
proof -
  note parts = encode_attr_parts [OF assms, of rest]
  show "attr_list (encode_attr (f, t, d) @ rest) = (f, t, d) # attr_list rest"
    by (subst attr_list.simps) (use parts in \<open>simp add: encode_attr_shape\<close>)
  show "attr_rest (encode_attr (f, t, d) @ rest) = attr_rest rest"
    by (subst attr_rest.simps) (use parts in \<open>simp add: encode_attr_shape\<close>)
qed

lemma attr_list_encoded:
  "list_all attr_encodable xs \<Longrightarrow>
   attr_list (concat (map encode_attr xs)) = xs \<and> attr_rest (concat (map encode_attr xs)) = []"
proof (induction xs)
  case Nil
  then show ?case by (simp add: attr_list.simps attr_rest.simps)
next
  case (Cons x xs)
  then show ?case by (cases x) (simp add: attr_list_step)
qed

lemma parse_path_attributes_encoded:
  assumes "bytes_ok C" "list_all attr_encodable xs"
  shows "parse_path_attributes C (concat (map encode_attr xs)) = fold_attrs C xs path_attributes_default"
proof -
  have "rbind m (\<lambda>a. Ok a) = m" for m :: "path_attributes result" by (cases m) simp_all
  with attr_list_encoded [OF assms(2)] show ?thesis
    by (simp add: parse_path_attributes_eq [OF assms(1)])
qed

text \<open>The attributes that carry best-path data and communities, as a speaker writes them.\<close>

fun origin_code :: "origin \<Rightarrow> u8" where
  "origin_code Igp = 0"
| "origin_code Egp = 1"
| "origin_code Incomplete = 2"

definition encode_large :: "large_community \<Rightarrow> bytes" where
  "encode_large c = to_be 4 (unat (global_admin c)) @ to_be 4 (unat (local_data_1 c))
     @ to_be 4 (unat (local_data_2 c))"

definition common_attrs ::
    "origin \<Rightarrow> as_path \<Rightarrow> ipv4 \<Rightarrow> u32 \<Rightarrow> u32 \<Rightarrow> standard_community list \<Rightarrow> large_community list
     \<Rightarrow> (u8 \<times> u8 \<times> bytes) list" where
  "common_attrs orig path nh med lp cs lcs =
     [(0x40, 1, [origin_code orig]), (0x50, 2, encode_as_path 2 path), (0x40, 3, to_be 4 (unat nh)),
      (0x80, 4, to_be 4 (unat med)), (0x40, 5, to_be 4 (unat lp)),
      (0xD0, 8, concat (map (\<lambda>c. to_be 4 (unat (comm c))) cs)), (0xD0, 32, concat (map encode_large lcs))]"

lemma communities_encoded:
  "slice_scan 4 u32_at (concat (map (\<lambda>c. to_be 4 (unat (comm c))) cs)) = Ok (map comm cs)"
  by (simp add: u32_chunks.slice_scan_eq chunks_concat comp_def)

lemma large_communities_encoded:
  "slice_scan 12 large_community_at (concat (map encode_large lcs)) = Ok lcs"
proof -
  have "LargeCommunity (from_be (take 4 (encode_large c))) (from_be (take 4 (drop 4 (encode_large c))))
      (from_be (take 4 (drop 8 (encode_large c)))) = c" for c
    by (cases c) (simp add: encode_large_def)
  then show ?thesis
    by (simp add: large_chunks.slice_scan_eq chunks_concat encode_large_def [THEN arg_cong [where f = length]] comp_def)
qed

lemma common_attrs_encodable:
  assumes "length (encode_as_path 2 path) < 65536" "4 * length cs < 65536" "12 * length lcs < 65536"
  shows "list_all attr_encodable (common_attrs orig path nh med lp cs lcs)"
proof -
  have len: "length (concat (map (\<lambda>c. to_be 4 (unat (comm c))) cs)) = length cs * 4"
    "length (concat (map encode_large lcs)) = length lcs * 12"
    by (rule length_concat_fixed, simp add: encode_large_def)+
  with assms show ?thesis by (simp add: common_attrs_def attr_encodable_def FLAG_EXT_LEN_def)
qed

lemma fold_common_attrs:
  assumes "as_path_encodable 2 path"
  shows "fold_attrs C (common_attrs orig path nh med lp cs lcs) path_attributes_default =
     Ok (path_attributes_default\<lparr>pa_origin := Some orig, pa_as_path := Some path,
           pa_next_hop := Some (IpV4 nh), multi_exit_disc := Some med, local_pref := Some lp,
           communities := cs, large_communities := lcs\<rparr>)"
proof -
  have orig: "origin_try_from (origin_code orig) = Ok orig"
    by (cases orig) (simp_all add: origin_try_from_def)
  have path: "parse_as_path (encode_as_path 2 path) False = Ok path"
    by (rule parse_as_path_encoded(2) [OF assms])
  have cs: "map StandardCommunity (map comm cs) = cs" by (simp add: comp_def)
  show ?thesis
    by (simp add: common_attrs_def attribute_arm_def core_arm_def mp_arm_def ext_arm_def Let_def idx_def orig
        path ipv4_at_def u32_at_def slice_def communities_encoded large_communities_encoded cs
        path_attributes_default_def del: map_map)
qed

subsection \<open>Properties\<close>

text \<open>C7: the attribute parser is the fold of its per-type arms over the list of attributes on the wire,
  in order; it fails exactly when an arm fails or when three or more bytes are left that do not hold a
  whole attribute.\<close>

theorem parse_path_attributes_spec:
  assumes "bytes_ok C"
  shows "parse_path_attributes C buf =
     rbind (fold_attrs C (attr_list buf) path_attributes_default) (\<lambda>a.
       if length (attr_rest buf) < 3 then Ok a else Err (rest_error (attr_rest buf)))"
  using assms by (rule parse_path_attributes_eq)

theorem parse_path_attributes_spec_witness:
  "parse_path_attributes doc_crates [0x40, 6, 0, 0x40, 1, 9] =
     rbind (fold_attrs doc_crates (attr_list [0x40, 6, 0, 0x40, 1, 9]) path_attributes_default) (\<lambda>a.
       if length (attr_rest [0x40, 6, 0, 0x40, 1, 9]) < 3 then Ok a
       else Err (rest_error (attr_rest [0x40, 6, 0, 0x40, 1, 9])))"
  by (rule parse_path_attributes_spec) simp

text \<open>The attribute parser ends on every input, and in what it returns the attributes no arm handles
  are kept verbatim and in order, and every multiprotocol prefix is well formed.\<close>

theorem parse_path_attributes_unknown_kept:
  assumes "bytes_ok C" "ipnet_ok C"
  shows "stops (parse_path_attributes C buf) (\<lambda>a. attrs_wf a
     \<and> pa_unknown a = map (\<lambda>(f, t, d). RawAttribute f t d)
         (filter (\<lambda>(f, t, d). \<not> attr_known t (length d)) (attr_list buf)))"
  using assms by (rule parse_path_attributes_stops)

theorem parse_path_attributes_unknown_kept_witness:
  "stops (parse_path_attributes doc_crates [0xC0, 99, 2, 7, 8]) (\<lambda>a. attrs_wf a
     \<and> pa_unknown a = map (\<lambda>(f, t, d). RawAttribute f t d)
         (filter (\<lambda>(f, t, d). \<not> attr_known t (length d)) (attr_list [0xC0, 99, 2, 7, 8])))"
  by (rule parse_path_attributes_unknown_kept) simp_all

end
