(* ===== verification/Update.thy ===== *)
theory Update
  imports Attributes
begin

text \<open>
  \<^verbatim>\<open>rbmp-core/src/bgp/update.rs\<close> and the \<^verbatim>\<open>BgpUpdate\<close> type of
  \<^verbatim>\<open>rbmp-core/src/bgp/types.rs\<close>: the UPDATE message and its views (End-of-RIB test, announced
  and withdrawn prefixes of the IPv4 sections and the MP attributes together).

  Results: the parser stops on every input; every prefix it returns is well formed and paired with
  exactly one path identifier; on a message with the common header and panic-free attributes it does
  not panic; it inverts the wire form of an UPDATE.
\<close>

record bgp_update =
  withdrawn :: "prefix list"
  withdrawn_path_ids :: "u32 option list"
  attributes :: path_attributes
  announced :: "prefix list"
  announced_path_ids :: "u32 option list"

definition is_eor :: "bgp_update \<Rightarrow> bool" where
  "is_eor u \<longleftrightarrow>
     withdrawn u = [] \<and> announced u = [] \<and> mp_reach (attributes u) = None
   \<and> (case mp_unreach (attributes u) of None \<Rightarrow> True | Some m \<Rightarrow> mu_prefixes m = [])"

text \<open>\<^verbatim>\<open>zip(ids.chain(repeat(&None)))\<close>: missing identifiers are \<open>None\<close>.\<close>

definition zip_ids :: "prefix list \<Rightarrow> u32 option list \<Rightarrow> (prefix \<times> u32 option) list" where
  "zip_ids ps ids = zip ps (ids @ replicate (length ps) None)"

definition all_announced_with_path_id :: "bgp_update \<Rightarrow> (prefix \<times> u32 option) list" where
  "all_announced_with_path_id u =
     zip_ids (announced u) (announced_path_ids u)
     @ (case mp_reach (attributes u) of None \<Rightarrow> [] | Some mp \<Rightarrow> map (\<lambda>p. (p, None)) (mr_prefixes mp))"

definition all_withdrawn_with_path_id :: "bgp_update \<Rightarrow> (prefix \<times> u32 option) list" where
  "all_withdrawn_with_path_id u =
     zip_ids (withdrawn u) (withdrawn_path_ids u)
     @ (case mp_unreach (attributes u) of None \<Rightarrow> [] | Some mp \<Rightarrow> map (\<lambda>p. (p, None)) (mu_prefixes mp))"

definition all_announced :: "bgp_update \<Rightarrow> prefix list" where
  "all_announced u =
     announced u @ (case mp_reach (attributes u) of None \<Rightarrow> [] | Some mp \<Rightarrow> mr_prefixes mp)"

definition all_withdrawn :: "bgp_update \<Rightarrow> prefix list" where
  "all_withdrawn u =
     withdrawn u @ (case mp_unreach (attributes u) of None \<Rightarrow> [] | Some mp \<Rightarrow> mu_prefixes mp)"

definition BGP_UPDATE_TYPE :: u8 where "BGP_UPDATE_TYPE = 2"

text \<open>A two-byte length and that many bytes: the withdrawn routes and the attribute section.\<close>

definition update_section :: "crates \<Rightarrow> bytes \<Rightarrow> (bytes \<times> bytes) result" where
  "update_section C buf =
     (if length buf < 2 then Err (UnexpectedEof 2 (length buf))
      else rbind (buf_get_u16 C buf) (\<lambda>(l, buf).
           if length buf < unat l then Err (UnexpectedEof (unat l) (length buf))
           else buf_copy_to_bytes C (unat l) buf))"

definition parse_bgp_update :: "crates \<Rightarrow> bytes \<Rightarrow> bool \<Rightarrow> bgp_update result" where
  "parse_bgp_update C buf add_path_ipv4 =
     rbind (buf_copy_to_bytes C 16 buf) (\<lambda>(marker, buf).
     if marker \<noteq> replicate 16 0xFF then Err InvalidBgpMarker
     else rbind (buf_get_u16 C buf) (\<lambda>(msg_len, buf).
     rbind (buf_get_u8 C buf) (\<lambda>(msg_type, buf).
     if msg_type \<noteq> BGP_UPDATE_TYPE then Err (InvalidBgpMessageType msg_type)
     else rbind (update_section C buf) (\<lambda>(withdrawn_bytes, buf).
     rbind (decode_nlri_with_path_id C withdrawn_bytes Afi_Ipv4 add_path_ipv4) (\<lambda>wd.
     rbind (update_section C buf) (\<lambda>(attr_bytes, buf).
     rbind (parse_path_attributes C attr_bytes) (\<lambda>attrs.
     rbind (decode_nlri_with_path_id C buf Afi_Ipv4 add_path_ipv4) (\<lambda>ann.
       Ok \<lparr>withdrawn = map fst wd, withdrawn_path_ids = map snd wd, attributes = attrs,
           announced = map fst ann, announced_path_ids = map snd ann\<rparr>))))))))"

text \<open>The wire form of an UPDATE.\<close>

definition encode_update :: "prefix list \<Rightarrow> (u8 \<times> u8 \<times> bytes) list \<Rightarrow> prefix list \<Rightarrow> bytes" where
  "encode_update wd xs ann =
     (let w = concat (map encode_prefix wd); a = concat (map encode_attr xs); n = concat (map encode_prefix ann)
      in replicate 16 0xFF @ to_be 2 (23 + length w + length a + length n) @ [BGP_UPDATE_TYPE]
         @ to_be 2 (length w) @ w @ to_be 2 (length a) @ a @ n)"

subsection \<open>Views\<close>

lemma zip_ids_parallel: "length ids = length ps \<Longrightarrow> zip_ids ps ids = zip ps ids"
  by (simp add: zip_ids_def zip_append2)

lemma map_fst_zip_ids: "map fst (zip_ids ps ids) = ps"
  by (simp add: zip_ids_def map_fst_zip_take)

lemma all_with_path_id_prefixes:
  "map fst (all_announced_with_path_id u) = all_announced u"
  "map fst (all_withdrawn_with_path_id u) = all_withdrawn u"
  by (simp_all add: all_announced_with_path_id_def all_announced_def all_withdrawn_with_path_id_def
      all_withdrawn_def map_fst_zip_ids comp_def split: option.splits)

text \<open>An UPDATE taken as End-of-RIB announces and withdraws no prefix.\<close>

lemma is_eor_empty: "is_eor u \<Longrightarrow> all_announced u = [] \<and> all_withdrawn u = []"
  by (auto simp: is_eor_def all_announced_def all_withdrawn_def split: option.splits)

subsection \<open>Termination, well-formed results, and absence of panics\<close>

definition update_wf :: "bgp_update \<Rightarrow> bool" where
  "update_wf u \<longleftrightarrow>
     length (withdrawn_path_ids u) = length (withdrawn u)
   \<and> length (announced_path_ids u) = length (announced u)
   \<and> (\<forall>p \<in> set (all_announced u) \<union> set (all_withdrawn u). prefix_wf p)"

lemma decode_nlri_with_path_id_stops:
  assumes "bytes_ok C" "ipnet_ok C"
  shows "stops (decode_nlri_with_path_id C buf afi add_path) (\<lambda>es. \<forall>e \<in> set es. prefix_wf (fst e))"
proof -
  let ?I = "\<lambda>(b :: bytes, es). \<forall>e \<in> set es. prefix_wf (fst e)"
  show ?thesis
    unfolding decode_nlri_with_path_id_def stops_rbind
    by (rule stops_weaken [OF rwhile_stops [where I = ?I and \<mu> = "\<lambda>(b, es). length b" and Q = ?I]])
      (auto simp: stops_buf [OF assms(1)] read_path_id_def Let_def
        intro!: stops_weaken [OF read_net_stops [OF assms]] less_imp_diff_less)
qed

lemma update_section_sat: "bytes_ok C \<Longrightarrow> sat (update_section C buf) (\<lambda>_. True)"
  by (simp add: update_section_def sat_buf)

lemma update_wfI:
  assumes "\<forall>e \<in> set wd. prefix_wf (fst e)" "\<forall>e \<in> set ann. prefix_wf (fst e)" "attrs_wf attrs"
  shows "update_wf \<lparr>withdrawn = map fst wd, withdrawn_path_ids = map snd wd, attributes = attrs,
           announced = map fst ann, announced_path_ids = map snd ann\<rparr>"
proof -
  have "\<forall>p \<in> set (map fst wd) \<union> set (map fst ann). prefix_wf p" using assms(1,2) by auto
  with assms(3) show ?thesis
    by (auto simp: update_wf_def attrs_wf_def mp_prefixes_wf_def all_announced_def all_withdrawn_def
        split: option.splits)
qed

lemma parse_bgp_update_wf:
  assumes "bytes_ok C" "ipnet_ok C"
  shows "stops (parse_bgp_update C buf add_path) update_wf"
proof -
  note nlri = stops_weaken [OF decode_nlri_with_path_id_stops [OF assms]]
  note sect = stops_weaken [OF sat_stops [OF update_section_sat [OF assms(1)]]]
  note attrs = stops_weaken [OF parse_path_attributes_stops [OF assms]]
  show ?thesis
    unfolding parse_bgp_update_def
    by (auto simp: stops_buf [OF assms(1)] intro!: nlri sect attrs update_wfI)
qed

text \<open>C21: the UPDATE parser ends on every input; in what it returns each IPv4 prefix is paired with one
  path identifier and every prefix, IPv4 or multiprotocol, is well formed.\<close>

theorem parse_bgp_update_stops:
  assumes "bytes_ok C" "ipnet_ok C"
  shows "stops (parse_bgp_update C buf add_path) update_wf"
  by (rule parse_bgp_update_wf [OF assms])

theorem parse_bgp_update_stops_witness:
  "stops (parse_bgp_update doc_crates (encode_update [] [] []) True) update_wf"
  by (rule parse_bgp_update_stops) simp_all

text \<open>Without Add-Path, panics can only come from an attribute, or from a message shorter than the
  common header.\<close>

lemma decode_plain_sat:
  assumes "bytes_ok C" "ipnet_ok C"
  shows "sat (decode_nlri_with_path_id C buf afi False) (\<lambda>_. True)"
  unfolding decode_nlri_with_path_id_plain [OF assms]
  by (auto intro!: sat_weaken [OF decode_nlri_sat [OF assms]])

definition update_attr_bytes :: "bytes \<Rightarrow> bytes" where
  "update_attr_bytes buf =
     (let wl = be_nat (take 2 (drop 19 buf)); rest = drop (21 + wl) buf
      in take (be_nat (take 2 rest)) (drop 2 rest))"

lemma update_section_eq:
  assumes "bytes_ok C" "update_section C buf = Ok (s, rest)"
  shows "s = take (be_nat (take 2 buf)) (drop 2 buf) \<and> rest = drop (2 + be_nat (take 2 buf)) buf"
proof -
  have "unat (from_be (take 2 buf) :: u16) = be_nat (take 2 buf)" if "2 \<le> length buf"
    using that by (intro unat_from_be) simp
  with assms show ?thesis
    by (auto simp: update_section_def get_u16_eq copy_to_bytes_eq add.commute split: if_splits)
qed

lemma parse_bgp_update_no_panic:
  assumes "bytes_ok C" "ipnet_ok C" "19 \<le> length buf"
    and "list_all attr_panic_free (attr_list (update_attr_bytes buf))"
  shows "sat (parse_bgp_update C buf False) (\<lambda>_. True)"
proof -
  have attrs: "sat (parse_path_attributes C ab) (\<lambda>_. True)"
    if "update_section C (drop 19 buf) = Ok (wb, r1)" "update_section C r1 = Ok (ab, r2)" for wb r1 ab r2
  proof -
    have "ab = update_attr_bytes buf"
      using update_section_eq [OF assms(1) that(1)] update_section_eq [OF assms(1) that(2)]
      by (simp add: update_attr_bytes_def Let_def)
    then show ?thesis using parse_path_attributes_sat [OF assms(1,2,4)] by simp
  qed
  show ?thesis
    unfolding parse_bgp_update_def
    using assms(3)
    by (auto simp: sat_buf [OF assms(1)]
        intro!: sat_weaken [OF update_section_sat [OF assms(1)]] sat_weaken [OF decode_plain_sat [OF assms(1,2)]]
          sat_weaken [OF attrs])
qed

text \<open>An UPDATE that holds the common header, carries no Add-Path identifiers and no labeled, VPN,
  BGP-LS or IPv6 flow-specification attribute never makes the parser panic or loop, whatever its bytes.\<close>

theorem parse_bgp_update_sat:
  assumes "bytes_ok C" "ipnet_ok C" "19 \<le> length buf"
    and "list_all attr_panic_free (attr_list (update_attr_bytes buf))"
  shows "sat (parse_bgp_update C buf False) (\<lambda>_. True)"
  using assms by (rule parse_bgp_update_no_panic)

theorem parse_bgp_update_sat_witness:
  "sat (parse_bgp_update doc_crates (encode_update [] [(0x40, 6, [])] []) False) (\<lambda>_. True)"
proof -
  have "list_all attr_panic_free (attr_list (update_attr_bytes (encode_update [] [(0x40, 6, [])] [])))"
    "19 \<le> length (encode_update [] [(0x40, 6, [])] [])"
    by code_simp+
  then show ?thesis by (simp add: parse_bgp_update_sat)
qed

lemma parse_bgp_update_short:
  assumes "bytes_ok C" "length buf < 16"
  shows "parse_bgp_update C buf ap = Panic"
  using assms by (simp add: parse_bgp_update_def bytes_ok_def)

subsection \<open>Wire form\<close>

definition v4_plain :: "prefix \<Rightarrow> bool" where
  "v4_plain p \<longleftrightarrow> prefix_wf p \<and> plain p \<and> addr_family p = Afi_Ipv4"

lemma update_section_encoded:
  assumes "bytes_ok C" "length s < 65536"
  shows "update_section C (to_be 2 (length s) @ s @ rest) = Ok (s, rest)"
proof -
  have "unat (from_be (to_be 2 (length s)) :: u16) = length s"
    using assms(2) by (subst unat_from_be) (simp_all add: be_nat_to_be)
  with assms(1) show ?thesis by (simp add: update_section_def get_u16_eq copy_to_bytes_eq)
qed

lemma decode_v4_encoded:
  assumes "bytes_ok C" "ipnet_ok C" "list_all v4_plain ps"
  shows "decode_nlri_with_path_id C (concat (map encode_prefix ps)) Afi_Ipv4 False = Ok (map (\<lambda>p. (p, None)) ps)"
proof -
  have "\<forall>p \<in> set ps. prefix_wf p \<and> plain p \<and> addr_family p = nlri_family Afi_Ipv4"
    using assms(3) by (auto simp: v4_plain_def list_all_iff nlri_family_def)
  from decode_nlri_encoded [OF assms(1,2) this] show ?thesis
    by (simp add: decode_nlri_with_path_id_plain [OF assms(1,2)])
qed

lemma parse_bgp_update_encoded:
  assumes C: "bytes_ok C" "ipnet_ok C"
    and wf: "list_all v4_plain wd" "list_all v4_plain ann" "list_all attr_encodable xs"
    and len: "length (concat (map encode_prefix wd)) < 65536" "length (concat (map encode_attr xs)) < 65536"
  shows "parse_bgp_update C (encode_update wd xs ann) False =
     rbind (fold_attrs C xs path_attributes_default) (\<lambda>attrs.
       Ok \<lparr>withdrawn = wd, withdrawn_path_ids = map (\<lambda>_. None) wd, attributes = attrs,
           announced = ann, announced_path_ids = map (\<lambda>_. None) ann\<rparr>)"
  using C(1)
  by (simp add: parse_bgp_update_def encode_update_def Let_def copy_to_bytes_eq get_u16_eq get_u8_Cons
      update_section_encoded [OF C(1) len(1)] update_section_encoded [OF C(1) len(2)]
      decode_v4_encoded [OF C wf(1)] decode_v4_encoded [OF C wf(2)] parse_path_attributes_encoded [OF C(1) wf(3)]
      comp_def)



end
