(* ===== verification/Bgp_Open.thy ===== *)
theory Bgp_Open
  imports Tlv Bgp_Types
begin

text \<open>
  \<^verbatim>\<open>rbmp-core/src/bgp/capabilities.rs\<close> and \<^verbatim>\<open>rbmp-core/src/bgp/open.rs\<close>: the
  capability list of a BGP OPEN and the OPEN message itself.  The capability parser never panics
  and inverts the wire form of capability parameters; \<open>parse_bgp_open\<close> never panics on a message
  that holds at least the 19-byte common header, and the AS number it reports is the one of the
  first four-byte capability when there is one.
\<close>

unbundle bit_operations_syntax

subsection \<open>Capabilities\<close>

definition afi_safi_flag_at :: "bytes \<Rightarrow> nat \<Rightarrow> (afi_safi \<times> u8) result" where
  "afi_safi_flag_at data i =
     rbind (u16_at data i) (\<lambda>afi. rbind (idx data (i + 2)) (\<lambda>safi. rbind (idx data (i + 3)) (\<lambda>mode.
       Ok (afi_safi_new afi safi, mode))))"

text \<open>Graceful restart: a last entry of three bytes is taken with flags 0.\<close>

definition graceful_restart_step ::
    "bytes \<Rightarrow> nat \<times> (afi_safi \<times> u8) list \<Rightarrow> (nat \<times> (afi_safi \<times> u8) list) ctl result" where
  "graceful_restart_step data st =
     (case st of (i, es) \<Rightarrow>
        rbind (u16_at data i) (\<lambda>afi. rbind (idx data (i + 2)) (\<lambda>safi.
        rbind (if i + 3 < length data then idx data (i + 3) else Ok 0) (\<lambda>flags.
          Ok (Cont (i + 4, es @ [(afi_safi_new afi safi, flags)]))))))"

definition graceful_restart_entries :: "bytes \<Rightarrow> (afi_safi \<times> u8) list result" where
  "graceful_restart_entries data =
     rbind (rwhile (\<lambda>(i, es). i + 3 \<le> length data) (graceful_restart_step data) (2, []))
       (\<lambda>(i, es). Ok es)"

text \<open>\<^verbatim>\<open>data.get(a..b).unwrap_or_default()\<close>.\<close>

definition slice_get :: "bytes \<Rightarrow> nat \<Rightarrow> nat \<Rightarrow> bytes" where
  "slice_get xs a b = (if a \<le> b \<and> b \<le> length xs then take (b - a) (drop a xs) else [])"

definition parse_fqdn :: "bytes \<Rightarrow> bgp_capability result" where
  "parse_fqdn data =
     rbind (len8_at data 0) (\<lambda>hostname_len.
     let hostname = from_utf8_lossy (slice_get data 1 (1 + hostname_len)) in
     rbind (if length data > 1 + hostname_len
            then rbind (len8_at data (1 + hostname_len)) (\<lambda>domain_len.
                 let start = 2 + hostname_len
                 in Ok (from_utf8_lossy (slice_get data start (start + domain_len))))
            else Ok []) (\<lambda>domain.
       Ok (Fqdn hostname domain)))"

definition parse_one_capability :: "u8 \<Rightarrow> bytes \<Rightarrow> bgp_capability result" where
  "parse_one_capability code data =
     (if code = 1 \<and> length data \<ge> 4 then
        rbind (u16_at data 0) (\<lambda>afi. rbind (idx data 3) (\<lambda>safi. Ok (Multiprotocol (afi_safi_new afi safi))))
      else if code = 2 then Ok RouteRefresh
      else if code = 5 \<and> length data \<ge> 6 then
        rbind (u16_at data 0) (\<lambda>afi. rbind (idx data 3) (\<lambda>safi. rbind (u16_at data 4) (\<lambda>nh.
          Ok (ExtendedNextHop (afi_from afi) (safi_from safi) (afi_from nh)))))
      else if code = 6 then Ok ExtendedMessage
      else if code = 64 \<and> length data \<ge> 2 then
        rbind (u16_at data 0) (\<lambda>rt. rbind (graceful_restart_entries data) (\<lambda>es.
          Ok (GracefulRestart (rt AND 0x0FFF) es)))
      else if code = 65 \<and> length data \<ge> 4 then rbind (u32_at data 0) (\<lambda>asn. Ok (FourByteAsn asn))
      else if code = 69 then rbind (chunk_scan 4 afi_safi_flag_at data 0) (\<lambda>es. Ok (AddPath es))
      else if code = 70 then Ok EnhancedRouteRefresh
      else if code = 71 then Ok (LongLivedGracefulRestart data)
      else if code = 9 \<and> data \<noteq> [] then rbind (idx data 0) (\<lambda>r. Ok (BgpRole r))
      else if code = 73 \<and> data \<noteq> [] then parse_fqdn data
      else Ok (Cap_Unknown code data))"

text \<open>The inner loop over one capabilities parameter.\<close>

definition capability_step ::
    "crates \<Rightarrow> bytes \<times> bgp_capability list \<Rightarrow> (bytes \<times> bgp_capability list) ctl result" where
  "capability_step C st =
     (case st of (param_buf, caps) \<Rightarrow>
        rbind (buf_get_u8 C param_buf) (\<lambda>(cap_code, param_buf).
        rbind (buf_get_u8 C param_buf) (\<lambda>(cap_len, param_buf).
          if length param_buf < unat cap_len then Err (UnexpectedEof (unat cap_len) (length param_buf))
          else rbind (buf_copy_to_bytes C (unat cap_len) param_buf) (\<lambda>(cap_data, param_buf).
               rbind (parse_one_capability cap_code cap_data) (\<lambda>cap.
                 Ok (Cont (param_buf, caps @ [cap])))))))"

definition parameter_capabilities :: "crates \<Rightarrow> bytes \<Rightarrow> bgp_capability list \<Rightarrow> bgp_capability list result" where
  "parameter_capabilities C param_buf caps =
     rbind (rwhile (\<lambda>(param_buf, caps). length param_buf \<ge> 2) (capability_step C) (param_buf, caps))
       (\<lambda>(param_buf, caps). Ok caps)"

definition parameter_step ::
    "crates \<Rightarrow> bytes \<times> bgp_capability list \<Rightarrow> (bytes \<times> bgp_capability list) ctl result" where
  "parameter_step C st =
     (case st of (buf, caps) \<Rightarrow>
        rbind (buf_get_u8 C buf) (\<lambda>(param_type, buf).
        rbind (buf_get_u8 C buf) (\<lambda>(param_len, buf).
          if length buf < unat param_len then Err (UnexpectedEof (unat param_len) (length buf))
          else rbind (buf_copy_to_bytes C (unat param_len) buf) (\<lambda>(param_buf, buf).
               if param_type \<noteq> 2 then Ok (Cont (buf, caps))
               else rbind (parameter_capabilities C param_buf caps) (\<lambda>caps. Ok (Cont (buf, caps)))))))"

definition parse_capabilities :: "crates \<Rightarrow> bytes \<Rightarrow> bgp_capability list result" where
  "parse_capabilities C buf =
     rbind (rwhile (\<lambda>(buf, caps). length buf \<ge> 2) (parameter_step C) (buf, []))
       (\<lambda>(buf, caps). Ok caps)"

subsection \<open>The OPEN message\<close>

record bgp_open_info =
  open_version :: u8
  open_asn :: u32
  open_hold_time :: u16
  open_bgp_id :: ipv4
  open_capabilities :: "bgp_capability list"

definition BGP_OPEN_TYPE :: u8 where "BGP_OPEN_TYPE = 1"

definition four_byte_asn :: "bgp_capability list \<Rightarrow> u32 option" where
  "four_byte_asn caps = find_map (\<lambda>c. case c of FourByteAsn asn \<Rightarrow> Some asn | _ \<Rightarrow> None) caps"

definition parse_bgp_open :: "crates \<Rightarrow> bytes \<Rightarrow> bgp_open_info result" where
  "parse_bgp_open C buf =
     rbind (buf_copy_to_bytes C 16 buf) (\<lambda>(marker, buf).
     if marker \<noteq> replicate 16 0xFF then Err InvalidBgpMarker
     else rbind (buf_get_u16 C buf) (\<lambda>(msg_len, buf).
     rbind (buf_get_u8 C buf) (\<lambda>(msg_type, buf).
     if msg_type \<noteq> BGP_OPEN_TYPE then Err (InvalidBgpMessageType msg_type)
     else if length buf < 10 then Err (UnexpectedEof 10 (length buf))
     else rbind (buf_get_u8 C buf) (\<lambda>(version, buf).
     rbind (buf_get_u16 C buf) (\<lambda>(my_asn, buf).
     rbind (buf_get_u16 C buf) (\<lambda>(hold_time, buf).
     rbind (buf_copy_to_bytes C 4 buf) (\<lambda>(bgp_id_raw, buf).
     rbind (ipv4_at bgp_id_raw 0) (\<lambda>bgp_id.
     rbind (buf_get_u8 C buf) (\<lambda>(opt_params_len, buf).
     if length buf < unat opt_params_len then Err (UnexpectedEof (unat opt_params_len) (length buf))
     else rbind (buf_copy_to_bytes C (unat opt_params_len) buf) (\<lambda>(params, buf).
     rbind (parse_capabilities C params) (\<lambda>capabilities.
       Ok \<lparr>open_version = version,
           open_asn = (case four_byte_asn capabilities of Some asn \<Rightarrow> asn | None \<Rightarrow> ucast my_asn),
           open_hold_time = hold_time, open_bgp_id = bgp_id, open_capabilities = capabilities\<rparr>)))))))))))"

subsection \<open>No panic\<close>

interpretation afi_safi_chunks: chunk_format 4 afi_safi_flag_at
  "\<lambda>c. (afi_safi_new (from_be (take 2 c)) (c ! 2), c ! 3)"
  by unfold_locales (auto simp: afi_safi_flag_at_def read_simps)

lemma graceful_restart_entries_sat: "sat (graceful_restart_entries data) (\<lambda>_. True)"
  unfolding graceful_restart_entries_def
  by (rule sat_bindI [OF rwhile_sat [where I = "\<lambda>_. True" and \<mu> = "\<lambda>(i, es). length data - i" and Q = "\<lambda>_. True"]])
    (auto simp: graceful_restart_step_def)

lemma parse_fqdn_sat: "data \<noteq> [] \<Longrightarrow> sat (parse_fqdn data) (\<lambda>_. True)"
  by (simp add: parse_fqdn_def Let_def)

lemma parse_one_capability_sat: "sat (parse_one_capability code data) (\<lambda>c. cap_code c = code)"
  by (auto simp: parse_one_capability_def afi_safi_chunks.chunk_scan_eq parse_fqdn_def Let_def
      intro!: sat_weaken [OF graceful_restart_entries_sat])

lemma parameter_capabilities_sat:
  assumes "bytes_ok C"
  shows "sat (parameter_capabilities C buf caps) (\<lambda>_. True)"
  unfolding parameter_capabilities_def
  by (rule sat_bindI [OF rwhile_sat [where I = "\<lambda>_. True" and \<mu> = "\<lambda>(buf, caps). length buf" and Q = "\<lambda>_. True"]])
    (auto simp: capability_step_def sat_buf [OF assms] intro!: sat_weaken [OF parse_one_capability_sat])

lemma parse_capabilities_sat:
  assumes "bytes_ok C"
  shows "sat (parse_capabilities C buf) (\<lambda>_. True)"
  unfolding parse_capabilities_def
  by (rule sat_bindI [OF rwhile_sat [where I = "\<lambda>_. True" and \<mu> = "\<lambda>(buf, caps). length buf" and Q = "\<lambda>_. True"]])
    (auto simp: parameter_step_def sat_buf [OF assms] intro!: sat_weaken [OF parameter_capabilities_sat [OF assms]])

lemma parse_bgp_open_sat:
  assumes "bytes_ok C" "19 \<le> length buf"
  shows "sat (parse_bgp_open C buf) (\<lambda>i. \<forall>asn. four_byte_asn (open_capabilities i) = Some asn \<longrightarrow> open_asn i = asn)"
  using assms(2)
  by (auto simp: parse_bgp_open_def sat_buf [OF assms(1)] intro!: sat_weaken [OF parse_capabilities_sat [OF assms(1)]])

lemma parse_bgp_open_stops:
  assumes "bytes_ok C"
  shows "stops (parse_bgp_open C buf) (\<lambda>_. True)"
  unfolding parse_bgp_open_def Let_def
  by (auto simp: stops_buf [OF assms] ipv4_at_def intro!: stops_weaken [OF sat_stops [OF parse_capabilities_sat [OF assms]]])

text \<open>An OPEN shorter than the marker makes the parser panic: the marker is copied before any length
  is checked, and the BMP peer-up parser passes a slice cut by the PDU's own length field.\<close>

theorem parse_bgp_open_short:
  assumes "bytes_ok C" "length buf < 16"
  shows "parse_bgp_open C buf = Panic"
  using assms by (simp add: parse_bgp_open_def bytes_ok_def)

theorem parse_bgp_open_short_witness: "parse_bgp_open doc_crates (replicate 15 0xFF) = Panic"
  by (rule parse_bgp_open_short) simp_all

subsection \<open>Capabilities on the wire\<close>

definition encode_afi_safi :: "afi_safi \<Rightarrow> bytes" where
  "encode_afi_safi a = to_be 2 (unat (afi_as_u16 (afi_of a))) @ [safi_as_u8 (safi_of a)]"

definition encode_entry :: "afi_safi \<times> u8 \<Rightarrow> bytes" where
  "encode_entry e = encode_afi_safi (fst e) @ [snd e]"

definition string_bytes :: "string \<Rightarrow> bytes" where
  "string_bytes s = map (\<lambda>c. word_of_nat (of_char c)) s"

fun encode_cap :: "bgp_capability \<Rightarrow> bytes" where
  "encode_cap (Multiprotocol a) =
     to_be 2 (unat (afi_as_u16 (afi_of a))) @ [0, safi_as_u8 (safi_of a)]"
| "encode_cap RouteRefresh = []"
| "encode_cap (ExtendedNextHop a s n) =
     to_be 2 (unat (afi_as_u16 a)) @ [0, safi_as_u8 s] @ to_be 2 (unat (afi_as_u16 n))"
| "encode_cap ExtendedMessage = []"
| "encode_cap (BgpRole r) = [r]"
| "encode_cap (GracefulRestart t es) = to_be 2 (unat t) @ concat (map encode_entry es)"
| "encode_cap (FourByteAsn a) = to_be 4 (unat a)"
| "encode_cap (AddPath es) = concat (map encode_entry es)"
| "encode_cap EnhancedRouteRefresh = []"
| "encode_cap (LongLivedGracefulRestart es) = es"
| "encode_cap (Fqdn h d) =
     word_of_nat (length h) # string_bytes h @ word_of_nat (length d) # string_bytes d"
| "encode_cap (Cap_Unknown code d) = d"

text \<open>Capabilities that have a wire form: known numbers are spelled by their constructor, the restart
  time has 12 bits, names are ASCII and short, and an unknown code is not one of the known ones.\<close>

definition afi_canonical :: "afi \<Rightarrow> bool" where
  "afi_canonical a \<longleftrightarrow> afi_from (afi_as_u16 a) = a"

definition safi_canonical :: "safi \<Rightarrow> bool" where
  "safi_canonical s \<longleftrightarrow> safi_from (safi_as_u8 s) = s"

definition afi_safi_canonical :: "afi_safi \<Rightarrow> bool" where
  "afi_safi_canonical a \<longleftrightarrow> afi_canonical (afi_of a) \<and> safi_canonical (safi_of a)"

definition ascii_name :: "string \<Rightarrow> bool" where
  "ascii_name s \<longleftrightarrow> length s < 128 \<and> (\<forall>c \<in> set s. of_char c < (128 :: nat))"

fun cap_wf :: "bgp_capability \<Rightarrow> bool" where
  "cap_wf (Multiprotocol a) = afi_safi_canonical a"
| "cap_wf (ExtendedNextHop a s n) = (afi_canonical a \<and> safi_canonical s \<and> afi_canonical n)"
| "cap_wf (GracefulRestart t es) = (t AND 0x0FFF = t \<and> list_all (\<lambda>e. afi_safi_canonical (fst e)) es)"
| "cap_wf (AddPath es) = list_all (\<lambda>e. afi_safi_canonical (fst e)) es"
| "cap_wf (Fqdn h d) = (ascii_name h \<and> ascii_name d)"
| "cap_wf (Cap_Unknown code d) = (code \<notin> {1, 2, 5, 6, 9, 64, 65, 69, 70, 71, 73})"
| "cap_wf c = True"

lemma afi_safi_new_canonical:
  "afi_safi_canonical a \<Longrightarrow> afi_safi_new (afi_as_u16 (afi_of a)) (safi_as_u8 (safi_of a)) = a"
  by (simp add: afi_safi_new_def afi_safi_canonical_def afi_canonical_def safi_canonical_def)

lemma length_encode_entry [simp]: "length (encode_entry e) = 4"
  by (simp add: encode_entry_def encode_afi_safi_def)

lemma encode_entry_read:
  assumes "afi_safi_canonical (fst e)"
  shows "(afi_safi_new (from_be (take 2 (encode_entry e))) (encode_entry e ! 2), encode_entry e ! 3) = e"
  using afi_safi_new_canonical [OF assms]
  by (cases e) (simp add: encode_entry_def encode_afi_safi_def nth_append)

lemma add_path_entries:
  assumes "list_all (\<lambda>e. afi_safi_canonical (fst e)) es"
  shows "chunk_scan 4 afi_safi_flag_at (concat (map encode_entry es)) 0 = Ok es"
proof -
  have "map (\<lambda>c. (afi_safi_new (from_be (take 2 c)) (c ! 2), c ! 3)) (map encode_entry es) = es"
    using assms by (induction es) (simp_all add: encode_entry_read)
  then show ?thesis
    by (simp add: afi_safi_chunks.chunk_scan_eq chunks_concat)
qed

lemma graceful_entries_loop:
  assumes "list_all (\<lambda>e. afi_safi_canonical (fst e)) es" "data = pre @ concat (map encode_entry es)"
  shows "rwhile (\<lambda>(i, es). i + 3 \<le> length data) (graceful_restart_step data) (length pre, acc) =
     Ok (length pre + 4 * length es, acc @ es)"
  using assms
proof (induction es arbitrary: pre acc)
  case Nil
  then show ?case by (simp add: rwhile_stop)
next
  case (Cons e es)
  have "encode_entry e = take 2 (encode_entry e) @ [encode_entry e ! 2, encode_entry e ! 3]"
    by (simp add: encode_entry_def encode_afi_safi_def nth_append)
  then have "graceful_restart_step data (length pre, acc) = Ok (Cont (length pre + 4, acc @ [e]))"
    using Cons.prems encode_entry_read [of e]
    by (simp add: graceful_restart_step_def u16_at_def slice_def idx_def nth_append)
  with Cons.IH [of "pre @ encode_entry e" "acc @ [e]"] Cons.prems show ?case
    by (subst rwhile_step) (simp_all add: add.assoc)
qed

lemma graceful_restart_entries_encoded:
  assumes "list_all (\<lambda>e. afi_safi_canonical (fst e)) es"
  shows "graceful_restart_entries (to_be 2 t @ concat (map encode_entry es)) = Ok es"
  using graceful_entries_loop [OF assms refl, of "to_be 2 t" "[]"]
  by (simp add: graceful_restart_entries_def)

lemma from_utf8_lossy_string_bytes:
  assumes "ascii_name s"
  shows "from_utf8_lossy (string_bytes s) = s"
proof -
  have "\<forall>b \<in> set (string_bytes s). b < 0x80"
    using assms by (auto simp: string_bytes_def ascii_name_def word_less_nat_alt unat_of_nat)
  then have "utf8_lossy (string_bytes s) = string_bytes s" by (rule utf8_lossy_ascii)
  moreover have "char_of (unat (word_of_nat (of_char c) :: u8)) = c" for c
    by (simp add: unat_of_nat)
  ultimately show ?thesis by (simp add: from_utf8_lossy_def string_bytes_def o_def)
qed

lemma length_string_bytes [simp]: "length (string_bytes s) = length s"
  by (simp add: string_bytes_def)

lemma parse_fqdn_encoded:
  assumes "ascii_name h" "ascii_name d"
  shows "parse_fqdn (encode_cap (Fqdn h d)) = Ok (Fqdn h d)"
  using assms from_utf8_lossy_string_bytes [of h] from_utf8_lossy_string_bytes [of d]
  by (simp add: parse_fqdn_def len8_at_def idx_def slice_get_def unat_of_nat ascii_name_def Let_def nth_append)

lemma parse_one_capability_encoded:
  assumes "cap_wf c"
  shows "parse_one_capability (cap_code c) (encode_cap c) = Ok c"
  using assms
proof (cases c)
  case (Fqdn h d)
  with assms parse_fqdn_encoded [of h d] show ?thesis by (simp add: parse_one_capability_def)
next
  case (Multiprotocol a)
  with assms show ?thesis
    using afi_safi_new_canonical [of a]
    by (simp add: parse_one_capability_def u16_at_def slice_def idx_def nth_append)
next
  case (ExtendedNextHop a s n)
  with assms show ?thesis
    by (simp add: parse_one_capability_def u16_at_def slice_def idx_def nth_append afi_canonical_def safi_canonical_def)
next
  case (GracefulRestart t es)
  with assms show ?thesis
    by (simp add: parse_one_capability_def u16_at_def slice_def graceful_restart_entries_encoded)
next
  case (AddPath es)
  with assms show ?thesis by (simp add: parse_one_capability_def add_path_entries)
qed (auto simp: parse_one_capability_def u32_at_def slice_def idx_def)

definition encode_cap_tlv :: "bgp_capability \<Rightarrow> bytes" where
  "encode_cap_tlv c = cap_code c # word_of_nat (length (encode_cap c)) # encode_cap c"

definition encode_param :: "bgp_capability list \<Rightarrow> bytes" where
  "encode_param caps =
     (let body = concat (map encode_cap_tlv caps) in 2 # word_of_nat (length body) # body)"

definition param_wf :: "bgp_capability list \<Rightarrow> bool" where
  "param_wf caps \<longleftrightarrow> list_all cap_wf caps \<and> length (concat (map encode_cap_tlv caps)) < 256"

lemma capability_step_encoded:
  assumes "bytes_ok C" "cap_wf c" "length (encode_cap c) < 256"
  shows "capability_step C (encode_cap_tlv c @ rest, caps) = Ok (Cont (rest, caps @ [c]))"
  using assms parse_one_capability_encoded [OF assms(2)]
  by (simp add: capability_step_def encode_cap_tlv_def get_u8_Cons copy_to_bytes_eq unat_of_nat)

lemma parameter_capabilities_encoded:
  assumes "bytes_ok C" "param_wf cs"
  shows "parameter_capabilities C (concat (map encode_cap_tlv cs)) caps = Ok (caps @ cs)"
proof -
  have "rwhile (\<lambda>(b, caps). length b \<ge> 2) (capability_step C) (concat (map encode_cap_tlv cs), caps) =
      Ok ([], caps @ cs)"
    using assms(2)
  proof (induction cs arbitrary: caps)
    case Nil
    then show ?case by (simp add: rwhile_stop)
  next
    case (Cons c cs)
    have c: "cap_wf c" "length (encode_cap c) < 256" "param_wf cs"
      using Cons.prems by (auto simp: param_wf_def encode_cap_tlv_def)
    have "2 \<le> length (encode_cap_tlv c)" by (simp add: encode_cap_tlv_def)
    with c Cons.IH [of "caps @ [c]"] capability_step_encoded [OF assms(1) c(1,2)] show ?case
      by (subst rwhile_step) auto
  qed
  then show ?thesis by (simp add: parameter_capabilities_def)
qed

lemma parse_capabilities_encoded:
  assumes "bytes_ok C" "list_all param_wf ps"
  shows "parse_capabilities C (concat (map encode_param ps)) = Ok (concat ps)"
proof -
  have step: "parameter_step C (encode_param cs @ rest, caps) = Ok (Cont (rest, caps @ cs))"
    if "param_wf cs" for cs rest caps
    using that assms(1) parameter_capabilities_encoded [OF assms(1) that, of caps]
    by (simp add: parameter_step_def encode_param_def Let_def get_u8_Cons copy_to_bytes_eq unat_of_nat param_wf_def)
  have "rwhile (\<lambda>(b, caps). length b \<ge> 2) (parameter_step C) (concat (map encode_param ps), caps) =
      Ok ([], caps @ concat ps)" for caps
    using assms(2)
  proof (induction ps arbitrary: caps)
    case Nil
    then show ?case by (simp add: rwhile_stop)
  next
    case (Cons cs ps)
    have "2 \<le> length (encode_param cs)" by (simp add: encode_param_def Let_def)
    with Cons step [of cs "concat (map encode_param ps)" caps] show ?case
      by (subst rwhile_step) auto
  qed
  then show ?thesis by (simp add: parse_capabilities_def)
qed

text \<open>A whole OPEN message: marker, length, type, then the fixed fields and the parameters.\<close>

definition encode_open :: "u8 \<Rightarrow> u16 \<Rightarrow> u16 \<Rightarrow> ipv4 \<Rightarrow> bgp_capability list list \<Rightarrow> bytes" where
  "encode_open version my_asn hold_time bgp_id ps =
     (let params = concat (map encode_param ps) in
      replicate 16 0xFF @ to_be 2 (29 + length params) @ [BGP_OPEN_TYPE, version] @ to_be 2 (unat my_asn)
      @ to_be 2 (unat hold_time) @ to_be 4 (unat bgp_id) @ [word_of_nat (length params)] @ params)"

lemma bgp_open_encoded:
  assumes "bytes_ok C" "list_all param_wf ps" "length (concat (map encode_param ps)) < 256"
  shows "parse_bgp_open C (encode_open version my_asn hold_time bgp_id ps) =
     Ok \<lparr>open_version = version,
         open_asn = (case four_byte_asn (concat ps) of Some asn \<Rightarrow> asn | None \<Rightarrow> ucast my_asn),
         open_hold_time = hold_time, open_bgp_id = bgp_id, open_capabilities = concat ps\<rparr>"
  using assms(1,3) parse_capabilities_encoded [OF assms(1,2)]
  by (simp add: parse_bgp_open_def encode_open_def Let_def get_u8_Cons get_u16_eq copy_to_bytes_eq
      ipv4_at_def slice_def unat_of_nat)

text \<open>C33: parsing inverts the wire form of a BGP OPEN: version, hold time, identifier and every
  capability are read back, and the AS number is the one of the first four-byte-ASN capability, else the
  two-byte field.\<close>

theorem parse_bgp_open_encoded:
  assumes "bytes_ok C" "list_all param_wf ps" "length (concat (map encode_param ps)) < 256"
  shows "parse_bgp_open C (encode_open version my_asn hold_time bgp_id ps) =
     Ok \<lparr>open_version = version,
         open_asn = (case four_byte_asn (concat ps) of Some asn \<Rightarrow> asn | None \<Rightarrow> ucast my_asn),
         open_hold_time = hold_time, open_bgp_id = bgp_id, open_capabilities = concat ps\<rparr>"
  using assms by (rule bgp_open_encoded)

theorem parse_bgp_open_encoded_witness:
  "parse_bgp_open doc_crates (encode_open 4 23456 180 0x0A000001 [[RouteRefresh, FourByteAsn 4200000000]]) =
     Ok \<lparr>open_version = 4, open_asn = 4200000000, open_hold_time = 180, open_bgp_id = 0x0A000001,
         open_capabilities = [RouteRefresh, FourByteAsn 4200000000]\<rparr>"
  using parse_bgp_open_encoded [of doc_crates "[[RouteRefresh, FourByteAsn 4200000000]]" 4 23456 180 "0x0A000001"]
  by (simp add: param_wf_def encode_param_def encode_cap_tlv_def four_byte_asn_def)

end
