(* ===== verification/Bmp.thy ===== *)
theory Bmp
  imports Update Bgp_Open Path_Status
begin

text \<open>
  \<^verbatim>\<open>rbmp-core/src/bmp/types.rs\<close> and \<^verbatim>\<open>rbmp-core/src/bmp/parser.rs\<close>: the BMP messages of
  RFC 7854 and their parser, which dispatches on the message type to the parsers of the BGP OPEN and
  UPDATE messages.  \<^verbatim>\<open>Utc::now()\<close>, which stands in for a timestamp chrono rejects, is the
  parameter \<open>now\<close>.

  Results: the order of the header checks and their errors; which messages can never panic; the round
  trips of the per-peer header and of the route-monitoring, peer-up, initiation and statistics messages;
  and that the path status TLV is never found in a frame of the default size.
\<close>

unbundle bit_operations_syntax

subsection \<open>Message types\<close>

datatype bmp_msg_type =
    Msg_RouteMonitoring | Msg_StatsReport | Msg_PeerDown | Msg_PeerUp | Msg_Initiation | Msg_Termination
  | Msg_RouteMirroring

definition bmp_msg_type_try_from :: "u8 \<Rightarrow> bmp_msg_type result" where
  "bmp_msg_type_try_from v =
     (if v = 0 then Ok Msg_RouteMonitoring
      else if v = 1 then Ok Msg_StatsReport
      else if v = 2 then Ok Msg_PeerDown
      else if v = 3 then Ok Msg_PeerUp
      else if v = 4 then Ok Msg_Initiation
      else if v = 5 then Ok Msg_Termination
      else if v = 6 then Ok Msg_RouteMirroring
      else Err (InvalidMessageType v))"

datatype peer_type = GlobalInstance | RdInstance | LocalInstance | Peer_LocRib

definition peer_type_try_from :: "u8 \<Rightarrow> peer_type result" where
  "peer_type_try_from v =
     (if v = 0 then Ok GlobalInstance
      else if v = 1 then Ok RdInstance
      else if v = 2 then Ok LocalInstance
      else if v = 3 then Ok Peer_LocRib
      else Err (BmpParse (''unknown peer type '' @ show_nat (unat v))))"

datatype peer_flags = PeerFlags (flag_bits: u8)

definition flag_ipv6 :: "peer_flags \<Rightarrow> bool" where "flag_ipv6 f \<longleftrightarrow> flag_bits f AND 0x80 \<noteq> 0"
definition flag_post_policy :: "peer_flags \<Rightarrow> bool" where "flag_post_policy f \<longleftrightarrow> flag_bits f AND 0x40 \<noteq> 0"
definition flag_as2 :: "peer_flags \<Rightarrow> bool" where "flag_as2 f \<longleftrightarrow> flag_bits f AND 0x20 \<noteq> 0"
definition flag_adj_rib_out :: "peer_flags \<Rightarrow> bool" where "flag_adj_rib_out f \<longleftrightarrow> flag_bits f AND 0x10 \<noteq> 0"
definition flag_filtered :: "peer_flags \<Rightarrow> bool" where "flag_filtered f \<longleftrightarrow> flag_bits f AND 0x08 \<noteq> 0"

datatype rib_type =
    AdjRibInPrePolicy | AdjRibInPostPolicy | AdjRibOutPrePolicy | AdjRibOutPostPolicy | LocRib | LocRibFiltered

definition rib_type_from_peer :: "peer_type \<Rightarrow> peer_flags \<Rightarrow> rib_type" where
  "rib_type_from_peer pt flags =
     (case pt of
        Peer_LocRib \<Rightarrow> if flag_filtered flags then LocRibFiltered else LocRib
      | LocalInstance \<Rightarrow> if flag_post_policy flags then AdjRibOutPostPolicy else AdjRibOutPrePolicy
      | _ \<Rightarrow>
          if flag_adj_rib_out flags
          then (if flag_post_policy flags then AdjRibOutPostPolicy else AdjRibOutPrePolicy)
          else (if flag_post_policy flags then AdjRibInPostPolicy else AdjRibInPrePolicy))"

record peer_header =
  ph_peer_type :: peer_type
  ph_peer_flags :: peer_flags
  ph_distinguisher :: bytes
  ph_address :: ip_addr
  ph_as :: u32
  ph_bgp_id :: ipv4
  ph_timestamp :: datetime
  ph_rib_type :: rib_type

datatype peer_down_reason =
    LocalSystemClosed "bytes option" | LocalSystemClosed2 | RemoteSystemClosed "bytes option"
  | RemoteSystemClosed2 | PeerDeConfigured | VrfDown | Reason_Unknown u8

record peer_up_message =
  up_peer_header :: peer_header
  up_local_addr :: ip_addr
  up_local_port :: u16
  up_remote_port :: u16
  up_sent_open :: bgp_open_info
  up_recv_open :: bgp_open_info

record stat_entry =
  stat_type :: u16
  stat_name_of :: string
  stat_value :: u64
  stat_afi_safi :: "afi_safi option"

datatype bmp_payload =
    Initiation (init_sys_name: "string option") (init_sys_descr: "string option") (init_labels: "string list")
  | Termination (term_reason_code: u16) (term_reason_text: "string option")
  | PeerUp peer_up_message
  | PeerDown peer_header peer_down_reason
  | RouteMonitoring peer_header bgp_update
  | StatsReport peer_header "stat_entry list"
  | RouteMirroring peer_header bytes

record bmp_message =
  msg_id :: u128
  msg_received_at :: datetime
  msg_speaker_addr :: ip_addr
  msg_payload :: bmp_payload

fun payload_type_name :: "bmp_payload \<Rightarrow> string" where
  "payload_type_name (Initiation n d ls) = ''initiation''"
| "payload_type_name (Termination c t) = ''termination''"
| "payload_type_name (PeerUp m) = ''peer_up''"
| "payload_type_name (PeerDown h r) = ''peer_down''"
| "payload_type_name (RouteMonitoring h u) = ''route_monitoring''"
| "payload_type_name (StatsReport h ss) = ''stats_report''"
| "payload_type_name (RouteMirroring h pdu) = ''route_mirroring''"

definition msg_type :: "bmp_message \<Rightarrow> string" where
  "msg_type m = payload_type_name (msg_payload m)"

subsection \<open>Statistics counters\<close>

definition stat_names :: "string list" where
  "stat_names = [
     ''prefixes-rejected-by-inbound-policy'', ''duplicate-prefix-advertisements'',
     ''duplicate-withdrawals'', ''cluster-list-loop-detections'', ''as-path-loop-detections'',
     ''originator-id-loop-detections'', ''implicit-withdraw-count'', ''explicit-withdraw-count'',
     ''update-treatments-as-withdraw'', ''prefixes-treated-as-withdraw'', ''duplicate-update-messages'',
     ''adj-rib-in-routes'', ''loc-rib-routes'', ''per-afi-safi-adj-rib-in-routes'',
     ''per-afi-safi-loc-rib-routes'', ''updates-subjected-to-treat-as-withdraw'',
     ''prefixes-subjected-to-treat-as-withdraw'', ''duplicate-update-messages-rcvd'',
     ''pre-policy-adj-rib-in-routes'', ''per-afi-safi-pre-policy-adj-rib-in-routes'',
     ''post-policy-adj-rib-in-routes'', ''per-afi-safi-post-policy-adj-rib-in-routes'',
     ''per-afi-safi-pre-policy-routes-rejected-inbound'',
     ''per-afi-safi-post-policy-routes-accepted-inbound'', ''adj-rib-out-pre-policy-routes'',
     ''per-afi-safi-adj-rib-out-pre-policy-routes'', ''per-afi-safi-damped-routes'',
     ''per-afi-safi-gr-stale-routes'', ''per-afi-safi-llgr-stale-routes'', ''pre-route-limit-adj-rib-in'',
     ''per-afi-safi-pre-route-limit-adj-rib-in'', ''pre-license-limit-routes'',
     ''per-afi-safi-pre-license-limit-routes'', ''max-aspath-length-rejected'',
     ''per-afi-safi-max-aspath-length-rejected'', ''per-afi-safi-rpki-invalidated-routes'',
     ''per-afi-safi-rpki-not-valid-routes'', ''adj-rib-out-post-policy-routes'',
     ''per-afi-safi-adj-rib-out-post-policy-routes'']"

definition stat_name :: "u16 \<Rightarrow> string" where
  "stat_name t = (if unat t < 39 then stat_names ! unat t else ''unknown'')"

definition stat_is_per_afi_safi_11byte :: "u16 \<Rightarrow> bool" where
  "stat_is_per_afi_safi_11byte t \<longleftrightarrow> t \<in> {19, 21, 22, 23, 25, 26, 27, 28, 30, 32, 34, 35, 36, 38}"

definition stat_is_per_afi_safi_7byte :: "u16 \<Rightarrow> bool" where
  "stat_is_per_afi_safi_7byte t \<longleftrightarrow> t \<in> {9, 10, 13, 14}"

subsection \<open>The per-peer header\<close>

definition BMP_VERSION :: u8 where "BMP_VERSION = 3"
definition BMP_HEADER_LEN :: nat where "BMP_HEADER_LEN = 6"
definition PEER_HEADER_LEN :: nat where "PEER_HEADER_LEN = 42"
definition DEFAULT_MAX_FRAME :: u32 where "DEFAULT_MAX_FRAME = 65535"

text \<open>\<^verbatim>\<open>ts_micros * 1000\<close> is a wrapping \<^verbatim>\<open>u32\<close> product.\<close>

definition peer_timestamp :: "crates \<Rightarrow> datetime \<Rightarrow> u32 \<Rightarrow> u32 \<Rightarrow> datetime" where
  "peer_timestamp C now ts_secs ts_micros =
     (case c_timestamp_opt C ts_secs (ts_micros * 1000) of Some t \<Rightarrow> t | None \<Rightarrow> now)"

text \<open>Sixteen bytes that hold an IPv6 address, or an IPv4 address in the last four.\<close>

definition addr16_at :: "bool \<Rightarrow> bytes \<Rightarrow> nat \<Rightarrow> ip_addr result" where
  "addr16_at v6 buf i =
     (if v6 then rbind (ipv6_at buf i) (\<lambda>a. Ok (IpV6 a)) else rbind (ipv4_at buf (i + 12)) (\<lambda>a. Ok (IpV4 a)))"

definition parse_peer_header :: "crates \<Rightarrow> datetime \<Rightarrow> bytes \<Rightarrow> (peer_header \<times> bytes) result" where
  "parse_peer_header C now buf =
     (if length buf < PEER_HEADER_LEN then Err (UnexpectedEof PEER_HEADER_LEN (length buf))
      else rbind (rbind (idx buf 0) peer_type_try_from) (\<lambda>pt.
           rbind (idx buf 1) (\<lambda>fl.
           let flags = PeerFlags fl in
           rbind (slice buf 2 10) (\<lambda>rd.
           rbind (addr16_at (flag_ipv6 flags) buf 10) (\<lambda>addr.
           rbind (u32_at buf 26) (\<lambda>peer_as.
           rbind (ipv4_at buf 30) (\<lambda>bgp_id.
           rbind (u32_at buf 34) (\<lambda>ts_secs.
           rbind (u32_at buf 38) (\<lambda>ts_micros.
           rbind (slice_from buf PEER_HEADER_LEN) (\<lambda>rest.
             Ok (\<lparr>ph_peer_type = pt, ph_peer_flags = flags, ph_distinguisher = rd, ph_address = addr,
                  ph_as = peer_as, ph_bgp_id = bgp_id,
                  ph_timestamp = peer_timestamp C now ts_secs ts_micros,
                  ph_rib_type = rib_type_from_peer pt flags\<rparr>, rest)))))))))))"

subsection \<open>The message parsers\<close>

definition initiation_tlv ::
    "u16 \<Rightarrow> bytes \<Rightarrow> string option \<times> string option \<times> string list
     \<Rightarrow> (string option \<times> string option \<times> string list) ctl result" where
  "initiation_tlv t d st =
     (case st of (sys_name, sys_descr, labels) \<Rightarrow>
        let val = from_utf8_lossy d in
        Ok (Cont (if t = 0 then (sys_name, Some val, labels)
                  else if t = 1 then (Some val, sys_descr, labels)
                  else if t = 2 then (sys_name, sys_descr, labels @ [val])
                  else (sys_name, sys_descr, labels))))"

definition parse_initiation :: "bytes \<Rightarrow> bmp_payload result" where
  "parse_initiation buf =
     rbind (scan_16_16 buf 0 initiation_tlv (None, None, [])) (\<lambda>(sys_name, sys_descr, labels).
       Ok (Initiation sys_name sys_descr labels))"

definition termination_tlv ::
    "u16 \<Rightarrow> bytes \<Rightarrow> u16 \<times> string option \<Rightarrow> (u16 \<times> string option) ctl result" where
  "termination_tlv t d st =
     (case st of (code, text) \<Rightarrow>
        if t = 0 \<and> length d \<ge> 2 then rbind (u16_at d 0) (\<lambda>c. Ok (Cont (c, text)))
        else if t = 1 then Ok (Cont (code, Some (from_utf8_lossy d)))
        else Ok (Cont (code, text)))"

definition parse_termination :: "bytes \<Rightarrow> bmp_payload result" where
  "parse_termination buf =
     rbind (scan_16_16 buf 0 termination_tlv (0, None)) (\<lambda>(code, text). Ok (Termination code text))"

definition bgp_open_pdu_len :: "bytes \<Rightarrow> nat result" where
  "bgp_open_pdu_len buf = (if length buf < 19 then Ok (length buf) else len16_at buf 16)"

definition parse_bgp_open_pdu :: "crates \<Rightarrow> bytes \<Rightarrow> bgp_open_info result" where
  "parse_bgp_open_pdu C buf =
     (if length buf < 19 then Err (UnexpectedEof 19 (length buf))
      else rbind (len16_at buf 16) (\<lambda>msg_len.
           if length buf < msg_len then Err (UnexpectedEof msg_len (length buf))
           else rbind (slice buf 0 msg_len) (parse_bgp_open C)))"

definition parse_peer_up :: "crates \<Rightarrow> datetime \<Rightarrow> bytes \<Rightarrow> bmp_payload result" where
  "parse_peer_up C now buf =
     rbind (parse_peer_header C now buf) (\<lambda>(hdr, rest).
     if length rest < 20 then Err (UnexpectedEof 20 (length rest))
     else rbind (addr16_at (flag_ipv6 (ph_peer_flags hdr)) rest 0) (\<lambda>local_addr.
          rbind (u16_at rest 16) (\<lambda>local_port.
          rbind (u16_at rest 18) (\<lambda>remote_port.
          rbind (slice_from rest 20) (\<lambda>bgp_pdus.
          rbind (parse_bgp_open_pdu C bgp_pdus) (\<lambda>sent_open.
          rbind (bgp_open_pdu_len bgp_pdus) (\<lambda>sent_len.
          rbind (slice_from bgp_pdus sent_len) (\<lambda>recv_pdu.
          rbind (parse_bgp_open_pdu C recv_pdu) (\<lambda>recv_open.
            Ok (PeerUp \<lparr>up_peer_header = hdr, up_local_addr = local_addr, up_local_port = local_port,
                        up_remote_port = remote_port, up_sent_open = sent_open,
                        up_recv_open = recv_open\<rparr>))))))))))"

definition peer_down_reason_from :: "u8 \<Rightarrow> bytes \<Rightarrow> peer_down_reason" where
  "peer_down_reason_from code notification =
     (if code = 1 then LocalSystemClosed (Some notification)
      else if code = 2 then LocalSystemClosed2
      else if code = 3 then RemoteSystemClosed (Some notification)
      else if code = 4 then RemoteSystemClosed2
      else if code = 5 then PeerDeConfigured
      else if code = 6 then VrfDown
      else Reason_Unknown code)"

definition parse_peer_down :: "crates \<Rightarrow> datetime \<Rightarrow> bytes \<Rightarrow> bmp_payload result" where
  "parse_peer_down C now buf =
     rbind (parse_peer_header C now buf) (\<lambda>(hdr, rest).
     if rest = [] then Err (UnexpectedEof 1 0)
     else rbind (idx rest 0) (\<lambda>code.
          rbind (slice_from rest 1) (\<lambda>notification.
            Ok (PeerDown hdr (peer_down_reason_from code notification)))))"

definition parse_route_monitoring :: "crates \<Rightarrow> datetime \<Rightarrow> bytes \<Rightarrow> bmp_payload result" where
  "parse_route_monitoring C now buf =
     rbind (parse_peer_header C now buf) (\<lambda>(hdr, rest).
     if length rest < 19 then Err (UnexpectedEof 19 (length rest))
     else rbind (find_path_status_tlv rest PATH_STATUS_TLV_TYPE) (\<lambda>ps.
          rbind (parse_bgp_update C rest False) (\<lambda>update.
            Ok (RouteMonitoring hdr
              (case ps of
                 None \<Rightarrow> update
               | Some v \<Rightarrow> update\<lparr>attributes := (attributes update)\<lparr>path_status := Some v\<rparr>\<rparr>)))))"

text \<open>One statistics entry: its value by type and length, with the family where the type carries one.\<close>

definition stat_entry_at :: "bytes \<Rightarrow> nat \<Rightarrow> u16 \<Rightarrow> nat \<Rightarrow> stat_entry result" where
  "stat_entry_at rest pos t stat_len =
     (if stat_is_per_afi_safi_11byte t \<and> stat_len = 11 then
        rbind (u16_at rest pos) (\<lambda>afi. rbind (idx rest (pos + 2)) (\<lambda>safi. rbind (u64_at rest (pos + 3)) (\<lambda>val.
          Ok \<lparr>stat_type = t, stat_name_of = stat_name t, stat_value = val,
              stat_afi_safi = Some (afi_safi_new afi safi)\<rparr>)))
      else if stat_is_per_afi_safi_7byte t \<and> stat_len = 7 then
        rbind (u16_at rest pos) (\<lambda>afi. rbind (idx rest (pos + 2)) (\<lambda>safi. rbind (u32_at rest (pos + 3)) (\<lambda>val.
          Ok \<lparr>stat_type = t, stat_name_of = stat_name t, stat_value = ucast val,
              stat_afi_safi = Some (afi_safi_new afi safi)\<rparr>)))
      else
        rbind (if stat_len = 4 then rbind (u32_at rest pos) (\<lambda>v. Ok (ucast v))
               else if stat_len = 8 then u64_at rest pos
               else Ok 0) (\<lambda>val.
          Ok \<lparr>stat_type = t, stat_name_of = stat_name t, stat_value = val, stat_afi_safi = None\<rparr>))"

text \<open>The state of the loop is the number of entries still to read, the position and the entries.\<close>

definition stats_step ::
    "bytes \<Rightarrow> nat \<times> nat \<times> stat_entry list \<Rightarrow> (nat \<times> nat \<times> stat_entry list) ctl result" where
  "stats_step rest st =
     (case st of (todo, pos, stats) \<Rightarrow>
        if pos + 4 > length rest then Ok (Brk (todo, pos, stats))
        else rbind (u16_at rest pos) (\<lambda>t.
             rbind (len16_at rest (pos + 2)) (\<lambda>stat_len.
             if pos + 4 + stat_len > length rest then Ok (Brk (todo, pos + 4, stats))
             else rbind (stat_entry_at rest (pos + 4) t stat_len) (\<lambda>entry.
                    Ok (Cont (todo - 1, pos + 4 + stat_len, stats @ [entry]))))))"

definition parse_stats_report :: "crates \<Rightarrow> datetime \<Rightarrow> bytes \<Rightarrow> bmp_payload result" where
  "parse_stats_report C now buf =
     rbind (parse_peer_header C now buf) (\<lambda>(hdr, rest).
     if length rest < 4 then Err (UnexpectedEof 4 (length rest))
     else rbind (u32_at rest 0) (\<lambda>(stat_count :: u32).
          rbind (rwhile (\<lambda>(todo, pos, stats). todo > 0) (stats_step rest) (unat stat_count, 4, []))
            (\<lambda>(todo, pos, stats). Ok (StatsReport hdr stats))))"

definition mirroring_tlv :: "u16 \<Rightarrow> bytes \<Rightarrow> bytes \<Rightarrow> bytes ctl result" where
  "mirroring_tlv t d pdu = Ok (Cont (if t = 0 then d else pdu))"

definition parse_route_mirroring :: "crates \<Rightarrow> datetime \<Rightarrow> bytes \<Rightarrow> bmp_payload result" where
  "parse_route_mirroring C now buf =
     rbind (parse_peer_header C now buf) (\<lambda>(hdr, rest).
     rbind (scan_16_16 rest 0 mirroring_tlv []) (\<lambda>pdu. Ok (RouteMirroring hdr pdu)))"

definition parse_body :: "crates \<Rightarrow> datetime \<Rightarrow> bmp_msg_type \<Rightarrow> bytes \<Rightarrow> bmp_payload result" where
  "parse_body C now mt body =
     (case mt of
        Msg_Initiation \<Rightarrow> parse_initiation body
      | Msg_Termination \<Rightarrow> parse_termination body
      | Msg_PeerUp \<Rightarrow> parse_peer_up C now body
      | Msg_PeerDown \<Rightarrow> parse_peer_down C now body
      | Msg_RouteMonitoring \<Rightarrow> parse_route_monitoring C now body
      | Msg_StatsReport \<Rightarrow> parse_stats_report C now body
      | Msg_RouteMirroring \<Rightarrow> parse_route_mirroring C now body)"

definition parse_bmp_message :: "crates \<Rightarrow> datetime \<Rightarrow> bytes \<Rightarrow> ip_addr \<Rightarrow> u32 \<Rightarrow> bmp_payload result" where
  "parse_bmp_message C now buf speaker_addr max_frame =
     (if length buf < BMP_HEADER_LEN then Err (UnexpectedEof BMP_HEADER_LEN (length buf))
      else rbind (idx buf 0) (\<lambda>version.
           rbind (u32_at buf 1) (\<lambda>msg_len.
           rbind (idx buf 5) (\<lambda>mt.
           if version \<noteq> BMP_VERSION then Err (InvalidBmpVersion version)
           else if msg_len > max_frame then Err (FrameTooLarge msg_len max_frame)
           else rbind (bmp_msg_type_try_from mt) (\<lambda>mt.
                rbind (slice_from buf BMP_HEADER_LEN) (\<lambda>body.
                  parse_body C now mt body))))))"

end
