(* ===== verification/Bmp_Messages.thy ===== *)
theory Bmp_Messages
  imports Bmp
begin

text \<open>
  Correctness of the BMP parser of theory \<open>Bmp\<close>: which messages can make it panic, the wire form of the
  per-peer header and of the messages with the round trips of the parser, the specification of the
  initiation message, and the fate of the path status TLV.
\<close>

unbundle bit_operations_syntax

subsection \<open>Header checks\<close>

lemma bmp_msg_type_try_from_Ok: "bmp_msg_type_try_from v = Ok mt \<Longrightarrow> unat v < 7"
  by (auto simp: bmp_msg_type_try_from_def split: if_splits)

lemma bmp_msg_type_try_from_sat: "sat (bmp_msg_type_try_from v) (\<lambda>_. True)"
  by (simp add: bmp_msg_type_try_from_def)

lemma peer_type_try_from_sat: "sat (peer_type_try_from v) (\<lambda>_. True)"
  by (simp add: peer_type_try_from_def)

lemma parse_peer_header_sat:
  "sat (parse_peer_header C now buf) (\<lambda>(h, rest). rest = drop 42 buf \<and> 42 \<le> length buf
     \<and> length (ph_distinguisher h) = 8
     \<and> ph_rib_type h = rib_type_from_peer (ph_peer_type h) (ph_peer_flags h)
     \<and> (case ph_address h of IpV6 a \<Rightarrow> flag_ipv6 (ph_peer_flags h) | IpV4 a \<Rightarrow> \<not> flag_ipv6 (ph_peer_flags h)))"
  by (auto simp: parse_peer_header_def PEER_HEADER_LEN_def addr16_at_def Let_def
      intro!: sat_weaken [OF peer_type_try_from_sat])

subsection \<open>No panic\<close>

lemma parse_initiation_sat: "sat (parse_initiation buf) (\<lambda>_. True)"
proof -
  have "sat (scan_16_16 buf 0 initiation_tlv (None, None, [])) (\<lambda>_. True)"
    by (rule f16_16.scan_sat) (auto simp: initiation_tlv_def Let_def)
  then show ?thesis by (simp add: parse_initiation_def split_def)
qed

lemma parse_termination_sat: "sat (parse_termination buf) (\<lambda>_. True)"
proof -
  have "sat (scan_16_16 buf 0 termination_tlv (0, None)) (\<lambda>_. True)"
    by (rule f16_16.scan_sat) (auto simp: termination_tlv_def)
  then show ?thesis by (simp add: parse_termination_def split_def)
qed

lemma parse_peer_down_sat: "sat (parse_peer_down C now buf) (\<lambda>_. True)"
  by (auto simp: parse_peer_down_def intro!: sat_weaken [OF parse_peer_header_sat])

lemma stat_entry_at_sat:
  "pos + l \<le> length rest \<Longrightarrow> sat (stat_entry_at rest pos t l)
     (\<lambda>e. stat_type e = t \<and> stat_name_of e = stat_name t)"
  by (auto simp: stat_entry_at_def)

lemma stats_loop_sat:
  "sat (rwhile (\<lambda>(todo, pos, stats). todo > 0) (stats_step rest) (n, pos, []))
     (\<lambda>(todo, pos, stats). length stats + todo = n)"
  by (rule rwhile_sat [where I = "\<lambda>(todo, pos, stats). length stats + todo = n" and \<mu> = fst])
    (auto simp: stats_step_def intro!: sat_weaken [OF stat_entry_at_sat])

lemma parse_stats_report_sat:
  "sat (parse_stats_report C now buf) (\<lambda>p. case p of
     StatsReport h ss \<Rightarrow> length ss \<le> be_nat (take 4 (drop 42 buf)) | _ \<Rightarrow> False)"
  by (auto simp: parse_stats_report_def unat_from_be
      intro!: sat_weaken [OF parse_peer_header_sat] sat_weaken [OF stats_loop_sat])

lemma parse_route_mirroring_sat: "sat (parse_route_mirroring C now buf) (\<lambda>_. True)"
proof -
  have "sat (scan_16_16 rest 0 mirroring_tlv []) (\<lambda>_. True)" for rest
    by (rule f16_16.scan_sat) (auto simp: mirroring_tlv_def)
  then show ?thesis
    by (auto simp: parse_route_mirroring_def intro!: sat_weaken [OF parse_peer_header_sat])
qed

text \<open>An OPEN PDU whose length field counts at least the common header.\<close>

definition open_pdu_len_ok :: "bytes \<Rightarrow> bool" where
  "open_pdu_len_ok pdu \<longleftrightarrow> length pdu < 19 \<or> 19 \<le> be_nat (take 2 (drop 16 pdu))"

lemma parse_bgp_open_pdu_sat:
  assumes "bytes_ok C" "open_pdu_len_ok pdu"
  shows "sat (parse_bgp_open_pdu C pdu) (\<lambda>_. 19 \<le> length pdu \<and> be_nat (take 2 (drop 16 pdu)) \<le> length pdu)"
  using assms(2)
  by (auto simp: parse_bgp_open_pdu_def open_pdu_len_ok_def unat_from_be
      intro!: sat_weaken [OF parse_bgp_open_sat [OF assms(1)]])

text \<open>The messages that never make a parser panic: the OPENs of a peer-up message have plausible
  lengths, and the UPDATE of a route-monitoring message has panic-free attributes.\<close>

definition body_panic_free :: "bmp_msg_type \<Rightarrow> bytes \<Rightarrow> bool" where
  "body_panic_free mt body \<longleftrightarrow>
     (mt = Msg_PeerUp \<longrightarrow>
        (let sent = drop 62 body in open_pdu_len_ok sent
           \<and> open_pdu_len_ok (drop (be_nat (take 2 (drop 16 sent))) sent)))
   \<and> (mt = Msg_RouteMonitoring \<longrightarrow>
        list_all attr_panic_free (attr_list (update_attr_bytes (drop 42 body))))"

lemma parse_peer_up_sat:
  assumes "bytes_ok C" "body_panic_free Msg_PeerUp body"
  shows "sat (parse_peer_up C now body) (\<lambda>_. True)"
  using assms(2)
  by (auto simp: parse_peer_up_def body_panic_free_def Let_def addr16_at_def bgp_open_pdu_len_def unat_from_be
      intro!: sat_weaken [OF parse_peer_header_sat] sat_weaken [OF parse_bgp_open_pdu_sat [OF assms(1)]])

lemma parse_route_monitoring_sat:
  assumes "bytes_ok C" "ipnet_ok C" "body_panic_free Msg_RouteMonitoring body"
  shows "sat (parse_route_monitoring C now body) (\<lambda>_. True)"
  using assms(3)
  by (auto simp: parse_route_monitoring_def body_panic_free_def
      intro!: sat_weaken [OF parse_peer_header_sat] sat_weaken [OF find_path_status_tlv_sat]
        sat_weaken [OF parse_bgp_update_no_panic [OF assms(1,2)]])

subsection \<open>The path status TLV\<close>

lemma arm_path_status:
  "core_arm t b a = Ok (Some a') \<Longrightarrow> path_status a' = path_status a"
  "mp_arm C t b a = Ok (Some a') \<Longrightarrow> path_status a' = path_status a"
  "ext_arm t b a = Ok (Some a') \<Longrightarrow> path_status a' = path_status a"
  by (auto simp: core_arm_def mp_arm_def ext_arm_def Let_def split: if_splits)

lemma attribute_arm_path_status: "attribute_arm C f t b a = Ok a' \<Longrightarrow> path_status a' = path_status a"
  by (auto simp: attribute_arm_def arm_path_status split: option.splits)

lemma fold_attrs_path_status: "fold_attrs C xs a = Ok a' \<Longrightarrow> path_status a' = path_status a"
proof (induction xs arbitrary: a)
  case (Cons x xs)
  then show ?case by (cases x) (auto dest: attribute_arm_path_status)
qed simp

lemma parse_bgp_update_path_status:
  assumes "bytes_ok C" "parse_bgp_update C buf ap = Ok u"
  shows "path_status (attributes u) = None" and "19 \<le> length buf" and "take 16 buf = replicate 16 0xFF"
proof -
  have "path_status a = None" if "parse_path_attributes C b = Ok a" for b a
    using that by (auto simp: parse_path_attributes_eq [OF assms(1)] path_attributes_default_def
        dest!: fold_attrs_path_status split: if_splits)
  with assms show "path_status (attributes u) = None"
    by (auto simp: parse_bgp_update_def split: if_splits)
  show "19 \<le> length buf" "take 16 buf = replicate 16 0xFF"
    using assms(2) by (auto simp: parse_bgp_update_def buf_Some [OF assms(1)] split: if_splits)
qed

lemma tlvs_at_marker:
  assumes "take 16 buf = replicate 16 0xFF" "length buf < 65539"
  shows "tlvs_16_16 buf = []"
proof -
  have "take 2 (drop 2 (take 16 buf)) = [0xFF, 0xFF]" unfolding assms(1) by (simp add: numeral_eq_Suc)
  then have "be_nat (take 2 (drop 2 buf)) = 65535"
    by (simp add: drop_take take_take min_def be_nat_def)
  with assms(2) show ?thesis
    by (subst tlv_list.simps) auto
qed

text \<open>C34: a route-monitoring message of up to 65535 bytes never reports a path status: the parser looks for
  the TLV at the position where the BGP marker must stand, and the marker read as a TLV header claims 65535
  bytes.  The comment in the source says that TLVs in front of the BGP message are handled.\<close>

theorem path_status_never_found:
  assumes "bytes_ok C" "length body \<le> 65535" "parse_route_monitoring C now body = Ok (RouteMonitoring h u)"
  shows "path_status (attributes u) = None"
proof -
  obtain ps u' where *: "find_path_status_tlv (drop 42 body) PATH_STATUS_TLV_TYPE = (Ok ps :: path_status_tlv option result)"
    "parse_bgp_update C (drop 42 body) False = Ok u'"
    "u = (case ps of None \<Rightarrow> u' | Some v \<Rightarrow> u'\<lparr>attributes := (attributes u')\<lparr>path_status := Some v\<rparr>\<rparr>)"
    using assms(3) parse_peer_header_sat [of C now body]
    by (auto simp: parse_route_monitoring_def split: if_splits dest: sat_OkD)
  note upd = parse_bgp_update_path_status [OF assms(1) *(2)]
  have "ps = None"
    using *(1) tlvs_at_marker [OF upd(3)] assms(2) by (simp add: find_path_status_tlv_first)
  with *(3) upd(1) show ?thesis by simp
qed

subsection \<open>Wire form of the per-peer header\<close>

fun peer_type_code :: "peer_type \<Rightarrow> u8" where
  "peer_type_code GlobalInstance = 0"
| "peer_type_code RdInstance = 1"
| "peer_type_code LocalInstance = 2"
| "peer_type_code Peer_LocRib = 3"

fun addr16_bytes :: "ip_addr \<Rightarrow> bytes" where
  "addr16_bytes (IpV4 a) = replicate 12 0 @ to_be 4 (unat a)"
| "addr16_bytes (IpV6 a) = to_be 16 (unat a)"

fun is_ipv6 :: "ip_addr \<Rightarrow> bool" where
  "is_ipv6 (IpV4 a) = False"
| "is_ipv6 (IpV6 a) = True"

definition encode_peer_header :: "peer_header \<Rightarrow> bytes" where
  "encode_peer_header h =
     [peer_type_code (ph_peer_type h), flag_bits (ph_peer_flags h)] @ ph_distinguisher h
     @ addr16_bytes (ph_address h) @ to_be 4 (unat (ph_as h)) @ to_be 4 (unat (ph_bgp_id h))
     @ to_be 4 (nat (ph_timestamp h div 1000000000))
     @ to_be 4 (nat (ph_timestamp h mod 1000000000 div 1000))"

text \<open>The headers a speaker can send: a timestamp of whole microseconds in the 32-bit range.\<close>

definition peer_header_wf :: "peer_header \<Rightarrow> bool" where
  "peer_header_wf h \<longleftrightarrow>
     length (ph_distinguisher h) = 8
   \<and> is_ipv6 (ph_address h) = flag_ipv6 (ph_peer_flags h)
   \<and> ph_rib_type h = rib_type_from_peer (ph_peer_type h) (ph_peer_flags h)
   \<and> 0 \<le> ph_timestamp h \<and> ph_timestamp h < 2 ^ 32 * 1000000000 \<and> ph_timestamp h mod 1000 = 0"

lemma length_addr16_bytes [simp]: "length (addr16_bytes a) = 16"
  by (cases a) simp_all

lemma addr16_at_encoded:
  "length pre = n \<Longrightarrow> is_ipv6 a = v6 \<Longrightarrow> addr16_at v6 (pre @ addr16_bytes a @ rest) n = Ok a"
  by (cases a) (auto simp: addr16_at_def ipv4_at_def ipv6_at_def slice_def)

lemma peer_timestamp_words:
  assumes "chrono_ok C" "unat M < 1000000"
  shows "peer_timestamp C now S M = int (unat S) * 1000000000 + int (unat M) * 1000"
proof -
  have *: "unat (M * 1000) = unat M * 1000"
    using assms(2) unat_mult_lem [THEN iffD1, of M 1000] by simp
  with assms(2) have "c_timestamp_opt C S (M * 1000) = Some (uint S * 1000000000 + uint (M * 1000))"
    by (intro timestamp_opt_eq [OF assms(1)]) simp
  moreover have "uint (M * 1000) = int (unat M * 1000)" unfolding * [symmetric] by (rule uint_nat)
  ultimately show ?thesis by (simp add: peer_timestamp_def)
qed

lemma peer_timestamp_eq:
  assumes "chrono_ok C" "0 \<le> t" "t < 2 ^ 32 * 1000000000" "t mod 1000 = 0"
  shows "peer_timestamp C now (from_be (to_be 4 (nat (t div 1000000000))))
           (from_be (to_be 4 (nat (t mod 1000000000 div 1000)))) = t"
proof -
  define s m where "s = nat (t div 1000000000)" and "m = nat (t mod 1000000000 div 1000)"
  have m: "m < 1000000" by (simp add: m_def nat_less_iff)
  have s: "s < 2 ^ 32" using assms(2,3) by (simp add: s_def nat_less_iff)
  have "unat (from_be (to_be 4 s) :: u32) = s" "unat (from_be (to_be 4 m) :: u32) = m"
    using m s by (simp_all add: unat_from_be be_nat_to_be del: to_be.simps)
  moreover have "int s * 1000000000 + int m * 1000 = t"
  proof -
    have "t mod 1000000000 mod 1000 = 0" using assms(4) by (simp add: mod_mod_cancel)
    then have "int m * 1000 = t mod 1000000000"
      by (simp add: m_def minus_mod_eq_div_mult [symmetric])
    moreover have "0 \<le> t div 1000000000" using assms(2) by (simp add: pos_imp_zdiv_nonneg_iff)
    ultimately show ?thesis by (simp add: s_def)
  qed
  ultimately show ?thesis
    using m by (simp add: peer_timestamp_words [OF assms(1)] s_def [symmetric] m_def [symmetric] del: to_be.simps)
qed

lemma peer_type_code_inverse: "peer_type_try_from (peer_type_code p) = Ok p"
  by (cases p) (simp_all add: peer_type_try_from_def)

lemma length_encode_peer_header: "length (ph_distinguisher h) = 8 \<Longrightarrow> length (encode_peer_header h) = 42"
  by (simp add: encode_peer_header_def)

lemma parse_peer_header_encoded:
  assumes "chrono_ok C" "peer_header_wf h"
  shows "parse_peer_header C now (encode_peer_header h @ rest) = Ok (h, rest)"
proof -
  obtain ts where ts: "ph_timestamp h = ts" "0 \<le> ts" "ts < 2 ^ 32 * 1000000000" "ts mod 1000 = 0"
    using assms(2) by (auto simp: peer_header_wf_def)
  define B where "B = encode_peer_header h @ rest"
  have len: "length (encode_peer_header h) = 42"
    using assms(2) by (simp add: length_encode_peer_header peer_header_wf_def)
  define pre where "pre = [peer_type_code (ph_peer_type h), flag_bits (ph_peer_flags h)] @ ph_distinguisher h"
  define post where "post = to_be 4 (unat (ph_as h)) @ to_be 4 (unat (ph_bgp_id h))
     @ to_be 4 (nat (ts div 1000000000)) @ to_be 4 (nat (ts mod 1000000000 div 1000)) @ rest"
  have rd: "length (ph_distinguisher h) = 8" using assms(2) by (simp add: peer_header_wf_def)
  have pre: "length pre = 10" using rd by (simp add: pre_def)
  have len_B: "length B = 42 + length rest" by (simp add: B_def len)
  have b: "B = pre @ addr16_bytes (ph_address h) @ post"
    by (simp add: B_def encode_peer_header_def pre_def post_def ts(1) del: to_be.simps)
  have addr: "addr16_at (flag_ipv6 (ph_peer_flags h)) B 10 = Ok (ph_address h)"
    unfolding b by (rule addr16_at_encoded [OF pre]) (use assms(2) in \<open>simp add: peer_header_wf_def\<close>)
  have late: "drop n B = drop (n - 26) post" if "26 \<le> n" for n
    using that pre unfolding b by simp
  have early: "idx B 0 = Ok (peer_type_code (ph_peer_type h))" "idx B 1 = Ok (flag_bits (ph_peer_flags h))"
    "slice B 2 10 = Ok (ph_distinguisher h)"
    using rd by (simp_all add: B_def idx_def slice_def encode_peer_header_def)
  have fields: "u32_at B 26 = Ok (ph_as h)" "ipv4_at B 30 = Ok (ph_bgp_id h)"
    "u32_at B 34 = Ok (from_be (to_be 4 (nat (ts div 1000000000))))"
    "u32_at B 38 = Ok (from_be (to_be 4 (nat (ts mod 1000000000 div 1000))))"
    by (simp_all add: u32_at_def ipv4_at_def slice_def late len_B del: drop_append length_append) (simp_all add: post_def)
  have h: "h = \<lparr>ph_peer_type = ph_peer_type h, ph_peer_flags = PeerFlags (flag_bits (ph_peer_flags h)),
      ph_distinguisher = ph_distinguisher h, ph_address = ph_address h, ph_as = ph_as h,
      ph_bgp_id = ph_bgp_id h, ph_timestamp = ts, ph_rib_type = rib_type_from_peer (ph_peer_type h) (ph_peer_flags h)\<rparr>"
    using assms(2) ts(1) by (simp add: peer_header_wf_def)
  have rest: "slice_from B 42 = Ok rest" by (simp add: slice_from_def B_def len)
  show ?thesis
    unfolding B_def [symmetric]
    by (subst h) (simp add: parse_peer_header_def PEER_HEADER_LEN_def early early(2) [simplified] rest len_B peer_type_code_inverse addr fields
        peer_timestamp_eq [OF assms(1) ts(2-4)] Let_def)
qed

text \<open>A header used in the concrete instances below.\<close>

definition example_header :: peer_header where
  "example_header = \<lparr>ph_peer_type = GlobalInstance, ph_peer_flags = PeerFlags 0, ph_distinguisher = replicate 8 0,
     ph_address = IpV4 0x0A000001, ph_as = 65001, ph_bgp_id = 0x01010101, ph_timestamp = 1700000000000001000,
     ph_rib_type = AdjRibInPrePolicy\<rparr>"

lemma example_header_wf: "peer_header_wf example_header"
  by (simp add: peer_header_wf_def example_header_def flag_ipv6_def rib_type_from_peer_def flag_adj_rib_out_def
      flag_post_policy_def)

lemma example_route_monitoring:
  "\<exists>u. parse_route_monitoring doc_crates 0 (encode_peer_header example_header @ encode_update [] [] []) =
     Ok (RouteMonitoring example_header u)"
proof -
  obtain u where u: "parse_bgp_update doc_crates (encode_update [] [] []) False = Ok u"
    using parse_bgp_update_encoded [of doc_crates "[]" "[]" "[]"] by auto
  have "tlvs_16_16 (encode_update [] [] []) = []"
    using parse_bgp_update_path_status(3) [OF bytes_ok_doc u]
    by (rule tlvs_at_marker) (simp add: encode_update_def Let_def)
  then show ?thesis
    by (simp add: parse_route_monitoring_def parse_peer_header_encoded [OF chrono_ok_doc example_header_wf]
        find_path_status_tlv_first u) (simp add: encode_update_def Let_def)
qed

subsection \<open>Wire form of messages\<close>

definition encode_bmp :: "u8 \<Rightarrow> bytes \<Rightarrow> bytes" where
  "encode_bmp mt body = BMP_VERSION # to_be 4 (6 + length body) @ [mt] @ body"

lemma parse_bmp_message_encoded:
  assumes "6 + length body \<le> unat max_frame" "bmp_msg_type_try_from code = Ok mt"
  shows "parse_bmp_message C now (encode_bmp code body) sp max_frame = parse_body C now mt body"
proof -
  have "unat max_frame < 2 ^ 32" using unsigned_less [of max_frame, where ?'a = nat] by simp
  then have "unat (from_be (to_be 4 (6 + length body)) :: u32) = 6 + length body"
    using assms(1) by (simp add: unat_from_be be_nat_to_be del: to_be.simps)
  then have "\<not> max_frame < from_be (to_be 4 (6 + length body))"
    using assms(1) by (simp add: word_less_nat_alt not_less del: to_be.simps)
  then show ?thesis
    using assms(2)
    by (simp add: parse_bmp_message_def encode_bmp_def BMP_HEADER_LEN_def idx_def u32_at_def slice_def
        slice_from_def nth_append del: to_be.simps)
qed

text \<open>C22: framing loses nothing: when an UPDATE parses to \<open>u\<close>, the route-monitoring message that wraps it
  behind a per-peer header parses to that header and \<open>u\<close>.\<close>

theorem route_monitoring_roundtrip:
  assumes "bytes_ok C" "chrono_ok C" "peer_header_wf h" "parse_bgp_update C pdu False = Ok u"
    and "length pdu < 65539" "48 + length pdu \<le> unat max_frame"
  shows "parse_bmp_message C now (encode_bmp 0 (encode_peer_header h @ pdu)) sp max_frame = Ok (RouteMonitoring h u)"
proof -
  note upd = parse_bgp_update_path_status [OF assms(1,4)]
  have "find_path_status_tlv pdu PATH_STATUS_TLV_TYPE = (Ok None :: path_status_tlv option result)"
    by (simp add: find_path_status_tlv_first tlvs_at_marker [OF upd(3) assms(5)])
  moreover have "length (encode_peer_header h) = 42"
    using assms(3) by (simp add: length_encode_peer_header peer_header_wf_def)
  ultimately show ?thesis
    using assms(4,6) upd(2)
    by (simp add: parse_bmp_message_encoded bmp_msg_type_try_from_def parse_body_def parse_route_monitoring_def
        parse_peer_header_encoded [OF assms(2,3)])
qed

theorem route_monitoring_roundtrip_witness:
  "\<exists>u. parse_bmp_message doc_crates 0 (encode_bmp 0 (encode_peer_header example_header @ encode_update [] [] []))
         (IpV4 1) DEFAULT_MAX_FRAME = Ok (RouteMonitoring example_header u)"
proof -
  obtain u where "parse_bgp_update doc_crates (encode_update [] [] []) False = Ok u"
    using parse_bgp_update_encoded [of doc_crates "[]" "[]" "[]"] by auto
  moreover have "length (encode_update [] [] []) < 65539"
    "48 + length (encode_update [] [] []) \<le> unat DEFAULT_MAX_FRAME"
    by (simp_all add: encode_update_def DEFAULT_MAX_FRAME_def)
  ultimately show ?thesis
    using route_monitoring_roundtrip [OF bytes_ok_doc chrono_ok_doc example_header_wf] by blast
qed

lemma parse_bgp_open_pdu_encoded:
  assumes "bytes_ok C" "list_all param_wf ps" "length (concat (map encode_param ps)) < 256"
  shows "parse_bgp_open_pdu C (encode_open v a ht i ps @ rest) = parse_bgp_open C (encode_open v a ht i ps)"
    and "bgp_open_pdu_len (encode_open v a ht i ps @ rest) = Ok (length (encode_open v a ht i ps))"
proof -
  let ?o = "encode_open v a ht i ps"
  have len: "length ?o = 29 + length (concat (map encode_param ps))" by (simp add: encode_open_def Let_def)
  have "len16_at (?o @ rest) 16 = (Ok (length ?o) :: nat result)"
    unfolding len using assms(3)
    by (simp add: len16_at_def u16_at_def slice_def encode_open_def Let_def unat_from_be be_nat_to_be drop_append
        del: to_be.simps)
  then show "parse_bgp_open_pdu C (?o @ rest) = parse_bgp_open C ?o" "bgp_open_pdu_len (?o @ rest) = Ok (length ?o)"
    by (simp_all add: parse_bgp_open_pdu_def bgp_open_pdu_len_def slice_def len)
qed


definition encode_peer_up ::
    "peer_header \<Rightarrow> ip_addr \<Rightarrow> u16 \<Rightarrow> u16 \<Rightarrow> bytes \<Rightarrow> bytes \<Rightarrow> bytes" where
  "encode_peer_up h local_addr lport rport sent recv =
     encode_bmp 3 (encode_peer_header h @ addr16_bytes local_addr @ to_be 2 (unat lport) @ to_be 2 (unat rport)
       @ sent @ recv)"

lemma parse_peer_up_encoded:
  fixes v a ht i ps v' a' ht' i' ps'
  defines "sent \<equiv> encode_open v a ht i ps" and "recv \<equiv> encode_open v' a' ht' i' ps'"
  assumes C: "bytes_ok C" "chrono_ok C"
    and h: "peer_header_wf h" "is_ipv6 local_addr = flag_ipv6 (ph_peer_flags h)"
    and sent: "list_all param_wf ps" "length (concat (map encode_param ps)) < 256"
    and recv: "list_all param_wf ps'" "length (concat (map encode_param ps')) < 256"
    and opens: "parse_bgp_open C sent = Ok so" "parse_bgp_open C recv = Ok ro"
  shows "parse_peer_up C now (encode_peer_header h @ addr16_bytes local_addr @ to_be 2 (unat lport)
      @ to_be 2 (unat rport) @ sent @ recv) =
    Ok (PeerUp \<lparr>up_peer_header = h, up_local_addr = local_addr, up_local_port = lport, up_remote_port = rport,
          up_sent_open = so, up_recv_open = ro\<rparr>)"
proof -
  let ?r = "addr16_bytes local_addr @ to_be 2 (unat lport) @ to_be 2 (unat rport) @ sent @ recv"
  have addr: "addr16_at (flag_ipv6 (ph_peer_flags h)) ?r 0 = Ok local_addr"
    using addr16_at_encoded [of "[]" 0, OF _ h(2)] by simp
  have ports: "u16_at ?r 16 = Ok lport" "u16_at ?r 18 = Ok rport" "slice_from ?r 20 = Ok (sent @ recv)"
    by (simp_all add: u16_at_def slice_def slice_from_def drop_append del: to_be.simps)
  have pdus: "parse_bgp_open_pdu C (sent @ recv) = Ok so" "bgp_open_pdu_len (sent @ recv) = Ok (length sent)"
    "parse_bgp_open_pdu C recv = Ok ro"
    using parse_bgp_open_pdu_encoded [OF C(1) sent] parse_bgp_open_pdu_encoded(1) [OF C(1) recv, where rest = "[]"] opens
    by (simp_all add: sent_def recv_def)
  show ?thesis
    by (simp add: parse_peer_up_def parse_peer_header_encoded [OF C(2) h(1)] addr ports pdus
        slice_from_def [of "sent @ recv"] del: to_be.simps append.assoc)
qed

text \<open>What a BGP OPEN carries, as the peer-up parser reports it.\<close>

definition open_info :: "u8 \<Rightarrow> u16 \<Rightarrow> u16 \<Rightarrow> ipv4 \<Rightarrow> bgp_capability list list \<Rightarrow> bgp_open_info" where
  "open_info v a ht i ps =
     \<lparr>open_version = v, open_asn = (case four_byte_asn (concat ps) of Some asn \<Rightarrow> asn | None \<Rightarrow> ucast a),
      open_hold_time = ht, open_bgp_id = i, open_capabilities = concat ps\<rparr>"

text \<open>C23: a peer-up message is parsed back to its per-peer header, local address, ports and the contents of
  both OPEN messages, the second located by the length of the first.\<close>

theorem peer_up_roundtrip:
  assumes C: "bytes_ok C" "chrono_ok C"
    and h: "peer_header_wf h" "is_ipv6 local_addr = flag_ipv6 (ph_peer_flags h)"
    and sent: "list_all param_wf ps" "length (concat (map encode_param ps)) < 256"
    and recv: "list_all param_wf ps'" "length (concat (map encode_param ps')) < 256"
    and fits: "700 \<le> unat max_frame"
  shows "parse_bmp_message C now
      (encode_peer_up h local_addr lport rport (encode_open v a ht i ps) (encode_open v' a' ht' i' ps')) sp max_frame =
    Ok (PeerUp \<lparr>up_peer_header = h, up_local_addr = local_addr, up_local_port = lport, up_remote_port = rport,
          up_sent_open = open_info v a ht i ps, up_recv_open = open_info v' a' ht' i' ps'\<rparr>)"
proof -
  have len: "length (encode_peer_header h) = 42"
    using h(1) by (simp add: length_encode_peer_header peer_header_wf_def)
  have opens: "parse_bgp_open C (encode_open v a ht i ps) = Ok (open_info v a ht i ps)"
    "parse_bgp_open C (encode_open v' a' ht' i' ps') = Ok (open_info v' a' ht' i' ps')"
    using bgp_open_encoded [OF C(1) sent] bgp_open_encoded [OF C(1) recv] by (simp_all add: open_info_def)
  have "6 + length (encode_peer_header h @ addr16_bytes local_addr @ to_be 2 (unat lport) @ to_be 2 (unat rport)
      @ encode_open v a ht i ps @ encode_open v' a' ht' i' ps') \<le> unat max_frame"
    using len sent(2) recv(2) fits by (simp add: encode_open_def Let_def)
  from parse_bmp_message_encoded [OF this, of 3 Msg_PeerUp] show ?thesis
    by (simp add: encode_peer_up_def bmp_msg_type_try_from_def parse_body_def
        parse_peer_up_encoded [OF C h sent recv opens])
qed

theorem peer_up_roundtrip_witness:
  "parse_bmp_message doc_crates 0
      (encode_peer_up example_header (IpV4 7) 179 50000 (encode_open 4 65001 180 1 [[RouteRefresh]])
         (encode_open 4 65002 90 2 [])) (IpV4 1) DEFAULT_MAX_FRAME =
    Ok (PeerUp \<lparr>up_peer_header = example_header, up_local_addr = IpV4 7, up_local_port = 179,
          up_remote_port = 50000, up_sent_open = open_info 4 65001 180 1 [[RouteRefresh]],
          up_recv_open = open_info 4 65002 90 2 []\<rparr>)"
  by (rule peer_up_roundtrip [OF bytes_ok_doc chrono_ok_doc example_header_wf])
    (simp_all add: example_header_def flag_ipv6_def param_wf_def encode_param_def encode_cap_tlv_def
      DEFAULT_MAX_FRAME_def)

subsection \<open>Initiation\<close>

definition last_tlv :: "u16 \<Rightarrow> (u16 \<times> bytes) list \<Rightarrow> string option" where
  "last_tlv t ts = slice_last (map (\<lambda>(_, d). from_utf8_lossy d) (filter (\<lambda>(t', _). t' = t) ts))"

lemma slice_last_append [simp]: "slice_last (xs @ [x]) = Some x"
  by (simp add: slice_last_def)

lemma slice_last_Cons: "slice_last (x # xs) = (case slice_last xs of None \<Rightarrow> Some x | Some y \<Rightarrow> Some y)"
  by (simp add: slice_last_def)

lemma initiation_tlv_step:
  "initiation_tlv t v (n, d, ls) = Ok (Cont (if t = 1 then Some (from_utf8_lossy v) else n,
     if t = 0 then Some (from_utf8_lossy v) else d, if t = 2 then ls @ [from_utf8_lossy v] else ls))"
  by (simp add: initiation_tlv_def Let_def)

lemma fold_initiation:
  "fold_ctl initiation_tlv ts (n, d, ls) =
     Ok (case last_tlv 1 ts of None \<Rightarrow> n | v \<Rightarrow> v, case last_tlv 0 ts of None \<Rightarrow> d | v \<Rightarrow> v,
         ls @ map (\<lambda>(_, d). from_utf8_lossy d) (filter (\<lambda>(t, _). t = 2) ts))"
proof (induction ts arbitrary: n d ls)
  case Nil
  then show ?case by (simp add: last_tlv_def slice_last_def)
next
  case (Cons x ts)
  obtain t v where x: "x = (t, v)" by (cases x)
  show ?case
    by (auto simp: x initiation_tlv_step Cons.IH last_tlv_def slice_last_Cons split: option.splits)
qed

text \<open>The initiation parser never fails; it reports the last system name and the last description of the
  complete TLVs at the front of the message and all labels in order.\<close>

theorem parse_initiation_spec:
  "parse_initiation buf =
     Ok (Initiation (last_tlv 1 (tlvs_16_16 buf)) (last_tlv 0 (tlvs_16_16 buf))
       (map (\<lambda>(_, d). from_utf8_lossy d) (filter (\<lambda>(t, _). t = 2) (tlvs_16_16 buf))))"
  unfolding parse_initiation_def f16_16.scan_eq_fold
  by (auto simp: fold_initiation split: option.splits)

subsection \<open>Statistics\<close>

text \<open>An entry on the wire: 64-bit gauges, with the family for the types that have one.\<close>

definition encode_stat :: "stat_entry \<Rightarrow> bytes" where
  "encode_stat e =
     (let body = (case stat_afi_safi e of
                    Some f \<Rightarrow> encode_afi_safi f @ to_be 8 (unat (stat_value e))
                  | None \<Rightarrow> to_be 8 (unat (stat_value e)))
      in to_be 2 (unat (stat_type e)) @ to_be 2 (length body) @ body)"

definition stat_wf :: "stat_entry \<Rightarrow> bool" where
  "stat_wf e \<longleftrightarrow> stat_name_of e = stat_name (stat_type e)
     \<and> (case stat_afi_safi e of Some f \<Rightarrow> stat_is_per_afi_safi_11byte (stat_type e) \<and> afi_safi_canonical f
        | None \<Rightarrow> True)"

lemma stats_step_encoded:
  assumes "stat_wf e"
  shows "stats_step (pre @ encode_stat e @ rest) (Suc n, length pre, es) =
     Ok (Cont (n, length pre + length (encode_stat e), es @ [e]))"
proof -
  let ?body = "case stat_afi_safi e of Some f \<Rightarrow> encode_afi_safi f @ to_be 8 (unat (stat_value e))
                  | None \<Rightarrow> to_be 8 (unat (stat_value e))"
  have enc: "encode_stat e = to_be 2 (unat (stat_type e)) @ to_be 2 (length ?body) @ ?body"
    by (simp add: encode_stat_def Let_def del: to_be.simps)
  have lb: "length ?body = (if stat_afi_safi e = None then 8 else 11)"
    by (auto simp: encode_afi_safi_def split: option.splits)
  have head: "u16_at (pre @ encode_stat e @ rest) (length pre) = Ok (stat_type e)"
    "len16_at (pre @ encode_stat e @ rest) (length pre + 2) = (Ok (length ?body) :: nat result)"
    unfolding enc using lb
    by (simp_all add: u16_at_def len16_at_def slice_def unat_from_be be_nat_to_be drop_append del: to_be.simps)
  have entry: "stat_entry_at (pre @ encode_stat e @ rest) (length pre + 4) (stat_type e) (length ?body) = Ok e"
  proof (cases "stat_afi_safi e")
    case None
    then show ?thesis
      using assms unfolding enc
      by (simp add: stat_entry_at_def stat_wf_def u64_at_def slice_def drop_append del: to_be.simps)
  next
    case (Some f)
    then show ?thesis
      using assms unfolding enc
      by (simp add: stat_entry_at_def stat_wf_def encode_afi_safi_def u64_at_def u16_at_def idx_def
          slice_def drop_append nth_append afi_safi_new_canonical del: to_be.simps)
  qed
  have len: "length (encode_stat e) = 4 + length ?body" unfolding enc by simp
  show ?thesis by (simp add: stats_step_def head entry len del: add_2_eq_Suc')
qed


lemma stats_loop_encoded:
  assumes "list_all stat_wf es"
  shows "rwhile (\<lambda>(todo, pos, stats). todo > 0) (stats_step (pre @ concat (map encode_stat es) @ rest))
           (length es, length pre, acc) = Ok (0, length pre + length (concat (map encode_stat es)), acc @ es)"
  using assms
proof (induction es arbitrary: pre acc)
  case Nil
  then show ?case by (simp add: rwhile_stop)
next
  case (Cons e es)
  have *: "pre @ concat (map encode_stat (e # es)) @ rest = pre @ encode_stat e @ (concat (map encode_stat es) @ rest)"
    "pre @ encode_stat e @ (concat (map encode_stat es) @ rest) = (pre @ encode_stat e) @ concat (map encode_stat es) @ rest"
    by simp_all
  have step: "stats_step (pre @ concat (map encode_stat (e # es)) @ rest) (Suc (length es), length pre, acc) =
      Ok (Cont (length es, length (pre @ encode_stat e), acc @ [e]))"
    unfolding *(1) using Cons.prems by (simp add: stats_step_encoded)
  have "rwhile (\<lambda>(todo, pos, stats). todo > 0) (stats_step (pre @ concat (map encode_stat (e # es)) @ rest))
      (Suc (length es), length pre, acc) =
    rwhile (\<lambda>(todo, pos, stats). todo > 0) (stats_step ((pre @ encode_stat e) @ concat (map encode_stat es) @ rest))
      (length es, length (pre @ encode_stat e), acc @ [e])"
    using step unfolding *(1) *(2) by (intro rwhile_step) simp_all
  with Cons.IH [of "pre @ encode_stat e" "acc @ [e]"] Cons.prems show ?case by (simp add: split_def add.assoc)
qed

text \<open>A statistics report with 64-bit counters, per-family ones included, is parsed back to its entries in
  order, with their names.\<close>

theorem stats_report_roundtrip:
  assumes "chrono_ok C" "peer_header_wf h" "list_all stat_wf es"
    and "52 + length (concat (map encode_stat es)) \<le> unat max_frame"
  shows "parse_bmp_message C now
      (encode_bmp 1 (encode_peer_header h @ to_be 4 (length es) @ concat (map encode_stat es))) sp max_frame =
    Ok (StatsReport h es)"
proof -
  have len: "length (encode_peer_header h) = 42"
    using assms(2) by (simp add: length_encode_peer_header peer_header_wf_def)
  have n: "length es \<le> length (concat (map encode_stat es))"
  proof (induction es)
    case (Cons e es)
    have "1 \<le> length (encode_stat e)" by (simp add: encode_stat_def Let_def)
    with Cons show ?case by simp
  qed simp
  have "unat max_frame < 2 ^ 32" using unsigned_less [of max_frame, where ?'a = nat] by simp
  with n assms(4) have count: "unat (from_be (to_be 4 (length es)) :: u32) = length es"
    by (simp add: unat_from_be be_nat_to_be del: to_be.simps)
  let ?r = "to_be 4 (length es) @ concat (map encode_stat es)"
  have u32: "u32_at ?r 0 = Ok (from_be (to_be 4 (length es)) :: u32)"
    by (simp add: u32_at_def slice_def del: to_be.simps)
  have loop: "rwhile (\<lambda>(todo, pos, stats). todo > 0) (stats_step ?r) (length es, 4, []) =
      Ok (0, 4 + length (concat (map encode_stat es)), es)"
    using stats_loop_encoded [OF assms(3), of "to_be 4 (length es)" "[]" "[]"] by simp
  have "parse_stats_report C now (encode_peer_header h @ ?r) = Ok (StatsReport h es)"
    by (simp add: parse_stats_report_def parse_peer_header_encoded [OF assms(1,2)] u32 count loop del: to_be.simps)
  then show ?thesis
    using assms(4) len by (simp add: parse_bmp_message_encoded bmp_msg_type_try_from_def parse_body_def)
qed

theorem stats_report_roundtrip_witness:
  "parse_bmp_message doc_crates 0 (encode_bmp 1 (encode_peer_header example_header @ to_be 4 (length
      [\<lparr>stat_type = 7, stat_name_of = stat_name 7, stat_value = 42, stat_afi_safi = None\<rparr>]) @ concat (map encode_stat
      [\<lparr>stat_type = 7, stat_name_of = stat_name 7, stat_value = 42, stat_afi_safi = None\<rparr>])))
      (IpV4 1) DEFAULT_MAX_FRAME =
    Ok (StatsReport example_header
      [\<lparr>stat_type = 7, stat_name_of = stat_name 7, stat_value = 42, stat_afi_safi = None\<rparr>])"
  by (rule stats_report_roundtrip [OF chrono_ok_doc example_header_wf])
    (simp_all add: stat_wf_def encode_stat_def DEFAULT_MAX_FRAME_def)

subsection \<open>Safety of the parser\<close>

lemma parse_body_sat:
  assumes "bytes_ok C" "ipnet_ok C" "body_panic_free mt body"
  shows "sat (parse_body C now mt body) (\<lambda>_. True)"
  using assms parse_peer_up_sat [OF assms(1)] parse_route_monitoring_sat [OF assms(1,2)]
  by (cases mt) (auto simp: parse_body_def intro: sat_weaken parse_initiation_sat parse_termination_sat
      parse_peer_down_sat parse_stats_report_sat parse_route_mirroring_sat)



subsection \<open>The parser ends\<close>

text \<open>Whatever the bytes: the parser ends, and the UPDATE it returns has well-formed prefixes.\<close>

definition carried_wf :: "bmp_payload \<Rightarrow> bool" where
  "carried_wf pl \<longleftrightarrow> (case pl of RouteMonitoring h u \<Rightarrow> update_wf u | _ \<Rightarrow> True)"

lemma parse_peer_up_stops:
  assumes "bytes_ok C"
  shows "stops (parse_peer_up C now body) carried_wf"
proof -
  have "stops (parse_bgp_open_pdu C pdu) (\<lambda>_. True)" for pdu
    by (auto simp: parse_bgp_open_pdu_def len16_at_def u16_at_def intro!: stops_weaken [OF parse_bgp_open_stops [OF assms]])
  note pdu = stops_weaken [OF this]
  show ?thesis
    unfolding parse_peer_up_def Let_def
    by (auto simp: addr16_at_def bgp_open_pdu_len_def carried_wf_def ipv4_at_def ipv6_at_def len16_at_def u16_at_def
        intro!: pdu stops_weaken [OF sat_stops [OF parse_peer_header_sat]])
qed

lemma update_wf_path_status: "update_wf (u\<lparr>attributes := attributes u\<lparr>path_status := s\<rparr>\<rparr>) = update_wf u"
  by (simp add: update_wf_def all_announced_def all_withdrawn_def)

lemma parse_route_monitoring_stops:
  assumes "bytes_ok C" "ipnet_ok C"
  shows "stops (parse_route_monitoring C now body) carried_wf"
  by (auto simp: parse_route_monitoring_def carried_wf_def update_wf_path_status split: option.splits
      intro!: stops_weaken [OF sat_stops [OF parse_peer_header_sat]] stops_weaken [OF sat_stops [OF find_path_status_tlv_sat]]
        stops_weaken [OF parse_bgp_update_wf [OF assms]])

lemma not_route_monitoring:
  "parse_initiation b = Ok pl \<Longrightarrow> carried_wf pl"
  "parse_termination b = Ok pl \<Longrightarrow> carried_wf pl"
  "parse_peer_down C now b = Ok pl \<Longrightarrow> carried_wf pl"
  "parse_stats_report C now b = Ok pl \<Longrightarrow> carried_wf pl"
  "parse_route_mirroring C now b = Ok pl \<Longrightarrow> carried_wf pl"
  by (auto simp: parse_initiation_def parse_termination_def parse_peer_down_def parse_stats_report_def
      parse_route_mirroring_def carried_wf_def split: if_splits prod.splits)

lemma parse_bmp_message_stops:
  assumes "bytes_ok C" "ipnet_ok C"
  shows "stops (parse_bmp_message C now buf sp max_frame) carried_wf"
proof -
  have "stops (parse_body C now mt body) carried_wf" for mt body
    by (cases mt) (auto simp: parse_body_def not_route_monitoring parse_peer_up_stops [OF assms(1)] parse_route_monitoring_stops [OF assms]
        intro!: stops_weaken [OF sat_stops [OF parse_initiation_sat]] stops_weaken [OF sat_stops [OF parse_termination_sat]]
          stops_weaken [OF sat_stops [OF parse_peer_down_sat]] stops_weaken [OF sat_stops [OF parse_stats_report_sat]]
          stops_weaken [OF sat_stops [OF parse_route_mirroring_sat]])
  then show ?thesis
    by (auto simp: parse_bmp_message_def BMP_HEADER_LEN_def intro!: stops_weaken [OF sat_stops [OF bmp_msg_type_try_from_sat]])
qed
lemma peer_up_short_open:
  assumes "bytes_ok C" "chrono_ok C" "peer_header_wf h" "is_ipv6 local_addr = flag_ipv6 (ph_peer_flags h)"
    and "l < 16"
  shows "parse_peer_up C now (encode_peer_header h @ addr16_bytes local_addr @ to_be 2 lport @ to_be 2 rport
      @ replicate 16 0xFF @ to_be 2 l @ [1] @ rest) = Panic"
proof -
  define pdu where "pdu = replicate 16 0xFF @ to_be 2 l @ [1] @ rest"
  let ?r = "addr16_bytes local_addr @ to_be 2 lport @ to_be 2 rport @ pdu"
  have addr: "addr16_at (flag_ipv6 (ph_peer_flags h)) ?r 0 = Ok local_addr"
    using addr16_at_encoded [of "[]" 0, OF _ assms(4)] by simp
  have rest: "slice_from ?r 20 = Ok pdu" by (simp add: slice_from_def drop_append del: to_be.simps)
  have len: "len16_at pdu 16 = (Ok l :: nat result)"
    using assms(5) by (simp add: pdu_def len16_at_def slice_def unat_from_be be_nat_to_be u16_at_def del: to_be.simps)
  have "parse_bgp_open_pdu C pdu = Panic"
    using assms(1,5) by (simp add: parse_bgp_open_pdu_def len slice_def)
      (simp add: pdu_def parse_bgp_open_def bytes_ok_def)
  then show ?thesis
    unfolding pdu_def [symmetric]
    by (simp add: parse_peer_up_def parse_peer_header_encoded [OF assms(2,3)] rest addr
        u16_at_def slice_def del: to_be.simps append.assoc)
qed

text \<open>Only route-monitoring and peer-up messages can make the parser panic; every other message type, and
  every malformed header, is reported as an error or parsed.\<close>

theorem parse_bmp_message_panics_only:
  assumes "parse_bmp_message C now buf sp max_frame = Panic"
  shows "buf ! 5 = 0 \<or> buf ! 5 = 3"
proof (rule ccontr)
  assume *: "\<not> ?thesis"
  have "sat (parse_body C now mt body) (\<lambda>_. True)" if "bmp_msg_type_try_from (buf ! 5) = Ok mt" for mt body
    using that *
    by (auto simp: parse_body_def bmp_msg_type_try_from_def split: if_splits intro: sat_weaken
        parse_initiation_sat parse_termination_sat parse_peer_down_sat parse_stats_report_sat
        parse_route_mirroring_sat)
  then have "sat (parse_bmp_message C now buf sp max_frame) (\<lambda>_. True)"
    by (auto simp: parse_bmp_message_def BMP_HEADER_LEN_def intro!: sat_weaken [OF bmp_msg_type_try_from_sat])
  with assms show False by simp
qed

theorem parse_bmp_message_panics_only_witness:
  "\<exists>buf. parse_bmp_message doc_crates 0 buf (IpV4 1) DEFAULT_MAX_FRAME = Panic \<and> (buf ! 5 = 0 \<or> buf ! 5 = 3)"
proof -
  let ?body = "encode_peer_header example_header @ addr16_bytes (IpV4 7) @ to_be 2 179 @ to_be 2 179
      @ replicate 16 0xFF @ to_be 2 5 @ [1] @ []"
  have "parse_peer_up doc_crates 0 ?body = Panic"
    by (rule peer_up_short_open [OF bytes_ok_doc chrono_ok_doc example_header_wf])
      (simp_all add: example_header_def flag_ipv6_def)
  moreover have "6 + length ?body \<le> unat DEFAULT_MAX_FRAME"
    by (simp add: DEFAULT_MAX_FRAME_def encode_peer_header_def example_header_def)
  ultimately have "parse_bmp_message doc_crates 0 (encode_bmp 3 ?body) (IpV4 1) DEFAULT_MAX_FRAME = Panic"
    by (subst parse_bmp_message_encoded [of _ _ 3 Msg_PeerUp])
      (simp_all add: bmp_msg_type_try_from_def parse_body_def)
  with parse_bmp_message_panics_only [OF this] show ?thesis by blast
qed

text \<open>A peer-up message whose sent OPEN has a length field below 16 makes the parser panic, whatever
  follows: the field is used to cut the PDU before the 16-byte marker is read.\<close>

theorem peer_up_short_open_panics:
  assumes "bytes_ok C" "chrono_ok C" "peer_header_wf h" "is_ipv6 local_addr = flag_ipv6 (ph_peer_flags h)"
    and "l < 16"
  shows "parse_peer_up C now (encode_peer_header h @ addr16_bytes local_addr @ to_be 2 lport @ to_be 2 rport
      @ replicate 16 0xFF @ to_be 2 l @ [1] @ rest) = Panic"
  using assms by (rule peer_up_short_open)

theorem peer_up_short_open_panics_witness:
  "parse_peer_up doc_crates 0 (encode_peer_header example_header @ addr16_bytes (IpV4 7) @ to_be 2 179 @ to_be 2 179
      @ replicate 16 0xFF @ to_be 2 5 @ [1] @ []) = Panic"
  by (rule peer_up_short_open_panics [OF bytes_ok_doc chrono_ok_doc example_header_wf])
    (simp_all add: example_header_def flag_ipv6_def)

theorem path_status_never_found_witness:
  "\<exists>u. parse_route_monitoring doc_crates 0 (encode_peer_header example_header @ encode_update [] [] []) =
         Ok (RouteMonitoring example_header u) \<and> path_status (attributes u) = None"
proof -
  have "\<exists>u. parse_route_monitoring doc_crates 0 (encode_peer_header example_header @ encode_update [] [] []) =
      Ok (RouteMonitoring example_header u)" by (rule example_route_monitoring)
  moreover have "length (encode_peer_header example_header @ encode_update [] [] []) \<le> 65535"
    by (simp add: encode_peer_header_def encode_update_def example_header_def)
  ultimately show ?thesis using path_status_never_found [OF bytes_ok_doc] by blast
qed

end
