(* ===== verification/Receiver.thy ===== *)
theory Receiver
  imports Bmp_Messages
begin

text \<open>
  \<^verbatim>\<open>rbmp-server/src/receiver.rs\<close> and \<^verbatim>\<open>proxy.rs\<close>: the connection of one BMP speaker, from the
  bytes of the socket to the channel that feeds the RIB manager.

  What the socket delivers is a list of \<open>read_event\<close>s, one per turn of the outer loop: the cancellation of
  the server, a read that returned bytes (no bytes at all is the end of the stream), or a read error.  The
  clock, fresh identifiers, the governor's shedding flag, the archive and the far end of the channel are
  functions of the number of frames taken from the stream so far (\<open>conn_env\<close>).  Log output, metrics and the
  PTR lookup, which only feeds the log, are left out.
\<close>

subsection \<open>The connection\<close>

record bmp_config =
  cfg_listen_addr :: string
  cfg_max_frame_bytes :: u32
  cfg_shed_stats_on_pressure :: bool
  cfg_archive_path :: "string option"

record conn_env =
  ce_now :: "nat \<Rightarrow> datetime"
  ce_new_v4 :: "nat \<Rightarrow> u128"
  ce_should_shed :: "nat \<Rightarrow> bool"
  ce_archived :: "nat \<Rightarrow> bool"
  ce_closed :: "nat \<Rightarrow> bool"
  ce_cancelled :: bool

text \<open>What a connection has done: frames taken, messages sent on the channel and messages archived.\<close>

record pipe =
  pi_frames :: nat
  pi_sent :: "bmp_message list"
  pi_archive :: "bmp_message list"

datatype read_event = Cancelled | Data bytes | Read_Error

datatype conn_state = Waiting bytes | Finished

definition is_stats :: "bmp_payload \<Rightarrow> bool" where
  "is_stats pl = (case pl of StatsReport h st \<Rightarrow> True | _ \<Rightarrow> False)"

definition bmp_msg :: "conn_env \<Rightarrow> ip_addr \<Rightarrow> nat \<Rightarrow> bmp_payload \<Rightarrow> bmp_message" where
  "bmp_msg E speaker n pl =
     \<lparr>msg_id = ce_new_v4 E n, msg_received_at = ce_now E n, msg_speaker_addr = speaker, msg_payload = pl\<rparr>"

text \<open>One frame: parse it, shed it or archive and send it.  The flag says that the far end of the channel is
  gone and the handler returned.  A panic of the parser is a panic of the connection's task.\<close>

definition on_frame :: "crates \<Rightarrow> conn_env \<Rightarrow> bmp_config \<Rightarrow> ip_addr \<Rightarrow> bytes \<Rightarrow> pipe \<Rightarrow> (pipe \<times> bool) result" where
  "on_frame C E cfg speaker frame p =
     (let n = pi_frames p; p = p\<lparr>pi_frames := Suc n\<rparr> in
      case parse_bmp_message C (ce_now E n) frame speaker (cfg_max_frame_bytes cfg) of
        Ok payload \<Rightarrow>
          if cfg_shed_stats_on_pressure cfg \<and> ce_should_shed E n \<and> is_stats payload then Ok (p, False)
          else let msg = bmp_msg E speaker n payload;
                   p = (if ce_archived E n then p\<lparr>pi_archive := pi_archive p @ [msg]\<rparr> else p)
               in if ce_closed E n then Ok (p, True)
                  else Ok (p\<lparr>pi_sent := pi_sent p @ [msg]\<rparr>, False)
      | Err e \<Rightarrow> Ok (p, False)
      | Panic \<Rightarrow> Panic
      | Diverge \<Rightarrow> Diverge)"

text \<open>The inner loop drains complete frames from the buffer.  When the handler returns its buffer is dropped.\<close>

type_synonym drain_state = "bytes \<times> pipe \<times> bool"

definition drain_step :: "crates \<Rightarrow> conn_env \<Rightarrow> bmp_config \<Rightarrow> ip_addr \<Rightarrow> drain_state \<Rightarrow> drain_state ctl result" where
  "drain_step C E cfg speaker = (\<lambda>(buf, p, _).
     if length buf < BMP_HEADER_LEN then Ok (Brk (buf, p, False))
     else rbind (u32_at buf 1) (\<lambda>l. let frame_len = unat l in
       if length buf < frame_len then Ok (Brk (buf, p, False))
       else rbind (buf_copy_to_bytes C frame_len buf) (\<lambda>(frame, buf).
            rbind (on_frame C E cfg speaker frame p) (\<lambda>(p, ret).
            Ok (if ret then Brk ([], p, True) else Cont (buf, p, False))))))"

definition drain :: "(drain_state \<Rightarrow> drain_state ctl result) \<Rightarrow> bytes \<Rightarrow> pipe \<Rightarrow> drain_state result" where
  "drain step buf p = rwhile (\<lambda>_. True) step (buf, p, False)"

text \<open>After the loop: the synthetic Termination, unless the server is shutting down.\<close>

definition synthesize :: "conn_env \<Rightarrow> ip_addr \<Rightarrow> string \<Rightarrow> pipe \<Rightarrow> pipe" where
  "synthesize E speaker reason p =
     (if ce_closed E (pi_frames p) then p
      else p\<lparr>pi_sent := pi_sent p @ [bmp_msg E speaker (pi_frames p) (Termination 0 (Some reason))]\<rparr>)"

definition connection_end :: "conn_env \<Rightarrow> ip_addr \<Rightarrow> pipe \<Rightarrow> pipe" where
  "connection_end E speaker p =
     (if ce_cancelled E then p else synthesize E speaker ''tcp-session-dropped'' p)"

fun handle_connection ::
    "crates \<Rightarrow> conn_env \<Rightarrow> bmp_config \<Rightarrow> ip_addr \<Rightarrow> read_event list \<Rightarrow> bytes \<Rightarrow> pipe \<Rightarrow> (pipe \<times> conn_state) result" where
  "handle_connection C E cfg speaker [] buf p = Ok (p, Waiting buf)"
| "handle_connection C E cfg speaker (Cancelled # evs) buf p = Ok (p, Finished)"
| "handle_connection C E cfg speaker (Read_Error # evs) buf p = Ok (connection_end E speaker p, Finished)"
| "handle_connection C E cfg speaker (Data bs # evs) buf p =
     (if bs = [] then Ok (connection_end E speaker p, Finished)
      else rbind (drain (drain_step C E cfg speaker) (buf @ bs) p) (\<lambda>(buf, p, ret).
           if ret then Ok (p, Finished) else handle_connection C E cfg speaker evs buf p))"

subsection \<open>The proxy\<close>

record proxy_config =
  pc_listen_addr :: string
  pc_upstream_addr :: string
  pc_max_frame_bytes :: u32

definition proxy_on_frame :: "crates \<Rightarrow> conn_env \<Rightarrow> proxy_config \<Rightarrow> ip_addr \<Rightarrow> bytes \<Rightarrow> pipe \<Rightarrow> (pipe \<times> bool) result" where
  "proxy_on_frame C E cfg speaker frame p =
     (let n = pi_frames p; p = p\<lparr>pi_frames := Suc n\<rparr> in
      case parse_bmp_message C (ce_now E n) frame speaker (pc_max_frame_bytes cfg) of
        Ok payload \<Rightarrow>
          if ce_closed E n then Ok (p, True)
          else Ok (p\<lparr>pi_sent := pi_sent p @ [bmp_msg E speaker n payload]\<rparr>, False)
      | Err e \<Rightarrow> Ok (p, False)
      | Panic \<Rightarrow> Panic
      | Diverge \<Rightarrow> Diverge)"

definition proxy_step :: "crates \<Rightarrow> conn_env \<Rightarrow> proxy_config \<Rightarrow> ip_addr \<Rightarrow> drain_state \<Rightarrow> drain_state ctl result" where
  "proxy_step C E cfg speaker = (\<lambda>(buf, p, _).
     if length buf < BMP_HEADER_LEN then Ok (Brk (buf, p, False))
     else rbind (u32_at buf 1) (\<lambda>l. let frame_len = unat l in
       if frame_len = 0 \<or> length buf < frame_len then Ok (Brk (buf, p, False))
       else rbind (buf_copy_to_bytes C frame_len buf) (\<lambda>(frame, buf).
            rbind (proxy_on_frame C E cfg speaker frame p) (\<lambda>(p, ret).
            Ok (if ret then Brk ([], p, True) else Cont (buf, p, False))))))"

text \<open>The upstream connection: \<open>None\<close> when it could not be opened or a write failed, otherwise the bytes
  written to it.  \<open>fails\<close> says whether the next write fails, by the number of bytes written so far.\<close>

definition forward :: "(nat \<Rightarrow> bool) \<Rightarrow> bytes \<Rightarrow> bytes option \<Rightarrow> bytes option" where
  "forward fails bs up =
     (case up of None \<Rightarrow> None | Some sent \<Rightarrow> if fails (length sent) then None else Some (sent @ bs))"

fun handle_proxy_connection ::
    "crates \<Rightarrow> conn_env \<Rightarrow> proxy_config \<Rightarrow> ip_addr \<Rightarrow> (nat \<Rightarrow> bool) \<Rightarrow> read_event list \<Rightarrow> bytes \<Rightarrow> bytes option \<Rightarrow> pipe
      \<Rightarrow> (pipe \<times> bytes option \<times> conn_state) result" where
  "handle_proxy_connection C E cfg speaker fails [] buf up p = Ok (p, up, Waiting buf)"
| "handle_proxy_connection C E cfg speaker fails (Cancelled # evs) buf up p =
     Ok (synthesize E speaker ''proxy-tcp-session-dropped'' p, up, Finished)"
| "handle_proxy_connection C E cfg speaker fails (Read_Error # evs) buf up p =
     Ok (synthesize E speaker ''proxy-tcp-session-dropped'' p, up, Finished)"
| "handle_proxy_connection C E cfg speaker fails (Data bs # evs) buf up p =
     (if bs = [] then Ok (synthesize E speaker ''proxy-tcp-session-dropped'' p, up, Finished)
      else rbind (drain (proxy_step C E cfg speaker) (buf @ bs) p) (\<lambda>(buf, p, ret).
           if ret then Ok (p, forward fails bs up, Finished)
           else handle_proxy_connection C E cfg speaker fails evs buf (forward fails bs up) p))"

subsection \<open>Splitting a stream into frames\<close>

text \<open>The specification: the complete frames at the front of a byte string, by their length fields, and what
  is left.  A zero length field stops the split (\<open>stalled\<close>).\<close>

definition frame_length :: "bytes \<Rightarrow> nat" where
  "frame_length buf = unat (from_be (take 4 (drop 1 buf)) :: u32)"

definition has_frame :: "bytes \<Rightarrow> bool" where
  "has_frame buf \<longleftrightarrow> BMP_HEADER_LEN \<le> length buf \<and> frame_length buf \<noteq> 0 \<and> frame_length buf \<le> length buf"

definition stalled :: "bytes \<Rightarrow> bool" where
  "stalled buf \<longleftrightarrow> BMP_HEADER_LEN \<le> length buf \<and> frame_length buf = 0"

function split_frames :: "bytes \<Rightarrow> bytes list \<times> bytes" where
  "split_frames buf =
     (if has_frame buf
      then case split_frames (drop (frame_length buf) buf) of (fs, rest) \<Rightarrow> (take (frame_length buf) buf # fs, rest)
      else ([], buf))"
  by auto

termination by (relation "measure length") (auto simp: has_frame_def)

declare split_frames.simps [simp del]

lemma split_frames_no: "\<not> has_frame buf \<Longrightarrow> split_frames buf = ([], buf)"
  by (simp add: split_frames.simps)

lemma split_frames_yes:
  "has_frame buf \<Longrightarrow> split_frames buf =
     (take (frame_length buf) buf # fst (split_frames (drop (frame_length buf) buf)),
      snd (split_frames (drop (frame_length buf) buf)))"
  by (subst split_frames.simps) (simp add: split_def)

lemma frame_length_append: "BMP_HEADER_LEN \<le> length a \<Longrightarrow> frame_length (a @ b) = frame_length a"
  by (simp add: frame_length_def BMP_HEADER_LEN_def)

lemma has_frame_append: "has_frame a \<Longrightarrow> has_frame (a @ b)"
  by (simp add: has_frame_def frame_length_append)

lemma stalled_append: "stalled a \<Longrightarrow> stalled (a @ b)"
  by (simp add: stalled_def frame_length_append)

lemma stalled_no_frame: "stalled a \<Longrightarrow> \<not> has_frame a"
  by (simp add: stalled_def has_frame_def)

lemma split_frames_rest: "\<not> has_frame (snd (split_frames buf))"
  by (induction buf rule: split_frames.induct) (subst split_frames.simps, auto simp: split_def)

lemma split_frames_concat: "concat (fst (split_frames buf)) @ snd (split_frames buf) = buf"
  by (induction buf rule: split_frames.induct) (subst (1 2) split_frames.simps, auto simp: split_def)

text \<open>A stream may be split piecewise: what is left over waits for the next bytes.\<close>

lemma split_frames_append:
  "split_frames (a @ b) =
     (fst (split_frames a) @ fst (split_frames (snd (split_frames a) @ b)), snd (split_frames (snd (split_frames a) @ b)))"
proof (induction a rule: split_frames.induct)
  case (1 a)
  show ?case
  proof (cases "has_frame a")
    case True
    moreover from True have "frame_length (a @ b) = frame_length a" "frame_length a \<le> length a"
      by (simp_all add: has_frame_def frame_length_append)
    ultimately show ?thesis using 1 [OF True] by (simp add: split_frames_yes has_frame_append)
  qed (simp add: split_frames_no)
qed

text \<open>Well-formed frames are split off as they are.\<close>

definition frame_ok :: "bytes \<Rightarrow> bool" where
  "frame_ok f \<longleftrightarrow> BMP_HEADER_LEN \<le> length f \<and> frame_length f = length f"

lemma split_frames_encoded:
  "(\<forall>f \<in> set fs. frame_ok f) \<Longrightarrow> split_frames (concat fs @ b) = (fs @ fst (split_frames b), snd (split_frames b))"
proof (induction fs)
  case (Cons f fs)
  then have "has_frame (f @ concat fs @ b)" "frame_length (f @ concat fs @ b) = length f"
    using frame_length_append [of f "concat fs @ b"] by (auto simp: frame_ok_def has_frame_def BMP_HEADER_LEN_def)
  then show ?case using Cons by (simp add: split_frames_yes)
qed simp

subsection \<open>Draining\<close>

text \<open>Frames handed over one by one, until the channel is closed.\<close>

fun deliver :: "(bytes \<Rightarrow> 'p \<Rightarrow> ('p \<times> bool) result) \<Rightarrow> bytes list \<Rightarrow> 'p \<Rightarrow> ('p \<times> bool) result" where
  "deliver h [] p = Ok (p, False)"
| "deliver h (f # fs) p = rbind (h f p) (\<lambda>(p, ret). if ret then Ok (p, True) else deliver h fs p)"

lemma deliver_append:
  "deliver h (fs @ gs) p = rbind (deliver h fs p) (\<lambda>(p, ret). if ret then Ok (p, True) else deliver h gs p)"
  by (induction fs arbitrary: p) (auto simp: rbind_def split: outcome.splits)

text \<open>The interface of a drain loop: it waits while no frame is complete, and hands over the next frame when
  there is one.  Both connection handlers drain the frames of the specification.\<close>

locale frame_loop =
  fixes C :: crates
    and step :: "drain_state \<Rightarrow> drain_state ctl result"
    and handle :: "bytes \<Rightarrow> pipe \<Rightarrow> (pipe \<times> bool) result"
  assumes waits: "\<not> has_frame buf \<Longrightarrow> \<not> stalled buf \<Longrightarrow> step (buf, p, r) = Ok (Brk (buf, p, False))"
    and takes: "bytes_ok C \<Longrightarrow> has_frame buf \<Longrightarrow> step (buf, p, r) =
      rbind (handle (take (frame_length buf) buf) p) (\<lambda>(p, ret).
        Ok (if ret then Brk ([], p, True) else Cont (drop (frame_length buf) buf, p, False)))"
begin

lemma drain_frames:
  assumes C: "bytes_ok C"
  shows "drain step buf p = rbind (deliver handle (fst (split_frames buf)) p) (\<lambda>(p, ret).
     if ret then Ok ([], p, True) else drain step (snd (split_frames buf)) p)"
proof (induction buf arbitrary: p rule: split_frames.induct)
  case (1 buf)
  show ?case
  proof (cases "has_frame buf")
    case True
    note step = takes [OF C True, of p False]
    show ?thesis
    proof (cases "handle (take (frame_length buf) buf) p")
      case (Ok x)
      obtain p' ret where x: "x = (p', ret)" by (cases x)
      show ?thesis
      proof (cases ret)
        case ret: True
        then show ?thesis using step Ok x True by (simp add: drain_def rwhile_break split_frames_yes)
      next
        case False
        then have "drain step buf p = drain step (drop (frame_length buf) buf) p'"
          using step Ok x unfolding drain_def by (intro rwhile_step) simp_all
        then show ?thesis using 1 [OF True] Ok x False unfolding split_frames_yes [OF True] fst_conv snd_conv by simp
      qed
    qed (use step in \<open>simp_all add: drain_def rwhile_unfold [of _ _ "(buf, p, False)"] split_frames_yes [OF True]\<close>)
  qed (simp add: split_frames_no)
qed

lemma drain_waits:
  assumes "bytes_ok C" "\<not> stalled (snd (split_frames buf))"
  shows "drain step buf p = rbind (deliver handle (fst (split_frames buf)) p) (\<lambda>(p, ret).
       Ok (if ret then [] else snd (split_frames buf), p, ret))"
proof -
  have "drain step (snd (split_frames buf)) q = Ok (snd (split_frames buf), q, False)" for q
    unfolding drain_def by (rule rwhile_break) (simp_all add: waits [OF split_frames_rest assms(2)])
  then show ?thesis
    by (subst drain_frames [OF assms(1)]) (auto simp: rbind_def split: outcome.splits)
qed

end

subsection \<open>The two handlers drain frames\<close>

lemma u32_at_frame_length:
  "BMP_HEADER_LEN \<le> length buf \<Longrightarrow> u32_at buf (Suc 0) = Ok (from_be (take 4 (drop (Suc 0) buf)))"
  by (simp add: u32_at_def slice_def BMP_HEADER_LEN_def)

lemmas frame_length_simps = u32_at_frame_length frame_length_def [simplified, symmetric] Let_def

interpretation receiver: frame_loop C "drain_step C E cfg speaker" "on_frame C E cfg speaker" for C E cfg speaker
proof
  fix buf :: bytes and p r
  show "drain_step C E cfg speaker (buf, p, r) = Ok (Brk (buf, p, False))" if "\<not> has_frame buf" "\<not> stalled buf"
    using that by (auto simp: frame_length_simps drain_step_def has_frame_def stalled_def not_le)
  show "drain_step C E cfg speaker (buf, p, r) =
      rbind (on_frame C E cfg speaker (take (frame_length buf) buf) p) (\<lambda>(p, ret).
        Ok (if ret then Brk ([], p, True) else Cont (drop (frame_length buf) buf, p, False)))" if "bytes_ok C" "has_frame buf"
    using that
    by (auto simp: frame_length_simps drain_step_def has_frame_def copy_to_bytes_eq)
qed

interpretation proxy: frame_loop C "proxy_step C E cfg speaker" "proxy_on_frame C E cfg speaker" for C E cfg speaker
proof
  fix buf :: bytes and p r
  show "proxy_step C E cfg speaker (buf, p, r) = Ok (Brk (buf, p, False))" if "\<not> has_frame buf" "\<not> stalled buf"
    using that by (auto simp: frame_length_simps proxy_step_def has_frame_def stalled_def not_le)
  show "proxy_step C E cfg speaker (buf, p, r) =
      rbind (proxy_on_frame C E cfg speaker (take (frame_length buf) buf) p) (\<lambda>(p, ret).
        Ok (if ret then Brk ([], p, True) else Cont (drop (frame_length buf) buf, p, False)))" if "bytes_ok C" "has_frame buf"
    using that
    by (auto simp: frame_length_simps proxy_step_def has_frame_def copy_to_bytes_eq)
qed

text \<open>On a zero length field the receiver takes an empty frame for ever; the proxy waits.\<close>

lemma on_frame_empty: "on_frame C E cfg speaker [] p = Ok (p\<lparr>pi_frames := Suc (pi_frames p)\<rparr>, False)"
  by (simp add: on_frame_def parse_bmp_message_def BMP_HEADER_LEN_def)

lemma drain_stalled:
  assumes "bytes_ok C" "stalled buf"
  shows "drain (drain_step C E cfg speaker) buf p = Diverge"
  unfolding drain_def
proof (rule rwhile_Diverge [where I = "\<lambda>(b, p, r). b = buf"])
  fix s :: drain_state
  assume s: "case s of (b, p, r) \<Rightarrow> b = buf"
  obtain q r where s_def: "s = (buf, q, r)" using s by (cases s) auto
  have "drain_step C E cfg speaker s = Ok (Cont (buf, q\<lparr>pi_frames := Suc (pi_frames q)\<rparr>, False))"
    using assms(2)
    by (auto simp: frame_length_simps s_def drain_step_def stalled_def copy_to_bytes_eq [OF assms(1)] on_frame_empty)
  then show "True \<and> (\<exists>s'. drain_step C E cfg speaker s = Ok (Cont s') \<and> (case s' of (b, p, r) \<Rightarrow> b = buf))" by auto
qed simp

lemma proxy_stalled: "stalled buf \<Longrightarrow> drain (proxy_step C E cfg speaker) buf p = Ok (buf, p, False)"
  by (auto simp: frame_length_simps drain_def proxy_step_def stalled_def not_less intro!: rwhile_break)

lemma proxy_drain:
  assumes "bytes_ok C"
  shows "drain (proxy_step C E cfg speaker) buf p =
    rbind (deliver (proxy_on_frame C E cfg speaker) (fst (split_frames buf)) p) (\<lambda>(p, ret).
      Ok (if ret then [] else snd (split_frames buf), p, ret))"
proof (cases "stalled (snd (split_frames buf))")
  case True
  then show ?thesis
    by (subst proxy.drain_frames [OF assms])
      (auto simp: proxy_stalled rbind_def split: outcome.splits)
qed (rule proxy.drain_waits [OF assms])

subsection \<open>Whole connections\<close>

lemma handle_connection_frames:
  assumes "bytes_ok C" "\<forall>bs \<in> set reads. bs \<noteq> []"
  shows "handle_connection C E cfg speaker (map Data reads) buf p =
    (if reads = [] then Ok (p, Waiting buf)
     else rbind (deliver (on_frame C E cfg speaker) (fst (split_frames (buf @ concat reads))) p) (\<lambda>(p, ret).
       if ret then Ok (p, Finished)
       else if stalled (snd (split_frames (buf @ concat reads))) then Diverge
       else Ok (p, Waiting (snd (split_frames (buf @ concat reads))))))"
  using assms(2)
proof (induction reads arbitrary: buf p)
  case (Cons bs reads)
  let ?rest = "snd (split_frames (buf @ bs))"
  have split: "split_frames (buf @ bs @ concat reads) =
      (fst (split_frames (buf @ bs)) @ fst (split_frames (?rest @ concat reads)), snd (split_frames (?rest @ concat reads)))"
    using split_frames_append [of "buf @ bs" "concat reads"] by simp
  show ?case
  proof (cases "stalled ?rest")
    case True
    then have "split_frames (?rest @ concat reads) = ([], ?rest @ concat reads)" "stalled (?rest @ concat reads)"
      using stalled_append stalled_no_frame split_frames_no by blast+
    then show ?thesis using Cons.prems split True receiver.drain_frames [OF assms(1), of E cfg speaker "buf @ bs"] drain_stalled [OF assms(1) True]
      by (auto simp: rbind_def split: outcome.splits)
  next
    case False
    have "reads = [] \<Longrightarrow> split_frames (?rest @ concat reads) = ([], ?rest)"
      using split_frames_rest split_frames_no by simp
    then show ?thesis using Cons split False receiver.drain_waits [OF assms(1) False]
      by (auto simp: rbind_def deliver_append split: outcome.splits)
  qed
qed simp

lemma handle_proxy_frames:
  assumes "bytes_ok C" "\<forall>bs \<in> set reads. bs \<noteq> []" "\<not> has_frame buf"
    and "deliver (proxy_on_frame C E cfg speaker) (fst (split_frames (buf @ concat reads))) p = Ok (p', False)"
  shows "\<exists>up'. handle_proxy_connection C E cfg speaker fails (map Data reads) buf up p =
    Ok (p', up', Waiting (snd (split_frames (buf @ concat reads))))
    \<and> (\<forall>sent. up' = Some sent \<longrightarrow> (\<exists>old. up = Some old \<and> sent = old @ concat reads))
    \<and> (up \<noteq> None \<longrightarrow> (\<forall>n. \<not> fails n) \<longrightarrow> up' \<noteq> None)"
  using assms(2-)
proof (induction reads arbitrary: buf up p)
  case Nil
  then show ?case by (cases up) (simp_all add: split_frames_no)
next
  case (Cons bs reads)
  let ?rest = "snd (split_frames (buf @ bs))"
  have split: "split_frames (buf @ bs @ concat reads) =
      (fst (split_frames (buf @ bs)) @ fst (split_frames (?rest @ concat reads)), snd (split_frames (?rest @ concat reads)))"
    using split_frames_append [of "buf @ bs" "concat reads"] by simp
  from Cons.prems(3) split obtain q where q: "deliver (proxy_on_frame C E cfg speaker) (fst (split_frames (buf @ bs))) p = Ok (q, False)"
    "deliver (proxy_on_frame C E cfg speaker) (fst (split_frames (?rest @ concat reads))) q = Ok (p', False)"
    by (auto simp: deliver_append split: if_splits)
  note IH = Cons.IH [OF _ split_frames_rest q(2), of "forward fails bs up"]
  show ?case using IH Cons.prems(1) q(1) split
    by (auto simp: proxy_drain [OF assms(1)] forward_def split: option.splits if_splits)
qed

subsection \<open>What is sent\<close>

definition frame_message :: "crates \<Rightarrow> conn_env \<Rightarrow> bmp_config \<Rightarrow> ip_addr \<Rightarrow> nat \<Rightarrow> bytes \<Rightarrow> bmp_message option" where
  "frame_message C E cfg speaker n f =
     (case parse_bmp_message C (ce_now E n) f speaker (cfg_max_frame_bytes cfg) of
        Ok pl \<Rightarrow> if cfg_shed_stats_on_pressure cfg \<and> ce_should_shed E n \<and> is_stats pl then None
                 else Some (bmp_msg E speaker n pl)
      | _ \<Rightarrow> None)"

text \<open>The messages of the frames \<open>fs\<close>, the first of which has number \<open>n\<close>, in order.\<close>

fun messages :: "(nat \<Rightarrow> bytes \<Rightarrow> bmp_message option) \<Rightarrow> nat \<Rightarrow> bytes list \<Rightarrow> bmp_message list" where
  "messages m n [] = []"
| "messages m n (f # fs) = (case m n f of None \<Rightarrow> [] | Some x \<Rightarrow> [x]) @ messages m (Suc n) fs"

definition parses :: "crates \<Rightarrow> conn_env \<Rightarrow> ip_addr \<Rightarrow> u32 \<Rightarrow> nat \<Rightarrow> bytes list \<Rightarrow> bool" where
  "parses C E speaker max_frame n fs \<longleftrightarrow>
     (\<forall>i < length fs. parse_bmp_message C (ce_now E (n + i)) (fs ! i) speaker max_frame \<noteq> Panic)"

lemma parses_Nil [simp]: "parses C E speaker mx n []"
  by (simp add: parses_def)

lemma parses_Cons:
  "parses C E speaker mx n (f # fs) \<longleftrightarrow> parse_bmp_message C (ce_now E n) f speaker mx \<noteq> Panic \<and> parses C E speaker mx (Suc n) fs"
  by (auto simp: parses_def nth_Cons less_Suc_eq_0_disj)

lemma parse_bmp_message_not_Diverge:
  "bytes_ok C \<Longrightarrow> ipnet_ok C \<Longrightarrow> parse_bmp_message C now f speaker mx \<noteq> Diverge"
  using parse_bmp_message_stops by (auto simp: stops_iff)

lemma deliver_on_frame:
  assumes "bytes_ok C" "ipnet_ok C" "\<forall>n. \<not> ce_closed E n" "parses C E speaker (cfg_max_frame_bytes cfg) (pi_frames p) fs"
  shows "\<exists>p'. deliver (on_frame C E cfg speaker) fs p = Ok (p', False) \<and> pi_frames p' = pi_frames p + length fs
    \<and> pi_sent p' = pi_sent p @ messages (frame_message C E cfg speaker) (pi_frames p) fs"
  using assms(4)
proof (induction fs arbitrary: p)
  case (Cons f fs)
  let ?n = "pi_frames p"
  have "\<exists>q. on_frame C E cfg speaker f p = Ok (q, False) \<and> pi_frames q = Suc ?n
    \<and> pi_sent q = pi_sent p @ (case frame_message C E cfg speaker ?n f of None \<Rightarrow> [] | Some x \<Rightarrow> [x])"
    using Cons.prems assms(3) parse_bmp_message_not_Diverge [OF assms(1,2), of "ce_now E ?n" f speaker "cfg_max_frame_bytes cfg"]
    by (cases "parse_bmp_message C (ce_now E ?n) f speaker (cfg_max_frame_bytes cfg)")
      (auto simp: on_frame_def frame_message_def Let_def parses_Cons)
  then obtain q where q: "on_frame C E cfg speaker f p = Ok (q, False)" "pi_frames q = Suc ?n"
    "pi_sent q = pi_sent p @ (case frame_message C E cfg speaker ?n f of None \<Rightarrow> [] | Some x \<Rightarrow> [x])" by blast
  with Cons.IH [of q] Cons.prems show ?case by (auto simp: parses_Cons)
qed simp

text \<open>The proxy sends every parsed message: it is a receiver that never sheds.\<close>

definition as_receiver :: "proxy_config \<Rightarrow> bmp_config" where
  "as_receiver cfg = \<lparr>cfg_listen_addr = pc_listen_addr cfg, cfg_max_frame_bytes = pc_max_frame_bytes cfg,
     cfg_shed_stats_on_pressure = False, cfg_archive_path = None\<rparr>"

lemma proxy_on_frame_eq: "proxy_on_frame C E cfg speaker = on_frame C (E\<lparr>ce_archived := \<lambda>_. False\<rparr>) (as_receiver cfg) speaker"
  by (intro ext) (simp add: proxy_on_frame_def on_frame_def as_receiver_def Let_def bmp_msg_def split: outcome.split)

lemma handle_connection_append:
  "handle_connection C E cfg speaker (xs @ ys) buf p =
     rbind (handle_connection C E cfg speaker xs buf p) (\<lambda>(p, st).
       case st of Waiting b \<Rightarrow> handle_connection C E cfg speaker ys b p | Finished \<Rightarrow> Ok (p, Finished))"
proof (induction xs arbitrary: buf p)
  case (Cons x xs)
  then show ?case by (cases x) (auto simp: rbind_def split: outcome.splits)
qed simp

definition pipe_new :: pipe where "pipe_new = \<lparr>pi_frames = 0, pi_sent = [], pi_archive = []\<rparr>"

lemma pipe_new_simps [simp]: "pi_frames pipe_new = 0" "pi_sent pipe_new = []"
  by (simp_all add: pipe_new_def)

lemma receiver_reads:
  assumes "bytes_ok C" "ipnet_ok C" "\<forall>n. \<not> ce_closed E n" "\<forall>bs \<in> set reads. bs \<noteq> []"
    and "split_frames (concat reads) = (fs, rest)" "parses C E speaker (cfg_max_frame_bytes cfg) 0 fs"
  shows "\<exists>p. pi_frames p = length fs \<and> pi_sent p = messages (frame_message C E cfg speaker) 0 fs
    \<and> handle_connection C E cfg speaker (map Data reads) [] pipe_new = (if stalled rest then Diverge else Ok (p, Waiting rest))"
proof -
  obtain p where p: "deliver (on_frame C E cfg speaker) fs pipe_new = Ok (p, False)" "pi_frames p = length fs"
    "pi_sent p = messages (frame_message C E cfg speaker) 0 fs"
    using deliver_on_frame [OF assms(1-3), of speaker cfg pipe_new fs] assms(6) by auto
  show ?thesis
  proof (cases "reads = []")
    case True
    then have "fs = []" "rest = []" using assms(5) by (auto simp: split_frames_no has_frame_def BMP_HEADER_LEN_def)
    then show ?thesis using True p by (auto simp: stalled_def BMP_HEADER_LEN_def)
  next
    case False
    then show ?thesis using handle_connection_frames [OF assms(1,4), of E cfg speaker "[]"] p assms(5) by auto
  qed
qed

lemma receiver_stream:
  assumes "bytes_ok C" "ipnet_ok C" "\<forall>n. \<not> ce_closed E n" "\<not> ce_cancelled E" "\<forall>bs \<in> set reads. bs \<noteq> []"
    and "split_frames (concat reads) = (fs, rest)" "\<not> stalled rest" "parses C E speaker (cfg_max_frame_bytes cfg) 0 fs"
  shows "\<exists>p. handle_connection C E cfg speaker (map Data reads) [] pipe_new = Ok (p, Waiting rest)
      \<and> pi_sent p = messages (frame_message C E cfg speaker) 0 fs
    \<and> (\<exists>q. handle_connection C E cfg speaker (map Data reads @ [Data []]) [] pipe_new = Ok (q, Finished)
         \<and> pi_sent q = pi_sent p @ [bmp_msg E speaker (length fs) (Termination 0 (Some ''tcp-session-dropped''))])"
  using receiver_reads [OF assms(1-3,5,6,8)] assms(3,4,7)
  by (auto simp: handle_connection_append connection_end_def synthesize_def)


definition quiet_env :: conn_env where
  "quiet_env = \<lparr>ce_now = int, ce_new_v4 = word_of_nat, ce_should_shed = (\<lambda>_. False), ce_archived = (\<lambda>_. False),
     ce_closed = (\<lambda>_. False), ce_cancelled = False\<rparr>"

definition default_config :: bmp_config where
  "default_config = \<lparr>cfg_listen_addr = ''0.0.0.0:5000'', cfg_max_frame_bytes = DEFAULT_MAX_FRAME,
     cfg_shed_stats_on_pressure = True, cfg_archive_path = None\<rparr>"

definition initiation_frame :: bytes where "initiation_frame = [3, 0, 0, 0, 6, 4]"

lemma initiation_frame_ok: "frame_ok initiation_frame"
  by (simp add: frame_ok_def initiation_frame_def frame_length_def BMP_HEADER_LEN_def from_be_def be_nat_def)

lemma initiation_frame_parses:
  "parse_bmp_message doc_crates now initiation_frame speaker DEFAULT_MAX_FRAME = Ok (Initiation None None [])"
  by (simp add: parse_bmp_message_def initiation_frame_def BMP_HEADER_LEN_def BMP_VERSION_def idx_def u32_at_def
      slice_def slice_from_def from_be_def be_nat_def DEFAULT_MAX_FRAME_def bmp_msg_type_try_from_def parse_body_def
      parse_initiation_def tlv_scan_def rwhile_stop)


text \<open>C27: a frame with a zero length field makes the receiver loop for ever: the buffer is never advanced and no
  later input, not even the end of the stream or the cancellation of the server, is looked at.\<close>

theorem receiver_diverges:
  assumes "bytes_ok C" "ipnet_ok C" "\<forall>n. \<not> ce_closed E n" "\<forall>bs \<in> set reads. bs \<noteq> []"
    and "split_frames (concat reads) = (fs, rest)" "stalled rest" "parses C E speaker (cfg_max_frame_bytes cfg) 0 fs"
  shows "handle_connection C E cfg speaker (map Data reads @ later) [] pipe_new = Diverge"
  using receiver_reads [OF assms(1-5,7)] assms(6) by (auto simp: handle_connection_append)

theorem receiver_diverges_witness:
  "handle_connection doc_crates quiet_env default_config (IpV4 9) (map Data [[3, 0, 0, 0, 0, 4]] @ [Cancelled]) [] pipe_new = Diverge"
proof -
  have st: "stalled [3, 0, 0, 0, 0, 4]" by (simp add: stalled_def frame_length_def BMP_HEADER_LEN_def from_be_def be_nat_def)
  then have "split_frames (concat [[3, 0, 0, 0, 0, 4]]) = ([], [3, 0, 0, 0, 0, 4])"
    using split_frames_no stalled_no_frame by simp
  from receiver_diverges [OF _ _ _ _ this st] show ?thesis by (simp add: quiet_env_def parses_def)
qed



end
