(* ===== verification/Rust_Text.thy ===== *)
theory Rust_Text
  imports Rust_Std
begin

text \<open>
  Text operations of the Rust standard library that the route filters use: \<^verbatim>\<open>str::trim\<close>,
  \<^verbatim>\<open>str::split_whitespace\<close>, \<^verbatim>\<open>str::parse\<close> of unsigned integers and of IP addresses.  A
  string is its UTF-8 encoding, so a white-space character is one of the byte sequences \<open>ws_encodings\<close>.
\<close>

subsection \<open>White space\<close>

text \<open>The characters with the Unicode property \<^verbatim>\<open>White_Space\<close>, encoded.\<close>

definition ws_encodings :: "string list" where
  "ws_encodings =
     [[CHR 0x09], [CHR 0x0A], [CHR 0x0B], [CHR 0x0C], [CHR 0x0D], [CHR 0x20],
      [CHR 0xC2, CHR 0x85], [CHR 0xC2, CHR 0xA0], [CHR 0xE1, CHR 0x9A, CHR 0x80],
      [CHR 0xE2, CHR 0x80, CHR 0xA8], [CHR 0xE2, CHR 0x80, CHR 0xA9], [CHR 0xE2, CHR 0x80, CHR 0xAF],
      [CHR 0xE2, CHR 0x81, CHR 0x9F], [CHR 0xE3, CHR 0x80, CHR 0x80], [CHR 0xE2, CHR 0x80, CHR 0x80],
      [CHR 0xE2, CHR 0x80, CHR 0x81], [CHR 0xE2, CHR 0x80, CHR 0x82], [CHR 0xE2, CHR 0x80, CHR 0x83],
      [CHR 0xE2, CHR 0x80, CHR 0x84], [CHR 0xE2, CHR 0x80, CHR 0x85], [CHR 0xE2, CHR 0x80, CHR 0x86],
      [CHR 0xE2, CHR 0x80, CHR 0x87], [CHR 0xE2, CHR 0x80, CHR 0x88], [CHR 0xE2, CHR 0x80, CHR 0x89],
      [CHR 0xE2, CHR 0x80, CHR 0x8A]]"

text \<open>The length of the element of \<open>ws\<close> that the text starts with; 0 if there is none.\<close>

fun lead_len :: "string list \<Rightarrow> string \<Rightarrow> nat" where
  "lead_len [] s = 0"
| "lead_len (w # ws) s = (if take (length w) s = w then length w else lead_len ws s)"

function strip_lead :: "string list \<Rightarrow> string \<Rightarrow> string" where
  "strip_lead ws s = (if s = [] \<or> lead_len ws s = 0 then s else strip_lead ws (drop (lead_len ws s) s))"
  by pat_completeness auto
termination
  by (relation "measure (\<lambda>(ws, s). length s)") auto

declare strip_lead.simps [simp del]

definition trim_start :: "string \<Rightarrow> string" where
  "trim_start s = strip_lead ws_encodings s"

definition trim_end :: "string \<Rightarrow> string" where
  "trim_end s = rev (strip_lead (map rev ws_encodings) (rev s))"

definition trim :: "string \<Rightarrow> string" where
  "trim s = trim_end (trim_start s)"

text \<open>The words of a text; \<open>cur\<close> is the word being read, reversed.\<close>

definition emit_word :: "string \<Rightarrow> string list \<Rightarrow> string list" where
  "emit_word cur ws = (if cur = [] then ws else rev cur # ws)"

function split_ws :: "string \<Rightarrow> string \<Rightarrow> string list" where
  "split_ws cur s =
     (if s = [] then emit_word cur []
      else if lead_len ws_encodings s = 0 then split_ws (hd s # cur) (tl s)
      else emit_word cur (split_ws [] (drop (lead_len ws_encodings s) s)))"
  by pat_completeness auto
termination
  by (relation "measure (\<lambda>(cur, s). length s)") (auto simp: neq_Nil_conv)

declare split_ws.simps [simp del]

definition split_whitespace :: "string \<Rightarrow> string list" where
  "split_whitespace s = split_ws [] s"

subsection \<open>Integers\<close>

datatype parse_int_error = IntEmpty | InvalidDigit | PosOverflow

fun show_parse_int_error :: "parse_int_error \<Rightarrow> string" where
  "show_parse_int_error IntEmpty = ''cannot parse integer from empty string''"
| "show_parse_int_error InvalidDigit = ''invalid digit found in string''"
| "show_parse_int_error PosOverflow = ''number too large to fit in target type''"

definition to_digit :: "nat \<Rightarrow> char \<Rightarrow> nat option" where
  "to_digit radix c =
     (let v = (of_char c :: nat);
          d = (if 48 \<le> v \<and> v \<le> 57 then Some (v - 48)
               else if 97 \<le> v \<and> v \<le> 122 then Some (v - 87)
               else if 65 \<le> v \<and> v \<le> 90 then Some (v - 55)
               else None)
      in case d of None \<Rightarrow> None | Some n \<Rightarrow> if n < radix then Some n else None)"

fun parse_digits :: "nat \<Rightarrow> nat \<Rightarrow> string \<Rightarrow> parse_int_error + nat" where
  "parse_digits limit acc [] = Inr acc"
| "parse_digits limit acc (c # cs) =
     (case to_digit 10 c of
        None \<Rightarrow> Inl InvalidDigit
      | Some d \<Rightarrow> if acc * 10 + d < limit then parse_digits limit (acc * 10 + d) cs else Inl PosOverflow)"

text \<open>\<^verbatim>\<open>s.parse::<T>()\<close> for an unsigned type with values below \<open>limit\<close>.\<close>

definition parse_unsigned :: "nat \<Rightarrow> string \<Rightarrow> parse_int_error + nat" where
  "parse_unsigned limit s =
     (if s = [] then Inl IntEmpty
      else if s = ''+'' \<or> s = ''-'' then Inl InvalidDigit
      else if hd s = CHR ''+'' then parse_digits limit 0 (tl s)
      else parse_digits limit 0 s)"

definition parse_uint :: "string \<Rightarrow> parse_int_error + 'a::len word" where
  "parse_uint s = map_sum id word_of_nat (parse_unsigned (2 ^ LENGTH('a)) s)"

subsection \<open>IP addresses\<close>

text \<open>The recursive-descent parser behind \<^verbatim>\<open>IpAddr::from_str\<close>: a reader returns its value and the rest of
  the text, and consumes nothing when it fails.\<close>

fun scan_number :: "nat \<Rightarrow> nat \<Rightarrow> string \<Rightarrow> nat \<times> nat \<times> string" where
  "scan_number radix acc [] = (acc, 0, [])"
| "scan_number radix acc (c # cs) =
     (case to_digit radix c of
        None \<Rightarrow> (acc, 0, c # cs)
      | Some d \<Rightarrow> (case scan_number radix (acc * radix + d) cs of (v, n, rest) \<Rightarrow> (v, Suc n, rest)))"

definition read_number :: "nat \<Rightarrow> nat \<Rightarrow> bool \<Rightarrow> nat \<Rightarrow> string \<Rightarrow> (nat \<times> string) option" where
  "read_number radix max_digits allow_zero_prefix limit s =
     (case scan_number radix 0 s of (v, n, rest) \<Rightarrow>
        if n = 0 \<or> n > max_digits \<or> v \<ge> limit
           \<or> (\<not> allow_zero_prefix \<and> hd s = CHR ''0'' \<and> n > 1)
        then None else Some (v, rest))"

definition read_char :: "char \<Rightarrow> string \<Rightarrow> string option" where
  "read_char c s = (case s of [] \<Rightarrow> None | x # xs \<Rightarrow> if x = c then Some xs else None)"

definition read_separator :: "char \<Rightarrow> nat \<Rightarrow> (string \<Rightarrow> ('a \<times> string) option) \<Rightarrow> string \<Rightarrow> ('a \<times> string) option" where
  "read_separator sep index p s =
     (if index > 0 then (case read_char sep s of None \<Rightarrow> None | Some rest \<Rightarrow> p rest) else p s)"

fun read_octets :: "nat \<Rightarrow> nat \<Rightarrow> string \<Rightarrow> (nat list \<times> string) option" where
  "read_octets i 0 s = Some ([], s)"
| "read_octets i (Suc n) s =
     (case read_separator CHR ''.'' i (read_number 10 3 False 256) s of
        None \<Rightarrow> None
      | Some (v, rest) \<Rightarrow> (case read_octets (Suc i) n rest of None \<Rightarrow> None | Some (vs, rest') \<Rightarrow> Some (v # vs, rest')))"

definition read_ipv4_addr :: "string \<Rightarrow> (ipv4 \<times> string) option" where
  "read_ipv4_addr s =
     (case read_octets 0 4 s of
        None \<Rightarrow> None
      | Some (vs, rest) \<Rightarrow> Some (foldl (\<lambda>acc v. acc * 256 + word_of_nat v) 0 vs, rest))"

text \<open>Groups \<open>i ..< limit\<close> of an IPv6 address, with the two groups of an embedded IPv4 address; the flag tells
  whether one was read.\<close>

fun read_groups :: "nat \<Rightarrow> nat \<Rightarrow> string \<Rightarrow> nat list \<times> bool \<times> string" where
  "read_groups i 0 s = ([], False, s)"
| "read_groups i (Suc n) s =
     (case (if n > 0 then read_separator CHR '':'' i read_ipv4_addr s else None) of
        Some (a, rest) \<Rightarrow> ([unat a div 65536, unat a mod 65536], True, rest)
      | None \<Rightarrow>
          (case read_separator CHR '':'' i (read_number 16 4 True 65536) s of
             None \<Rightarrow> ([], False, s)
           | Some (g, rest) \<Rightarrow> (case read_groups (Suc i) n rest of (gs, v4, rest') \<Rightarrow> (g # gs, v4, rest'))))"

definition groups_value :: "nat list \<Rightarrow> ipv6" where
  "groups_value gs = foldl (\<lambda>acc g. acc * 65536 + word_of_nat g) 0 gs"

definition read_ipv6_addr :: "string \<Rightarrow> (ipv6 \<times> string) option" where
  "read_ipv6_addr s =
     (case read_groups 0 8 s of (head, head_ipv4, rest) \<Rightarrow>
        if length head = 8 then Some (groups_value head, rest)
        else if head_ipv4 then None
        else (case read_char CHR '':'' rest of
                None \<Rightarrow> None
              | Some rest1 \<Rightarrow>
                 (case read_char CHR '':'' rest1 of
                    None \<Rightarrow> None
                  | Some rest2 \<Rightarrow>
                     (case read_groups 0 (8 - (length head + 1)) rest2 of (tail, _, rest3) \<Rightarrow>
                        Some (groups_value (head @ replicate (8 - length head - length tail) 0 @ tail), rest3)))))"

definition parse_ip :: "string \<Rightarrow> ip_addr option" where
  "parse_ip s =
     (case read_ipv4_addr s of
        Some (a, rest) \<Rightarrow> if rest = [] then Some (IpV4 a) else None
      | None \<Rightarrow>
          (case read_ipv6_addr s of
             Some (a, rest) \<Rightarrow> if rest = [] then Some (IpV6 a) else None
           | None \<Rightarrow> None))"

subsection \<open>Lemmas\<close>

text \<open>Characters that start no white space, and text without white space at its ends.\<close>

definition ws_start :: "char \<Rightarrow> bool" where
  "ws_start c \<longleftrightarrow> c \<in> hd ` set ws_encodings"

definition ws_end :: "char \<Rightarrow> bool" where
  "ws_end c \<longleftrightarrow> c \<in> last ` set ws_encodings"

lemma ws_start_code [code]: "ws_start c \<longleftrightarrow> list_ex (\<lambda>w. hd w = c) ws_encodings"
  by (auto simp: ws_start_def list_ex_iff)

lemma lead_len_0: "(\<And>w. w \<in> set ws \<Longrightarrow> take (length w) s \<noteq> w) \<Longrightarrow> lead_len ws s = 0"
  by (induction ws) auto

lemma ws_encodings_nonempty: "w \<in> set ws_encodings \<Longrightarrow> w \<noteq> []"
  by (auto simp: ws_encodings_def)

lemma take_neq_hd: "w \<noteq> [] \<Longrightarrow> hd w \<noteq> c \<Longrightarrow> take (length w) (c # s) \<noteq> w"
  by (cases w) auto

lemma lead_len_ws [simp]:
  assumes "\<not> ws_start c"
  shows "lead_len ws_encodings (c # s) = 0"
proof (rule lead_len_0)
  fix w
  assume "w \<in> set ws_encodings"
  with assms have "hd w \<noteq> c" "w \<noteq> []" by (auto simp: ws_start_def ws_encodings_nonempty)
  then show "take (length w) (c # s) \<noteq> w" by (intro take_neq_hd)
qed

lemma lead_len_rev_ws [simp]:
  assumes "\<not> ws_end c"
  shows "lead_len (map rev ws_encodings) (c # s) = 0"
proof (rule lead_len_0)
  fix w
  assume "w \<in> set (map rev ws_encodings)"
  then obtain v where v: "v \<in> set ws_encodings" "w = rev v" by auto
  with assms have "hd w \<noteq> c" "w \<noteq> []" by (auto simp: ws_end_def hd_rev ws_encodings_nonempty)
  then show "take (length w) (c # s) \<noteq> w" by (intro take_neq_hd)
qed

lemma strip_lead_0: "lead_len ws s = 0 \<Longrightarrow> strip_lead ws s = s"
  by (subst strip_lead.simps) simp

lemma trim_id: "s = [] \<or> \<not> ws_start (hd s) \<and> \<not> ws_end (last s) \<Longrightarrow> trim s = s"
proof (cases "s = []")
  case True
  then show ?thesis by (simp add: trim_def trim_end_def trim_start_def strip_lead.simps)
next
  case False
  assume "s = [] \<or> \<not> ws_start (hd s) \<and> \<not> ws_end (last s)"
  with False have ends: "\<not> ws_start (hd s)" "\<not> ws_end (last s)" by simp_all
  obtain c u where u: "s = c # u" using False by (cases s) auto
  obtain t d where t: "s = t @ [d]" using False by (cases s rule: rev_cases) auto
  have "trim_start s = s"
    unfolding trim_start_def using ends(1) by (intro strip_lead_0) (simp add: u)
  moreover have "strip_lead (map rev ws_encodings) (rev s) = rev s"
    using ends(2) by (intro strip_lead_0) (simp add: t)
  ultimately show ?thesis by (simp add: trim_def trim_end_def)
qed

lemma split_ws_word:
  "(\<forall>c \<in> set w. \<not> ws_start c) \<Longrightarrow> split_ws cur (w @ s) = split_ws (rev w @ cur) s"
proof (induction w arbitrary: cur)
  case (Cons c w)
  then show ?case by (subst split_ws.simps) simp
qed simp

lemma split_ws_Nil [simp]: "split_ws cur [] = emit_word cur []"
  by (subst split_ws.simps) simp

lemma split_ws_space: "split_ws cur (CHR '' '' # s) = emit_word cur (split_ws [] s)"
proof -
  have "lead_len ws_encodings (CHR '' '' # s) = 1" by (simp add: ws_encodings_def)
  then show ?thesis by (subst split_ws.simps) simp
qed

lemma split_whitespace_words:
  assumes "\<forall>w \<in> set ws. w \<noteq> [] \<and> (\<forall>c \<in> set w. \<not> ws_start c)"
  shows "split_whitespace (join '' '' ws) = ws"
proof -
  have [simp]: "(@) [c] = (#) c" for c :: char by auto
  have tl: "split_ws (rev v) (concat (map (\<lambda>z. '' '' @ z) us)) = v # us"
    if "\<forall>w \<in> set (v # us). w \<noteq> [] \<and> (\<forall>c \<in> set w. \<not> ws_start c)" for v us
    using that
  proof (induction us arbitrary: v)
    case (Cons u us)
    have "split_ws [] (u @ concat (map (\<lambda>z. '' '' @ z) us)) = u # us"
      using split_ws_word [of u "[]"] Cons by simp
    with Cons.prems show ?case by (simp add: split_ws_space emit_word_def)
  qed (simp add: emit_word_def)
  show ?thesis
  proof (cases ws)
    case Nil
    then show ?thesis by (simp add: split_whitespace_def join_def emit_word_def)
  next
    case (Cons v us)
    then show ?thesis
      using assms tl [of v us] split_ws_word [of v "[]"] by (simp add: split_whitespace_def join_def)
  qed
qed

lemma digit_char_nat: "d < 10 \<Longrightarrow> of_char (digit_char d) = (48 + d :: nat)"
proof -
  assume "d < 10"
  then have "d \<in> set [0..<10]" by simp
  then show ?thesis by (auto simp: upt_rec digit_char_def)
qed

lemma to_digit_decimal [simp]: "d < 10 \<Longrightarrow> to_digit 10 (digit_char d) = Some d"
  by (simp add: to_digit_def digit_char_nat)

lemma foldl_digits_ge: "acc \<le> foldl (\<lambda>a d. a * 10 + d) acc ds" for acc :: nat
proof (induction ds arbitrary: acc)
  case (Cons d ds)
  have "acc \<le> acc * 10 + d" by simp
  also have "\<dots> \<le> foldl (\<lambda>a d. a * 10 + d) (acc * 10 + d) ds" by (rule Cons.IH)
  finally show ?case by simp
qed simp

lemma parse_digits_show:
  "\<forall>d \<in> set ds. d < 10 \<Longrightarrow> foldl (\<lambda>a d. a * 10 + d) acc ds < limit
   \<Longrightarrow> parse_digits limit acc (map digit_char ds) = Inr (foldl (\<lambda>a d. a * 10 + d) acc ds)"
proof (induction ds arbitrary: acc)
  case (Cons d ds)
  then have "acc * 10 + d < limit" using foldl_digits_ge [of "acc * 10 + d" ds] by simp
  with Cons show ?case by simp
qed simp

lemma digits_in_nonempty [simp]: "digits_in b n \<noteq> []"
  by (subst digits_in.simps) simp

lemma show_nat_nonempty [simp]: "show_nat n \<noteq> []"
  by (simp add: show_nat_def)

lemma digits_10_lt: "\<forall>d \<in> set (digits_in 10 n). d < 10"
  using digits_in_bound [of 10] by auto

lemma show_nat_char: "c \<in> set (show_nat n) \<Longrightarrow> \<not> ws_start c \<and> \<not> ws_end c \<and> c \<noteq> CHR ''+'' \<and> c \<noteq> CHR ''-''"
  using set_show_nat [of n] by (auto simp: ws_start_def ws_end_def ws_encodings_def)

lemma show_nat_ends: "hd (show_nat n) \<in> set (show_nat n)" "last (show_nat n) \<in> set (show_nat n)"
  by simp_all

lemma parse_unsigned_show: "n < limit \<Longrightarrow> parse_unsigned limit (show_nat n) = Inr n"
proof -
  assume "n < limit"
  then have "parse_digits limit 0 (show_nat n) = Inr n"
    using parse_digits_show [OF digits_10_lt, of 0 n limit] by (simp add: show_nat_def digits_in_value)
  moreover have "hd (show_nat n) \<noteq> CHR ''+''" "show_nat n \<noteq> ''+''" "show_nat n \<noteq> ''-''"
    using show_nat_char [OF show_nat_ends(1), of n] by auto
  ultimately show ?thesis by (simp add: parse_unsigned_def)
qed

lemma parse_uint_show [simp]: "parse_uint (show_nat (unat w)) = Inr w"
  using parse_unsigned_show [OF unsigned_less [of w]] by (simp add: parse_uint_def)

lemma trim_show_nat [simp]: "trim (show_nat n) = show_nat n"
  by (intro trim_id disjI2 conjI) (use show_nat_char [OF show_nat_ends(1)] show_nat_char [OF show_nat_ends(2)] in blast)+

end
