(* ===== verification/Governor.thy ===== *)
theory Governor
  imports Rust_Text
begin

text \<open>
  \<^verbatim>\<open>rbmp-server/src/governor.rs\<close>: the resource governor, three loops that sample memory, the fill of
  the message channel and the rate of events, and raise or clear a flag each.

  The atomics are fields of one record.  A turn of a loop is a function of what it samples: the resident
  memory, the capacity of the channel, or the event counter.  Counters are 64-bit words, \<^verbatim>\<open>fetch_add\<close>
  wraps.
\<close>

record governor_config =
  gc_memory_budget_mb :: u64
  gc_rate_budget_eps :: u64
  gc_sheddable_types :: "string list"

record governor =
  gv_cfg :: governor_config
  memory_pressure_active :: bool
  write_pressure_active :: bool
  rate_shedding_active :: bool
  memory_shrink_count :: u64
  write_batch_expand_count :: u64
  rate_shed_count :: u64
  inbound_event_counter :: u64

definition governor_new :: "governor_config \<Rightarrow> governor" where
  "governor_new cfg = \<lparr>gv_cfg = cfg, memory_pressure_active = False, write_pressure_active = False,
     rate_shedding_active = False, memory_shrink_count = 0, write_batch_expand_count = 0, rate_shed_count = 0,
     inbound_event_counter = 0\<rparr>"

definition record_event :: "governor \<Rightarrow> governor" where
  "record_event g = g\<lparr>inbound_event_counter := inbound_event_counter g + 1\<rparr>"

definition should_shed :: "governor \<Rightarrow> bool" where
  "should_shed g = rate_shedding_active g"

definition memory_pressure :: "governor \<Rightarrow> bool" where
  "memory_pressure g = memory_pressure_active g"

record governance_snapshot =
  sn_profile :: string
  sn_memory_budget_mb :: u64
  sn_rate_budget_eps :: u64
  sn_memory_pressure_active :: bool
  sn_write_pressure_active :: bool
  sn_rate_shedding_active :: bool
  sn_memory_shrink_count :: u64
  sn_write_batch_expand_count :: u64
  sn_rate_shed_count :: u64

definition governor_snapshot :: "string \<Rightarrow> governor \<Rightarrow> governance_snapshot" where
  "governor_snapshot profile g = \<lparr>sn_profile = profile, sn_memory_budget_mb = gc_memory_budget_mb (gv_cfg g),
     sn_rate_budget_eps = gc_rate_budget_eps (gv_cfg g), sn_memory_pressure_active = memory_pressure_active g,
     sn_write_pressure_active = write_pressure_active g, sn_rate_shedding_active = rate_shedding_active g,
     sn_memory_shrink_count = memory_shrink_count g, sn_write_batch_expand_count = write_batch_expand_count g,
     sn_rate_shed_count = rate_shed_count g\<rparr>"

subsection \<open>Saturating arithmetic\<close>

definition saturating_mul :: "u64 \<Rightarrow> u64 \<Rightarrow> u64" where
  "saturating_mul a b = (if unat a * unat b < 2 ^ 64 then a * b else - 1)"

definition saturating_sub :: "'a::len word \<Rightarrow> 'a word \<Rightarrow> 'a word" where
  "saturating_sub a b = (if b \<le> a then a - b else 0)"

definition saturating_inc :: "u32 \<Rightarrow> u32" where
  "saturating_inc a = (if a = - 1 then a else a + 1)"

subsection \<open>The loops\<close>

text \<open>\<^verbatim>\<open>str::lines\<close>: split at line feeds, without a final empty line and without a carriage return before
  the line feed.\<close>

fun split_lf :: "string \<Rightarrow> string \<Rightarrow> string list" where
  "split_lf cur [] = (if cur = [] then [] else [rev cur])"
| "split_lf cur (c # s) = (if c = CHR 0x0A then rev (if take 1 cur = [CHR 0x0D] then drop 1 cur else cur) # split_lf [] s
                           else split_lf (c # cur) s)"

definition resident_bytes :: "string option \<Rightarrow> u64" where
  "resident_bytes status =
     (case status of
        None \<Rightarrow> 0
      | Some s \<Rightarrow>
          (case find (\<lambda>line. take 6 line = ''VmRSS:'') (split_lf [] s) of
             None \<Rightarrow> 0
           | Some line \<Rightarrow>
               (let ws = split_whitespace line; w = (if 1 < length ws then ws ! 1 else ''0'') in
                case (parse_uint w :: parse_int_error + u64) of Inl e \<Rightarrow> 0 | Inr kb \<Rightarrow> kb * 1024)))"

definition memory_tick :: "u64 \<Rightarrow> governor \<Rightarrow> governor" where
  "memory_tick used g =
     (let budget_bytes = saturating_mul (gc_memory_budget_mb (gv_cfg g)) (1024 * 1024);
          pct = (if budget_bytes > 0 then (used * 100) div budget_bytes else 0)
      in if pct \<ge> 95 then g\<lparr>memory_pressure_active := True, memory_shrink_count := memory_shrink_count g + 1\<rparr>
         else if pct \<ge> 80 then g\<lparr>memory_pressure_active := True, memory_shrink_count := memory_shrink_count g + 1\<rparr>
         else g\<lparr>memory_pressure_active := False\<rparr>)"

definition used_pct :: "u64 \<Rightarrow> u64 \<Rightarrow> u64" where
  "used_pct cap avail = (if cap > 0 then saturating_sub 100 (avail * 100 div cap) else 0)"

definition write_tick :: "u64 \<times> u64 \<Rightarrow> u32 \<times> governor \<Rightarrow> u32 \<times> governor" where
  "write_tick = (\<lambda>(cap, avail) (over_half, g).
     if used_pct cap avail > 50
     then let over_half = saturating_inc over_half in
          if over_half \<ge> 60 \<and> \<not> write_pressure_active g
          then (over_half, g\<lparr>write_pressure_active := True, write_batch_expand_count := write_batch_expand_count g + 1\<rparr>)
          else (over_half, g)
     else (0, g\<lparr>write_pressure_active := False\<rparr>))"

definition rate_tick :: "u64 \<times> governor \<Rightarrow> u64 \<times> governor" where
  "rate_tick = (\<lambda>(prev, g).
     let current = inbound_event_counter g;
         eps = saturating_sub current prev
     in (current,
         if eps > gc_rate_budget_eps (gv_cfg g)
         then g\<lparr>rate_shedding_active := True, rate_shed_count := rate_shed_count g + 1\<rparr>
         else g\<lparr>rate_shedding_active := False\<rparr>))"

subsection \<open>Write pressure\<close>

text \<open>A sample is busy when more than half of the channel is in use; the run is the number of busy samples
  at the end of the history.\<close>

definition busy :: "u64 \<times> u64 \<Rightarrow> bool" where
  "busy = (\<lambda>(cap, avail). 2 * unat avail < unat cap)"

definition sample_ok :: "u64 \<times> u64 \<Rightarrow> bool" where
  "sample_ok = (\<lambda>(cap, avail). 0 < unat cap \<and> unat avail \<le> unat cap \<and> unat cap * 100 < 2 ^ 64)"

definition busy_run :: "(u64 \<times> u64) list \<Rightarrow> nat" where
  "busy_run xs = length (takeWhile busy (rev xs))"

lemma busy_run_snoc: "busy_run (xs @ [x]) = (if busy x then Suc (busy_run xs) else 0)"
  by (simp add: busy_run_def)

lemma used_pct_busy: "sample_ok x \<Longrightarrow> (50 < used_pct (fst x) (snd x)) = busy x"
proof -
  obtain cap avail where x: "x = (cap, avail)" by (cases x)
  assume "sample_ok x"
  then have cap: "0 < unat cap" "unat avail \<le> unat cap" "unat cap * 100 < 2 ^ 64" by (simp_all add: sample_ok_def x)
  define q where "q = unat avail * 100 div unat cap"
  have "unat avail * 100 < 2 ^ 64" using cap(2,3) by simp
  then have uq: "unat (avail * 100 div cap) = q"
    by (simp add: unat_div unat_word_ariths q_def)
  have "q \<le> unat cap * 100 div unat cap" unfolding q_def by (intro div_le_mono mult_le_mono1 cap(2))
  then have q100: "q \<le> 100" using cap(1) by simp
  then have "avail * 100 div cap \<le> 100" using uq by (simp add: word_le_nat_alt)
  then have "unat (used_pct cap avail) = 100 - q"
    using cap(1) uq by (simp add: used_pct_def saturating_sub_def unat_sub word_less_nat_alt)
  then have "(50 < used_pct cap avail) = (q < 50)" by (auto simp: word_less_nat_alt)
  also have "\<dots> = (unat avail * 100 < 50 * unat cap)" using cap(1) by (simp add: q_def div_less_iff_less_mult)
  finally show ?thesis by (auto simp: busy_def x)
qed

text \<open>The number of times the run reached 60.\<close>

fun expansions :: "(u64 \<times> u64) list \<Rightarrow> nat" where
  "expansions xs = length (filter (\<lambda>k. busy_run (take k xs) = 60) [1..<Suc (length xs)])"

lemma expansions_snoc: "expansions (xs @ [x]) = expansions xs + (if busy_run (xs @ [x]) = 60 then 1 else 0)"
proof -
  have "filter (\<lambda>k. busy_run (take k (xs @ [x])) = 60) [1..<Suc (length xs)] = filter (\<lambda>k. busy_run (take k xs) = 60) [1..<Suc (length xs)]"
    by (rule filter_cong) auto
  then show ?thesis by simp
qed

definition write_ticks :: "(u64 \<times> u64) list \<Rightarrow> governor \<Rightarrow> u32 \<times> governor" where
  "write_ticks xs g = foldl (\<lambda>s x. write_tick x s) (0, g) xs"

lemma max32: "unat (- 1 :: u32) = 2 ^ 32 - 1"
  by (simp add: unsigned_minus_1_eq_mask mask_eq_exp_minus_1)

lemma unat_saturating_inc: "unat (saturating_inc w) = min (Suc (unat w)) (2 ^ 32 - 1)"
proof (cases "w = - 1")
  case False
  then have "unat w \<noteq> 2 ^ 32 - 1" using word_unat_eq_iff [of w "- 1"] by (simp add: max32)
  moreover have "unat w < 2 ^ 32" using unsigned_less [of w] by simp
  ultimately show ?thesis using False by (simp add: saturating_inc_def unat_word_ariths min_def)
qed (simp add: saturating_inc_def max32)

lemma write_ticks_inv:
  assumes "\<forall>x \<in> set xs. sample_ok x" "write_ticks xs (governor_new cfg) = (n, g)"
  shows "unat n = min (busy_run xs) (2 ^ 32 - 1) \<and> (write_pressure_active g \<longleftrightarrow> 60 \<le> busy_run xs)
    \<and> write_batch_expand_count g = word_of_nat (expansions xs)"
  using assms
proof (induction xs arbitrary: n g rule: rev_induct)
  case Nil
  then show ?case by (auto simp: write_ticks_def governor_new_def busy_run_def)
next
  case (snoc x xs)
  obtain n0 g0 where 0: "write_ticks xs (governor_new cfg) = (n0, g0)" by (cases "write_ticks xs (governor_new cfg)")
  have tick: "write_tick x (n0, g0) = (n, g)" using snoc.prems(2) 0 by (simp add: write_ticks_def)
  have IH: "unat n0 = min (busy_run xs) (2 ^ 32 - 1)" "write_pressure_active g0 \<longleftrightarrow> 60 \<le> busy_run xs"
    "write_batch_expand_count g0 = word_of_nat (expansions xs)"
    using snoc.IH [OF _ 0] snoc.prems(1) by auto
  have x: "(50 < used_pct (fst x) (snd x)) = busy x" using used_pct_busy snoc.prems(1) by simp
  have n': "unat (saturating_inc n0) = min (Suc (busy_run xs)) (2 ^ 32 - 1)" using IH(1) by (simp add: unat_saturating_inc)
  then have "(60 \<le> saturating_inc n0) = (60 \<le> Suc (busy_run xs))" by (simp add: word_le_nat_alt)
  then show ?case using tick IH n' x
    by (cases "busy x") (auto simp: write_tick_def split_def Let_def busy_run_snoc expansions_snoc simp del: expansions.simps split: if_splits)
qed

subsection \<open>Memory and rate\<close>

text \<open>Memory pressure is raised at four fifths of the budget, as long as the products fit 64 bits.\<close>

lemma memory_tick_spec:
  assumes "unat used * 100 < 2 ^ 64" "unat (gc_memory_budget_mb (gv_cfg g)) * 1048576 < 2 ^ 64" "gc_memory_budget_mb (gv_cfg g) \<noteq> 0"
  shows "memory_pressure (memory_tick used g) \<longleftrightarrow> 80 * (unat (gc_memory_budget_mb (gv_cfg g)) * 1048576) \<le> unat used * 100"
proof -
  define b where "b = saturating_mul (gc_memory_budget_mb (gv_cfg g)) 1048576"
  have ub: "unat b = unat (gc_memory_budget_mb (gv_cfg g)) * 1048576"
    using assms(2) by (simp add: b_def saturating_mul_def unat_word_ariths)
  moreover have "0 < unat (gc_memory_budget_mb (gv_cfg g))" using assms(3) by (simp add: unat_gt_0)
  ultimately have b0: "0 < unat b" by simp
  have "unat (used * 100 div b) = unat used * 100 div unat b"
    using assms(1) by (simp add: unat_div unat_word_ariths)
  then have "(80 \<le> used * 100 div b) = (80 * unat b \<le> unat used * 100)"
    using b0 by (simp add: word_le_nat_alt less_eq_div_iff_mult_less_eq)
  moreover have "(95 \<le> used * 100 div b) \<Longrightarrow> (80 \<le> used * 100 div b)" by (simp add: word_le_nat_alt)
  ultimately show ?thesis using b0 ub
    by (auto simp: memory_tick_def memory_pressure_def Let_def b_def [symmetric] word_less_nat_alt)
qed

text \<open>Rate shedding: on while the counter grew by more than the budget since the last turn.\<close>

lemma rate_tick_spec:
  assumes "unat prev \<le> unat (inbound_event_counter g)"
  shows "should_shed (snd (rate_tick (prev, g))) \<longleftrightarrow>
    unat (gc_rate_budget_eps (gv_cfg g)) < unat (inbound_event_counter g) - unat prev"
  using assms by (simp add: rate_tick_def should_shed_def Let_def saturating_sub_def word_le_nat_alt unat_sub word_less_nat_alt)

text \<open>C36: write pressure is raised exactly after 60 busy samples in a row and cleared by the first sample that is
  not busy, and the batch is expanded once per such run, for every history of the channel.\<close>

theorem write_pressure_spec:
  assumes "\<forall>x \<in> set xs. sample_ok x" "write_ticks xs (governor_new cfg) = (n, g)"
  shows "(write_pressure_active g \<longleftrightarrow> 60 \<le> busy_run xs) \<and> write_batch_expand_count g = word_of_nat (expansions xs)"
  using write_ticks_inv [OF assms] by blast

theorem write_pressure_spec_witness:
  "write_pressure_active (snd (write_ticks (replicate 61 (10, 3)) (governor_new \<lparr>gc_memory_budget_mb = 4096,
      gc_rate_budget_eps = 500000, gc_sheddable_types = []\<rparr>)))
   \<and> \<not> write_pressure_active (snd (write_ticks (replicate 61 (10, 3) @ [(10, 5)]) (governor_new \<lparr>gc_memory_budget_mb = 4096,
      gc_rate_budget_eps = 500000, gc_sheddable_types = []\<rparr>)))"
proof -
  have "busy (10, 3)" "\<not> busy (10, 5)" "sample_ok (10, 3)" "sample_ok (10, 5)" by (simp_all add: busy_def sample_ok_def)
  then have run: "busy_run (replicate 61 (10, 3)) = 61" "busy_run (replicate 61 (10, 3) @ [(10, 5)]) = 0"
    "\<forall>x \<in> set (replicate 61 (10, 3)). sample_ok x" "\<forall>x \<in> set (replicate 61 (10, 3) @ [(10, 5)]). sample_ok x"
    by (auto simp: busy_run_def)
  show ?thesis
    using write_pressure_spec [OF run(3), OF surjective_pairing] write_pressure_spec [OF run(4), OF surjective_pairing] run(1,2)
    by simp
qed

end
