(* ===== verification/Hash_Map.thy ===== *)
theory Hash_Map
  imports Prelude "HOL-Library.AList"
begin

text \<open>
  \<^verbatim>\<open>std::collections::HashMap\<close> as the program uses it: an association list with distinct keys, whose
  order stands for the unspecified iteration order of the map.  The locale \<open>keyed_store\<close> is the contract
  of a container with keys: what a lookup returns after an insertion and a removal.  In it the effect of a
  whole sequence of changes is computed; the hash map and the route tables are its interpretations.
\<close>

type_synonym ('k, 'v) hash_map = "('k \<times> 'v) list"

definition hm_wf :: "('k, 'v) hash_map \<Rightarrow> bool" where
  "hm_wf m \<longleftrightarrow> distinct (map fst m)"

definition hm_get :: "('k, 'v) hash_map \<Rightarrow> 'k \<Rightarrow> 'v option" where
  "hm_get m k = map_of m k"

definition hm_insert :: "'k \<Rightarrow> 'v \<Rightarrow> ('k, 'v) hash_map \<Rightarrow> ('k, 'v) hash_map" where
  "hm_insert k v m = AList.update k v m"

definition hm_remove :: "'k \<Rightarrow> ('k, 'v) hash_map \<Rightarrow> ('k, 'v) hash_map" where
  "hm_remove k m = AList.delete k m"

definition hm_contains :: "('k, 'v) hash_map \<Rightarrow> 'k \<Rightarrow> bool" where
  "hm_contains m k \<longleftrightarrow> k \<in> set (map fst m)"

definition hm_keys :: "('k, 'v) hash_map \<Rightarrow> 'k list" where
  "hm_keys m = map fst m"

definition hm_values :: "('k, 'v) hash_map \<Rightarrow> 'v list" where
  "hm_values m = map snd m"

text \<open>\<^verbatim>\<open>for v in m.values_mut() { *v = f(v) }\<close> and \<^verbatim>\<open>m.get_mut(&k)\<close> followed by an assignment.\<close>

definition hm_map_values :: "('v \<Rightarrow> 'w) \<Rightarrow> ('k, 'v) hash_map \<Rightarrow> ('k, 'w) hash_map" where
  "hm_map_values f m = map (\<lambda>(k, v). (k, f v)) m"

definition hm_modify :: "'k \<Rightarrow> ('v \<Rightarrow> 'v) \<Rightarrow> ('k, 'v) hash_map \<Rightarrow> ('k, 'v) hash_map" where
  "hm_modify k f m = map (\<lambda>(k', v). (k', if k' = k then f v else v)) m"

text \<open>\<^verbatim>\<open>m.entry(k).or_insert_with(|| d)\<close>: the map with the key present.\<close>

definition hm_or_insert :: "'k \<Rightarrow> 'v \<Rightarrow> ('k, 'v) hash_map \<Rightarrow> ('k, 'v) hash_map" where
  "hm_or_insert k d m = (if hm_contains m k then m else hm_insert k d m)"

definition hm_get_or :: "('k, 'v) hash_map \<Rightarrow> 'k \<Rightarrow> 'v \<Rightarrow> 'v" where
  "hm_get_or m k d = (case hm_get m k of None \<Rightarrow> d | Some v \<Rightarrow> v)"

subsection \<open>Lemmas\<close>

lemma hm_wf_Nil [simp]: "hm_wf []"
  by (simp add: hm_wf_def)

lemma hm_wf_insert [simp]: "hm_wf m \<Longrightarrow> hm_wf (hm_insert k v m)"
  by (simp add: hm_wf_def hm_insert_def distinct_update)

lemma hm_wf_remove [simp]: "hm_wf m \<Longrightarrow> hm_wf (hm_remove k m)"
  by (simp add: hm_wf_def hm_remove_def distinct_delete)

lemma hm_keys_map_values [simp]: "map fst (hm_map_values f m) = map fst m"
  by (simp add: hm_map_values_def split_def comp_def)

lemma hm_keys_modify [simp]: "map fst (hm_modify k f m) = map fst m"
  by (simp add: hm_modify_def split_def comp_def)

lemma hm_wf_map_values [simp]: "hm_wf (hm_map_values f m) = hm_wf m"
  by (simp add: hm_wf_def)

lemma hm_wf_modify [simp]: "hm_wf (hm_modify k f m) = hm_wf m"
  by (simp add: hm_wf_def)

lemma hm_wf_or_insert [simp]: "hm_wf m \<Longrightarrow> hm_wf (hm_or_insert k d m)"
  by (simp add: hm_or_insert_def)

lemma hm_wf_filter: "hm_wf m \<Longrightarrow> hm_wf (filter P m)"
  by (simp add: hm_wf_def distinct_map inj_on_def)

lemma hm_get_Nil [simp]: "hm_get [] k = None"
  by (simp add: hm_get_def)

lemma hm_get_insert [simp]: "hm_get (hm_insert k v m) k' = (if k' = k then Some v else hm_get m k')"
  by (simp add: hm_get_def hm_insert_def update_conv')

lemma hm_get_remove [simp]: "hm_get (hm_remove k m) k' = (if k' = k then None else hm_get m k')"
  by (simp add: hm_get_def hm_remove_def delete_conv')

lemma hm_get_map_values [simp]: "hm_get (hm_map_values f m) k = map_option f (hm_get m k)"
  by (induction m) (auto simp: hm_get_def hm_map_values_def)

lemma hm_get_modify [simp]: "hm_get (hm_modify k f m) k' = (if k' = k then map_option f (hm_get m k') else hm_get m k')"
  by (induction m) (auto simp: hm_get_def hm_modify_def)

lemma hm_contains_iff: "hm_contains m k \<longleftrightarrow> hm_get m k \<noteq> None"
  by (simp add: hm_contains_def hm_get_def map_of_eq_None_iff)

lemma hm_get_or_insert [simp]:
  "hm_get (hm_or_insert k d m) k' = (if k' = k then Some (hm_get_or m k d) else hm_get m k')"
  by (auto simp: hm_or_insert_def hm_contains_iff hm_get_or_def split: option.splits)

lemma hm_get_or_simps [simp]: "hm_get m k = Some v \<Longrightarrow> hm_get_or m k d = v" "hm_get m k = None \<Longrightarrow> hm_get_or m k d = d"
  by (simp_all add: hm_get_or_def)

lemma hm_get_SomeD: "hm_get m k = Some v \<Longrightarrow> (k, v) \<in> set m"
  by (simp add: hm_get_def map_of_SomeD)

lemma hm_get_iff: "hm_wf m \<Longrightarrow> hm_get m k = Some v \<longleftrightarrow> (k, v) \<in> set m"
  by (simp add: hm_get_def hm_wf_def map_of_eq_Some_iff)

lemma hm_modify_cong:
  "hm_wf m \<Longrightarrow> (\<And>v. hm_get m k = Some v \<Longrightarrow> f v = g v) \<Longrightarrow> hm_modify k f m = hm_modify k g m"
  by (auto simp: hm_modify_def hm_get_iff)

lemma set_hm_insert: "x \<in> set (hm_insert k v m) \<Longrightarrow> x = (k, v) \<or> x \<in> set m"
  by (induction m) (auto simp: hm_insert_def split: if_splits)

lemma set_hm_remove: "x \<in> set (hm_remove k m) \<Longrightarrow> x \<in> set m"
  by (auto simp: hm_remove_def AList.delete_eq)

lemma length_hm_insert: "length (hm_insert k v m) = (if hm_contains m k then length m else Suc (length m))"
  by (induction m) (auto simp: hm_insert_def hm_contains_def)

lemma length_hm_remove: "hm_wf m \<Longrightarrow> length (hm_remove k m) = (if hm_contains m k then length m - 1 else length m)"
proof (induction m)
  case (Cons x m)
  then show ?case
    by (cases x) (auto simp: hm_remove_def hm_contains_def hm_wf_def dest: length_pos_if_in_set)
qed (simp add: hm_remove_def hm_contains_def)

lemma length_hm_map_values [simp]: "length (hm_map_values f m) = length m"
  by (simp add: hm_map_values_def)

subsection \<open>The contract of a keyed container\<close>

datatype ('k, 'v) change = Put 'k 'v | Del 'k

fun change_key :: "('k, 'v) change \<Rightarrow> 'k" where
  "change_key (Put k v) = k"
| "change_key (Del k) = k"

fun change_value :: "('k, 'v) change \<Rightarrow> 'v option" where
  "change_value (Put k v) = Some v"
| "change_value (Del k) = None"

text \<open>The specification of a sequence of changes: a key holds what its last change left there.\<close>

fun after_changes :: "('k, 'v) change list \<Rightarrow> ('k \<Rightarrow> 'v option) \<Rightarrow> 'k \<Rightarrow> 'v option" where
  "after_changes [] m = m"
| "after_changes (c # cs) m = after_changes cs (m(change_key c := change_value c))"

lemma after_changes_append: "after_changes (cs @ ds) m = after_changes ds (after_changes cs m)"
  by (induction cs arbitrary: m) simp_all

lemma after_changes_untouched: "k \<notin> change_key ` set cs \<Longrightarrow> after_changes cs m k = m k"
  by (induction cs arbitrary: m) auto

lemma after_changes_last:
  "change_key c = k \<Longrightarrow> k \<notin> change_key ` set ds \<Longrightarrow> after_changes (cs @ c # ds) m k = change_value c"
  by (simp add: after_changes_append after_changes_untouched)

locale keyed_store =
  fixes get :: "'s \<Rightarrow> 'k \<Rightarrow> 'v option"
    and put :: "'k \<Rightarrow> 'v \<Rightarrow> 's \<Rightarrow> 's"
    and del :: "'k \<Rightarrow> 's \<Rightarrow> 's"
    and inv :: "'s \<Rightarrow> bool"
  assumes inv_put: "inv s \<Longrightarrow> inv (put k v s)"
    and inv_del: "inv s \<Longrightarrow> inv (del k s)"
    and get_put: "inv s \<Longrightarrow> get (put k v s) k' = (if k' = k then Some v else get s k')"
    and get_del: "inv s \<Longrightarrow> get (del k s) k' = (if k' = k then None else get s k')"
begin

fun change :: "('k, 'v) change \<Rightarrow> 's \<Rightarrow> 's" where
  "change (Put k v) s = put k v s"
| "change (Del k) s = del k s"

definition changes :: "('k, 'v) change list \<Rightarrow> 's \<Rightarrow> 's" where
  "changes cs s = fold change cs s"

lemma inv_change: "inv s \<Longrightarrow> inv (change c s)"
  by (cases c) (simp_all add: inv_put inv_del)

lemma get_change: "inv s \<Longrightarrow> get (change c s) = (get s)(change_key c := change_value c)"
  by (cases c) (auto simp: get_put get_del fun_eq_iff)

lemma inv_changes: "inv s \<Longrightarrow> inv (changes cs s)"
  unfolding changes_def by (induction cs arbitrary: s) (simp_all add: inv_change)

lemma get_changes: "inv s \<Longrightarrow> get (changes cs s) = after_changes cs (get s)"
  unfolding changes_def
  by (induction cs arbitrary: s) (simp_all add: inv_change get_change)

end

interpretation hash_map: keyed_store hm_get hm_insert hm_remove hm_wf
  by unfold_locales simp_all

end
