(* ===== verification/Rib_Table.thy ===== *)
theory Rib_Table
  imports Bmp Hash_Map "HOL-Library.Product_Lexorder"
begin

text \<open>
  \<^verbatim>\<open>rbmp-rib/src/table.rs\<close>: the route tables of one peer, one per RIB type, keyed by the text of the
  prefix and, with Add-Path, the path identifier.  \<open>insert\<close> and \<open>remove\<close> are proved to satisfy the contract of
  a keyed container (interpretation \<open>rib_store\<close>); best-path selection marks exactly one path of minimal
  rank; the graceful-restart operations mark and expire exactly the entries they should.

  The text of an IPv4 prefix identifies it (lemma below); that of a labeled prefix does not, since
  only the first label is printed (\<open>labeled_keys_collide\<close>).
\<close>

unbundle bit_operations_syntax

subsection \<open>Entries and keys\<close>

record rib_entry =
  re_prefix :: prefix
  re_path_id :: "u32 option"
  re_attributes :: path_attributes
  re_received_at :: datetime
  re_peer_addr :: ip_addr
  re_peer_as :: u32
  re_is_best :: bool
  re_llgr_state :: llgr_state
  re_stale_at :: "datetime option"

record rib_table =
  tables :: "(rib_type, (string, rib_entry) hash_map) hash_map"

definition rib_new :: rib_table where
  "rib_new = \<lparr>tables = []\<rparr>"

definition entry_key :: "crates \<Rightarrow> prefix \<Rightarrow> u32 option \<Rightarrow> string result" where
  "entry_key C p path_id =
     (case path_id of
        Some i \<Rightarrow> rbind (show_prefix C p) (\<lambda>s. Ok (s @ ''@'' @ show_nat (unat i)))
      | None \<Rightarrow> show_prefix C p)"

subsection \<open>Operations\<close>

text \<open>The accesses to the nested maps.\<close>

definition rt_get :: "rib_table \<Rightarrow> rib_type \<times> string \<Rightarrow> rib_entry option" where
  "rt_get t rk = (case hm_get (tables t) (fst rk) of None \<Rightarrow> None | Some table \<Rightarrow> hm_get table (snd rk))"

definition rt_put :: "rib_type \<times> string \<Rightarrow> rib_entry \<Rightarrow> rib_table \<Rightarrow> rib_table" where
  "rt_put rk e t =
     t\<lparr>tables := hm_insert (fst rk) (hm_insert (snd rk) e (hm_get_or (tables t) (fst rk) [])) (tables t)\<rparr>"

definition rt_del :: "rib_type \<times> string \<Rightarrow> rib_table \<Rightarrow> rib_table" where
  "rt_del rk t = t\<lparr>tables := hm_modify (fst rk) (hm_remove (snd rk)) (tables t)\<rparr>"

definition rib_insert :: "crates \<Rightarrow> rib_type \<Rightarrow> rib_entry \<Rightarrow> rib_table \<Rightarrow> (rib_table \<times> bool) result" where
  "rib_insert C rib entry t =
     rbind (entry_key C (re_prefix entry) (re_path_id entry)) (\<lambda>key.
       Ok (rt_put (rib, key) entry t, \<not> hm_contains (hm_get_or (tables t) rib []) key))"

definition remove_with_path_id ::
    "crates \<Rightarrow> rib_type \<Rightarrow> prefix \<Rightarrow> u32 option \<Rightarrow> rib_table \<Rightarrow> (rib_table \<times> rib_entry option) result" where
  "remove_with_path_id C rib p path_id t =
     rbind (entry_key C p path_id) (\<lambda>key. Ok (rt_del (rib, key) t, rt_get t (rib, key)))"

definition rib_remove :: "crates \<Rightarrow> rib_type \<Rightarrow> prefix \<Rightarrow> rib_table \<Rightarrow> (rib_table \<times> rib_entry option) result" where
  "rib_remove C rib p t = remove_with_path_id C rib p None t"

definition rib_get :: "crates \<Rightarrow> rib_type \<Rightarrow> prefix \<Rightarrow> rib_table \<Rightarrow> rib_entry option result" where
  "rib_get C rib p t = rbind (entry_key C p None) (\<lambda>key. Ok (rt_get t (rib, key)))"

text \<open>\<^verbatim>\<open>min_by_key\<close> returns the first of several minimal elements.\<close>

fun min_by_key :: "('a \<Rightarrow> 'b::linorder) \<Rightarrow> 'a list \<Rightarrow> 'a option" where
  "min_by_key f [] = None"
| "min_by_key f (x # xs) =
     (case min_by_key f xs of None \<Rightarrow> Some x | Some y \<Rightarrow> if f y < f x then Some y else Some x)"

text \<open>The rank of a path, smaller is better: \<^verbatim>\<open>u32::MAX - local_pref\<close>, AS path length, MED.\<close>

definition path_rank :: "rib_entry \<Rightarrow> u32 \<times> u32 \<times> u32" where
  "path_rank e =
     (let a = re_attributes e in
      (case local_pref a of Some v \<Rightarrow> - 1 - v | None \<Rightarrow> - 1,
       case pa_as_path a of Some p \<Rightarrow> word_of_nat (hop_count p) | None \<Rightarrow> 0,
       case multi_exit_disc a of Some v \<Rightarrow> v | None \<Rightarrow> - 1))"

definition starts_with :: "string \<Rightarrow> string \<Rightarrow> bool" where
  "starts_with p s \<longleftrightarrow> take (length p) s = p"

definition key_matches :: "string \<Rightarrow> string \<Rightarrow> bool" where
  "key_matches prefix_str k \<longleftrightarrow> k = prefix_str \<or> starts_with (prefix_str @ ''@'') k"

definition recompute_best_path :: "crates \<Rightarrow> rib_type \<Rightarrow> prefix \<Rightarrow> rib_table \<Rightarrow> rib_table result" where
  "recompute_best_path C rib p t =
     rbind (show_prefix C p) (\<lambda>prefix_str.
     case hm_get (tables t) rib of
       None \<Rightarrow> Ok t
     | Some table \<Rightarrow>
         (let matching = filter (\<lambda>(k, e). key_matches prefix_str k) table in
          if length matching \<le> 1
          then (case matching of
                  [] \<Rightarrow> Ok t
                | (k, e) # _ \<Rightarrow>
                    Ok (t\<lparr>tables := hm_modify rib (hm_modify k (\<lambda>e. e\<lparr>re_is_best := True\<rparr>)) (tables t)\<rparr>))
          else
            (let best_key = map_option fst (min_by_key (\<lambda>(k, e). path_rank e) matching) in
             Ok (t\<lparr>tables := hm_modify rib
                    (map (\<lambda>(k, e). (k, if key_matches prefix_str k
                                       then e\<lparr>re_is_best := (best_key = Some k)\<rparr> else e))) (tables t)\<rparr>))))"

definition rib_count :: "rib_type \<Rightarrow> rib_table \<Rightarrow> nat" where
  "rib_count rib t = (case hm_get (tables t) rib of None \<Rightarrow> 0 | Some table \<Rightarrow> length table)"

definition iter_rib :: "rib_type \<Rightarrow> rib_table \<Rightarrow> rib_entry list" where
  "iter_rib rib t = (case hm_get (tables t) rib of None \<Rightarrow> [] | Some table \<Rightarrow> hm_values table)"

definition all_prefixes :: "rib_table \<Rightarrow> rib_entry list" where
  "all_prefixes t = concat (map hm_values (hm_values (tables t)))"

definition clear_rib :: "rib_type \<Rightarrow> rib_table \<Rightarrow> rib_table" where
  "clear_rib rib t = t\<lparr>tables := hm_remove rib (tables t)\<rparr>"

definition clear_all :: "rib_table \<Rightarrow> rib_table" where
  "clear_all t = t\<lparr>tables := []\<rparr>"

definition rib_counts :: "rib_table \<Rightarrow> (rib_type, nat) hash_map" where
  "rib_counts t = hm_map_values length (tables t)"

definition mark_stale :: "datetime \<Rightarrow> rib_entry \<Rightarrow> rib_entry" where
  "mark_stale at e =
     (if re_llgr_state e = Normal then e\<lparr>re_llgr_state := StaleMarked, re_stale_at := Some at\<rparr> else e)"

definition mark_stale_all :: "datetime \<Rightarrow> rib_table \<Rightarrow> rib_table" where
  "mark_stale_all at t = t\<lparr>tables := hm_map_values (hm_map_values (mark_stale at)) (tables t)\<rparr>"

definition stale_expired :: "crates \<Rightarrow> datetime \<Rightarrow> u32 \<Rightarrow> rib_entry \<Rightarrow> bool" where
  "stale_expired C now stale_secs e \<longleftrightarrow>
     re_llgr_state e = StaleMarked
   \<and> (case re_stale_at e of Some stale_at \<Rightarrow> c_num_seconds C (now - stale_at) \<ge> uint stale_secs | None \<Rightarrow> False)"

definition drain_deleted_stale :: "crates \<Rightarrow> datetime \<Rightarrow> u32 \<Rightarrow> rib_table \<Rightarrow> rib_table \<times> nat" where
  "drain_deleted_stale C now stale_secs t =
     (t\<lparr>tables := hm_map_values (filter (\<lambda>(k, e). \<not> stale_expired C now stale_secs e)) (tables t)\<rparr>,
      sum_list (map (\<lambda>table. length (filter (\<lambda>(k, e). stale_expired C now stale_secs e) table)) (hm_values (tables t))))"

subsection \<open>The container contract\<close>

definition rt_wf :: "rib_table \<Rightarrow> bool" where
  "rt_wf t \<longleftrightarrow> hm_wf (tables t) \<and> (\<forall>rib table. hm_get (tables t) rib = Some table \<longrightarrow> hm_wf table)"

lemma rt_wf_new [simp]: "rt_wf rib_new" "rt_wf (clear_all t)"
  by (simp_all add: rt_wf_def rib_new_def clear_all_def)

lemma rt_wf_get_or: "rt_wf t \<Longrightarrow> hm_wf (hm_get_or (tables t) rib [])"
  by (auto simp: rt_wf_def hm_get_or_def split: option.splits)

interpretation rib_store: keyed_store rt_get rt_put rt_del rt_wf
proof
  fix s k and v :: rib_entry and k'
  assume wf: "rt_wf s"
  then show "rt_wf (rt_put k v s)"
    using rt_wf_get_or [OF wf] by (auto simp: rt_wf_def rt_put_def)
  show "rt_wf (rt_del k s)"
    using wf by (auto simp: rt_wf_def rt_del_def)
  show "rt_get (rt_put k v s) k' = (if k' = k then Some v else rt_get s k')"
    by (cases k; cases k') (auto simp: rt_get_def rt_put_def hm_get_or_def split: option.splits)
  show "rt_get (rt_del k s) k' = (if k' = k then None else rt_get s k')"
    by (cases k; cases k') (auto simp: rt_get_def rt_del_def split: option.splits)
qed

lemma rt_get_new [simp]: "rt_get rib_new rk = None" "rt_get (clear_all t) rk = None"
  by (simp_all add: rt_get_def rib_new_def clear_all_def)

text \<open>An entry used in the concrete instances.\<close>

definition example_entry :: "u32 option \<Rightarrow> rib_entry" where
  "example_entry i = \<lparr>re_prefix = Prefix_V4 (Ipv4Net 0x0A010000 16), re_path_id = i,
     re_attributes = path_attributes_default, re_received_at = 0, re_peer_addr = IpV4 1, re_peer_as = 65001,
     re_is_best = True, re_llgr_state = Normal, re_stale_at = None\<rparr>"

lemma rib_insert_Ok:
  assumes "rt_wf t" "rib_insert C rib e t = Ok (t', fresh)"
  obtains key where "entry_key C (re_prefix e) (re_path_id e) = Ok key" "t' = rt_put (rib, key) e t" "rt_wf t'"
    "fresh \<longleftrightarrow> rt_get t (rib, key) = None"
  using assms rib_store.inv_put [OF assms(1)]
  by (auto simp: rib_insert_def hm_contains_iff rt_get_def hm_get_or_def split: option.splits)

lemma remove_with_path_id_Ok:
  assumes "rt_wf t" "remove_with_path_id C rib p i t = Ok (t', old)"
  obtains key where "entry_key C p i = Ok key" "t' = rt_del (rib, key) t" "rt_wf t'" "old = rt_get t (rib, key)"
  using assms rib_store.inv_del [OF assms(1)] by (auto simp: remove_with_path_id_def)

text \<open>Inserting a route stores it under its key, replaces what was there and touches no other key or
  RIB; it reports whether the key was new, and the count of the RIB grows by one exactly then.\<close>

theorem rib_insert_get:
  assumes "rt_wf t" "rib_insert C rib e t = Ok (t', fresh)"
    "entry_key C (re_prefix e) (re_path_id e) = Ok key"
  shows "rt_get t' (rib', key') = (if rib' = rib \<and> key' = key then Some e else rt_get t (rib', key'))
    \<and> fresh = (rt_get t (rib, key) = None) \<and> rt_wf t'
    \<and> rib_count rib t' = rib_count rib t + (if fresh then 1 else 0)"
proof -
  obtain k where k: "entry_key C (re_prefix e) (re_path_id e) = Ok k" "t' = rt_put (rib, k) e t" "rt_wf t'"
    "fresh \<longleftrightarrow> rt_get t (rib, k) = None"
    using rib_insert_Ok [OF assms(1,2)] .
  with assms(3) have [simp]: "k = key" by simp
  have "rib_count rib t' = rib_count rib t + (if fresh then 1 else 0)"
    using k(4)
    by (auto simp: k(2) rib_count_def rt_put_def rt_get_def length_hm_insert hm_get_or_def hm_contains_iff split: option.splits)
  then show ?thesis using k(2-4) rib_store.get_put [OF assms(1)] by simp
qed

theorem rib_insert_get_witness:
  "\<exists>t' fresh key. rib_insert doc_crates LocRib (example_entry (Some 7)) rib_new = Ok (t', fresh)
     \<and> rt_get t' (LocRib, key) = Some (example_entry (Some 7)) \<and> fresh \<and> rib_count LocRib t' = 1"
proof -
  obtain key where key: "entry_key doc_crates (re_prefix (example_entry (Some 7))) (re_path_id (example_entry (Some 7))) = Ok key"
    by (simp add: entry_key_def example_entry_def)
  obtain t' fresh where ins: "rib_insert doc_crates LocRib (example_entry (Some 7)) rib_new = Ok (t', fresh)"
    using key by (simp add: rib_insert_def)
  from rib_insert_get [OF rt_wf_new(1) ins key, of LocRib key] ins show ?thesis
    by (auto simp: rib_count_def [of _ rib_new] rib_new_def [THEN arg_cong [where f = tables]])
qed

lemma rib_remove_get:
  assumes "rt_wf t" "remove_with_path_id C rib p i t = Ok (t', old)" "entry_key C p i = Ok key"
  shows "rt_get t' (rib', key') = (if rib' = rib \<and> key' = key then None else rt_get t (rib', key'))
    \<and> old = rt_get t (rib, key) \<and> rt_wf t'
    \<and> rib_count rib t' + (if old = None then 0 else 1) = rib_count rib t"
proof -
  obtain k where k: "entry_key C p i = Ok k" "t' = rt_del (rib, k) t" "rt_wf t'" "old = rt_get t (rib, k)"
    using remove_with_path_id_Ok [OF assms(1,2)] .
  with assms(3) have [simp]: "k = key" by simp
  have "rib_count rib t' + (if old = None then 0 else 1) = rib_count rib t"
  proof (cases "hm_get (tables t) rib")
    case (Some table)
    with assms(1) have "hm_wf table" by (simp add: rt_wf_def)
    from length_hm_remove [OF this, of key] Some k(4) show ?thesis
      by (auto simp: k(2) rib_count_def rt_del_def rt_get_def hm_contains_iff
          dest!: hm_get_SomeD length_pos_if_in_set)
  qed (auto simp: k(2,4) rib_count_def rt_del_def rt_get_def)
  then show ?thesis using k(2-4) rib_store.get_del [OF assms(1)] by simp
qed

lemma entry_key_sat: "prefix_wf p \<Longrightarrow> sat (entry_key C p i) (\<lambda>_. True)"
  by (auto simp: entry_key_def split: option.splits intro: show_prefix_sat)

subsection \<open>Best path\<close>

lemma min_by_key_None [simp]: "min_by_key f xs = None \<longleftrightarrow> xs = []"
  by (cases xs) (auto split: option.splits)

lemma min_by_key_Some: "min_by_key f xs = Some x \<Longrightarrow> x \<in> set xs \<and> (\<forall>y \<in> set xs. f x \<le> f y)"
proof (induction xs arbitrary: x)
  case (Cons y ys)
  then show ?case
    by (cases "min_by_key f ys") (force split: if_splits)+
qed simp

text \<open>The rank orders paths by the tie-breakers in order.\<close>

lemma path_rank_less:
  assumes "local_pref (re_attributes a) = Some la" "local_pref (re_attributes b) = Some lb"
    and "pa_as_path (re_attributes a) = Some pa" "pa_as_path (re_attributes b) = Some pb"
    and "multi_exit_disc (re_attributes a) = Some ma" "multi_exit_disc (re_attributes b) = Some mb"
    and "hop_count pa < 2 ^ 32" "hop_count pb < 2 ^ 32"
  shows "path_rank a < path_rank b \<longleftrightarrow>
     lb < la \<or> la = lb \<and> (hop_count pa < hop_count pb \<or> hop_count pa = hop_count pb \<and> ma < mb)"
proof -
  have le: "v \<le> - 1" for v :: u32 by (rule word_order.extremum)
  have "(- 1 - la < - 1 - lb) = (lb < la)" "(- 1 - la = - 1 - lb) = (la = lb)"
    using unat_sub [OF le [of la]] unat_sub [OF le [of lb]] unsigned_less [of la, where ?'a = nat]
      unsigned_less [of lb, where ?'a = nat]
    by (auto simp: word_less_nat_alt unsigned_minus_1_eq_mask mask_eq_exp_minus_1)
  moreover have "(word_of_nat (hop_count pa) < (word_of_nat (hop_count pb) :: u32)) = (hop_count pa < hop_count pb)"
    "(word_of_nat (hop_count pa) = (word_of_nat (hop_count pb) :: u32)) = (hop_count pa = hop_count pb)"
    using assms(7,8) by (auto simp: word_less_nat_alt unat_of_nat word_unat_eq_iff)
  ultimately show ?thesis
    using assms(1-6) by (auto simp: path_rank_def Let_def less_prod_def)
qed

definition matching_entries :: "rib_table \<Rightarrow> rib_type \<Rightarrow> string \<Rightarrow> (string \<times> rib_entry) list" where
  "matching_entries t rib s = filter (\<lambda>(k, e). key_matches s k) (hm_get_or (tables t) rib [])"

lemma recompute_best_path_new:
  assumes "rt_wf t" "show_prefix C p = (Ok s :: string result)" "matching_entries t rib s \<noteq> []"
  shows "\<exists>k e t'. recompute_best_path C rib p t = Ok t'
    \<and> (k, e) \<in> set (matching_entries t rib s) \<and> (\<forall>(k', e') \<in> set (matching_entries t rib s). path_rank e \<le> path_rank e')
    \<and> t' = t\<lparr>tables := hm_modify rib (map (\<lambda>(k', e'). (k', if key_matches s k'
                 then e'\<lparr>re_is_best := (k' = k)\<rparr> else e'))) (tables t)\<rparr>"
proof -
  let ?m = "matching_entries t rib s"
  obtain table where table: "hm_get (tables t) rib = Some table"
    using assms(3) by (cases "hm_get (tables t) rib") (auto simp: matching_entries_def)
  have wf: "hm_wf table" using assms(1) table by (simp add: rt_wf_def)
  have m: "?m = filter (\<lambda>(k, e). key_matches s k) table" using table by (simp add: matching_entries_def)
  show ?thesis
  proof (cases "length ?m \<le> 1")
    case True
    with assms(3) obtain k e where one: "?m = [(k, e)]"
      by (cases ?m; cases "tl ?m") auto
    have same: "hm_modify k (\<lambda>e. e\<lparr>re_is_best := True\<rparr>) table = map (\<lambda>(k', e'). (k', if key_matches s k'
                 then e'\<lparr>re_is_best := (k' = k)\<rparr> else e')) table"
    proof -
      have "key_matches s k' \<longleftrightarrow> k' = k" if "(k', e') \<in> set table" for k' e'
      proof
        assume "key_matches s k'"
        with that have "(k', e') \<in> set ?m" by (simp add: m)
        with one show "k' = k" by simp
      next
        have "(k, e) \<in> set ?m" using one by simp
        then show "k' = k \<Longrightarrow> key_matches s k'" by (simp add: m)
      qed
      then show ?thesis by (auto simp: hm_modify_def)
    qed
    have "hm_modify rib (hm_modify k (\<lambda>e. e\<lparr>re_is_best := True\<rparr>)) (tables t) =
        hm_modify rib (map (\<lambda>(k', e'). (k', if key_matches s k'
                 then e'\<lparr>re_is_best := (k' = k)\<rparr> else e'))) (tables t)"
      using assms(1) table same by (intro hm_modify_cong) (auto simp: rt_wf_def)
    with one show ?thesis
      using assms(2) table by (simp add: recompute_best_path_def m [symmetric] Let_def)
  next
    case False
    then obtain k e where best: "min_by_key (\<lambda>(k, e). path_rank e) ?m = Some (k, e)"
      using assms(3) by (cases "min_by_key (\<lambda>(k, e). path_rank e) ?m") auto
    have eq: "(\<lambda>(k', e'). (k', if key_matches s k' then e'\<lparr>re_is_best := (Some k = Some k')\<rparr> else e')) =
        (\<lambda>(k', e'). (k', if key_matches s k' then e'\<lparr>re_is_best := (k' = k)\<rparr> else e'))"
      by (auto simp: fun_eq_iff eq_commute [of k])
    have "recompute_best_path C rib p t = Ok (t\<lparr>tables := hm_modify rib (map (\<lambda>(k', e'). (k', if key_matches s k'
                 then e'\<lparr>re_is_best := (k' = k)\<rparr> else e'))) (tables t)\<rparr>)"
      using assms(2) table best False
      by (simp add: recompute_best_path_def m [symmetric] Let_def eq del: option.inject)
    with min_by_key_Some [OF best] show ?thesis by (intro exI [of _ k] exI [of _ e]) auto
  qed
qed


lemma hm_get_map_entries:
  "hm_get (map (\<lambda>(k, e). (k, f k e)) m) k = map_option (f k) (hm_get m k)"
  by (induction m) (auto simp: hm_get_def)

lemma rt_get_modify:
  "rt_get (t\<lparr>tables := hm_modify rib (map (\<lambda>(k, e). (k, f k e))) (tables t)\<rparr>) (rib', k) =
     (if rib' = rib then map_option (f k) (rt_get t (rib', k)) else rt_get t (rib', k))"
  by (simp add: rt_get_def hm_get_map_entries split: option.splits)

text \<open>C24: best-path selection: among the paths stored for a prefix exactly one is marked best, one of
  minimal rank (highest local preference, then shortest AS path, then lowest MED), and no other entry of the
  table changes.\<close>

theorem recompute_best_path_spec:
  assumes "rt_wf t" "show_prefix C p = (Ok s :: string result)" "matching_entries t rib s \<noteq> []"
  shows "\<exists>k e t'. recompute_best_path C rib p t = Ok t'
    \<and> (k, e) \<in> set (matching_entries t rib s)
    \<and> (\<forall>(k', e') \<in> set (matching_entries t rib s).
         path_rank e \<le> path_rank e' \<and> rt_get t' (rib, k') = Some (e'\<lparr>re_is_best := (k' = k)\<rparr>))
    \<and> (\<forall>rib' k'. rib' \<noteq> rib \<or> \<not> key_matches s k' \<longrightarrow> rt_get t' (rib', k') = rt_get t (rib', k'))"
proof -
  obtain k e t' where *: "recompute_best_path C rib p t = Ok t'" "(k, e) \<in> set (matching_entries t rib s)"
    "\<forall>(k', e') \<in> set (matching_entries t rib s). path_rank e \<le> path_rank e'"
    and t': "t' = t\<lparr>tables := hm_modify rib (map (\<lambda>(k', e'). (k', if key_matches s k'
                 then e'\<lparr>re_is_best := (k' = k)\<rparr> else e'))) (tables t)\<rparr>"
    using recompute_best_path_new [OF assms] by blast
  have get: "rt_get t (rib, k') = Some e' \<and> key_matches s k'" if "(k', e') \<in> set (matching_entries t rib s)" for k' e'
    using that rt_wf_get_or [OF assms(1), of rib]
    by (auto simp: matching_entries_def rt_get_def hm_get_or_def hm_get_iff split: option.splits)
  have "\<forall>(k', e') \<in> set (matching_entries t rib s).
      path_rank e \<le> path_rank e' \<and> rt_get t' (rib, k') = Some (e'\<lparr>re_is_best := (k' = k)\<rparr>)"
    using *(3) get by (fastforce simp: t' rt_get_modify)
  moreover have "\<forall>rib' k'. rib' \<noteq> rib \<or> \<not> key_matches s k' \<longrightarrow> rt_get t' (rib', k') = rt_get t (rib', k')"
    by (auto simp: t' rt_get_modify option.map_ident)
  ultimately show ?thesis using *(1,2) by blast
qed

theorem recompute_best_path_spec_witness:
  "\<exists>k e t'. recompute_best_path doc_crates LocRib (Prefix_V4 (Ipv4Net 0x0A010000 16))
       \<lparr>tables = [(LocRib, [(show_ipv4 0x0A010000 @ ''/'' @ show_nat 16 @ ''@7'', example_entry (Some 7))])]\<rparr> = Ok t'
     \<and> rt_get t' (LocRib, k) = Some (e\<lparr>re_is_best := True\<rparr>)"
proof -
  let ?s = "show_ipv4 0x0A010000 @ ''/'' @ show_nat 16"
  let ?t = "\<lparr>tables = [(LocRib, [(?s @ ''@7'', example_entry (Some 7))])]\<rparr>"
  have wf: "rt_wf ?t" by (simp add: rt_wf_def hm_wf_def hm_get_def)
  have key: "show_prefix doc_crates (Prefix_V4 (Ipv4Net 0x0A010000 16)) = (Ok ?s :: string result)"
    by (simp add: doc_crates_def)
  have m: "matching_entries ?t LocRib ?s = [(?s @ ''@7'', example_entry (Some 7))]"
    by (simp add: matching_entries_def hm_get_or_def hm_get_def key_matches_def starts_with_def)
  from recompute_best_path_spec [OF wf key, of LocRib] show ?thesis unfolding m by auto
qed

subsection \<open>Graceful restart\<close>

lemma rt_get_mark_stale_all: "rt_get (mark_stale_all at t) rk = map_option (mark_stale at) (rt_get t rk)"
  by (simp add: rt_get_def mark_stale_all_def split: option.splits)

lemma rt_wf_mark_stale_all [simp]: "rt_wf t \<Longrightarrow> rt_wf (mark_stale_all at t)"
  by (auto simp: rt_wf_def mark_stale_all_def)

lemma hm_get_filter: "hm_wf m \<Longrightarrow> hm_get (filter (\<lambda>(k, e). P e) m) k =
    (case hm_get m k of Some e \<Rightarrow> if P e then Some e else None | None \<Rightarrow> None)"
proof (induction m)
  case (Cons x m)
  obtain k0 v where x: "x = (k0, v)" by (cases x)
  with Cons.prems have "hm_get (filter (\<lambda>(k, e). P e) m) k0 = None"
    by (auto simp: hm_get_def hm_wf_def map_of_eq_None_iff)
  with Cons show ?case by (auto simp: x hm_get_def hm_wf_def)
qed simp

lemma drain_get:
  assumes "rt_wf t" "drain_deleted_stale C now secs t = (t', n)"
  shows "rt_get t' rk = (case rt_get t rk of
      Some e \<Rightarrow> if stale_expired C now secs e then None else Some e | None \<Rightarrow> None)"
  using assms
  by (auto simp: drain_deleted_stale_def rt_get_def rt_wf_def hm_get_filter split: option.splits)

lemma rt_wf_drain: "rt_wf t \<Longrightarrow> rt_wf (fst (drain_deleted_stale C now secs t))"
  by (auto simp: rt_wf_def drain_deleted_stale_def intro: hm_wf_filter)

lemma length_all_prefixes: "length (all_prefixes t) = sum_list (map length (hm_values (tables t)))"
  by (simp add: all_prefixes_def length_concat comp_def hm_values_def)

text \<open>Expiring stale routes removes exactly the entries whose stale timer has run out, keeps every other
  entry unchanged, and returns the number of entries removed.\<close>

theorem drain_deleted_stale_spec:
  assumes "rt_wf t" "drain_deleted_stale C now secs t = (t', n)"
  shows "rt_get t' rk = (case rt_get t rk of
      Some e \<Rightarrow> if stale_expired C now secs e then None else Some e | None \<Rightarrow> None)
    \<and> n + length (all_prefixes t') = length (all_prefixes t)"
proof -
  have split: "length (filter P xs) + length (filter (\<lambda>x. \<not> P x) xs) = length xs" for P :: "'x \<Rightarrow> bool" and xs
    by (induction xs) auto
  have "sum_list (map (\<lambda>tb. length (filter P tb)) ts) + sum_list (map (\<lambda>tb. length (filter (\<lambda>x. \<not> P x) tb)) ts) =
      sum_list (map length ts)" for P :: "'x \<Rightarrow> bool" and ts
  proof (induction ts)
    case (Cons tb ts)
    then show ?case using split [of P tb] by simp
  qed simp
  from this [of "\<lambda>(k, e). stale_expired C now secs e" "hm_values (tables t)"]
  have "n + length (all_prefixes t') = length (all_prefixes t)"
    using assms(2)
    by (auto simp: drain_deleted_stale_def length_all_prefixes hm_values_def hm_map_values_def split_def comp_def)
  with drain_get [OF assms] show ?thesis by simp
qed

theorem drain_deleted_stale_spec_witness:
  "rt_get (fst (drain_deleted_stale doc_crates 5000000000 3
       \<lparr>tables = [(LocRib, [(''k'', mark_stale 1000000000 (example_entry None))])]\<rparr>)) (LocRib, ''k'') = None"
proof -
  let ?t = "\<lparr>tables = [(LocRib, [(''k'', mark_stale 1000000000 (example_entry None))])]\<rparr>"
  have wf: "rt_wf ?t" by (simp add: rt_wf_def hm_wf_def hm_get_def)
  obtain t' n where d: "drain_deleted_stale doc_crates 5000000000 3 ?t = (t', n)" by fastforce
  have "stale_expired doc_crates 5000000000 3 (mark_stale 1000000000 (example_entry None))"
    by (simp add: stale_expired_def mark_stale_def example_entry_def doc_crates_def)
  with drain_deleted_stale_spec [OF wf d, of "(LocRib, ''k'')"] d show ?thesis
    by (simp add: rt_get_def hm_get_def)
qed

subsection \<open>Keys of IPv4 prefixes\<close>

lemma append_sep_inject:
  "c \<notin> set a \<Longrightarrow> c \<notin> set b \<Longrightarrow> a @ c # x = b @ c # y \<longleftrightarrow> a = b \<and> x = y"
  by (auto simp: append_eq_append_conv2 append_eq_Cons_conv Cons_eq_append_conv)

lemma show_nat_no_sep: "CHR ''.'' \<notin> set (show_nat n)" "CHR ''/'' \<notin> set (show_nat n)" "CHR ''@'' \<notin> set (show_nat n)"
  using set_show_nat [of n] by auto

lemma bit_octet: "r < 8 \<Longrightarrow> bit (ucast (drop_bit k (a :: u32)) :: u8) r = bit a (k + r)"
  by (subst bit_ucast_iff) (simp add: bit_drop_bit_eq)

lemma octets4_inj: "octets4 a = octets4 b \<longleftrightarrow> a = b"
proof
  assume eq: "octets4 a = octets4 b"
  have *: "ucast (drop_bit (24 - 8 * i) a) = (ucast (drop_bit (24 - 8 * i) b) :: u8)" if "i < 4" for i
    using eq that by (simp add: octets4_def)
  show "a = b"
  proof (rule bit_word_eqI)
    fix n assume "n < LENGTH(32)"
    then have n: "n = 24 - 8 * (3 - n div 8) + n mod 8" "3 - n div 8 < 4" by (simp_all, presburger)
    have r: "n mod 8 < 8" by simp
    from arg_cong [OF * [OF n(2)], of "\<lambda>w. bit w (n mod 8)"]
    have "bit a (24 - 8 * (3 - n div 8) + n mod 8) = bit b (24 - 8 * (3 - n div 8) + n mod 8)"
      unfolding bit_octet [OF r] .
    with n(1) show "bit a n = bit b n" by simp
  qed
qed simp

lemma show_ipv4_inj: "show_ipv4 a = show_ipv4 b \<longleftrightarrow> a = b"
proof
  assume "show_ipv4 a = show_ipv4 b"
  moreover obtain a0 a1 a2 a3 where a: "octets4 a = [a0, a1, a2, a3]"
    by (simp add: octets4_def numeral_eq_Suc upt_rec)
  moreover obtain b0 b1 b2 b3 where b: "octets4 b = [b0, b1, b2, b3]"
    by (simp add: octets4_def numeral_eq_Suc upt_rec)
  ultimately have "octets4 a = octets4 b"
    by (simp add: show_ipv4_def join_def append_sep_inject show_nat_no_sep show_nat_inj)
      (auto intro: unsigned_word_eqI)
  then show "a = b" by (simp add: octets4_inj)
qed simp

lemma show_ipv4_no_sep: "CHR ''/'' \<notin> set (show_ipv4 a)" "CHR ''@'' \<notin> set (show_ipv4 a)"
  using show_nat_no_sep by (auto simp: show_ipv4_def join_def octets4_def upt_rec numeral_eq_Suc)

lemma entry_key_v4:
  "ipnet_display_ok C \<Longrightarrow> entry_key C (Prefix_V4 (Ipv4Net a l)) i =
     Ok (show_ipv4 a @ CHR ''/'' # show_nat (unat l) @ (case i of None \<Rightarrow> [] | Some i \<Rightarrow> CHR ''@'' # show_nat (unat i)))"
  by (simp add: entry_key_def ipnet_display_ok_def split: option.splits)

lemma tail_inject:
  "show_nat l @ (case i of None \<Rightarrow> [] | Some i \<Rightarrow> CHR ''@'' # show_nat (unat i)) =
   show_nat m @ (case j of None \<Rightarrow> [] | Some j \<Rightarrow> CHR ''@'' # show_nat (unat j)) \<longleftrightarrow> l = m \<and> i = (j :: u32 option)"
proof -
  have "show_nat l \<noteq> show_nat m @ CHR ''@'' # xs" for l m xs
    using show_nat_no_sep(3) [of l] by auto
  note neq = this this [symmetric]
  show ?thesis
    using show_nat_no_sep(3)
    by (cases i; cases j) (auto simp: append_sep_inject show_nat_inj neq intro: unsigned_word_eqI)
qed

text \<open>The key of an IPv4 route identifies it: two IPv4 prefixes with their path identifiers have the same
  key only if they are equal.\<close>

theorem entry_key_v4_inj:
  assumes "ipnet_display_ok C"
  shows "entry_key C (Prefix_V4 m) i = entry_key C (Prefix_V4 n) j \<longleftrightarrow> m = n \<and> i = j"
proof (cases m; cases n)
  fix a l b k assume *: "m = Ipv4Net a l" "n = Ipv4Net b k"
  show ?thesis
    unfolding * entry_key_v4 [OF assms] outcome.inject
      append_sep_inject [OF show_ipv4_no_sep(1) show_ipv4_no_sep(1)] tail_inject
    by (auto simp: show_ipv4_inj intro: unsigned_word_eqI)
qed

theorem entry_key_v4_inj_witness:
  "entry_key doc_crates (Prefix_V4 (Ipv4Net 0x0A010000 16)) None \<noteq>
     entry_key doc_crates (Prefix_V4 (Ipv4Net 0x0A010000 16)) (Some 1)"
  using entry_key_v4_inj [OF ipnet_display_ok_doc, of "Ipv4Net 0x0A010000 16" None "Ipv4Net 0x0A010000 16" "Some 1"]
  by simp

lemma labeled_keys_collide:
  "entry_key C (Prefix_Labeled p (l # ls)) i = entry_key C (Prefix_Labeled p (l # ls')) i"
  by (simp add: entry_key_def idx_def split: option.splits)

end
