(* ===== verification/Session.thy ===== *)
theory Session
  imports Rib_Table
begin

text \<open>
  \<^verbatim>\<open>rbmp-rib/src/session.rs\<close>: the state of a BGP peer as a BMP speaker reports it, and the session of a
  speaker.  The life cycle of a peer is the step relation \<open>peer_step\<close>; on its reachable states the
  add-path families and the stale time of long-lived graceful restart are those of the capabilities of the
  last OPEN, and a peer that is up has a time at which it came up.
\<close>

unbundle bit_operations_syntax

datatype peer_state = Up | Down | State_Unknown

record peer_session =
  ps_address :: ip_addr
  ps_as :: u32
  ps_bgp_id :: ipv4
  ps_local_as :: u32
  ps_hold_time :: u16
  ps_state :: peer_state
  ps_up_at :: "datetime option"
  ps_down_at :: "datetime option"
  ps_capabilities :: "bgp_capability list"
  ps_route_counts :: "(rib_type, nat) hash_map"
  ps_flap_count :: u32
  ps_add_path_families :: "(afi_safi \<times> u8) list"
  ps_llgr_stale_secs :: u32
  ps_llgr_active :: bool

definition peer_session_new :: "peer_header \<Rightarrow> peer_session" where
  "peer_session_new hdr = \<lparr>
     ps_address = ph_address hdr, ps_as = ph_as hdr, ps_bgp_id = ph_bgp_id hdr, ps_local_as = 0,
     ps_hold_time = 0, ps_state = State_Unknown, ps_up_at = None, ps_down_at = None, ps_capabilities = [],
     ps_route_counts = [], ps_flap_count = 0, ps_add_path_families = [], ps_llgr_stale_secs = 0,
     ps_llgr_active = False \<rparr>"

definition add_path_families :: "bgp_capability list \<Rightarrow> (afi_safi \<times> u8) list" where
  "add_path_families caps =
     (case find_map (\<lambda>c. case c of AddPath es \<Rightarrow> Some es | _ \<Rightarrow> None) caps of None \<Rightarrow> [] | Some es \<Rightarrow> es)"

text \<open>The largest stale time of the 7-byte entries of an LLGR capability.\<close>

definition llgr_max_secs :: "bytes \<Rightarrow> u32 result" where
  "llgr_max_secs entries =
     rbind (rwhile (\<lambda>(i, max_secs). i + 7 \<le> length entries)
       (\<lambda>(i, max_secs). rbind (u24_at entries (i + 4)) (\<lambda>t.
          Ok (Cont (i + 7, if t > max_secs then t else max_secs)))) (0, 0))
     (\<lambda>(i, max_secs). Ok max_secs)"

definition llgr_stale_secs :: "bgp_capability list \<Rightarrow> u32 result" where
  "llgr_stale_secs caps =
     (case find_map (\<lambda>c. case c of LongLivedGracefulRestart es \<Rightarrow> Some es | _ \<Rightarrow> None) caps of
        None \<Rightarrow> Ok 0 | Some es \<Rightarrow> llgr_max_secs es)"

definition on_up :: "u32 \<Rightarrow> u16 \<Rightarrow> bgp_capability list \<Rightarrow> datetime \<Rightarrow> peer_session \<Rightarrow> peer_session result" where
  "on_up local_as hold_time caps at p =
     rbind (llgr_stale_secs caps) (\<lambda>secs.
       Ok (p\<lparr>ps_flap_count := (if ps_state p = Up then ps_flap_count p + 1 else ps_flap_count p),
             ps_state := Up, ps_up_at := Some at, ps_local_as := local_as, ps_hold_time := hold_time,
             ps_add_path_families := add_path_families caps, ps_llgr_stale_secs := secs,
             ps_llgr_active := (secs > 0), ps_capabilities := caps\<rparr>))"

definition add_path_active_for :: "afi_safi \<Rightarrow> peer_session \<Rightarrow> bool" where
  "add_path_active_for f p \<longleftrightarrow> list_ex (\<lambda>(a, _). a = f) (ps_add_path_families p)"

definition on_down :: "datetime \<Rightarrow> peer_session \<Rightarrow> peer_session" where
  "on_down at p = p\<lparr>ps_state := Down, ps_down_at := Some at, ps_route_counts := []\<rparr>"

definition uptime_secs :: "crates \<Rightarrow> datetime \<Rightarrow> peer_session \<Rightarrow> int option" where
  "uptime_secs C now p = map_option (\<lambda>t. c_num_seconds C (now - t)) (ps_up_at p)"

record bmp_session =
  bs_speaker_addr :: ip_addr
  bs_sys_name :: "string option"
  bs_sys_descr :: "string option"
  bs_connected_at :: datetime
  bs_peers :: "(ip_addr, peer_session) hash_map"

definition bmp_session_new :: "ip_addr \<Rightarrow> datetime \<Rightarrow> bmp_session" where
  "bmp_session_new speaker at = \<lparr>bs_speaker_addr = speaker, bs_sys_name = None, bs_sys_descr = None,
     bs_connected_at = at, bs_peers = []\<rparr>"

definition peer_count :: "bmp_session \<Rightarrow> nat" where
  "peer_count s = length (bs_peers s)"

definition up_peer_count :: "bmp_session \<Rightarrow> nat" where
  "up_peer_count s = length (filter (\<lambda>p. ps_state p = Up) (hm_values (bs_peers s)))"

definition session_total_routes :: "bmp_session \<Rightarrow> nat" where
  "session_total_routes s = sum_list (concat (map (\<lambda>p. hm_values (ps_route_counts p)) (hm_values (bs_peers s))))"

subsection \<open>Capabilities\<close>

text \<open>The specification of the LLGR loop: the largest stale time of the complete entries, or 0.\<close>

definition llgr_spec :: "bytes \<Rightarrow> u32" where
  "llgr_spec entries = foldl max 0 (map (\<lambda>c. from_be (drop 4 c)) (chunks 7 entries))"

lemma llgr_loop_eq:
  fixes m :: u32
  defines "body \<equiv> \<lambda>entries (i, m). rbind (u24_at entries (i + 4)) (\<lambda>t. Ok (Cont (i + 7, if t > m then t else m)))
      :: ((nat \<times> u32) ctl) result"
  shows "rwhile (\<lambda>(i, m). i + 7 \<le> length entries) (body entries) (i, m) =
    Ok (i + 7 * length (chunks 7 (drop i entries)),
        foldl max m (map (\<lambda>c. from_be (drop 4 c)) (chunks 7 (drop i entries))))"
proof (induction "length entries - i" arbitrary: i m rule: less_induct)
  case less
  show ?case
  proof (cases "i + 7 \<le> length entries")
    case True
    have c: "chunks 7 (drop i entries) = take 7 (drop i entries) # chunks 7 (drop (i + 7) entries)"
      using True by (subst chunks.simps) (simp add: add.commute)
    have r: "u24_at entries (i + 4) = (Ok (from_be (drop 4 (take 7 (drop i entries)))) :: u32 result)"
      using True by (simp add: u24_at_Ok drop_take add.commute)
    have "rwhile (\<lambda>(i, m). i + 7 \<le> length entries) (body entries) (i, m) =
      rwhile (\<lambda>(i, m). i + 7 \<le> length entries) (body entries)
        (i + 7, max m (from_be (drop 4 (take 7 (drop i entries)))))"
      using True by (intro rwhile_step) (auto simp: body_def r max_def)
    also note less [of "i + 7"]
    finally show ?thesis using True by (simp add: c)
  qed (simp add: rwhile_stop chunks_short)
qed

lemma llgr_max_secs_eq: "llgr_max_secs entries = Ok (llgr_spec entries)"
  using llgr_loop_eq [of entries 0 0] by (simp add: llgr_max_secs_def llgr_spec_def)

lemma llgr_stale_secs_total: "\<exists>secs. llgr_stale_secs caps = Ok secs"
  by (simp add: llgr_stale_secs_def llgr_max_secs_eq split: option.splits)

subsection \<open>The life cycle of a peer\<close>

inductive peer_step :: "peer_session \<Rightarrow> peer_session \<Rightarrow> bool" where
  up: "on_up local_as hold_time caps at p = Ok p' \<Longrightarrow> peer_step p p'"
| down: "peer_step p (on_down at p)"

inductive peer_reachable :: "peer_header \<Rightarrow> peer_session \<Rightarrow> bool" for hdr where
  init: "peer_reachable hdr (peer_session_new hdr)"
| step: "peer_reachable hdr p \<Longrightarrow> peer_step p p' \<Longrightarrow> peer_reachable hdr p'"

inductive_cases peer_stepE: "peer_step p p'"

definition peer_inv :: "peer_header \<Rightarrow> peer_session \<Rightarrow> bool" where
  "peer_inv hdr p \<longleftrightarrow>
     ps_address p = ph_address hdr \<and> ps_as p = ph_as hdr \<and> ps_bgp_id p = ph_bgp_id hdr
   \<and> ps_add_path_families p = add_path_families (ps_capabilities p)
   \<and> llgr_stale_secs (ps_capabilities p) = Ok (ps_llgr_stale_secs p)
   \<and> ps_llgr_active p = (ps_llgr_stale_secs p > 0)
   \<and> (ps_state p = Up \<longrightarrow> ps_up_at p \<noteq> None)
   \<and> (ps_state p = Down \<longrightarrow> ps_down_at p \<noteq> None \<and> ps_route_counts p = [])"

lemma peer_inv_new: "peer_inv hdr (peer_session_new hdr)"
  by (simp add: peer_inv_def peer_session_new_def add_path_families_def llgr_stale_secs_def)

lemma peer_inv_on_up: "peer_inv hdr p \<Longrightarrow> on_up la ht caps at p = Ok p' \<Longrightarrow> peer_inv hdr p'"
  by (auto simp: peer_inv_def on_up_def)

lemma peer_inv_on_down: "peer_inv hdr p \<Longrightarrow> peer_inv hdr (on_down at p)"
  by (simp add: peer_inv_def on_down_def)

lemma on_up_total: "\<exists>p'. on_up la ht caps at p = Ok p'"
  using llgr_stale_secs_total [of caps] by (auto simp: on_up_def)

text \<open>C25: in every state a peer session can reach, its identity is that of the header that created it, its
  Add-Path families and LLGR stale time are those of the capabilities of the last OPEN, LLGR is active
  exactly when that time is positive, and the up and down times match the state.\<close>

theorem peer_session_invariant:
  assumes "peer_reachable hdr p"
  shows "peer_inv hdr p"
  using assms
proof induction
  case init
  show ?case by (rule peer_inv_new)
next
  case (step p p')
  from step.hyps(2) show ?case
    using peer_inv_on_up [OF step.IH] peer_inv_on_down [OF step.IH] by (auto elim!: peer_stepE)
qed

theorem peer_session_invariant_witness:
  "\<exists>hdr p. peer_reachable hdr p \<and> ps_state p = Up \<and> peer_inv hdr p"
proof -
  define hdr where "hdr = \<lparr>ph_peer_type = GlobalInstance, ph_peer_flags = PeerFlags 0, ph_distinguisher = replicate 8 0,
     ph_address = IpV4 1, ph_as = 65001, ph_bgp_id = 1, ph_timestamp = 0, ph_rib_type = AdjRibInPrePolicy\<rparr>"
  obtain p where p: "on_up 65000 180 [AddPath []] 7 (peer_session_new hdr) = Ok p"
    using on_up_total by blast
  have "peer_reachable hdr p"
    by (rule peer_reachable.step [OF peer_reachable.init peer_step.up [OF p]])
  moreover have "ps_state p = Up" using p by (auto simp: on_up_def)
  ultimately show ?thesis using peer_session_invariant by blast
qed

text \<open>The flap counter counts a second Peer Up without a Peer Down in between, and not a session that
  goes down and comes up again.\<close>

theorem flap_count_spec:
  assumes "on_up la ht caps at p = Ok p'"
  shows "ps_flap_count p' = (if ps_state p = Up then ps_flap_count p + 1 else ps_flap_count p)
    \<and> (\<forall>q. on_up la ht caps at (on_down t p) = Ok q \<longrightarrow> ps_flap_count q = ps_flap_count p)"
  using assms by (auto simp: on_up_def on_down_def)

theorem flap_count_spec_witness:
  "\<exists>p q. on_up 1 2 [] 3 p = Ok q \<and> ps_state p = Up \<and> ps_flap_count q = ps_flap_count p + 1"
proof -
  define p where "p = (peer_session_new undefined)\<lparr>ps_state := Up\<rparr>"
  obtain q where q: "on_up 1 2 [] 3 p = Ok q" using on_up_total by blast
  from flap_count_spec [OF q] q show ?thesis
    by (intro exI [of _ p] exI [of _ q]) (simp add: p_def)
qed

end
