(* ===== verification/Filter_Expr.thy ===== *)
theory Filter_Expr
  imports Rust_Text
begin

text \<open>
  \<^verbatim>\<open>rbmp-rib/src/filter_expr.rs\<close>: the predicate language of the route filters.  The parser generated
  by \<^verbatim>\<open>pest\<close> from \<^verbatim>\<open>filter.pest\<close> is a parameter that yields a tree of pairs; \<open>build_expr\<close>
  turns the tree into an expression, and \<open>eval\<close> evaluates an expression on a route context.
\<close>

subsection \<open>Route context and expressions\<close>

record route_ctx =
  cx_prefix_len :: u8
  cx_as_path_len :: nat
  cx_origin_asn :: u32
  cx_has_prepend :: bool
  cx_rpki :: string
  cx_action :: string
  cx_peer_as :: u32
  cx_local_pref :: "u32 option"
  cx_med :: "u32 option"
  cx_community_set :: "string set"

datatype expr =
    And expr expr | Or expr expr | Not expr
  | PrefixLenGt u8 | PrefixLenLt u8 | PrefixLenGe u8 | PrefixLenLe u8 | PrefixLenEq u8
  | AsPathLenGt nat | AsPathLenLt nat | AsPathLenGe nat | AsPathLenLe nat | AsPathLenEq nat
  | LocalPrefGt u32 | LocalPrefLt u32 | LocalPrefEq u32
  | MedGt u32 | MedLt u32 | MedEq u32
  | RpkiEq string | RpkiNe string | ActionEq string | CommunityHas string
  | OriginAsIn "u32 set" | OriginAsNotIn "u32 set" | PeerAsIn "u32 set" | PeerAsNotIn "u32 set"
  | HasPrepend | Expr_True | Expr_False

definition opt_or :: "'a option \<Rightarrow> 'a \<Rightarrow> 'a" where
  "opt_or x d = (case x of None \<Rightarrow> d | Some v \<Rightarrow> v)"

primrec eval :: "expr \<Rightarrow> route_ctx \<Rightarrow> bool" where
  "eval (And a b) ctx \<longleftrightarrow> eval a ctx \<and> eval b ctx"
| "eval (Or a b) ctx \<longleftrightarrow> eval a ctx \<or> eval b ctx"
| "eval (Not e) ctx \<longleftrightarrow> \<not> eval e ctx"
| "eval (PrefixLenGt n) ctx \<longleftrightarrow> cx_prefix_len ctx > n"
| "eval (PrefixLenLt n) ctx \<longleftrightarrow> cx_prefix_len ctx < n"
| "eval (PrefixLenGe n) ctx \<longleftrightarrow> cx_prefix_len ctx \<ge> n"
| "eval (PrefixLenLe n) ctx \<longleftrightarrow> cx_prefix_len ctx \<le> n"
| "eval (PrefixLenEq n) ctx \<longleftrightarrow> cx_prefix_len ctx = n"
| "eval (AsPathLenGt n) ctx \<longleftrightarrow> cx_as_path_len ctx > n"
| "eval (AsPathLenLt n) ctx \<longleftrightarrow> cx_as_path_len ctx < n"
| "eval (AsPathLenGe n) ctx \<longleftrightarrow> cx_as_path_len ctx \<ge> n"
| "eval (AsPathLenLe n) ctx \<longleftrightarrow> cx_as_path_len ctx \<le> n"
| "eval (AsPathLenEq n) ctx \<longleftrightarrow> cx_as_path_len ctx = n"
| "eval (LocalPrefGt n) ctx \<longleftrightarrow> opt_or (cx_local_pref ctx) 100 > n"
| "eval (LocalPrefLt n) ctx \<longleftrightarrow> opt_or (cx_local_pref ctx) 100 < n"
| "eval (LocalPrefEq n) ctx \<longleftrightarrow> opt_or (cx_local_pref ctx) 100 = n"
| "eval (MedGt n) ctx \<longleftrightarrow> opt_or (cx_med ctx) 0 > n"
| "eval (MedLt n) ctx \<longleftrightarrow> opt_or (cx_med ctx) 0 < n"
| "eval (MedEq n) ctx \<longleftrightarrow> opt_or (cx_med ctx) 0 = n"
| "eval (RpkiEq v) ctx \<longleftrightarrow> cx_rpki ctx = v"
| "eval (RpkiNe v) ctx \<longleftrightarrow> cx_rpki ctx \<noteq> v"
| "eval (ActionEq v) ctx \<longleftrightarrow> cx_action ctx = v"
| "eval (CommunityHas c) ctx \<longleftrightarrow> c \<in> cx_community_set ctx"
| "eval (OriginAsIn s) ctx \<longleftrightarrow> cx_origin_asn ctx \<in> s"
| "eval (OriginAsNotIn s) ctx \<longleftrightarrow> cx_origin_asn ctx \<notin> s"
| "eval (PeerAsIn s) ctx \<longleftrightarrow> cx_peer_as ctx \<in> s"
| "eval (PeerAsNotIn s) ctx \<longleftrightarrow> cx_peer_as ctx \<notin> s"
| "eval HasPrepend ctx \<longleftrightarrow> cx_has_prepend ctx"
| "eval Expr_True ctx \<longleftrightarrow> True"
| "eval Expr_False ctx \<longleftrightarrow> False"

subsection \<open>Parse trees\<close>

text \<open>The rules of \<^verbatim>\<open>filter.pest\<close> and the pairs of \<^verbatim>\<open>pest::iterators\<close>: the rule, the matched
  text and the inner pairs.\<close>

datatype rule =
    Rule_EOI | Rule_WHITESPACE | Rule_expr | Rule_or_expr | Rule_and_expr | Rule_not_expr | Rule_atom
  | Rule_or_kw | Rule_and_kw | Rule_not_kw | Rule_comparison | Rule_membership | Rule_in_kw | Rule_field
  | Rule_op | Rule_value | Rule_string | Rule_integer | Rule_int_list | Rule_flag

fun rule_name :: "rule \<Rightarrow> string" where
  "rule_name Rule_EOI = ''EOI''"
| "rule_name Rule_WHITESPACE = ''WHITESPACE''"
| "rule_name Rule_expr = ''expr''"
| "rule_name Rule_or_expr = ''or_expr''"
| "rule_name Rule_and_expr = ''and_expr''"
| "rule_name Rule_not_expr = ''not_expr''"
| "rule_name Rule_atom = ''atom''"
| "rule_name Rule_or_kw = ''or_kw''"
| "rule_name Rule_and_kw = ''and_kw''"
| "rule_name Rule_not_kw = ''not_kw''"
| "rule_name Rule_comparison = ''comparison''"
| "rule_name Rule_membership = ''membership''"
| "rule_name Rule_in_kw = ''in_kw''"
| "rule_name Rule_field = ''field''"
| "rule_name Rule_op = ''op''"
| "rule_name Rule_value = ''value''"
| "rule_name Rule_string = ''string''"
| "rule_name Rule_integer = ''integer''"
| "rule_name Rule_int_list = ''int_list''"
| "rule_name Rule_flag = ''flag''"

datatype pair = Pair (as_rule: rule) (as_str: string) (into_inner: "pair list")

text \<open>The errors are boxed texts.\<close>

type_synonym 'a text_result = "(string, 'a) outcome"

definition ok_or :: "'a option \<Rightarrow> string \<Rightarrow> 'a text_result" where
  "ok_or x msg = (case x of None \<Rightarrow> Err msg | Some v \<Rightarrow> Ok v)"

definition parse_int :: "parse_int_error + 'a \<Rightarrow> 'a text_result" where
  "parse_int r = (case r of Inl e \<Rightarrow> Err (show_parse_int_error e) | Inr v \<Rightarrow> Ok v)"

definition next_pair :: "pair list \<Rightarrow> string \<Rightarrow> (pair \<times> pair list) text_result" where
  "next_pair ps msg = (case ps of [] \<Rightarrow> Err msg | p # ps' \<Rightarrow> Ok (p, ps'))"

text \<open>The slice \<^verbatim>\<open>s[1..s.len() - 1]\<close> panics on a single quote character.\<close>

definition strip_quotes :: "string \<Rightarrow> string text_result" where
  "strip_quotes s =
     (let t = trim s in
      if t \<noteq> [] \<and> (hd t = CHR 0x27 \<and> last t = CHR 0x27 \<or> hd t = CHR 0x22 \<and> last t = CHR 0x22)
      then slice t 1 (length t - 1)
      else Ok t)"

definition build_comparison :: "string \<Rightarrow> string \<Rightarrow> pair \<Rightarrow> expr text_result" where
  "build_comparison field op val =
     rbind (next_pair (into_inner val) ''empty value'') (\<lambda>(val_inner, _).
     let txt = trim (as_str val_inner);
         unsupported = (\<lambda>f. Err (''unsupported op '' @ [CHR 0x27] @ op @ [CHR 0x27] @ '' for '' @ f))
     in
     if field = ''prefix_len'' then
       rbind (parse_int (parse_uint txt)) (\<lambda>n.
         if op = ''>'' then Ok (PrefixLenGt n) else if op = ''<'' then Ok (PrefixLenLt n)
         else if op = ''>='' then Ok (PrefixLenGe n) else if op = ''<='' then Ok (PrefixLenLe n)
         else if op = ''=='' \<or> op = ''='' then Ok (PrefixLenEq n) else unsupported ''prefix_len'')
     else if field = ''as_path_len'' then
       rbind (parse_int (parse_unsigned (2 ^ 64) txt)) (\<lambda>n.
         if op = ''>'' then Ok (AsPathLenGt n) else if op = ''<'' then Ok (AsPathLenLt n)
         else if op = ''>='' then Ok (AsPathLenGe n) else if op = ''<='' then Ok (AsPathLenLe n)
         else if op = ''=='' \<or> op = ''='' then Ok (AsPathLenEq n) else unsupported ''as_path_len'')
     else if field = ''local_pref'' then
       rbind (parse_int (parse_uint txt)) (\<lambda>n.
         if op = ''>'' then Ok (LocalPrefGt n) else if op = ''<'' then Ok (LocalPrefLt n)
         else if op = ''=='' \<or> op = ''='' then Ok (LocalPrefEq n) else unsupported ''local_pref'')
     else if field = ''med'' then
       rbind (parse_int (parse_uint txt)) (\<lambda>n.
         if op = ''>'' then Ok (MedGt n) else if op = ''<'' then Ok (MedLt n)
         else if op = ''=='' \<or> op = ''='' then Ok (MedEq n) else unsupported ''med'')
     else if field = ''rpki'' \<and> (op = ''=='' \<or> op = ''='') then
       rbind (strip_quotes (as_str val_inner)) (\<lambda>s. Ok (RpkiEq s))
     else if field = ''rpki'' \<and> op = ''!='' then
       rbind (strip_quotes (as_str val_inner)) (\<lambda>s. Ok (RpkiNe s))
     else if field = ''action'' \<and> (op = ''=='' \<or> op = ''='') then
       rbind (strip_quotes (as_str val_inner)) (\<lambda>s. Ok (ActionEq s))
     else if field = ''community'' \<and> (op = ''=='' \<or> op = ''='') then
       rbind (strip_quotes (as_str val_inner)) (\<lambda>s. Ok (CommunityHas s))
     else Err (''unsupported field/op combination: '' @ [CHR 0x27] @ field @ [CHR 0x27] @ '' ''
               @ [CHR 0x27] @ op @ [CHR 0x27]))"

text \<open>The membership arm and the flag arm of \<^verbatim>\<open>build_expr\<close>.\<close>

definition build_membership :: "pair list \<Rightarrow> expr text_result" where
  "build_membership inner =
     rbind (next_pair inner ''missing field'') (\<lambda>(f, inner).
     rbind (next_pair inner ''missing NOT/int_list'') (\<lambda>(nxt, inner).
     rbind (if as_rule nxt = Rule_not_kw
            then rbind (next_pair inner ''missing int_list after NOT IN'') (\<lambda>(l, _). Ok (True, l))
            else Ok (False, nxt)) (\<lambda>(negated, int_list).
     rbind (rmap (\<lambda>p. parse_int (parse_uint (trim (as_str p))))
                 (filter (\<lambda>p. as_rule p = Rule_integer) (into_inner int_list))) (\<lambda>asns.
     let field = trim (as_str f) in
     if field = ''origin_as'' \<and> \<not> negated then Ok (OriginAsIn (set asns))
     else if field = ''origin_as'' then Ok (OriginAsNotIn (set asns))
     else if field = ''peer_as'' \<and> \<not> negated then Ok (PeerAsIn (set asns))
     else if field = ''peer_as'' then Ok (PeerAsNotIn (set asns))
     else Err (''IN membership not supported for field '' @ [CHR 0x27] @ field @ [CHR 0x27])))))"

definition build_flag :: "string \<Rightarrow> expr text_result" where
  "build_flag s =
     (if s = ''has_prepend'' then Ok HasPrepend
      else if s = ''true'' then Ok Expr_True
      else if s = ''false'' then Ok Expr_False
      else Err (''unknown flag: '' @ s))"

lemma find_size [termination_simp]: "find P ps = Some p \<Longrightarrow> size p < Suc (size_list size ps)"
  by (induction ps) (auto split: if_splits)

lemma next_pair_Ok [simp]: "next_pair ps msg = Ok (p, qs) \<longleftrightarrow> ps = p # qs"
  by (cases ps) (auto simp: next_pair_def)

lemma pair_inner_size [termination_simp]: "size_list size (into_inner p) < size p"
  by (cases p) simp

fun build_expr :: "pair \<Rightarrow> expr text_result"
  and build_chain :: "(expr \<Rightarrow> expr \<Rightarrow> expr) \<Rightarrow> expr \<Rightarrow> pair list \<Rightarrow> expr text_result" where
  "build_expr (Pair r s inner) =
     (case r of
        Rule_expr \<Rightarrow>
          (case find (\<lambda>p. as_rule p = Rule_or_expr) inner of
             None \<Rightarrow> Err ''expr missing or_expr child''
           | Some p \<Rightarrow> build_expr p)
      | Rule_or_expr \<Rightarrow>
          (case inner of
             [] \<Rightarrow> Err ''missing lhs''
           | p # ps \<Rightarrow> rbind (build_expr p) (\<lambda>left. build_chain Or left ps))
      | Rule_and_expr \<Rightarrow>
          (case inner of
             [] \<Rightarrow> Err ''missing lhs''
           | p # ps \<Rightarrow> rbind (build_expr p) (\<lambda>left. build_chain And left ps))
      | Rule_not_expr \<Rightarrow>
          (case inner of
             [] \<Rightarrow> Err ''missing operand''
           | first # ps \<Rightarrow>
               if as_rule first = Rule_not_kw
               then (case ps of
                       [] \<Rightarrow> Err ''missing atom after NOT''
                     | atom # _ \<Rightarrow> rbind (build_expr atom) (\<lambda>e. Ok (Not e)))
               else build_expr first)
      | Rule_atom \<Rightarrow>
          (case inner of
             [] \<Rightarrow> Err ''empty atom''
           | p # _ \<Rightarrow> build_expr p)
      | Rule_comparison \<Rightarrow>
          rbind (next_pair inner ''missing field'') (\<lambda>(f, inner).
          rbind (next_pair inner ''missing op'') (\<lambda>(oper, inner).
          rbind (next_pair inner ''missing value'') (\<lambda>(val, _).
            build_comparison (trim (as_str f)) (trim (as_str oper)) val)))
      | Rule_membership \<Rightarrow> build_membership inner
      | Rule_flag \<Rightarrow> build_flag (trim s)
      | r \<Rightarrow> Err (''unexpected rule: '' @ rule_name r))"
| "build_chain con left [] = Ok left"
| "build_chain con left (rhs # ps) = rbind (build_expr rhs) (\<lambda>e. build_chain con (con left e) ps)"

text \<open>\<^verbatim>\<open>FilterParser::parse(Rule::expr, ..)\<close> is the parameter \<open>pest\<close>; an error is its text.\<close>

definition parse_expr :: "(string \<Rightarrow> string + pair list) \<Rightarrow> string \<Rightarrow> expr text_result" where
  "parse_expr pest input =
     (case pest (trim input) of
        Inl e \<Rightarrow> Err (''filter expression parse error: '' @ e)
      | Inr [] \<Rightarrow> Err ''empty expression''
      | Inr (p # _) \<Rightarrow> build_expr p)"

subsection \<open>The meaning of a parse tree\<close>

text \<open>What the grammar \<^verbatim>\<open>filter.pest\<close> says of a pair: the rules of its inner pairs, and the text of the
  leaves.  Rules marked silent (\<^verbatim>\<open>_\<close>) produce no pair.\<close>

definition field_names :: "string list" where
  "field_names = [''prefix_len'', ''as_path_len'', ''origin_as'', ''peer_as'', ''rpki'', ''action'',
     ''community'', ''local_pref'', ''med'']"

definition op_names :: "string list" where
  "op_names = [''>='', ''<='', ''!='', ''=='', ''='', ''>'', ''<'']"

definition is_digits :: "string \<Rightarrow> bool" where
  "is_digits s \<longleftrightarrow> s \<noteq> [] \<and> list_all (\<lambda>c. to_digit 10 c \<noteq> None) s"

definition is_quoted :: "string \<Rightarrow> bool" where
  "is_quoted s \<longleftrightarrow> 2 \<le> length s \<and> (hd s = CHR 0x27 \<and> last s = CHR 0x27 \<or> hd s = CHR 0x22 \<and> last s = CHR 0x22)"

definition leaf_ok :: "rule \<Rightarrow> string \<Rightarrow> bool" where
  "leaf_ok r s =
     (case r of
        Rule_EOI \<Rightarrow> s = []
      | Rule_not_kw \<Rightarrow> s = ''NOT''
      | Rule_field \<Rightarrow> s \<in> set field_names
      | Rule_op \<Rightarrow> s \<in> set op_names
      | Rule_string \<Rightarrow> is_quoted s
      | Rule_integer \<Rightarrow> is_digits s
      | Rule_flag \<Rightarrow> s \<in> {''has_prepend'', ''true'', ''false''}
      | _ \<Rightarrow> False)"

definition rules_ok :: "rule \<Rightarrow> rule list \<Rightarrow> bool" where
  "rules_ok r rs =
     (case r of
        Rule_expr \<Rightarrow> rs = [Rule_or_expr, Rule_EOI]
      | Rule_or_expr \<Rightarrow> rs \<noteq> [] \<and> set rs \<subseteq> {Rule_and_expr}
      | Rule_and_expr \<Rightarrow> rs \<noteq> [] \<and> set rs \<subseteq> {Rule_not_expr}
      | Rule_not_expr \<Rightarrow> rs = [Rule_not_kw, Rule_atom] \<or> rs = [Rule_atom]
      | Rule_atom \<Rightarrow> rs = [Rule_or_expr] \<or> rs = [Rule_membership] \<or> rs = [Rule_comparison] \<or> rs = [Rule_flag]
      | Rule_comparison \<Rightarrow> rs = [Rule_field, Rule_op, Rule_value]
      | Rule_membership \<Rightarrow> rs = [Rule_field, Rule_int_list] \<or> rs = [Rule_field, Rule_not_kw, Rule_int_list]
      | Rule_value \<Rightarrow> rs = [Rule_string] \<or> rs = [Rule_integer]
      | Rule_int_list \<Rightarrow> rs \<noteq> [] \<and> set rs \<subseteq> {Rule_integer}
      | _ \<Rightarrow> rs = [])"

definition inner_rule :: "rule \<Rightarrow> bool" where
  "inner_rule r \<longleftrightarrow> r \<in> {Rule_expr, Rule_or_expr, Rule_and_expr, Rule_not_expr, Rule_atom, Rule_comparison,
     Rule_membership, Rule_value, Rule_int_list}"

fun shaped :: "pair \<Rightarrow> bool" where
  "shaped (Pair r s inner) \<longleftrightarrow>
     rules_ok r (map as_rule inner) \<and> (inner_rule r \<or> leaf_ok r s) \<and> (\<forall>p \<in> set inner. shaped p)"

text \<open>Decimal value; the widths and the operators of the numeric fields.\<close>

definition dec_value :: "string \<Rightarrow> nat" where
  "dec_value s = foldl (\<lambda>a c. a * 10 + the (to_digit 10 c)) 0 s"

definition num_limit :: "string \<Rightarrow> nat option" where
  "num_limit f =
     (if f = ''prefix_len'' then Some (2 ^ 8) else if f = ''as_path_len'' then Some (2 ^ 64)
      else if f = ''local_pref'' \<or> f = ''med'' then Some (2 ^ 32) else None)"

definition num_field :: "string \<Rightarrow> route_ctx \<Rightarrow> nat" where
  "num_field f ctx =
     (if f = ''prefix_len'' then unat (cx_prefix_len ctx) else if f = ''as_path_len'' then cx_as_path_len ctx
      else if f = ''local_pref'' then unat (opt_or (cx_local_pref ctx) 100)
      else unat (opt_or (cx_med ctx) 0))"

definition num_supported :: "string \<Rightarrow> string \<Rightarrow> bool" where
  "num_supported f oper \<longleftrightarrow> oper \<in> {''>'', ''<'', ''=='', ''=''}
     \<or> f \<in> {''prefix_len'', ''as_path_len''} \<and> oper \<in> {''>='', ''<=''}"

definition op_holds :: "string \<Rightarrow> nat \<Rightarrow> nat \<Rightarrow> bool" where
  "op_holds oper a b =
     (if oper = ''>'' then a > b else if oper = ''<'' then a < b else if oper = ''>='' then a \<ge> b
      else if oper = ''<='' then a \<le> b else a = b)"

definition literal :: "string \<Rightarrow> string" where
  "literal s = (if is_quoted s then butlast (tl s) else s)"

definition cmp_supported :: "string \<Rightarrow> string \<Rightarrow> pair \<Rightarrow> bool" where
  "cmp_supported f oper v =
     (case num_limit f of
        Some m \<Rightarrow> as_rule v = Rule_integer \<and> dec_value (as_str v) < m \<and> num_supported f oper
      | None \<Rightarrow> f \<in> {''rpki'', ''action'', ''community''} \<and> oper \<in> {''=='', ''=''} \<or> f = ''rpki'' \<and> oper = ''!='')"

definition cmp_holds :: "string \<Rightarrow> string \<Rightarrow> pair \<Rightarrow> route_ctx \<Rightarrow> bool" where
  "cmp_holds f oper v ctx =
     (case num_limit f of
        Some m \<Rightarrow> op_holds oper (num_field f ctx) (dec_value (as_str v))
      | None \<Rightarrow>
          (let t = literal (as_str v) in
           if f = ''rpki'' then (cx_rpki ctx = t) = (oper \<noteq> ''!='')
           else if f = ''action'' then cx_action ctx = t
           else t \<in> cx_community_set ctx))"

definition member_supported :: "string \<Rightarrow> pair list \<Rightarrow> bool" where
  "member_supported f ints \<longleftrightarrow> f \<in> {''origin_as'', ''peer_as''} \<and> (\<forall>p \<in> set ints. dec_value (as_str p) < 2 ^ 32)"

definition member_holds :: "string \<Rightarrow> bool \<Rightarrow> pair list \<Rightarrow> route_ctx \<Rightarrow> bool" where
  "member_holds f negated ints ctx \<longleftrightarrow>
     (unat (if f = ''origin_as'' then cx_origin_asn ctx else cx_peer_as ctx) \<in> (dec_value \<circ> as_str) ` set ints) \<noteq> negated"

fun supported :: "pair \<Rightarrow> bool" where
  "supported (Pair r s inner) =
     (case r of
        Rule_comparison \<Rightarrow> cmp_supported (as_str (inner ! 0)) (as_str (inner ! 1)) (hd (into_inner (inner ! 2)))
      | Rule_membership \<Rightarrow> member_supported (as_str (hd inner)) (into_inner (last inner))
      | _ \<Rightarrow> (\<forall>p \<in> set inner. supported p))"

fun denote :: "pair \<Rightarrow> route_ctx \<Rightarrow> bool" where
  "denote (Pair r s inner) = (\<lambda>ctx.
     case r of
        Rule_or_expr \<Rightarrow> (\<exists>p \<in> set inner. denote p ctx)
      | Rule_and_expr \<Rightarrow> (\<forall>p \<in> set inner. denote p ctx)
      | Rule_not_expr \<Rightarrow>
          (case inner of
             [] \<Rightarrow> False
           | p # ps \<Rightarrow> (case ps of [] \<Rightarrow> denote p ctx | q # _ \<Rightarrow> \<not> denote q ctx))
      | Rule_comparison \<Rightarrow> cmp_holds (as_str (inner ! 0)) (as_str (inner ! 1)) (hd (into_inner (inner ! 2))) ctx
      | Rule_membership \<Rightarrow> member_holds (as_str (hd inner)) (length inner = 3) (into_inner (last inner)) ctx
      | Rule_flag \<Rightarrow> (if s = ''has_prepend'' then cx_has_prepend ctx else s = ''true'')
      | _ \<Rightarrow> (case inner of [] \<Rightarrow> False | p # _ \<Rightarrow> denote p ctx))"

subsection \<open>The builder implements the meaning\<close>

text \<open>The result \<open>r\<close> is an expression with meaning \<open>D\<close> when \<open>b\<close> holds, and an error otherwise.\<close>

definition builds :: "expr text_result \<Rightarrow> bool \<Rightarrow> (route_ctx \<Rightarrow> bool) \<Rightarrow> bool" where
  "builds r b D \<longleftrightarrow> (if b then \<exists>e. r = Ok e \<and> (\<forall>ctx. eval e ctx = D ctx) else \<exists>msg. r = Err msg)"

lemma builds_rbind:
  assumes "builds r b D"
    and "\<And>e. r = Ok e \<Longrightarrow> (\<And>ctx. eval e ctx = D ctx) \<Longrightarrow> builds (f e) c E"
  shows "builds (rbind r f) (b \<and> c) E"
  using assms by (cases b) (auto simp: builds_def)

lemma dec_value_digits:
  "list_all (\<lambda>c. to_digit 10 c \<noteq> None) s
   \<Longrightarrow> parse_digits limit acc s =
      (let v = foldl (\<lambda>a c. a * 10 + the (to_digit 10 c)) acc s in
       if s = [] \<or> v < limit then Inr v else Inl PosOverflow)"
proof (induction s arbitrary: acc)
  case (Cons c s)
  then obtain d where d: "to_digit 10 c = Some d" by auto
  let ?v = "foldl (\<lambda>a c. a * 10 + the (to_digit 10 c)) (acc * 10 + d) s"
  have "acc * 10 + d \<le> ?v"
  proof -
    have "n \<le> foldl (\<lambda>a c. a * 10 + the (to_digit 10 c)) n u" for n u
    proof (induction u arbitrary: n)
      case (Cons c u)
      show ?case using Cons [of "n * 10 + the (to_digit 10 c)"] by simp
    qed simp
    then show ?thesis .
  qed
  with Cons d show ?case by (auto simp: Let_def)
qed simp

lemma to_digit_not: "to_digit 10 CHR ''+'' = None" "to_digit 10 CHR ''-'' = None"
  "to_digit 10 CHR 0x27 = None" "to_digit 10 CHR 0x22 = None"
  by (simp_all add: to_digit_def)

lemma parse_unsigned_digits:
  assumes "is_digits s"
  shows "parse_unsigned limit s = (if dec_value s < limit then Inr (dec_value s) else Inl PosOverflow)"
proof -
  obtain c u where s: "s = c # u" "to_digit 10 c \<noteq> None" using assms by (cases s) (auto simp: is_digits_def)
  then have "c \<noteq> CHR ''+''" "s \<noteq> ''-''" using to_digit_not by auto
  then show ?thesis
    using s assms dec_value_digits [of s limit 0]
    by (auto simp: parse_unsigned_def dec_value_def is_digits_def Let_def)
qed

lemma parse_unsigned_quoted: "is_quoted s \<Longrightarrow> parse_unsigned limit s = Inl InvalidDigit"
  by (cases s) (auto simp: parse_unsigned_def is_quoted_def to_digit_not)

lemma parse_uint_digits:
  "is_digits s \<Longrightarrow> (parse_uint s :: parse_int_error + 'a::len word)
     = (if dec_value s < 2 ^ LENGTH('a) then Inr (word_of_nat (dec_value s)) else Inl PosOverflow)"
  by (simp add: parse_uint_def parse_unsigned_digits)

lemma parse_uint_quoted: "is_quoted s \<Longrightarrow> parse_uint s = Inl InvalidDigit"
  by (simp add: parse_uint_def parse_unsigned_quoted)

lemma digit_not_ws: "to_digit 10 c \<noteq> None \<Longrightarrow> \<not> ws_start c \<and> \<not> ws_end c"
  by (auto simp: ws_start_def ws_end_def ws_encodings_def to_digit_def)

lemma trim_digits:
  assumes "is_digits s"
  shows "trim s = s"
proof -
  have "to_digit 10 (hd s) \<noteq> None" "to_digit 10 (last s) \<noteq> None"
    using assms hd_in_set [of s] last_in_set [of s] by (auto simp: is_digits_def list_all_iff)
  then show ?thesis by (intro trim_id disjI2) (simp add: digit_not_ws)
qed

lemma quote_not_ws: "\<not> ws_start CHR 0x27" "\<not> ws_end CHR 0x27" "\<not> ws_start CHR 0x22" "\<not> ws_end CHR 0x22"
  by (simp_all add: ws_start_def ws_end_def ws_encodings_def)

lemma trim_quoted: "is_quoted s \<Longrightarrow> trim s = s"
  by (intro trim_id disjI2 conjI) (auto simp: is_quoted_def quote_not_ws)

lemma trim_names: "s \<in> set field_names \<union> set op_names \<union> {''has_prepend'', ''true'', ''false''} \<Longrightarrow> trim s = s"
  by (intro trim_id) (auto simp: field_names_def op_names_def ws_start_def ws_end_def ws_encodings_def)

lemma is_quoted_not_digits: "is_quoted s \<Longrightarrow> \<not> is_digits s"
  by (cases s) (auto simp: is_quoted_def is_digits_def to_digit_not)

lemma strip_quotes_literal:
  assumes "is_quoted s \<or> is_digits s"
  shows "strip_quotes s = Ok (literal s)"
proof (cases "is_quoted s")
  case True
  then have "take (length s - 2) (drop 1 s) = butlast (tl s)"
    by (cases s) (auto simp: is_quoted_def butlast_conv_take)
  with True show ?thesis
    by (auto simp: strip_quotes_def trim_quoted literal_def slice_def Let_def is_quoted_def numeral_2_eq_2)
next
  case False
  with assms have "is_digits s" by simp
  then have "hd s \<noteq> CHR 0x27 \<and> hd s \<noteq> CHR 0x22" using to_digit_not by (cases s) (auto simp: is_digits_def)
  with \<open>is_digits s\<close> False show ?thesis by (simp add: strip_quotes_def trim_digits literal_def Let_def)
qed

definition leaf_value :: "pair \<Rightarrow> bool" where
  "leaf_value v \<longleftrightarrow> (case as_rule v of Rule_string \<Rightarrow> is_quoted (as_str v) | Rule_integer \<Rightarrow> is_digits (as_str v) | _ \<Rightarrow> False)"

lemma leaf_value_cases:
  assumes "leaf_value v"
  obtains "as_rule v = Rule_string" "is_quoted (as_str v)" | "as_rule v = Rule_integer" "is_digits (as_str v)"
  using assms by (auto simp: leaf_value_def split: rule.splits)

lemma unat_compare:
  fixes w :: "'a::len word"
  assumes "n < 2 ^ LENGTH('a)"
  shows "w > word_of_nat n \<longleftrightarrow> unat w > n" "w < word_of_nat n \<longleftrightarrow> unat w < n"
    "w \<ge> word_of_nat n \<longleftrightarrow> unat w \<ge> n" "w \<le> word_of_nat n \<longleftrightarrow> unat w \<le> n" "w = word_of_nat n \<longleftrightarrow> unat w = n"
proof -
  have [simp]: "unat (word_of_nat n :: 'a word) = n" using assms by (simp add: unat_of_nat take_bit_nat_eq_self)
  show "w > word_of_nat n \<longleftrightarrow> unat w > n" "w < word_of_nat n \<longleftrightarrow> unat w < n"
    "w \<ge> word_of_nat n \<longleftrightarrow> unat w \<ge> n" "w \<le> word_of_nat n \<longleftrightarrow> unat w \<le> n"
    by (simp_all add: word_less_nat_alt word_le_nat_alt)
  show "w = word_of_nat n \<longleftrightarrow> unat w = n" by (simp add: word_unat_eq_iff)
qed

lemma num_limit_fields: "num_limit f = Some m \<Longrightarrow> f \<in> {''prefix_len'', ''as_path_len'', ''local_pref'', ''med''}"
  by (simp add: num_limit_def split: if_splits)

lemma num_limit_simps [simp]:
  "num_limit ''prefix_len'' = Some (2 ^ LENGTH(8))" "num_limit ''as_path_len'' = Some (2 ^ 64)"
  "num_limit ''local_pref'' = Some (2 ^ LENGTH(32))" "num_limit ''med'' = Some (2 ^ LENGTH(32))"
  by (simp_all add: num_limit_def)

lemma build_comparison_num:
  assumes "leaf_value v" "num_limit f = Some m"
  shows "builds (build_comparison f oper (Pair Rule_value s [v])) (cmp_supported f oper v) (cmp_holds f oper v)"
  using assms(1)
proof (cases rule: leaf_value_cases)
  case 1
  have "\<not> cmp_supported f oper v" using 1 assms(2) by (simp add: cmp_supported_def)
  with num_limit_fields [OF assms(2)] 1 show ?thesis
    by (elim insertE) (simp_all add: builds_def build_comparison_def next_pair_def trim_quoted parse_int_def
        parse_uint_quoted parse_unsigned_quoted Let_def)
next
  case v: 2
  note defs = builds_def cmp_supported_def cmp_holds_def build_comparison_def next_pair_def trim_digits parse_int_def
    num_supported_def op_holds_def num_field_def Let_def
  note parse = parse_uint_digits [of "as_str v", where 'a = 8] parse_uint_digits [of "as_str v", where 'a = 32]
    parse_unsigned_digits [of "as_str v" "2 ^ 64"]
  from num_limit_fields [OF assms(2)] consider
      "f = ''prefix_len''" | "f = ''as_path_len''" | "f = ''local_pref''" | "f = ''med''" by blast
  then show ?thesis
  proof cases
    case 1
    then show ?thesis using v parse
      by (cases "dec_value (as_str v) < 2 ^ LENGTH(8)") (simp_all add: defs unat_compare)
  next
    case 2
    then show ?thesis using v parse by (cases "dec_value (as_str v) < 2 ^ 64") (simp_all add: defs)
  next
    case 3
    then show ?thesis using v parse
      by (cases "dec_value (as_str v) < 2 ^ LENGTH(32)") (simp_all add: defs unat_compare)
  next
    case 4
    then show ?thesis using v parse
      by (cases "dec_value (as_str v) < 2 ^ LENGTH(32)") (simp_all add: defs unat_compare)
  qed
qed

lemma build_comparison_text:
  assumes "leaf_value v" "num_limit f = None"
  shows "builds (build_comparison f oper (Pair Rule_value s [v])) (cmp_supported f oper v) (cmp_holds f oper v)"
proof -
  have "strip_quotes (as_str v) = Ok (literal (as_str v))"
    using assms(1) by (cases rule: leaf_value_cases) (simp_all add: strip_quotes_literal)
  with assms(2) show ?thesis
    by (auto simp: builds_def cmp_supported_def cmp_holds_def build_comparison_def next_pair_def num_limit_def Let_def
        split: if_splits)
qed

lemma rmap_ints:
  assumes "\<forall>p \<in> set ps. is_digits (as_str p)"
  shows "rmap (\<lambda>p. parse_int (parse_uint (trim (as_str p)) :: parse_int_error + u32)) ps =
    (if \<forall>p \<in> set ps. dec_value (as_str p) < 2 ^ 32 then Ok (map (word_of_nat \<circ> dec_value \<circ> as_str) ps)
     else Err (show_parse_int_error PosOverflow))"
  using assms by (induction ps) (auto simp: parse_int_def trim_digits parse_uint_digits)

lemma build_membership_spec:
  assumes "f \<in> set field_names" "inner = [Pair Rule_field f [], Pair Rule_int_list s ints] \<and> \<not> negated
      \<or> inner = [Pair Rule_field f [], Pair Rule_not_kw s' [], Pair Rule_int_list s ints] \<and> negated"
    "\<forall>p \<in> set ints. as_rule p = Rule_integer \<and> is_digits (as_str p)"
  shows "builds (build_membership inner) (member_supported f ints) (member_holds f negated ints)"
proof -
  have [simp]: "filter (\<lambda>p. as_rule p = Rule_integer) ints = ints" using assms(3) by simp
  have mem: "w \<in> set (map (word_of_nat \<circ> dec_value \<circ> as_str) ints) \<longleftrightarrow> unat w \<in> (dec_value \<circ> as_str) ` set ints"
    if "\<forall>p \<in> set ints. dec_value (as_str p) < 2 ^ 32" for w :: u32
    using that unat_compare(5) [where 'a = 32 and w = w] by (auto simp: image_iff)
  have trimf: "trim f = f" using assms(1) by (simp add: trim_names)
  have r: "build_membership inner =
      (if \<forall>p \<in> set ints. dec_value (as_str p) < 2 ^ 32
       then (let asns = map (word_of_nat \<circ> dec_value \<circ> as_str) ints in
             if f = ''origin_as'' \<and> \<not> negated then Ok (OriginAsIn (set asns))
             else if f = ''origin_as'' then Ok (OriginAsNotIn (set asns))
             else if f = ''peer_as'' \<and> \<not> negated then Ok (PeerAsIn (set asns))
             else if f = ''peer_as'' then Ok (PeerAsNotIn (set asns))
             else Err (''IN membership not supported for field '' @ [CHR 0x27] @ f @ [CHR 0x27]))
       else Err (show_parse_int_error PosOverflow))"
    using assms(2)
  proof (elim disjE conjE)
    assume "inner = [Pair Rule_field f [], Pair Rule_int_list s ints]" "\<not> negated"
    then show ?thesis using assms(3) trimf
      by (simp only: build_membership_def next_pair_def) (simp add: rmap_ints Let_def)
  next
    assume "inner = [Pair Rule_field f [], Pair Rule_not_kw s' [], Pair Rule_int_list s ints]" negated
    then show ?thesis using assms(3) trimf
      by (simp only: build_membership_def next_pair_def) (simp add: rmap_ints Let_def)
  qed
  show ?thesis
  proof (cases "\<forall>p \<in> set ints. dec_value (as_str p) < 2 ^ 32")
    case True
    note m = mem [OF True]
    let ?S = "set (map (word_of_nat \<circ> dec_value \<circ> as_str) ints) :: u32 set"
    have holds: "member_holds f n ints ctx
        \<longleftrightarrow> ((if f = ''origin_as'' then cx_origin_asn ctx else cx_peer_as ctx) \<in> ?S) \<noteq> n" for n ctx
      unfolding member_holds_def by (simp only: m)
    have "member_supported f ints \<longleftrightarrow> f = ''origin_as'' \<or> f = ''peer_as''"
      using True by (auto simp: member_supported_def)
    then show ?thesis
      unfolding r builds_def holds using True by (cases negated) (simp_all add: Let_def del: set_map)
  next
    case False
    then have "\<not> member_supported f ints" by (simp only: member_supported_def not_False_eq_True simp_thms)
    then show ?thesis unfolding r builds_def by (simp only: False if_False) simp
  qed
qed

lemma build_comparison_spec:
  "leaf_value v \<Longrightarrow>
   builds (build_comparison f oper (Pair Rule_value s [v])) (cmp_supported f oper v) (cmp_holds f oper v)"
  by (cases "num_limit f") (simp_all add: build_comparison_num build_comparison_text)

lemma builds_cong: "builds r b D \<Longrightarrow> b = c \<Longrightarrow> (\<And>ctx. D ctx = E ctx) \<Longrightarrow> builds r c E"
  by (cases c) (auto simp: builds_def)

lemma shaped_inner: "shaped p \<Longrightarrow> q \<in> set (into_inner p) \<Longrightarrow> shaped q"
  by (cases p) simp

lemma shaped_leaf:
  assumes "shaped p" "as_rule p = r" "\<not> inner_rule r"
  shows "p = Pair r (as_str p) [] \<and> leaf_ok r (as_str p)"
  using assms by (cases p) (auto simp: inner_rule_def rules_ok_def split: rule.splits)

lemma shaped_leaf_supported: "shaped p \<Longrightarrow> \<not> inner_rule (as_rule p) \<Longrightarrow> supported p"
  by (cases p) (auto simp: inner_rule_def rules_ok_def split: rule.splits)

lemma shaped_value:
  assumes "shaped p" "as_rule p = Rule_value"
  obtains s v where "p = Pair Rule_value s [v]" "leaf_value v"
proof -
  obtain s v where p: "p = Pair Rule_value s [v]" "as_rule v = Rule_string \<or> as_rule v = Rule_integer" "shaped v"
    using assms by (cases p) (auto simp: rules_ok_def)
  then have "leaf_value v"
    using shaped_leaf [OF p(3) refl] by (auto simp: leaf_value_def inner_rule_def leaf_ok_def)
  with p that show thesis by blast
qed

lemma shaped_ints:
  assumes "shaped p" "as_rule p = Rule_int_list"
  shows "\<forall>q \<in> set (into_inner p). as_rule q = Rule_integer \<and> is_digits (as_str q)"
proof
  fix q
  assume "q \<in> set (into_inner p)"
  with assms have "shaped q" "as_rule q = Rule_integer" by (cases p; auto simp: rules_ok_def)+
  then show "as_rule q = Rule_integer \<and> is_digits (as_str q)"
    using shaped_leaf [of q Rule_integer] by (simp add: inner_rule_def leaf_ok_def)
qed

lemma build_comparison_shaped:
  assumes "shaped (Pair Rule_comparison s inner)"
  shows "builds (build_expr (Pair Rule_comparison s inner)) (supported (Pair Rule_comparison s inner))
    (denote (Pair Rule_comparison s inner))"
proof -
  obtain f oper val where inner: "inner = [f, oper, val]" "as_rule f = Rule_field" "as_rule oper = Rule_op"
    "as_rule val = Rule_value" "shaped f" "shaped oper" "shaped val"
    using assms by (auto simp: rules_ok_def)
  obtain t v where val: "val = Pair Rule_value t [v]" "leaf_value v" using shaped_value [OF inner(7,4)] .
  have "trim (as_str f) = as_str f" "trim (as_str oper) = as_str oper"
    using shaped_leaf [OF inner(5,2)] shaped_leaf [OF inner(6,3)]
    by (simp_all add: inner_rule_def leaf_ok_def trim_names)
  then show ?thesis using build_comparison_spec [OF val(2)] by (simp add: inner(1) val(1) next_pair_def)
qed

lemma build_membership_shaped:
  assumes "shaped (Pair Rule_membership s inner)"
  shows "builds (build_expr (Pair Rule_membership s inner)) (supported (Pair Rule_membership s inner))
    (denote (Pair Rule_membership s inner))"
proof -
  have field: "f = Pair Rule_field (as_str f) [] \<and> as_str f \<in> set field_names"
    if "shaped f" "as_rule f = Rule_field" for f
    using shaped_leaf [OF that] by (simp add: inner_rule_def leaf_ok_def)
  from assms consider
      f l where "inner = [f, l]" "as_rule f = Rule_field" "as_rule l = Rule_int_list" "shaped f" "shaped l"
    | f n l where "inner = [f, n, l]" "as_rule f = Rule_field" "as_rule n = Rule_not_kw" "as_rule l = Rule_int_list"
        "shaped f" "shaped n" "shaped l"
    by (auto simp: rules_ok_def)
  then show ?thesis
  proof cases
    case 1
    have l: "l = Pair Rule_int_list (as_str l) (into_inner l)" using 1(3) by (cases l) simp
    have "inner = [Pair Rule_field (as_str f) [], Pair Rule_int_list (as_str l) (into_inner l)]"
      using 1(1) field [OF 1(4,2)] l by metis
    from build_membership_spec [of "as_str f" inner "as_str l" "into_inner l" False] this field [OF 1(4,2)]
      shaped_ints [OF 1(5,3)]
    show ?thesis using 1(1) by simp
  next
    case 2
    have l: "l = Pair Rule_int_list (as_str l) (into_inner l)" using 2(4) by (cases l) simp
    have n: "n = Pair Rule_not_kw (as_str n) []" using shaped_leaf [OF 2(6,3)] by (simp add: inner_rule_def)
    have "inner = [Pair Rule_field (as_str f) [], Pair Rule_not_kw (as_str n) [], Pair Rule_int_list (as_str l) (into_inner l)]"
      using 2(1) field [OF 2(5,2)] l n by metis
    from build_membership_spec [of "as_str f" inner "as_str l" "into_inner l" True "as_str n"] this field [OF 2(5,2)]
      shaped_ints [OF 2(7,4)]
    show ?thesis using 2(1) by simp
  qed
qed

lemma build_flag_shaped:
  assumes "shaped (Pair Rule_flag s inner)"
  shows "builds (build_expr (Pair Rule_flag s inner)) (supported (Pair Rule_flag s inner)) (denote (Pair Rule_flag s inner))"
proof -
  have "s \<in> {''has_prepend'', ''true'', ''false''}" "inner = []"
    using assms by (simp_all add: rules_ok_def inner_rule_def leaf_ok_def)
  moreover from this(1) have "trim s = s" by (intro trim_names) blast
  ultimately show ?thesis by (elim insertE) (auto simp: builds_def build_flag_def)
qed

lemma build_chain_spec:
  assumes "\<And>p. p \<in> set ps \<Longrightarrow> builds (build_expr p) (supported p) (denote p)"
  shows "builds (build_chain Or left ps) (\<forall>p \<in> set ps. supported p) (\<lambda>ctx. eval left ctx \<or> (\<exists>p \<in> set ps. denote p ctx))"
    and "builds (build_chain And left ps) (\<forall>p \<in> set ps. supported p) (\<lambda>ctx. eval left ctx \<and> (\<forall>p \<in> set ps. denote p ctx))"
  using assms
proof (induction ps arbitrary: left)
  case (Cons p ps)
  {
    case 1
    have "builds (build_chain Or left (p # ps)) (supported p \<and> (\<forall>p \<in> set ps. supported p))
        (\<lambda>ctx. eval left ctx \<or> (\<exists>q \<in> set (p # ps). denote q ctx))"
      unfolding build_chain.simps
      by (rule builds_rbind [OF 1 [of p]], simp) (rule builds_cong [OF Cons.IH(1)], auto intro: 1)
    then show ?case by simp
  next
    case 2
    have "builds (build_chain And left (p # ps)) (supported p \<and> (\<forall>p \<in> set ps. supported p))
        (\<lambda>ctx. eval left ctx \<and> (\<forall>q \<in> set (p # ps). denote q ctx))"
      unfolding build_chain.simps
      by (rule builds_rbind [OF 2 [of p]], simp) (rule builds_cong [OF Cons.IH(2)], auto intro: 2)
    then show ?case by simp
  }
qed (simp_all add: builds_def)

definition builder_rule :: "rule \<Rightarrow> bool" where
  "builder_rule r \<longleftrightarrow> r \<in> {Rule_expr, Rule_or_expr, Rule_and_expr, Rule_not_expr, Rule_atom, Rule_comparison,
     Rule_membership, Rule_flag}"

lemma build_expr_spec:
  "shaped p \<Longrightarrow> builder_rule (as_rule p) \<Longrightarrow> builds (build_expr p) (supported p) (denote p)"
proof (induction p)
  case (Pair r s inner)
  have IH: "builds (build_expr q) (supported q) (denote q)" if "q \<in> set inner" "builder_rule (as_rule q)" for q
    using Pair that by simp
  from Pair.prems(2) consider "r = Rule_expr" | "r = Rule_or_expr" | "r = Rule_and_expr" | "r = Rule_not_expr" | "r = Rule_atom"
    | "r = Rule_comparison" | "r = Rule_membership" | "r = Rule_flag"
    by (auto simp: builder_rule_def)
  then show ?case
  proof cases
    case 1
    then obtain q e where "inner = [q, e]" "as_rule q = Rule_or_expr" "as_rule e = Rule_EOI" "shaped e"
      using Pair.prems(1) by (auto simp: rules_ok_def)
    moreover from this(3,4) have "supported e" by (simp add: shaped_leaf_supported inner_rule_def)
    ultimately show ?thesis using IH [of q] 1 by (simp add: builder_rule_def)
  next
    case 2
    then obtain q qs where inner: "inner = q # qs" "\<forall>p \<in> set inner. as_rule p = Rule_and_expr"
      using Pair.prems(1) by (cases inner) (auto simp: rules_ok_def)
    have bs: "builds (build_expr p) (supported p) (denote p)" if "p \<in> set inner" for p
      using inner(2) that by (intro IH) (auto simp: builder_rule_def)
    have "builds (rbind (build_expr q) (\<lambda>left. build_chain Or left qs)) (supported q \<and> (\<forall>p \<in> set qs. supported p))
        (\<lambda>ctx. denote q ctx \<or> (\<exists>p \<in> set qs. denote p ctx))"
      by (rule builds_rbind [OF bs], simp add: inner(1)) (rule builds_cong [OF build_chain_spec(1)], auto intro: bs simp: inner(1))
    then show ?thesis using 2 by (simp add: inner(1))
  next
    case 3
    then obtain q qs where inner: "inner = q # qs" "\<forall>p \<in> set inner. as_rule p = Rule_not_expr"
      using Pair.prems(1) by (cases inner) (auto simp: rules_ok_def)
    have bs: "builds (build_expr p) (supported p) (denote p)" if "p \<in> set inner" for p
      using inner(2) that by (intro IH) (auto simp: builder_rule_def)
    have "builds (rbind (build_expr q) (\<lambda>left. build_chain And left qs)) (supported q \<and> (\<forall>p \<in> set qs. supported p))
        (\<lambda>ctx. denote q ctx \<and> (\<forall>p \<in> set qs. denote p ctx))"
      by (rule builds_rbind [OF bs], simp add: inner(1)) (rule builds_cong [OF build_chain_spec(2)], auto intro: bs simp: inner(1))
    then show ?thesis using 3 by (simp add: inner(1))
  next
    case 4
    with Pair.prems(1) consider a where "inner = [a]" "as_rule a = Rule_atom"
      | n a where "inner = [n, a]" "as_rule n = Rule_not_kw" "as_rule a = Rule_atom" "shaped n"
      by (auto simp: rules_ok_def)
    then show ?thesis
    proof cases
      case 1
      then show ?thesis using IH [of a] 4 by (simp add: builder_rule_def)
    next
      case n: 2
      then have "supported n" by (simp add: shaped_leaf_supported inner_rule_def)
      moreover have "builds (rbind (build_expr a) (\<lambda>e. Ok (Not e))) (supported a \<and> True) (\<lambda>ctx. \<not> denote a ctx)"
        using n by (intro builds_rbind [OF IH [of a]]) (simp_all add: builder_rule_def builds_def)
      ultimately show ?thesis using n 4 by simp
    qed
  next
    case 5
    then obtain q where "inner = [q]" "builder_rule (as_rule q)"
      using Pair.prems(1) by (auto simp: rules_ok_def builder_rule_def)
    then show ?thesis using IH [of q] 5 by simp
  qed (use Pair.prems(1) build_comparison_shaped build_membership_shaped build_flag_shaped in blast)+
qed

text \<open>The documented behaviour of the generated parser: on success it returns one pair, for the start rule,
  with the shape that the grammar gives it.\<close>

definition pest_ok :: "(string \<Rightarrow> string + pair list) \<Rightarrow> bool" where
  "pest_ok pest \<longleftrightarrow> (\<forall>s ps. pest s = Inr ps \<longrightarrow> (\<exists>p. ps = [p] \<and> as_rule p = Rule_expr \<and> shaped p))"

text \<open>C10: a text that the grammar accepts is compiled to an expression exactly when its comparisons are supported
  and its numbers fit, and the expression then means what the parse tree says: disjunction and conjunction of
  the operands, negation of the atom after \<^verbatim>\<open>NOT\<close>, comparison of the numeric value of the field with the
  number, equality of texts without their quotes, membership of an AS number.  Otherwise it is an error, never a panic.\<close>

theorem parse_expr_spec:
  assumes "pest_ok pest" "pest (trim input) = Inr ps"
  shows "if supported (hd ps)
     then \<exists>e. parse_expr pest input = Ok e \<and> (\<forall>ctx. eval e ctx = denote (hd ps) ctx)
     else \<exists>msg. parse_expr pest input = Err msg"
proof -
  obtain p where p: "ps = [p]" "as_rule p = Rule_expr" "shaped p" using assms unfolding pest_ok_def by blast
  then have "builds (build_expr p) (supported p) (denote p)"
    by (intro build_expr_spec) (simp_all add: builder_rule_def)
  then show ?thesis using assms(2) p(1) by (simp add: parse_expr_def builds_def)
qed

text \<open>The parse tree of \<^verbatim>\<open>NOT prefix_len > 24 OR peer_as IN [701]\<close>.\<close>

definition example_text :: string where
  "example_text = ''NOT prefix_len > 24 OR peer_as IN [701]''"

definition example_tree :: pair where
  "example_tree =
     Pair Rule_expr example_text
      [Pair Rule_or_expr example_text
        [Pair Rule_and_expr ''NOT prefix_len > 24''
          [Pair Rule_not_expr ''NOT prefix_len > 24''
            [Pair Rule_not_kw ''NOT'' [],
             Pair Rule_atom ''prefix_len > 24''
              [Pair Rule_comparison ''prefix_len > 24''
                [Pair Rule_field ''prefix_len'' [], Pair Rule_op ''>'' [],
                 Pair Rule_value ''24'' [Pair Rule_integer ''24'' []]]]]],
         Pair Rule_and_expr ''peer_as IN [701]''
          [Pair Rule_not_expr ''peer_as IN [701]''
            [Pair Rule_atom ''peer_as IN [701]''
              [Pair Rule_membership ''peer_as IN [701]''
                [Pair Rule_field ''peer_as'' [], Pair Rule_int_list ''701'' [Pair Rule_integer ''701'' []]]]]]],
       Pair Rule_EOI [] []]"

lemma example_tree_shaped: "as_rule example_tree = Rule_expr" "shaped example_tree"
  by (simp_all add: example_tree_def rules_ok_def inner_rule_def leaf_ok_def field_names_def op_names_def is_digits_def
      to_digit_def)

lemma example_tree_supported: "supported example_tree"
  by (simp add: example_tree_def cmp_supported_def num_supported_def member_supported_def dec_value_def to_digit_def)

definition one_text_parser :: "string \<Rightarrow> string + pair list" where
  "one_text_parser s = (if s = example_text then Inr [example_tree] else Inl ''expected expr'')"

theorem parse_expr_spec_witness:
  "\<exists>e. parse_expr one_text_parser example_text = Ok e
     \<and> (\<forall>ctx. eval e ctx \<longleftrightarrow> unat (cx_prefix_len ctx) \<le> 24 \<or> unat (cx_peer_as ctx) = 701)"
proof -
  have "pest_ok one_text_parser"
    using example_tree_shaped by (simp add: pest_ok_def one_text_parser_def)
  moreover have "trim example_text = example_text"
    by (intro trim_id) (simp add: example_text_def ws_start_def ws_end_def ws_encodings_def)
  then have "one_text_parser (trim example_text) = Inr [example_tree]" by (simp add: one_text_parser_def)
  ultimately show ?thesis
    using parse_expr_spec [of one_text_parser example_text "[example_tree]"] example_tree_supported
    by (simp add: example_tree_def cmp_holds_def op_holds_def num_field_def member_holds_def dec_value_def to_digit_def not_less)
qed

end
