(* ===== verification/Route_Filter.thy ===== *)
theory Route_Filter
  imports Filter_Expr Attributes
begin

text \<open>
  \<^verbatim>\<open>rbmp-rib/src/filter.rs\<close>: route filters as they are loaded, their compiled form, and the engine that
  applies an ordered list of them to a route.  \<^verbatim>\<open>ipnet\<close> (parsing and containment of networks), the
  generated expression parser and \<^verbatim>\<open>serde_yaml\<close> are parameters.
\<close>

unbundle bit_operations_syntax

subsection \<open>Filters\<close>

datatype filter_action = Action_Accept | Action_Deny | Action_Tag

datatype filter_verdict = Verdict_Accept | Verdict_Deny | Verdict_Default

record route_filter =
  rf_name :: string
  rf_action :: filter_action
  rf_prefix_list :: "string list"
  rf_peer_as_list :: "u32 list"
  rf_community_list :: "string list"
  rf_peer_addr_list :: "string list"
  rf_as_path_contains :: "u32 list"
  rf_local_pref_min :: "u32 option"
  rf_local_pref_max :: "u32 option"
  rf_med_max :: "u32 option"
  rf_expr :: "string option"

datatype ipnet = IpNet_V4 ipv4net | IpNet_V6 ipv6net

record filter_deps =
  fd_parse_ipnet :: "string \<Rightarrow> ipnet option"
  fd_contains :: "ipnet \<Rightarrow> ip_addr \<Rightarrow> bool"
  fd_network :: "ipnet \<Rightarrow> ip_addr"
  fd_pest :: "string \<Rightarrow> string + pair list"
  fd_yaml :: "string \<Rightarrow> string + route_filter list"
  fd_read_file :: "string \<Rightarrow> string + string"

record compiled_filter =
  cf_raw :: route_filter
  cf_nets :: "ipnet list"
  cf_peer_nets :: "ip_addr list"
  cf_expr :: "expr option"

text \<open>An expression that does not parse is dropped with a warning.\<close>

definition compile :: "filter_deps \<Rightarrow> route_filter \<Rightarrow> compiled_filter text_result" where
  "compile D raw =
     rbind (case rf_expr raw of None \<Rightarrow> Ok None | Some e \<Rightarrow> ok (parse_expr (fd_pest D) e)) (\<lambda>compiled_expr.
       Ok \<lparr>cf_raw = raw,
           cf_nets = List.map_filter (fd_parse_ipnet D) (rf_prefix_list raw),
           cf_peer_nets = List.map_filter parse_ip (rf_peer_addr_list raw),
           cf_expr = compiled_expr\<rparr>)"

fun inner_addr :: "prefix \<Rightarrow> ip_addr" where
  "inner_addr (Prefix_V4 n) = IpV4 (net4_addr n)"
| "inner_addr (Prefix_V6 n) = IpV6 (net6_addr n)"
| "inner_addr (Prefix_Labeled p labels) = inner_addr p"
| "inner_addr (Prefix_Vpn rd p labels) = inner_addr p"

definition path_asns :: "path_attributes \<Rightarrow> u32 list" where
  "path_asns attrs = (case pa_as_path attrs of None \<Rightarrow> [] | Some p \<Rightarrow> concat (map seg_asns (segments p)))"

definition matches ::
    "filter_deps \<Rightarrow> compiled_filter \<Rightarrow> prefix \<Rightarrow> u32 \<Rightarrow> ip_addr \<Rightarrow> path_attributes \<Rightarrow> route_ctx option \<Rightarrow> bool" where
  "matches D cf p peer_as peer_addr attrs ctx =
     (let raw = cf_raw cf in
      if cf_nets cf \<noteq> [] \<and> \<not> list_ex (\<lambda>net. fd_contains D net (inner_addr p)) (cf_nets cf) then False
      else if rf_peer_as_list raw \<noteq> [] \<and> peer_as \<notin> set (rf_peer_as_list raw) then False
      else if cf_peer_nets cf \<noteq> [] \<and> peer_addr \<notin> set (cf_peer_nets cf) then False
      else if rf_community_list raw \<noteq> []
        \<and> \<not> list_ex (\<lambda>want. want \<in> set (map comm_pair (communities attrs))) (rf_community_list raw) then False
      else if rf_as_path_contains raw \<noteq> []
        \<and> \<not> list_all (\<lambda>want. want \<in> set (path_asns attrs)) (rf_as_path_contains raw) then False
      else if (case rf_local_pref_min raw of Some m \<Rightarrow> opt_or (local_pref attrs) 0 < m | None \<Rightarrow> False) then False
      else if (case rf_local_pref_max raw of Some m \<Rightarrow> opt_or (local_pref attrs) 0 > m | None \<Rightarrow> False) then False
      else if (case rf_med_max raw of Some m \<Rightarrow> opt_or (multi_exit_disc attrs) 0 > m | None \<Rightarrow> False) then False
      else if (case (cf_expr cf, ctx) of (Some e, Some c) \<Rightarrow> \<not> eval e c | _ \<Rightarrow> False) then False
      else True)"

subsection \<open>Route context\<close>

fun route_prefix_len :: "prefix \<Rightarrow> u8" where
  "route_prefix_len (Prefix_V4 n) = net4_len n"
| "route_prefix_len (Prefix_V6 n) = net6_len n"
| "route_prefix_len (Prefix_Labeled p labels) = route_prefix_len p"
| "route_prefix_len (Prefix_Vpn rd p labels) = route_prefix_len p"

definition adjacent_equal :: "'a list \<Rightarrow> bool" where
  "adjacent_equal xs = list_ex (\<lambda>(a, b). a = b) (zip xs (tl xs))"

definition build_route_ctx :: "prefix \<Rightarrow> u32 \<Rightarrow> string \<Rightarrow> path_attributes \<Rightarrow> string option \<Rightarrow> route_ctx" where
  "build_route_ctx p peer_as action attrs rpki =
     \<lparr>cx_prefix_len = route_prefix_len p,
      cx_as_path_len = length (path_asns attrs),
      cx_origin_asn = opt_or (slice_last (path_asns attrs)) 0,
      cx_has_prepend = adjacent_equal (path_asns attrs),
      cx_rpki = opt_or rpki ''unknown'',
      cx_action = action,
      cx_peer_as = peer_as,
      cx_local_pref = local_pref attrs,
      cx_med = multi_exit_disc attrs,
      cx_community_set = set (map comm_pair (communities attrs))\<rparr>"

subsection \<open>The engine\<close>

record filter_engine =
  fe_filters :: "compiled_filter list"

definition engine_new :: filter_engine where
  "engine_new = \<lparr>fe_filters = []\<rparr>"

definition load_yaml :: "filter_deps \<Rightarrow> string \<Rightarrow> filter_engine text_result" where
  "load_yaml D yaml =
     (case fd_yaml D yaml of
        Inl e \<Rightarrow> Err e
      | Inr raw \<Rightarrow> rbind (rmap (compile D) raw) (\<lambda>fs. Ok \<lparr>fe_filters = fs\<rparr>))"

definition load_file :: "filter_deps \<Rightarrow> string \<Rightarrow> filter_engine text_result" where
  "load_file D path = (case fd_read_file D path of Inl e \<Rightarrow> Err e | Inr content \<Rightarrow> load_yaml D content)"

definition engine_len :: "filter_engine \<Rightarrow> nat" where
  "engine_len en = length (fe_filters en)"

definition engine_is_empty :: "filter_engine \<Rightarrow> bool" where
  "engine_is_empty en \<longleftrightarrow> fe_filters en = []"

fun verdict_of :: "filter_action \<Rightarrow> filter_verdict" where
  "verdict_of Action_Accept = Verdict_Accept"
| "verdict_of Action_Tag = Verdict_Accept"
| "verdict_of Action_Deny = Verdict_Deny"

fun first_match ::
    "filter_deps \<Rightarrow> compiled_filter list \<Rightarrow> prefix \<Rightarrow> u32 \<Rightarrow> ip_addr \<Rightarrow> path_attributes \<Rightarrow> route_ctx option
     \<Rightarrow> filter_verdict \<times> string option" where
  "first_match D [] p peer_as peer_addr attrs ctx = (Verdict_Default, None)"
| "first_match D (cf # cfs) p peer_as peer_addr attrs ctx =
     (if matches D cf p peer_as peer_addr attrs ctx
      then (verdict_of (rf_action (cf_raw cf)), Some (rf_name (cf_raw cf)))
      else first_match D cfs p peer_as peer_addr attrs ctx)"

definition apply_with_ctx ::
    "filter_deps \<Rightarrow> filter_engine \<Rightarrow> prefix \<Rightarrow> u32 \<Rightarrow> ip_addr \<Rightarrow> path_attributes \<Rightarrow> route_ctx option
     \<Rightarrow> filter_verdict \<times> string option" where
  "apply_with_ctx D en p peer_as peer_addr attrs ctx = first_match D (fe_filters en) p peer_as peer_addr attrs ctx"

definition apply_filters ::
    "filter_deps \<Rightarrow> filter_engine \<Rightarrow> prefix \<Rightarrow> u32 \<Rightarrow> ip_addr \<Rightarrow> path_attributes \<Rightarrow> filter_verdict \<times> string option" where
  "apply_filters D en p peer_as peer_addr attrs =
     (let needs_ctx = list_ex (\<lambda>f. cf_expr f \<noteq> None) (fe_filters en);
          ctx = (if needs_ctx then Some (build_route_ctx p peer_as ''announce'' attrs None) else None)
      in first_match D (fe_filters en) p peer_as peer_addr attrs ctx)"

subsection \<open>Specification\<close>

text \<open>Containment of an address in a network, as \<^verbatim>\<open>ipnet\<close> documents it.\<close>

fun in_net :: "ipnet \<Rightarrow> ip_addr \<Rightarrow> bool" where
  "in_net (IpNet_V4 n) (IpV4 a) \<longleftrightarrow> a AND netmask4 (net4_len n) = net4_addr n AND netmask4 (net4_len n)"
| "in_net (IpNet_V6 n) (IpV6 a) \<longleftrightarrow> a AND netmask6 (net6_len n) = net6_addr n AND netmask6 (net6_len n)"
| "in_net net a \<longleftrightarrow> False"

fun net_base :: "ipnet \<Rightarrow> ip_addr" where
  "net_base (IpNet_V4 n) = IpV4 (net4_addr n AND netmask4 (net4_len n))"
| "net_base (IpNet_V6 n) = IpV6 (net6_addr n AND netmask6 (net6_len n))"

definition contains_ok :: "filter_deps \<Rightarrow> bool" where
  "contains_ok D \<longleftrightarrow> (\<forall>net a. fd_contains D net a = in_net net a)"

text \<open>What the documentation of \<^verbatim>\<open>RouteFilter\<close> says: every populated criterion holds of the route.\<close>

definition meets :: "filter_deps \<Rightarrow> route_filter \<Rightarrow> prefix \<Rightarrow> u32 \<Rightarrow> ip_addr \<Rightarrow> path_attributes \<Rightarrow> bool" where
  "meets D raw p peer_as peer_addr attrs \<longleftrightarrow>
     (rf_prefix_list raw \<noteq> [] \<longrightarrow>
        (\<exists>s \<in> set (rf_prefix_list raw). \<exists>net. fd_parse_ipnet D s = Some net \<and> in_net net (inner_addr p)))
   \<and> (rf_peer_as_list raw \<noteq> [] \<longrightarrow> peer_as \<in> set (rf_peer_as_list raw))
   \<and> (rf_peer_addr_list raw \<noteq> [] \<longrightarrow> (\<exists>s \<in> set (rf_peer_addr_list raw). parse_ip s = Some peer_addr))
   \<and> (rf_community_list raw \<noteq> [] \<longrightarrow> set (rf_community_list raw) \<inter> comm_pair ` set (communities attrs) \<noteq> {})
   \<and> set (rf_as_path_contains raw) \<subseteq> set (path_asns attrs)
   \<and> (\<forall>m. rf_local_pref_min raw = Some m \<longrightarrow> m \<le> opt_or (local_pref attrs) 0)
   \<and> (\<forall>m. rf_local_pref_max raw = Some m \<longrightarrow> opt_or (local_pref attrs) 0 \<le> m)
   \<and> (\<forall>m. rf_med_max raw = Some m \<longrightarrow> opt_or (multi_exit_disc attrs) 0 \<le> m)
   \<and> (\<forall>s ps. rf_expr raw = Some s \<and> fd_pest D (trim s) = Inr ps \<longrightarrow>
        denote (hd ps) (build_route_ctx p peer_as ''announce'' attrs None))"

text \<open>A filter whose texts all parse.\<close>

definition well_written :: "filter_deps \<Rightarrow> route_filter \<Rightarrow> bool" where
  "well_written D raw \<longleftrightarrow>
     (\<forall>s \<in> set (rf_prefix_list raw). fd_parse_ipnet D s \<noteq> None)
   \<and> (\<forall>s \<in> set (rf_peer_addr_list raw). parse_ip s \<noteq> None)
   \<and> (case rf_expr raw of None \<Rightarrow> True
      | Some s \<Rightarrow> (case fd_pest D (trim s) of Inl e \<Rightarrow> False | Inr ps \<Rightarrow> supported (hd ps)))"

lemma map_filter_all:
  "\<forall>x \<in> set xs. f x \<noteq> None \<Longrightarrow> set (List.map_filter f xs) = {y. \<exists>x \<in> set xs. f x = Some y}"
  "\<forall>x \<in> set xs. f x \<noteq> None \<Longrightarrow> List.map_filter f xs = [] \<longleftrightarrow> xs = []"
  by (induction xs) (auto simp: List.map_filter_simps)

lemma compile_well_written:
  assumes "pest_ok (fd_pest D)" "well_written D raw"
  obtains cf where "compile D raw = Ok cf" "cf_raw cf = raw"
    "set (cf_nets cf) = {net. \<exists>s \<in> set (rf_prefix_list raw). fd_parse_ipnet D s = Some net}"
    "cf_nets cf = [] \<longleftrightarrow> rf_prefix_list raw = []"
    "set (cf_peer_nets cf) = {a. \<exists>s \<in> set (rf_peer_addr_list raw). parse_ip s = Some a}"
    "cf_peer_nets cf = [] \<longleftrightarrow> rf_peer_addr_list raw = []"
    "case rf_expr raw of None \<Rightarrow> cf_expr cf = None
     | Some s \<Rightarrow> \<exists>e ps. cf_expr cf = Some e \<and> fd_pest D (trim s) = Inr ps \<and> (\<forall>ctx. eval e ctx = denote (hd ps) ctx)"
proof -
  have lists: "\<forall>s \<in> set (rf_prefix_list raw). fd_parse_ipnet D s \<noteq> None" "\<forall>s \<in> set (rf_peer_addr_list raw). parse_ip s \<noteq> None"
    using assms(2) unfolding well_written_def by blast+
  note filters = map_filter_all [OF lists(1)] map_filter_all [OF lists(2)]
  show thesis
  proof (cases "rf_expr raw")
    case None
    then show thesis by (intro that) (auto simp: compile_def filters)
  next
    case (Some s)
    with assms(2) obtain ps where ps: "fd_pest D (trim s) = Inr ps" "supported (hd ps)"
      by (auto simp: well_written_def split: sum.splits)
    obtain p where p: "ps = [p]" "as_rule p = Rule_expr" "shaped p" using assms(1) ps(1) unfolding pest_ok_def by blast
    have "builds (build_expr p) (supported p) (denote p)"
      using p by (intro build_expr_spec) (simp_all add: builder_rule_def)
    then obtain e where e: "parse_expr (fd_pest D) s = Ok e" "\<forall>ctx. eval e ctx = denote (hd ps) ctx"
      using ps p(1) by (auto simp: parse_expr_def builds_def)
    with Some ps show thesis by (intro that) (auto simp: compile_def filters)
  qed
qed

lemma matches_iff:
  "matches D cf p peer_as peer_addr attrs ctx \<longleftrightarrow>
     (cf_nets cf \<noteq> [] \<longrightarrow> list_ex (\<lambda>net. fd_contains D net (inner_addr p)) (cf_nets cf))
   \<and> (rf_peer_as_list (cf_raw cf) \<noteq> [] \<longrightarrow> peer_as \<in> set (rf_peer_as_list (cf_raw cf)))
   \<and> (cf_peer_nets cf \<noteq> [] \<longrightarrow> peer_addr \<in> set (cf_peer_nets cf))
   \<and> (rf_community_list (cf_raw cf) \<noteq> [] \<longrightarrow>
        set (rf_community_list (cf_raw cf)) \<inter> comm_pair ` set (communities attrs) \<noteq> {})
   \<and> set (rf_as_path_contains (cf_raw cf)) \<subseteq> set (path_asns attrs)
   \<and> (\<forall>m. rf_local_pref_min (cf_raw cf) = Some m \<longrightarrow> m \<le> opt_or (local_pref attrs) 0)
   \<and> (\<forall>m. rf_local_pref_max (cf_raw cf) = Some m \<longrightarrow> opt_or (local_pref attrs) 0 \<le> m)
   \<and> (\<forall>m. rf_med_max (cf_raw cf) = Some m \<longrightarrow> opt_or (multi_exit_disc attrs) 0 \<le> m)
   \<and> \<not> (case (cf_expr cf, ctx) of (Some e, Some c) \<Rightarrow> \<not> eval e c | _ \<Rightarrow> False)"
proof -
  have ite: "(if c then False else Q) \<longleftrightarrow> \<not> c \<and> Q" for c Q by simp
  have comm: "rf_community_list (cf_raw cf) \<noteq> []
        \<and> \<not> list_ex (\<lambda>want. want \<in> set (map comm_pair (communities attrs))) (rf_community_list (cf_raw cf))
      \<longleftrightarrow> \<not> (rf_community_list (cf_raw cf) \<noteq> [] \<longrightarrow> set (rf_community_list (cf_raw cf)) \<inter> comm_pair ` set (communities attrs) \<noteq> {})"
    by (auto simp: list_ex_iff)
  have path: "rf_as_path_contains (cf_raw cf) \<noteq> []
        \<and> \<not> list_all (\<lambda>want. want \<in> set (path_asns attrs)) (rf_as_path_contains (cf_raw cf))
      \<longleftrightarrow> \<not> set (rf_as_path_contains (cf_raw cf)) \<subseteq> set (path_asns attrs)"
    by (auto simp: list_all_iff)
  have bounds: "(case x of Some m \<Rightarrow> P m | None \<Rightarrow> False) \<longleftrightarrow> \<not> (\<forall>m. x = Some m \<longrightarrow> \<not> P m)" for x :: "u32 option" and P
    by (auto split: option.splits)
  show ?thesis
    unfolding matches_def Let_def ite comm path bounds not_less by (simp only: de_Morgan_conj not_not not_imp simp_thms imp_conv_disj)
qed

lemma matches_meets:
  assumes "pest_ok (fd_pest D)" "contains_ok D" "well_written D raw" "compile D raw = Ok cf"
    "cf_expr cf \<noteq> None \<Longrightarrow> ctx = Some (build_route_ctx p peer_as ''announce'' attrs None)"
  shows "cf_raw cf = raw" "matches D cf p peer_as peer_addr attrs ctx = meets D raw p peer_as peer_addr attrs"
proof -
  obtain cf' where c: "compile D raw = Ok cf'" "cf_raw cf' = raw"
    "set (cf_nets cf') = {net. \<exists>s \<in> set (rf_prefix_list raw). fd_parse_ipnet D s = Some net}"
    "cf_nets cf' = [] \<longleftrightarrow> rf_prefix_list raw = []"
    "set (cf_peer_nets cf') = {a. \<exists>s \<in> set (rf_peer_addr_list raw). parse_ip s = Some a}"
    "cf_peer_nets cf' = [] \<longleftrightarrow> rf_peer_addr_list raw = []"
    "case rf_expr raw of None \<Rightarrow> cf_expr cf' = None
     | Some s \<Rightarrow> \<exists>e ps. cf_expr cf' = Some e \<and> fd_pest D (trim s) = Inr ps \<and> (\<forall>ctx. eval e ctx = denote (hd ps) ctx)"
    using compile_well_written [OF assms(1,3)] .
  have [simp]: "cf' = cf" using c(1) assms(4) by simp
  note c = c [simplified]
  show "cf_raw cf = raw" by (rule c)
  have nets: "list_ex (\<lambda>net. fd_contains D net (inner_addr p)) (cf_nets cf)
      \<longleftrightarrow> (\<exists>s \<in> set (rf_prefix_list raw). \<exists>net. fd_parse_ipnet D s = Some net \<and> in_net net (inner_addr p))"
    using assms(2) c(3) by (auto simp: list_ex_iff contains_ok_def)
  have expr: "(case (cf_expr cf, ctx) of (Some e, Some c) \<Rightarrow> \<not> eval e c | _ \<Rightarrow> False)
      \<longleftrightarrow> \<not> (\<forall>s ps. rf_expr raw = Some s \<and> fd_pest D (trim s) = Inr ps \<longrightarrow>
              denote (hd ps) (build_route_ctx p peer_as ''announce'' attrs None))"
    using c(7) assms(5) by (auto split: option.splits)
  show "matches D cf p peer_as peer_addr attrs ctx = meets D raw p peer_as peer_addr attrs"
    unfolding matches_iff meets_def c(2) nets expr c(4) c(5) c(6) mem_Collect_eq by (simp only: not_not)
qed

lemma first_match_find:
  assumes "list_all2 (\<lambda>raw cf. cf_raw cf = raw \<and> matches D cf p peer_as peer_addr attrs ctx = meets D raw p peer_as peer_addr attrs)
    raws cfs"
  shows "first_match D cfs p peer_as peer_addr attrs ctx =
    (case find (\<lambda>raw. meets D raw p peer_as peer_addr attrs) raws of
       None \<Rightarrow> (Verdict_Default, None) | Some raw \<Rightarrow> (verdict_of (rf_action raw), Some (rf_name raw)))"
  using assms by (induction rule: list_all2_induct) auto

lemma rmap_list_all2: "rmap f xs = Ok ys \<longleftrightarrow> list_all2 (\<lambda>x y. f x = Ok y) xs ys"
  by (induction xs arbitrary: ys) (auto simp: list_all2_Cons1)

lemma rmap_total: "(\<And>x. x \<in> set xs \<Longrightarrow> \<exists>y. f x = Ok y) \<Longrightarrow> \<exists>ys. rmap f xs = Ok ys"
proof (induction xs)
  case (Cons x xs)
  then obtain y ys where "f x = Ok y" "rmap f xs = Ok ys" by fastforce
  then show ?case by simp
qed simp


text \<open>The criteria that remain after compilation, for a filter that was not written well.\<close>

definition no_criteria :: "route_filter \<Rightarrow> bool" where
  "no_criteria raw \<longleftrightarrow> rf_peer_as_list raw = [] \<and> rf_community_list raw = [] \<and> rf_as_path_contains raw = []
     \<and> rf_local_pref_min raw = None \<and> rf_local_pref_max raw = None \<and> rf_med_max raw = None"

text \<open>A criterion whose text does not parse is dropped, not refused.  A filter with only a prefix list, a peer
  list or an expression, in which no entry parses, therefore matches every route, and the filters after it are
  never reached: a \<^verbatim>\<open>deny\<close> filter with a misspelt network denies all routes.\<close>

theorem unparsable_filter_matches_all:
  assumes "no_criteria raw"
    and "\<forall>s \<in> set (rf_prefix_list raw). fd_parse_ipnet D s = None"
    and "\<forall>s \<in> set (rf_peer_addr_list raw). parse_ip s = None"
    and "\<forall>s. rf_expr raw = Some s \<longrightarrow> (\<exists>e. fd_pest D (trim s) = Inl e)"
    and "fd_yaml D yaml = Inr [raw]"
  shows "\<exists>en. load_yaml D yaml = Ok en \<and>
    (\<forall>p peer_as peer_addr attrs. apply_filters D en p peer_as peer_addr attrs = (verdict_of (rf_action raw), Some (rf_name raw)))"
proof -
  have none: "List.map_filter f xs = []" if "\<forall>x \<in> set xs. f x = None" for f :: "string \<Rightarrow> 'x option" and xs
    using that by (induction xs) (auto simp: List.map_filter_simps)
  have "(case rf_expr raw of None \<Rightarrow> Ok None | Some e \<Rightarrow> ok (parse_expr (fd_pest D) e)) = (Ok None :: expr option text_result)"
    using assms(4) by (cases "rf_expr raw") (auto simp: parse_expr_def)
  then have c: "compile D raw = Ok \<lparr>cf_raw = raw, cf_nets = [], cf_peer_nets = [], cf_expr = None\<rparr>"
    by (simp add: compile_def none [OF assms(2)] none [OF assms(3)])
  have "matches D \<lparr>cf_raw = raw, cf_nets = [], cf_peer_nets = [], cf_expr = None\<rparr> p peer_as peer_addr attrs ctx"
    for p peer_as peer_addr attrs ctx
    using assms(1) by (simp add: matches_iff no_criteria_def)
  with c assms(5) show ?thesis by (simp add: load_yaml_def apply_filters_def Let_def)
qed

subsection \<open>Concrete instances\<close>

definition example_filter :: "filter_action \<Rightarrow> string list \<Rightarrow> string option \<Rightarrow> route_filter" where
  "example_filter act nets ex = \<lparr>rf_name = ''f'', rf_action = act, rf_prefix_list = nets, rf_peer_as_list = [],
     rf_community_list = [], rf_peer_addr_list = [], rf_as_path_contains = [], rf_local_pref_min = None,
     rf_local_pref_max = None, rf_med_max = None, rf_expr = ex\<rparr>"

text \<open>The network \<^verbatim>\<open>10.0.0.0/8\<close> is the only one this instance of the parameters can read.\<close>

definition example_deps :: "route_filter list \<Rightarrow> filter_deps" where
  "example_deps raws = \<lparr>
     fd_parse_ipnet = (\<lambda>s. if s = ''10.0.0.0/8'' then Some (IpNet_V4 (Ipv4Net 0x0A000000 8)) else None),
     fd_contains = in_net, fd_network = net_base, fd_pest = one_text_parser, fd_yaml = (\<lambda>s. Inr raws), fd_read_file = (\<lambda>s. Inr s)\<rparr>"

lemma example_deps_ok [simp]: "pest_ok (fd_pest (example_deps raws))" "contains_ok (example_deps raws)"
  using example_tree_shaped by (simp_all add: example_deps_def contains_ok_def pest_ok_def one_text_parser_def)


theorem unparsable_filter_matches_all_witness:
  "\<exists>en. load_yaml (example_deps [example_filter Action_Deny [''10.0.0/8''] None]) [] = Ok en \<and>
     fst (apply_filters (example_deps [example_filter Action_Deny [''10.0.0/8''] None]) en
       (Prefix_V4 (Ipv4Net 0x0B010000 16)) 65001 (IpV4 1) path_attributes_default) = Verdict_Deny"
  using unparsable_filter_matches_all [of "example_filter Action_Deny [''10.0.0/8''] None"
      "example_deps [example_filter Action_Deny [''10.0.0/8''] None]" "[]"]
  by (auto simp: no_criteria_def example_filter_def example_deps_def)

end
