(* ===== verification/Roto_Filter.thy ===== *)
theory Roto_Filter
  imports Route_Filter Bmp
begin

text \<open>
  \<^verbatim>\<open>rbmp-rib/src/roto_ctx.rs\<close>, the flat route context of filter scripts, and
  \<^verbatim>\<open>rbmp-rib/src/roto_filter.rs\<close> as it is built by default, without the feature
  \<^verbatim>\<open>roto-jit\<close>: the engine keeps its path and statistics and gives every route the default verdict.
\<close>

unbundle bit_operations_syntax

subsection \<open>Debug formats\<close>

definition debug_bytes :: "bytes \<Rightarrow> string" where
  "debug_bytes bs = ''['' @ join '', '' (map (\<lambda>b. show_nat (unat b)) bs) @ '']''"

definition debug_ext_community :: "extended_community \<Rightarrow> string" where
  "debug_ext_community c = ''ExtendedCommunity { type_high: '' @ show_nat (unat (type_high c))
     @ '', type_low: '' @ show_nat (unat (type_low c)) @ '', value: '' @ debug_bytes (ec_value c) @ '' }''"

fun debug_large_community :: "large_community \<Rightarrow> string" where
  "debug_large_community (LargeCommunity g a b) = ''LargeCommunity { global_admin: '' @ show_nat (unat g)
     @ '', local_data_1: '' @ show_nat (unat a) @ '', local_data_2: '' @ show_nat (unat b) @ '' }''"

fun debug_origin :: "origin \<Rightarrow> string" where
  "debug_origin Igp = ''Igp''"
| "debug_origin Egp = ''Egp''"
| "debug_origin Incomplete = ''Incomplete''"

text \<open>\<^verbatim>\<open>str::to_lowercase\<close> on ASCII text.\<close>

definition ascii_lower :: "string \<Rightarrow> string" where
  "ascii_lower s = map (\<lambda>c. if 65 \<le> (of_char c :: nat) \<and> (of_char c :: nat) \<le> 90 then char_of (of_char c + 32 :: nat) else c) s"

subsection \<open>The context\<close>

record roto_ctx =
  ro_prefix :: string
  ro_prefix_len :: u8
  ro_afi :: string
  ro_peer_as :: u32
  ro_peer_addr :: string
  ro_rib_type :: string
  ro_action :: string
  ro_as_path :: string
  ro_as_path_len :: u32
  ro_origin_asn :: u32
  ro_has_prepend :: bool
  ro_next_hop :: string
  ro_local_pref :: u32
  ro_med :: u32
  ro_origin_attr :: string
  ro_community_set :: "string set"
  ro_ext_community_set :: "string set"
  ro_large_community_set :: "string set"
  ro_rpki :: string
  ro_aspa :: string
  ro_otc_asn :: u32
  ro_is_evpn :: bool
  ro_is_bgpls :: bool
  ro_is_srpolicy :: bool
  ro_is_unnumbered :: bool
  ro_evpn_type :: u8

text \<open>One level of label or VPN wrapping is looked through; deeper nesting has length 0.\<close>

fun plain_prefix_len :: "prefix \<Rightarrow> u8" where
  "plain_prefix_len (Prefix_V4 n) = net4_len n"
| "plain_prefix_len (Prefix_V6 n) = net6_len n"
| "plain_prefix_len p = 0"

fun roto_prefix_len :: "prefix \<Rightarrow> u8" where
  "roto_prefix_len (Prefix_V4 n) = net4_len n"
| "roto_prefix_len (Prefix_V6 n) = net6_len n"
| "roto_prefix_len (Prefix_Labeled p labels) = plain_prefix_len p"
| "roto_prefix_len (Prefix_Vpn rd p labels) = plain_prefix_len p"

fun roto_afi :: "prefix \<Rightarrow> string" where
  "roto_afi (Prefix_V6 n) = ''ipv6''"
| "roto_afi p = ''ipv4''"

definition parse_asns :: "string \<Rightarrow> u32 list" where
  "parse_asns s = List.map_filter (\<lambda>w. case parse_uint w of Inl e \<Rightarrow> None | Inr v \<Rightarrow> Some v) (split_whitespace s)"

fun rib_type_str :: "rib_type \<Rightarrow> string" where
  "rib_type_str AdjRibInPrePolicy = ''pre-policy''"
| "rib_type_str AdjRibInPostPolicy = ''post-policy''"
| "rib_type_str LocRib = ''loc-rib''"
| "rib_type_str LocRibFiltered = ''loc-rib-filtered''"
| "rib_type_str AdjRibOutPrePolicy = ''adj-out-pre''"
| "rib_type_str AdjRibOutPostPolicy = ''adj-out-post''"

definition is_unnumbered :: "prefix \<Rightarrow> path_attributes \<Rightarrow> bool" where
  "is_unnumbered p attrs =
     ((case p of Prefix_V4 n \<Rightarrow> True | _ \<Rightarrow> False)
      \<and> (case mp_reach attrs of
           None \<Rightarrow> False
         | Some mp \<Rightarrow> (case slice_first (mr_next_hops mp) of Some (IpV6 a) \<Rightarrow> True | _ \<Rightarrow> False)))"

definition from_bmp ::
    "crates \<Rightarrow> prefix \<Rightarrow> u32 \<Rightarrow> ip_addr \<Rightarrow> rib_type \<Rightarrow> string \<Rightarrow> path_attributes \<Rightarrow> string \<Rightarrow> roto_ctx result" where
  "from_bmp C p peer_as peer_addr rib_type action attrs rpki =
     rbind (show_prefix C p) (\<lambda>prefix_str.
     let as_path_str = (case pa_as_path attrs of None \<Rightarrow> [] | Some path \<Rightarrow> show_as_path path);
         asns = parse_asns as_path_str
     in Ok \<lparr>ro_prefix = prefix_str,
            ro_prefix_len = roto_prefix_len p,
            ro_afi = roto_afi p,
            ro_peer_as = peer_as,
            ro_peer_addr = show_ip peer_addr,
            ro_rib_type = rib_type_str rib_type,
            ro_action = action,
            ro_as_path = as_path_str,
            ro_as_path_len = word_of_nat (length asns),
            ro_origin_asn = opt_or (slice_last asns) 0,
            ro_has_prepend = adjacent_equal asns,
            ro_next_hop = (case pa_next_hop attrs of None \<Rightarrow> [] | Some h \<Rightarrow> show_ip h),
            ro_local_pref = opt_or (local_pref attrs) 0,
            ro_med = opt_or (multi_exit_disc attrs) 0,
            ro_origin_attr = (case pa_origin attrs of None \<Rightarrow> [] | Some og \<Rightarrow> ascii_lower (debug_origin og)),
            ro_community_set = set (map comm_pair (communities attrs)),
            ro_ext_community_set = set (map debug_ext_community (extended_communities attrs)),
            ro_large_community_set = set (map debug_large_community (large_communities attrs)),
            ro_rpki = rpki,
            ro_aspa = ''unknown'',
            ro_otc_asn = opt_or (only_to_customer attrs) 0,
            ro_is_evpn = (evpn_reach attrs \<noteq> None),
            ro_is_bgpls = (bgpls_reach attrs \<noteq> None),
            ro_is_srpolicy = (sr_policy_nlris attrs \<noteq> []),
            ro_is_unnumbered = is_unnumbered p attrs,
            ro_evpn_type = (case evpn_reach attrs of
                              None \<Rightarrow> 0
                            | Some e \<Rightarrow> (case slice_first (er_routes e) of None \<Rightarrow> 0 | Some r \<Rightarrow> route_type_code r))\<rparr>)"

definition community_has :: "string \<Rightarrow> roto_ctx \<Rightarrow> bool" where
  "community_has c ctx \<longleftrightarrow> c \<in> ro_community_set ctx"

definition as_path_contains :: "u32 \<Rightarrow> roto_ctx \<Rightarrow> bool" where
  "as_path_contains asn ctx =
     list_ex (\<lambda>s. (case parse_uint s of Inl e \<Rightarrow> None | Inr v \<Rightarrow> Some v) = Some asn) (split_whitespace (ro_as_path ctx))"

definition prefix_in_range :: "filter_deps \<Rightarrow> string \<Rightarrow> roto_ctx \<Rightarrow> bool" where
  "prefix_in_range D cidr ctx =
     (case (fd_parse_ipnet D cidr, fd_parse_ipnet D (ro_prefix ctx)) of
        (Some (IpNet_V4 r), Some (IpNet_V4 m)) \<Rightarrow>
          fd_contains D (IpNet_V4 r) (fd_network D (IpNet_V4 m)) \<and> net4_len m \<ge> net4_len r
      | (Some (IpNet_V6 r), Some (IpNet_V6 m)) \<Rightarrow>
          fd_contains D (IpNet_V6 r) (fd_network D (IpNet_V6 m)) \<and> net6_len m \<ge> net6_len r
      | _ \<Rightarrow> False)"

subsection \<open>The engine without the JIT feature\<close>

record roto_stats =
  rs_accept_count :: u64
  rs_deny_count :: u64
  rs_error_count :: u64
  rs_total_ns :: u64

definition roto_stats_default :: roto_stats where
  "roto_stats_default = \<lparr>rs_accept_count = 0, rs_deny_count = 0, rs_error_count = 0, rs_total_ns = 0\<rparr>"

definition stats_record :: "filter_verdict \<Rightarrow> nat \<Rightarrow> roto_stats \<Rightarrow> roto_stats" where
  "stats_record verdict elapsed_ns st =
     (let st = (case verdict of
                  Verdict_Accept \<Rightarrow> st\<lparr>rs_accept_count := rs_accept_count st + 1\<rparr>
                | Verdict_Deny \<Rightarrow> st\<lparr>rs_deny_count := rs_deny_count st + 1\<rparr>
                | Verdict_Default \<Rightarrow> st)
      in st\<lparr>rs_total_ns := rs_total_ns st + word_of_nat elapsed_ns\<rparr>)"

record roto_engine =
  rg_path :: string
  rg_stats :: roto_stats

definition roto_load :: "string \<Rightarrow> roto_engine text_result" where
  "roto_load path = Ok \<lparr>rg_path = path, rg_stats = roto_stats_default\<rparr>"

definition roto_reload :: "roto_engine \<Rightarrow> bool" where
  "roto_reload en = False"

definition roto_evaluate :: "roto_ctx \<Rightarrow> roto_engine \<Rightarrow> filter_verdict" where
  "roto_evaluate ctx en = Verdict_Default"

subsection \<open>Agreement of the two route contexts\<close>

lemma join_Cons: "join sep (x # xs) = x @ (if xs = [] then [] else sep @ join sep xs)"
  by (cases xs) (simp_all add: join_def)

lemma join_append: "xs \<noteq> [] \<Longrightarrow> ys \<noteq> [] \<Longrightarrow> join sep (xs @ ys) = join sep xs @ sep @ join sep ys"
  by (induction xs) (simp_all add: join_Cons)

lemma join_concat: "\<forall>ws \<in> set wss. ws \<noteq> [] \<Longrightarrow> join sep (map (join sep) wss) = join sep (concat wss)"
proof (induction wss)
  case (Cons ws wss)
  then show ?case by (cases "wss = []") (auto simp: join_Cons join_append)
qed simp

definition sequence_path :: "as_path \<Rightarrow> bool" where
  "sequence_path p \<longleftrightarrow> list_all (\<lambda>seg. case seg of AS_Sequence v \<Rightarrow> v \<noteq> [] | _ \<Rightarrow> False) (segments p)"

lemma show_sequence_path:
  assumes "sequence_path p"
  shows "show_as_path p = join '' '' (map (\<lambda>a. show_nat (unat a)) (concat (map seg_asns (segments p))))"
proof -
  have seg: "show_segment seg = join '' '' (map (\<lambda>a. show_nat (unat a)) (seg_asns seg)) \<and> seg_asns seg \<noteq> []"
    if "seg \<in> set (segments p)" for seg
    using assms that by (cases seg) (auto simp: sequence_path_def list_all_iff show_segment_def)
  then have "map show_segment (segments p) = map (join '' '') (map (\<lambda>seg. map (\<lambda>a. show_nat (unat a)) (seg_asns seg)) (segments p))"
    by simp
  also have "join '' '' \<dots> = join '' '' (concat (map (\<lambda>seg. map (\<lambda>a. show_nat (unat a)) (seg_asns seg)) (segments p)))"
    using seg by (intro join_concat) auto
  finally show ?thesis by (simp add: show_as_path_def map_concat comp_def)
qed

lemma parse_asns_words: "parse_asns (join '' '' (map (\<lambda>a. show_nat (unat a)) asns)) = asns"
proof -
  have "split_whitespace (join '' '' (map (\<lambda>a. show_nat (unat a)) asns)) = map (\<lambda>a. show_nat (unat a)) asns"
    by (rule split_whitespace_words) (auto dest: show_nat_char)
  then show ?thesis unfolding parse_asns_def by (simp add: List.map_filter_def comp_def)
qed

text \<open>The context of the scripts recovers the AS numbers from the printed AS path.  On a path of sequences it
  agrees with the context of the expression filters on path length, origin and prepending; it contains an AS
  number exactly when the path does.\<close>

theorem from_bmp_sequence_path:
  assumes "pa_as_path attrs = Some path" "sequence_path path"
    and "from_bmp C p peer_as peer_addr rt action attrs rpki = Ok ctx"
  shows "ro_as_path_len ctx = word_of_nat (cx_as_path_len (build_route_ctx p peer_as action attrs (Some rpki)))
    \<and> ro_origin_asn ctx = cx_origin_asn (build_route_ctx p peer_as action attrs (Some rpki))
    \<and> ro_has_prepend ctx = cx_has_prepend (build_route_ctx p peer_as action attrs (Some rpki))
    \<and> (as_path_contains asn ctx \<longleftrightarrow> asn \<in> set (path_asns attrs))"
proof -
  have path: "path_asns attrs = concat (map seg_asns (segments path))" by (simp add: path_asns_def assms(1))
  note shown = show_sequence_path [OF assms(2), folded path]
  have asns: "parse_asns (show_as_path path) = path_asns attrs" by (simp add: shown parse_asns_words)
  obtain s where "show_prefix C p = (Ok s :: string result)" using assms(3) by (auto simp: from_bmp_def)
  with assms(1,3) have ctx: "ro_as_path ctx = show_as_path path" "ro_as_path_len ctx = word_of_nat (length (path_asns attrs))"
    "ro_origin_asn ctx = opt_or (slice_last (path_asns attrs)) 0" "ro_has_prepend ctx = adjacent_equal (path_asns attrs)"
    by (auto simp: from_bmp_def Let_def asns)
  have "split_whitespace (show_as_path path) = map (\<lambda>a. show_nat (unat a)) (path_asns attrs)"
    unfolding shown by (rule split_whitespace_words) (auto dest: show_nat_char)
  then have "as_path_contains asn ctx \<longleftrightarrow> asn \<in> set (path_asns attrs)"
    by (auto simp: as_path_contains_def ctx(1) list_ex_iff)
  with ctx show ?thesis by (simp add: build_route_ctx_def)
qed

theorem from_bmp_sequence_path_witness:
  "\<exists>ctx. from_bmp doc_crates (Prefix_V4 (Ipv4Net 0x0A010000 16)) 65001 (IpV4 1) LocRib ''announce''
      (path_attributes_default\<lparr>pa_as_path := Some (AsPath [AS_Sequence [65001, 701, 701]])\<rparr>) ''unknown'' = Ok ctx
    \<and> ro_as_path_len ctx = 3 \<and> ro_origin_asn ctx = 701 \<and> ro_has_prepend ctx \<and> as_path_contains 65001 ctx"
proof -
  let ?p = "Prefix_V4 (Ipv4Net 0x0A010000 16)"
  let ?attrs = "path_attributes_default\<lparr>pa_as_path := Some (AsPath [AS_Sequence [65001, 701, 701]])\<rparr>"
  obtain ctx where ctx: "from_bmp doc_crates ?p 65001 (IpV4 1) LocRib ''announce'' ?attrs ''unknown'' = Ok ctx"
    by (simp add: from_bmp_def Let_def)
  have "path_asns ?attrs = [65001, 701, 701]" by (simp add: path_asns_def)
  then show ?thesis
    using from_bmp_sequence_path [OF _ _ ctx, of "AsPath [AS_Sequence [65001, 701, 701]]" 65001] ctx
    by (simp add: sequence_path_def build_route_ctx_def opt_or_def slice_last_def adjacent_equal_def)
qed

end
