(* ===== verification/Rib_Manager.thy ===== *)
theory Rib_Manager
  imports Session Roto_Filter
begin

text \<open>
  \<^verbatim>\<open>rbmp-rib/src/manager.rs\<close> and \<^verbatim>\<open>event.rs\<close>: the RIB manager, which keeps the sessions of
  all speakers and the route tables of all peers and emits an event for every change.

  The broadcast channel is the list of the events handed to it, oldest first (sending fails only when nobody
  listens, and the result is ignored).  Fresh identifiers and the wall clock are functions of the number of
  events sent so far.  Log output and metrics counters are left out.
\<close>

subsection \<open>Events (event.rs)\<close>

datatype route_action = Announce | Withdraw

record route_change =
  rc_action :: route_action
  rc_peer_header :: peer_header
  rc_rib_type :: rib_type
  rc_prefix :: prefix
  rc_attributes :: "path_attributes option"

datatype rib_event_payload =
    Ev_SpeakerUp "string option" "string option"
  | Ev_SpeakerDown string
  | Ev_PeerUp peer_header u32 u32 u16 "string list"
  | Ev_PeerDown peer_header string
  | Ev_RouteChange route_change
  | Ev_Stats peer_header "stat_entry list"
  | Ev_EndOfRib peer_header string

record rib_event =
  ev_id :: u128
  ev_occurred_at :: datetime
  ev_speaker :: ip_addr
  ev_payload :: rib_event_payload

subsection \<open>The manager\<close>

record runtime =
  new_v4 :: "nat \<Rightarrow> u128"
  utc_now :: "nat \<Rightarrow> datetime"

record rib_manager =
  rm_speakers :: "(ip_addr, bmp_session) hash_map"
  rm_ribs :: "(ip_addr, rib_table) hash_map"
  rm_sent :: "rib_event list"
  rm_filter :: "filter_engine option"
  rm_roto :: "roto_engine option"

definition manager_new :: rib_manager where
  "manager_new = \<lparr>rm_speakers = [], rm_ribs = [], rm_sent = [], rm_filter = None, rm_roto = None\<rparr>"

definition set_filter :: "filter_engine \<Rightarrow> rib_manager \<Rightarrow> rib_manager" where
  "set_filter en m = m\<lparr>rm_filter := Some en\<rparr>"

definition clear_filter :: "rib_manager \<Rightarrow> rib_manager" where
  "clear_filter m = m\<lparr>rm_filter := None\<rparr>"

definition set_roto_filter :: "roto_engine \<Rightarrow> rib_manager \<Rightarrow> rib_manager" where
  "set_roto_filter en m = m\<lparr>rm_roto := Some en\<rparr>"

definition expire_stale_for_peer :: "crates \<Rightarrow> datetime \<Rightarrow> ip_addr \<Rightarrow> u32 \<Rightarrow> rib_manager \<Rightarrow> rib_manager \<times> nat" where
  "expire_stale_for_peer C now peer_addr stale_secs m =
     (case hm_get (rm_ribs m) peer_addr of
        None \<Rightarrow> (m, 0)
      | Some rib \<Rightarrow>
          (case drain_deleted_stale C now stale_secs rib of
             (rib', n) \<Rightarrow> (m\<lparr>rm_ribs := hm_insert peer_addr rib' (rm_ribs m)\<rparr>, n)))"

text \<open>\<^verbatim>\<open>emit\<close> takes its time stamp from the wall clock; the route changes carry the time of the message.\<close>

definition emit :: "runtime \<Rightarrow> ip_addr \<Rightarrow> rib_event_payload \<Rightarrow> rib_manager \<Rightarrow> rib_manager" where
  "emit R speaker payload m =
     m\<lparr>rm_sent := rm_sent m @ [\<lparr>ev_id = new_v4 R (length (rm_sent m)), ev_occurred_at = utc_now R (length (rm_sent m)),
          ev_speaker = speaker, ev_payload = payload\<rparr>]\<rparr>"

fun debug_reason :: "peer_down_reason \<Rightarrow> string" where
  "debug_reason (LocalSystemClosed n) = ''LocalSystemClosed { notification: '' @
     (case n of None \<Rightarrow> ''None'' | Some bs \<Rightarrow> ''Some('' @ debug_bytes bs @ '')'') @ '' }''"
| "debug_reason LocalSystemClosed2 = ''LocalSystemClosed2''"
| "debug_reason (RemoteSystemClosed n) = ''RemoteSystemClosed { notification: '' @
     (case n of None \<Rightarrow> ''None'' | Some bs \<Rightarrow> ''Some('' @ debug_bytes bs @ '')'') @ '' }''"
| "debug_reason RemoteSystemClosed2 = ''RemoteSystemClosed2''"
| "debug_reason PeerDeConfigured = ''PeerDeConfigured''"
| "debug_reason VrfDown = ''VrfDown''"
| "debug_reason (Reason_Unknown c) = ''Unknown('' @ show_nat (unat c) @ '')''"

definition on_initiation ::
    "runtime \<Rightarrow> ip_addr \<Rightarrow> datetime \<Rightarrow> string option \<Rightarrow> string option \<Rightarrow> rib_manager \<Rightarrow> rib_manager" where
  "on_initiation R speaker now sys_name sys_descr m =
     emit R speaker (Ev_SpeakerUp sys_name sys_descr)
       (m\<lparr>rm_speakers := hm_modify speaker (\<lambda>s. s\<lparr>bs_sys_name := sys_name, bs_sys_descr := sys_descr\<rparr>)
            (hm_or_insert speaker (bmp_session_new speaker now) (rm_speakers m))\<rparr>)"

definition on_termination :: "runtime \<Rightarrow> ip_addr \<Rightarrow> u16 \<Rightarrow> string option \<Rightarrow> rib_manager \<Rightarrow> rib_manager" where
  "on_termination R speaker reason_code reason_text m =
     emit R speaker (Ev_SpeakerDown (case reason_text of Some t \<Rightarrow> t | None \<Rightarrow> ''code='' @ show_nat (unat reason_code)))
       (case hm_get (rm_speakers m) speaker of
          None \<Rightarrow> m
        | Some sess \<Rightarrow> m\<lparr>rm_speakers := hm_remove speaker (rm_speakers m),
                         rm_ribs := fold hm_remove (hm_keys (bs_peers sess)) (rm_ribs m)\<rparr>)"

definition on_peer_up :: "runtime \<Rightarrow> ip_addr \<Rightarrow> datetime \<Rightarrow> peer_up_message \<Rightarrow> rib_manager \<Rightarrow> rib_manager result" where
  "on_peer_up R speaker now pu m =
     (let hdr = up_peer_header pu;
          peer_addr = ph_address hdr;
          caps = open_capabilities (up_recv_open pu);
          cap_names = map (\<lambda>c. show_nat (unat (cap_code c))) caps;
          sess = hm_get_or (rm_speakers m) speaker (bmp_session_new speaker now);
          peer = hm_get_or (bs_peers sess) peer_addr (peer_session_new hdr)
      in rbind (on_up (open_asn (up_sent_open pu)) (open_hold_time (up_recv_open pu)) caps now peer) (\<lambda>peer'.
         Ok (emit R speaker
              (Ev_PeerUp hdr (open_asn (up_sent_open pu)) (open_asn (up_recv_open pu)) (open_hold_time (up_recv_open pu)) cap_names)
              (m\<lparr>rm_speakers := hm_insert speaker (sess\<lparr>bs_peers := hm_insert peer_addr peer' (bs_peers sess)\<rparr>) (rm_speakers m)\<rparr>))))"

text \<open>The stale time of a peer with LLGR active.\<close>

definition peer_llgr :: "ip_addr \<Rightarrow> ip_addr \<Rightarrow> rib_manager \<Rightarrow> u32 option" where
  "peer_llgr speaker peer_addr m =
     (case hm_get (rm_speakers m) speaker of
        None \<Rightarrow> None
      | Some s \<Rightarrow> (case hm_get (bs_peers s) peer_addr of
                     None \<Rightarrow> None
                   | Some p \<Rightarrow> if ps_llgr_active p then Some (ps_llgr_stale_secs p) else None))"

definition on_peer_down :: "runtime \<Rightarrow> ip_addr \<Rightarrow> datetime \<Rightarrow> peer_header \<Rightarrow> peer_down_reason \<Rightarrow> rib_manager \<Rightarrow> rib_manager" where
  "on_peer_down R speaker now hdr reason m =
     (let peer_addr = ph_address hdr;
          m' = m\<lparr>rm_speakers := hm_modify speaker
                  (\<lambda>s. s\<lparr>bs_peers := hm_modify peer_addr (on_down now) (bs_peers s)\<rparr>) (rm_speakers m)\<rparr>;
          m'' = (case peer_llgr speaker peer_addr m of
                   Some stale_secs \<Rightarrow> m'\<lparr>rm_ribs := hm_modify peer_addr (mark_stale_all now) (rm_ribs m')\<rparr>
                 | None \<Rightarrow> m'\<lparr>rm_ribs := hm_modify peer_addr clear_all (hm_or_insert peer_addr rib_new (rm_ribs m'))\<rparr>)
      in emit R speaker (Ev_PeerDown hdr (debug_reason reason)) m'')"

definition route_event ::
    "runtime \<Rightarrow> ip_addr \<Rightarrow> datetime \<Rightarrow> peer_header \<Rightarrow> route_action \<Rightarrow> prefix \<Rightarrow> path_attributes option \<Rightarrow> nat \<Rightarrow> rib_event" where
  "route_event R speaker now hdr action p attrs n =
     \<lparr>ev_id = new_v4 R n, ev_occurred_at = now, ev_speaker = speaker,
      ev_payload = Ev_RouteChange \<lparr>rc_action = action, rc_peer_header = hdr, rc_rib_type = ph_rib_type hdr,
                                   rc_prefix = p, rc_attributes = attrs\<rparr>\<rparr>"

definition withdraw_route ::
    "crates \<Rightarrow> runtime \<Rightarrow> ip_addr \<Rightarrow> datetime \<Rightarrow> peer_header \<Rightarrow> prefix \<times> u32 option
     \<Rightarrow> rib_table \<times> rib_event list \<Rightarrow> (rib_table \<times> rib_event list) result" where
  "withdraw_route C R speaker now hdr pi st =
     (case (pi, st) of ((p, path_id), (rib, sent)) \<Rightarrow>
        rbind (remove_with_path_id C (ph_rib_type hdr) p path_id rib) (\<lambda>(rib', old).
          Ok (rib', sent @ [route_event R speaker now hdr Withdraw p None (length sent)])))"

definition filter_route ::
    "crates \<Rightarrow> filter_deps \<Rightarrow> peer_header \<Rightarrow> path_attributes \<Rightarrow> roto_engine option \<Rightarrow> filter_engine option \<Rightarrow> prefix
     \<Rightarrow> filter_verdict result" where
  "filter_route C D hdr attrs roto flt p =
     (case roto of
        Some en \<Rightarrow>
          rbind (from_bmp C p (ph_as hdr) (ph_address hdr) (ph_rib_type hdr) ''announce'' attrs ''unknown'') (\<lambda>ctx.
            Ok (roto_evaluate ctx en))
      | None \<Rightarrow>
          (case flt of
             Some en \<Rightarrow> Ok (fst (apply_filters D en p (ph_as hdr) (ph_address hdr) attrs))
           | None \<Rightarrow> Ok Verdict_Default))"

definition new_entry :: "datetime \<Rightarrow> peer_header \<Rightarrow> path_attributes \<Rightarrow> prefix \<Rightarrow> u32 option \<Rightarrow> rib_entry" where
  "new_entry now hdr attrs p path_id =
     \<lparr>re_prefix = p, re_path_id = path_id, re_attributes = attrs, re_received_at = now, re_peer_addr = ph_address hdr,
      re_peer_as = ph_as hdr, re_is_best = True, re_llgr_state = Normal, re_stale_at = None\<rparr>"

definition announce_route ::
    "crates \<Rightarrow> filter_deps \<Rightarrow> runtime \<Rightarrow> ip_addr \<Rightarrow> datetime \<Rightarrow> peer_header \<Rightarrow> path_attributes
     \<Rightarrow> roto_engine option \<Rightarrow> filter_engine option \<Rightarrow> prefix \<times> u32 option
     \<Rightarrow> rib_table \<times> rib_event list \<Rightarrow> (rib_table \<times> rib_event list) result" where
  "announce_route C D R speaker now hdr attrs roto flt pi st =
     (case (pi, st) of ((p, path_id), (rib, sent)) \<Rightarrow>
        rbind (filter_route C D hdr attrs roto flt p) (\<lambda>verdict.
        if verdict = Verdict_Deny then Ok (rib, sent)
        else rbind (rib_insert C (ph_rib_type hdr) (new_entry now hdr attrs p path_id) rib) (\<lambda>(rib, is_new).
             rbind (if path_id \<noteq> None then recompute_best_path C (ph_rib_type hdr) p rib else Ok rib) (\<lambda>rib.
               Ok (rib, sent @ [route_event R speaker now hdr Announce p (Some attrs) (length sent)])))))"

text \<open>\<^verbatim>\<open>for x in xs { s = f(x, s)? }\<close>.\<close>

fun rfold :: "('a \<Rightarrow> 's \<Rightarrow> ('e, 's) outcome) \<Rightarrow> 'a list \<Rightarrow> 's \<Rightarrow> ('e, 's) outcome" where
  "rfold f [] s = Ok s"
| "rfold f (x # xs) s = rbind (f x s) (rfold f xs)"

definition on_route_monitoring ::
    "crates \<Rightarrow> filter_deps \<Rightarrow> runtime \<Rightarrow> ip_addr \<Rightarrow> datetime \<Rightarrow> peer_header \<Rightarrow> bgp_update \<Rightarrow> rib_manager \<Rightarrow> rib_manager result" where
  "on_route_monitoring C D R speaker now hdr update m =
     (if is_eor update
      then Ok (emit R speaker
                (Ev_EndOfRib hdr (case mp_unreach (attributes update) of Some u \<Rightarrow> show_afi_safi (mu_afi_safi u)
                                  | None \<Rightarrow> ''ipv4-unicast'')) m)
      else
        (let peer_addr = ph_address hdr;
             rib = hm_get_or (rm_ribs m) peer_addr rib_new
         in rbind (rfold (withdraw_route C R speaker now hdr) (all_withdrawn_with_path_id update) (rib, rm_sent m)) (\<lambda>st.
            rbind (rfold (announce_route C D R speaker now hdr (attributes update) (rm_roto m) (rm_filter m))
                     (all_announced_with_path_id update) st) (\<lambda>(rib, sent).
              Ok (m\<lparr>rm_ribs := hm_insert peer_addr rib (rm_ribs m), rm_sent := sent\<rparr>)))))"

definition process :: "crates \<Rightarrow> filter_deps \<Rightarrow> runtime \<Rightarrow> bmp_message \<Rightarrow> rib_manager \<Rightarrow> rib_manager result" where
  "process C D R msg m =
     (let speaker = msg_speaker_addr msg; now = msg_received_at msg in
      case msg_payload msg of
        Initiation sys_name sys_descr labels \<Rightarrow> Ok (on_initiation R speaker now sys_name sys_descr m)
      | Termination reason_code reason_text \<Rightarrow> Ok (on_termination R speaker reason_code reason_text m)
      | PeerUp pu \<Rightarrow> on_peer_up R speaker now pu m
      | PeerDown hdr reason \<Rightarrow> Ok (on_peer_down R speaker now hdr reason m)
      | RouteMonitoring hdr update \<Rightarrow> on_route_monitoring C D R speaker now hdr update m
      | StatsReport hdr stats \<Rightarrow> Ok (emit R speaker (Ev_Stats hdr stats) m)
      | RouteMirroring hdr pdu \<Rightarrow> Ok m)"

subsection \<open>Queries\<close>

definition speakers :: "rib_manager \<Rightarrow> bmp_session list" where
  "speakers m = hm_values (rm_speakers m)"

definition speaker_of :: "ip_addr \<Rightarrow> rib_manager \<Rightarrow> bmp_session option" where
  "speaker_of addr m = hm_get (rm_speakers m) addr"

definition rib_for_peer :: "ip_addr \<Rightarrow> rib_manager \<Rightarrow> rib_table option" where
  "rib_for_peer peer m = hm_get (rm_ribs m) peer"

definition total_routes :: "rib_manager \<Rightarrow> nat" where
  "total_routes m = length (concat (map all_prefixes (hm_values (rm_ribs m))))"

definition total_peers_up :: "rib_manager \<Rightarrow> nat" where
  "total_peers_up m = sum_list (map up_peer_count (hm_values (rm_speakers m)))"

subsection \<open>The routes of a table, up to the best-path marks\<close>

definition forget_best :: "rib_entry \<Rightarrow> rib_entry" where
  "forget_best e = e\<lparr>re_is_best := True\<rparr>"

definition view :: "rib_table \<Rightarrow> rib_type \<times> string \<Rightarrow> rib_entry option" where
  "view t rk = map_option forget_best (rt_get t rk)"

definition llgr_ok :: "rib_entry \<Rightarrow> bool" where
  "llgr_ok e \<longleftrightarrow> re_llgr_state e = Normal \<and> re_stale_at e = None \<or> re_llgr_state e = StaleMarked \<and> re_stale_at e \<noteq> None"

definition entry_ok :: "crates \<Rightarrow> ip_addr \<Rightarrow> rib_type \<times> string \<Rightarrow> rib_entry \<Rightarrow> bool" where
  "entry_ok C pa rk e \<longleftrightarrow> re_peer_addr e = pa \<and> entry_key C (re_prefix e) (re_path_id e) = Ok (snd rk) \<and> llgr_ok e"

definition rib_ok :: "crates \<Rightarrow> ip_addr \<Rightarrow> rib_table \<Rightarrow> bool" where
  "rib_ok C pa t \<longleftrightarrow> rt_wf t \<and> (\<forall>rk e. rt_get t rk = Some e \<longrightarrow> entry_ok C pa rk e)"

lemma entry_ok_best [simp]: "entry_ok C pa rk (e\<lparr>re_is_best := b\<rparr>) = entry_ok C pa rk e"
  by (simp add: entry_ok_def llgr_ok_def)

lemma forget_best_best [simp]: "forget_best (e\<lparr>re_is_best := b\<rparr>) = forget_best e"
  by (simp add: forget_best_def)

lemma forget_best_new [simp]: "forget_best (new_entry now hdr attrs p i) = new_entry now hdr attrs p i"
  by (simp add: forget_best_def new_entry_def)

lemma entry_ok_new:
  "entry_key C p i = Ok key \<Longrightarrow> entry_ok C (ph_address hdr) (rt, key) (new_entry now hdr attrs p i)"
  by (simp add: entry_ok_def llgr_ok_def new_entry_def)

lemma rib_ok_new [simp]: "rib_ok C pa rib_new" "rib_ok C pa (clear_all t)"
  by (simp_all add: rib_ok_def)

lemma view_new [simp]: "view rib_new rk = None" "view (clear_all t) rk = None"
  by (simp_all add: view_def)

lemma rib_ok_put: "rib_ok C pa t \<Longrightarrow> entry_ok C pa rk e \<Longrightarrow> rib_ok C pa (rt_put rk e t)"
  by (auto simp: rib_ok_def rib_store.inv_put rib_store.get_put split: if_splits)

lemma rib_ok_del: "rib_ok C pa t \<Longrightarrow> rib_ok C pa (rt_del rk t)"
  by (auto simp: rib_ok_def rib_store.inv_del rib_store.get_del split: if_splits)

lemma view_put: "rt_wf t \<Longrightarrow> view (rt_put rk e t) = (view t)(rk := Some (forget_best e))"
  by (auto simp: view_def rib_store.get_put)

lemma view_del: "rt_wf t \<Longrightarrow> view (rt_del rk t) = (view t)(rk := None)"
  by (auto simp: view_def rib_store.get_del)

lemma mark_stale_forget: "forget_best (mark_stale at e) = mark_stale at (forget_best e)"
  by (simp add: forget_best_def mark_stale_def)

lemma view_mark_stale_all: "view (mark_stale_all at t) rk = map_option (mark_stale at) (view t rk)"
  by (simp add: view_def rt_get_mark_stale_all option.map_comp comp_def mark_stale_forget)

lemma entry_ok_mark_stale: "entry_ok C pa rk e \<Longrightarrow> entry_ok C pa rk (mark_stale at e)"
  by (cases "re_llgr_state e") (auto simp: entry_ok_def llgr_ok_def mark_stale_def)

lemma rib_ok_mark_stale_all: "rib_ok C pa t \<Longrightarrow> rib_ok C pa (mark_stale_all at t)"
  by (auto simp: rib_ok_def rt_get_mark_stale_all intro: entry_ok_mark_stale)

lemma rib_ok_drain: "rib_ok C pa t \<Longrightarrow> drain_deleted_stale C now secs t = (t', n) \<Longrightarrow> rib_ok C pa t'"
  using rt_wf_drain [of t C now secs] by (auto simp: rib_ok_def drain_get split: option.splits if_splits)

text \<open>Best-path selection changes marks only.\<close>

lemma recompute_marks:
  assumes "rt_wf t" "show_prefix C p = (Ok s :: string result)"
  obtains t' B where "recompute_best_path C rib p t = Ok t'" "rt_wf t'"
    "\<And>rk. rt_get t' rk = map_option (\<lambda>e. e\<lparr>re_is_best := B rk e\<rparr>) (rt_get t rk)"
proof (cases "matching_entries t rib s = []")
  case True
  have "recompute_best_path C rib p t = Ok t"
    using True assms(2) by (auto simp: recompute_best_path_def matching_entries_def hm_get_or_def Let_def split: option.splits)
  then show thesis using assms(1) that [of t "\<lambda>rk. re_is_best"] by (simp add: option.map_ident)
next
  case False
  obtain k e t' where t': "recompute_best_path C rib p t = Ok t'"
    "t' = t\<lparr>tables := hm_modify rib (map (\<lambda>(k', e'). (k', if key_matches s k'
                 then e'\<lparr>re_is_best := (k' = k)\<rparr> else e'))) (tables t)\<rparr>"
    using recompute_best_path_new [OF assms False] by blast
  have wf: "rt_wf t'"
    using assms(1) by (auto simp: t'(2) rt_wf_def hm_wf_def comp_def split_def)
  let ?B = "\<lambda>rk e. if fst rk = rib \<and> key_matches s (snd rk) then snd rk = k else re_is_best e"
  have "rt_get t' rk = map_option (\<lambda>e. e\<lparr>re_is_best := ?B rk e\<rparr>) (rt_get t rk)" for rk
    by (cases rk; cases "rt_get t rk") (auto simp: t'(2) rt_get_modify)
  with t'(1) wf that [of t' ?B] show thesis by blast
qed

subsection \<open>Withdrawals and announcements\<close>

lemma withdraw_route_ok:
  assumes "rib_ok C (ph_address hdr) rib" "entry_key C p i = Ok key"
  shows "\<exists>rib'. withdraw_route C R spk now hdr (p, i) (rib, sent) =
      Ok (rib', sent @ [route_event R spk now hdr Withdraw p None (length sent)])
    \<and> rib_ok C (ph_address hdr) rib' \<and> view rib' = (view rib)((ph_rib_type hdr, key) := None)"
  using assms rib_ok_del [OF assms(1)] view_del [of rib "(ph_rib_type hdr, key)"]
  by (simp add: withdraw_route_def remove_with_path_id_def rib_ok_def)

lemma entry_key_show_prefix: "entry_key C p i = Ok key \<Longrightarrow> \<exists>s. show_prefix C p = (Ok s :: string result)"
  by (auto simp: entry_key_def split: option.splits)

lemma announce_route_ok:
  assumes "rib_ok C (ph_address hdr) rib" "entry_key C p i = Ok key" "filter_route C D hdr attrs roto flt p = Ok v"
  shows "\<exists>rib'. announce_route C D R spk now hdr attrs roto flt (p, i) (rib, sent) =
      Ok (rib', sent @ (if v = Verdict_Deny then [] else [route_event R spk now hdr Announce p (Some attrs) (length sent)]))
    \<and> rib_ok C (ph_address hdr) rib'
    \<and> view rib' = (if v = Verdict_Deny then view rib
                   else (view rib)((ph_rib_type hdr, key) := Some (new_entry now hdr attrs p i)))"
proof (cases "v = Verdict_Deny")
  case True
  then show ?thesis using assms by (simp add: announce_route_def)
next
  case False
  let ?e = "new_entry now hdr attrs p i"
  let ?rib = "rt_put (ph_rib_type hdr, key) ?e rib"
  have e: "re_prefix ?e = p" "re_path_id ?e = i" by (simp_all add: new_entry_def)
  have ok: "rib_ok C (ph_address hdr) ?rib" using assms by (intro rib_ok_put entry_ok_new)
  have view: "view ?rib = (view rib)((ph_rib_type hdr, key) := Some ?e)"
    using assms(1) by (simp add: view_put rib_ok_def)
  obtain b where ins: "rib_insert C (ph_rib_type hdr) ?e rib = Ok (?rib, b)" using assms(2) by (simp add: rib_insert_def e)
  show ?thesis
  proof (cases i)
    case None
    then show ?thesis using ins ok view assms(3) False by (simp add: announce_route_def)
  next
    case (Some n)
    obtain s where "show_prefix C p = (Ok s :: string result)" using entry_key_show_prefix [OF assms(2)] by blast
    then obtain t' B where t': "recompute_best_path C (ph_rib_type hdr) p ?rib = Ok t'" "rt_wf t'"
      "\<And>rk. rt_get t' rk = map_option (\<lambda>e. e\<lparr>re_is_best := B rk e\<rparr>) (rt_get ?rib rk)"
      using recompute_marks [of ?rib C p s] ok unfolding rib_ok_def by blast
    have "rib_ok C (ph_address hdr) t'" using ok t'(2) by (auto simp: rib_ok_def t'(3))
    moreover have "view t' = view ?rib" unfolding view_def t'(3) by (simp add: option.map_comp comp_def)
    ultimately show ?thesis using ins view assms(3) False t'(1) Some by (simp add: announce_route_def)
  qed
qed

text \<open>The abstract effect of an UPDATE on the routes of its peer: the withdrawals, then the announcements that the
  filter lets through.\<close>

definition key_of :: "crates \<Rightarrow> prefix \<Rightarrow> u32 option \<Rightarrow> string" where
  "key_of C p i = (case entry_key C p i of Ok k \<Rightarrow> k | _ \<Rightarrow> [])"

definition accepted :: "crates \<Rightarrow> filter_deps \<Rightarrow> peer_header \<Rightarrow> path_attributes \<Rightarrow> rib_manager \<Rightarrow> prefix \<Rightarrow> bool" where
  "accepted C D hdr attrs m p \<longleftrightarrow> filter_route C D hdr attrs (rm_roto m) (rm_filter m) p \<noteq> Ok Verdict_Deny"

definition update_changes ::
    "crates \<Rightarrow> filter_deps \<Rightarrow> datetime \<Rightarrow> peer_header \<Rightarrow> bgp_update \<Rightarrow> rib_manager \<Rightarrow> (rib_type \<times> string, rib_entry) change list" where
  "update_changes C D now hdr u m =
     map (\<lambda>(p, i). Del (ph_rib_type hdr, key_of C p i)) (all_withdrawn_with_path_id u)
     @ map (\<lambda>(p, i). Put (ph_rib_type hdr, key_of C p i) (new_entry now hdr (attributes u) p i))
           (filter (\<lambda>(p, i). accepted C D hdr (attributes u) m p) (all_announced_with_path_id u))"

definition update_events ::
    "crates \<Rightarrow> filter_deps \<Rightarrow> runtime \<Rightarrow> ip_addr \<Rightarrow> datetime \<Rightarrow> peer_header \<Rightarrow> bgp_update \<Rightarrow> rib_manager \<Rightarrow> rib_event list" where
  "update_events C D R spk now hdr u m =
     map (\<lambda>(n, (a, p)). route_event R spk now hdr a p (if a = Announce then Some (attributes u) else None) n)
       (enumerate (length (rm_sent m))
         (map (\<lambda>(p, i). (Withdraw, p)) (all_withdrawn_with_path_id u)
          @ map (\<lambda>(p, i). (Announce, p)) (filter (\<lambda>(p, i). accepted C D hdr (attributes u) m p) (all_announced_with_path_id u))))"

definition prefixes_wf :: "bgp_update \<Rightarrow> bool" where
  "prefixes_wf u \<longleftrightarrow> (\<forall>p \<in> set (all_withdrawn u) \<union> set (all_announced u). prefix_wf p)"

lemma key_of_Ok: "prefix_wf p \<Longrightarrow> entry_key C p i = Ok (key_of C p i)"
proof -
  assume wf: "prefix_wf p"
  have "\<exists>s. show_prefix C p = (Ok s :: string result)" using wf by (induction p) (auto simp: idx_def)
  then show ?thesis by (auto simp: entry_key_def key_of_def split: option.splits)
qed

lemma filter_route_Ok: "prefix_wf p \<Longrightarrow> \<exists>v. filter_route C D hdr attrs roto flt p = Ok v"
proof -
  assume "prefix_wf p"
  then obtain s where "show_prefix C p = (Ok s :: string result)"
    using key_of_Ok [of p C None] entry_key_show_prefix by blast
  then show ?thesis by (auto simp: filter_route_def from_bmp_def Let_def split: option.splits)
qed

lemma withdraw_loop:
  assumes "rib_ok C (ph_address hdr) rib" "\<forall>(p, i) \<in> set ps. prefix_wf p"
  shows "\<exists>rib'. rfold (withdraw_route C R spk now hdr) ps (rib, sent) =
      Ok (rib', sent @ map (\<lambda>(n, (p, i)). route_event R spk now hdr Withdraw p None n) (enumerate (length sent) ps))
    \<and> rib_ok C (ph_address hdr) rib'
    \<and> view rib' = after_changes (map (\<lambda>(p, i). Del (ph_rib_type hdr, key_of C p i)) ps) (view rib)"
  using assms
proof (induction ps arbitrary: rib sent)
  case (Cons pi ps)
  obtain p i where pi: "pi = (p, i)" by (cases pi)
  with Cons.prems have "prefix_wf p" by simp
  from withdraw_route_ok [OF Cons.prems(1) key_of_Ok [OF this, where i = i], where R = R and spk = spk and now = now and sent = sent] obtain rib1 where
    1: "withdraw_route C R spk now hdr (p, i) (rib, sent) = Ok (rib1, sent @ [route_event R spk now hdr Withdraw p None (length sent)])"
      "rib_ok C (ph_address hdr) rib1" "view rib1 = (view rib)((ph_rib_type hdr, key_of C p i) := None)" by blast
  have "\<forall>(p, i) \<in> set ps. prefix_wf p" using Cons.prems(2) by simp
  from Cons.IH [OF 1(2) this, of "sent @ [route_event R spk now hdr Withdraw p None (length sent)]"] 1(1) show ?case
    unfolding 1(3) by (fastforce simp: pi)
qed simp

lemma announce_loop:
  fixes m C D hdr attrs
  defines "keep \<equiv> filter (\<lambda>(p, i). accepted C D hdr attrs m p)"
  assumes "rib_ok C (ph_address hdr) rib" "\<forall>(p, i) \<in> set ps. prefix_wf p"
  shows "\<exists>rib'. rfold (announce_route C D R spk now hdr attrs (rm_roto m) (rm_filter m)) ps (rib, sent) =
      Ok (rib', sent @ map (\<lambda>(n, (p, i)). route_event R spk now hdr Announce p (Some attrs) n) (enumerate (length sent) (keep ps)))
    \<and> rib_ok C (ph_address hdr) rib'
    \<and> view rib' = after_changes (map (\<lambda>(p, i). Put (ph_rib_type hdr, key_of C p i) (new_entry now hdr attrs p i)) (keep ps)) (view rib)"
  using assms(2,3)
proof (induction ps arbitrary: rib sent)
  case (Cons pi ps)
  obtain p i where pi: "pi = (p, i)" by (cases pi)
  with Cons.prems have wf: "prefix_wf p" by simp
  obtain v where v: "filter_route C D hdr attrs (rm_roto m) (rm_filter m) p = Ok v" using filter_route_Ok [OF wf] by blast
  let ?sent = "sent @ (if v = Verdict_Deny then [] else [route_event R spk now hdr Announce p (Some attrs) (length sent)])"
  from announce_route_ok [OF Cons.prems(1) key_of_Ok [OF wf, where i = i] v, where R = R and spk = spk and now = now and sent = sent] obtain rib1 where
    1: "announce_route C D R spk now hdr attrs (rm_roto m) (rm_filter m) (p, i) (rib, sent) = Ok (rib1, ?sent)"
      "rib_ok C (ph_address hdr) rib1"
      "view rib1 = (if v = Verdict_Deny then view rib
         else (view rib)((ph_rib_type hdr, key_of C p i) := Some (new_entry now hdr attrs p i)))" by blast
  have "\<forall>(p, i) \<in> set ps. prefix_wf p" using Cons.prems(2) by simp
  from Cons.IH [OF 1(2) this, of ?sent] obtain rib2 where 2:
    "rfold (announce_route C D R spk now hdr attrs (rm_roto m) (rm_filter m)) ps (rib1, ?sent) =
      Ok (rib2, ?sent @ map (\<lambda>(n, (p, i)). route_event R spk now hdr Announce p (Some attrs) n) (enumerate (length ?sent) (keep ps)))"
    "rib_ok C (ph_address hdr) rib2"
    "view rib2 = after_changes (map (\<lambda>(p, i). Put (ph_rib_type hdr, key_of C p i) (new_entry now hdr attrs p i)) (keep ps)) (view rib1)"
    by blast
  have keep: "keep ((p, i) # ps) = (if v = Verdict_Deny then keep ps else (p, i) # keep ps)"
    using v by (simp add: keep_def accepted_def)
  show ?case
    using 1 2 by (cases "v = Verdict_Deny") (simp_all add: pi keep)
qed (simp add: keep_def)

subsection \<open>Invariant and refinement\<close>

definition session_ok :: "ip_addr \<Rightarrow> bmp_session \<Rightarrow> bool" where
  "session_ok a s \<longleftrightarrow> bs_speaker_addr s = a \<and> hm_wf (bs_peers s)
     \<and> (\<forall>pa p. hm_get (bs_peers s) pa = Some p \<longrightarrow> (\<exists>hdr. ph_address hdr = pa \<and> peer_inv hdr p))"

definition manager_inv :: "crates \<Rightarrow> rib_manager \<Rightarrow> bool" where
  "manager_inv C m \<longleftrightarrow> hm_wf (rm_speakers m) \<and> hm_wf (rm_ribs m)
     \<and> (\<forall>a s. hm_get (rm_speakers m) a = Some s \<longrightarrow> session_ok a s)
     \<and> (\<forall>pa t. hm_get (rm_ribs m) pa = Some t \<longrightarrow> rib_ok C pa t)"

text \<open>The abstract state: for every peer, RIB and key a route, without its best-path mark.\<close>

type_synonym route_map = "ip_addr \<Rightarrow> rib_type \<times> string \<Rightarrow> rib_entry option"

definition routes :: "rib_manager \<Rightarrow> route_map" where
  "routes m pa = (case hm_get (rm_ribs m) pa of None \<Rightarrow> (\<lambda>rk. None) | Some t \<Rightarrow> view t)"

text \<open>What a message does to the routes, given the sessions and filters of \<open>m\<close>.\<close>

definition spec_step :: "crates \<Rightarrow> filter_deps \<Rightarrow> bmp_message \<Rightarrow> rib_manager \<Rightarrow> route_map \<Rightarrow> route_map" where
  "spec_step C D msg m rs =
     (case msg_payload msg of
        RouteMonitoring hdr u \<Rightarrow>
          rs(ph_address hdr := after_changes (update_changes C D (msg_received_at msg) hdr u m) (rs (ph_address hdr)))
      | PeerDown hdr reason \<Rightarrow>
          rs(ph_address hdr :=
               (if peer_llgr (msg_speaker_addr msg) (ph_address hdr) m = None then (\<lambda>rk. None)
                else (\<lambda>rk. map_option (mark_stale (msg_received_at msg)) (rs (ph_address hdr) rk))))
      | Termination code txt \<Rightarrow>
          (\<lambda>pa. if \<exists>s. hm_get (rm_speakers m) (msg_speaker_addr msg) = Some s \<and> hm_contains (bs_peers s) pa
                then (\<lambda>rk. None) else rs pa)
      | _ \<Rightarrow> rs)"

fun payload_wf :: "bmp_payload \<Rightarrow> bool" where
  "payload_wf (RouteMonitoring hdr u) \<longleftrightarrow> prefixes_wf u"
| "payload_wf p \<longleftrightarrow> True"

lemma emit_simps [simp]:
  "rm_speakers (emit R spk pl m) = rm_speakers m" "rm_ribs (emit R spk pl m) = rm_ribs m"
  "rm_filter (emit R spk pl m) = rm_filter m" "rm_roto (emit R spk pl m) = rm_roto m"
  "manager_inv C (emit R spk pl m) = manager_inv C m" "routes (emit R spk pl m) = routes m"
  by (simp_all add: emit_def manager_inv_def routes_def fun_eq_iff)

lemma manager_inv_new [simp]: "manager_inv C manager_new"
  by (simp add: manager_inv_def manager_new_def)

lemma manager_inv_rib: "manager_inv C m \<Longrightarrow> rib_ok C pa (hm_get_or (rm_ribs m) pa rib_new)"
  by (cases "hm_get (rm_ribs m) pa") (auto simp: manager_inv_def)

lemma routes_get_or: "routes m pa = view (hm_get_or (rm_ribs m) pa rib_new)"
  by (auto simp: routes_def hm_get_or_def fun_eq_iff split: option.splits)

lemma session_ok_new: "session_ok a (bmp_session_new a now)"
  by (simp add: session_ok_def bmp_session_new_def)

lemma manager_inv_speakers:
  "manager_inv C m \<Longrightarrow> hm_wf sp \<Longrightarrow> (\<And>a s. hm_get sp a = Some s \<Longrightarrow> session_ok a s) \<Longrightarrow> manager_inv C (m\<lparr>rm_speakers := sp\<rparr>)"
  by (simp add: manager_inv_def)

lemma manager_inv_ribs:
  "manager_inv C m \<Longrightarrow> hm_wf rs \<Longrightarrow> (\<And>pa t. hm_get rs pa = Some t \<Longrightarrow> rib_ok C pa t) \<Longrightarrow> manager_inv C (m\<lparr>rm_ribs := rs\<rparr>)"
  by (simp add: manager_inv_def)

lemma manager_invD:
  assumes "manager_inv C m"
  shows "hm_wf (rm_speakers m)" "hm_wf (rm_ribs m)" "hm_get (rm_speakers m) a = Some s \<Longrightarrow> session_ok a s"
    "hm_get (rm_ribs m) pa = Some t \<Longrightarrow> rib_ok C pa t"
  using assms by (simp_all add: manager_inv_def)

lemma routes_speakers [simp]: "routes (m\<lparr>rm_speakers := sp\<rparr>) = routes m"
  by (simp add: routes_def fun_eq_iff)

lemma manager_inv_or_new: "manager_inv C m \<Longrightarrow> session_ok a (hm_get_or (rm_speakers m) a (bmp_session_new a now))"
  by (cases "hm_get (rm_speakers m) a") (auto simp: manager_inv_def session_ok_new)

lemma on_initiation_inv:
  assumes "manager_inv C m"
  shows "manager_inv C (on_initiation R spk now n d m)" "routes (on_initiation R spk now n d m) = routes m"
proof -
  let ?sp = "hm_modify spk (\<lambda>s. s\<lparr>bs_sys_name := n, bs_sys_descr := d\<rparr>) (hm_or_insert spk (bmp_session_new spk now) (rm_speakers m))"
  have "session_ok a s" if "hm_get ?sp a = Some s" for a s
    using that manager_inv_or_new [OF assms, of spk now] manager_invD(3) [OF assms]
    by (auto simp: session_ok_def split: if_splits)
  moreover have "hm_wf ?sp" using manager_invD(1) [OF assms] by simp
  ultimately have "manager_inv C (m\<lparr>rm_speakers := ?sp\<rparr>)" by (rule manager_inv_speakers [OF assms, rotated])
  then show "manager_inv C (on_initiation R spk now n d m)" "routes (on_initiation R spk now n d m) = routes m"
    by (simp_all add: on_initiation_def)
qed

lemma hm_fold_remove:
  "hm_get (fold hm_remove ks m) k = (if k \<in> set ks then None else hm_get m k)"
  "hm_wf m \<Longrightarrow> hm_wf (fold hm_remove ks m)"
  by (induction ks arbitrary: m) auto

lemma on_termination_inv:
  assumes "manager_inv C m"
  shows "manager_inv C (on_termination R spk code txt m)"
    "routes (on_termination R spk code txt m) =
       (\<lambda>pa. if \<exists>s. hm_get (rm_speakers m) spk = Some s \<and> hm_contains (bs_peers s) pa then (\<lambda>rk. None) else routes m pa)"
proof -
  have "manager_inv C (m\<lparr>rm_speakers := hm_remove spk (rm_speakers m), rm_ribs := fold hm_remove ks (rm_ribs m)\<rparr>)" for ks
    using assms by (auto simp: manager_inv_def hm_fold_remove)
  then show "manager_inv C (on_termination R spk code txt m)"
    using assms by (simp add: on_termination_def split: option.splits)
  show "routes (on_termination R spk code txt m) =
       (\<lambda>pa. if \<exists>s. hm_get (rm_speakers m) spk = Some s \<and> hm_contains (bs_peers s) pa then (\<lambda>rk. None) else routes m pa)"
    by (cases "hm_get (rm_speakers m) spk")
       (auto simp: on_termination_def routes_def hm_fold_remove fun_eq_iff hm_contains_def hm_keys_def)
qed

lemma on_peer_up_inv:
  assumes "manager_inv C m"
  shows "\<exists>m'. on_peer_up R spk now pu m = Ok m' \<and> manager_inv C m' \<and> routes m' = routes m"
proof -
  let ?hdr = "up_peer_header pu"
  let ?sess = "hm_get_or (rm_speakers m) spk (bmp_session_new spk now)"
  let ?peer = "hm_get_or (bs_peers ?sess) (ph_address ?hdr) (peer_session_new ?hdr)"
  have sess: "session_ok spk ?sess" by (rule manager_inv_or_new [OF assms])
  then obtain hdr where hdr: "ph_address hdr = ph_address ?hdr" "peer_inv hdr ?peer"
    by (cases "hm_get (bs_peers ?sess) (ph_address ?hdr)") (auto simp: session_ok_def peer_inv_new)
  obtain p' where p': "on_up (open_asn (up_sent_open pu)) (open_hold_time (up_recv_open pu))
      (open_capabilities (up_recv_open pu)) now ?peer = Ok p'" using on_up_total by blast
  have "peer_inv hdr p'" by (rule peer_inv_on_up [OF hdr(2) p'])
  with sess hdr(1) have "session_ok spk (?sess\<lparr>bs_peers := hm_insert (ph_address ?hdr) p' (bs_peers ?sess)\<rparr>)"
    by (auto simp: session_ok_def)
  then have "manager_inv C (m\<lparr>rm_speakers := hm_insert spk (?sess\<lparr>bs_peers := hm_insert (ph_address ?hdr) p' (bs_peers ?sess)\<rparr>) (rm_speakers m)\<rparr>)"
    using manager_invD [OF assms] by (intro manager_inv_speakers [OF assms]) (auto split: if_splits)
  then show ?thesis using p' by (simp add: on_peer_up_def Let_def)
qed

lemma on_peer_down_inv:
  assumes "manager_inv C m"
  shows "manager_inv C (on_peer_down R spk now hdr reason m)"
    "routes (on_peer_down R spk now hdr reason m) = (routes m)(ph_address hdr :=
       (if peer_llgr spk (ph_address hdr) m = None then (\<lambda>rk. None)
        else (\<lambda>rk. map_option (mark_stale now) (routes m (ph_address hdr) rk))))"
proof -
  let ?sp = "hm_modify spk (\<lambda>s. s\<lparr>bs_peers := hm_modify (ph_address hdr) (on_down now) (bs_peers s)\<rparr>) (rm_speakers m)"
  have "session_ok a s" if "hm_get ?sp a = Some s" for a s
    using that manager_invD(3) [OF assms] by (fastforce simp: session_ok_def intro: peer_inv_on_down split: if_splits)
  then have sp: "manager_inv C (m\<lparr>rm_speakers := ?sp\<rparr>)"
    using manager_invD(1) [OF assms] by (intro manager_inv_speakers [OF assms]) simp_all
  then have "manager_inv C (m\<lparr>rm_speakers := ?sp, rm_ribs := hm_modify (ph_address hdr) (mark_stale_all now) (rm_ribs m)\<rparr>)"
    "manager_inv C (m\<lparr>rm_speakers := ?sp, rm_ribs := hm_modify (ph_address hdr) clear_all (hm_or_insert (ph_address hdr) rib_new (rm_ribs m))\<rparr>)"
    using manager_invD [OF assms] by (auto simp: manager_inv_def rib_ok_mark_stale_all split: if_splits)
  then show "manager_inv C (on_peer_down R spk now hdr reason m)"
    by (simp add: on_peer_down_def Let_def split: option.splits)
  show "routes (on_peer_down R spk now hdr reason m) = (routes m)(ph_address hdr :=
       (if peer_llgr spk (ph_address hdr) m = None then (\<lambda>rk. None)
        else (\<lambda>rk. map_option (mark_stale now) (routes m (ph_address hdr) rk))))"
    by (auto simp: on_peer_down_def Let_def routes_def fun_eq_iff view_mark_stale_all split: option.splits)
qed

lemma enumerate_map: "enumerate n (map f xs) = map (\<lambda>(i, x). (i, f x)) (enumerate n xs)"
  by (induction xs arbitrary: n) auto

lemma wf_update_pairs:
  assumes "prefixes_wf u"
  shows "\<forall>(p, i) \<in> set (all_withdrawn_with_path_id u). prefix_wf p"
    "\<forall>(p, i) \<in> set (all_announced_with_path_id u). prefix_wf p"
  using assms unfolding prefixes_wf_def all_with_path_id_prefixes [symmetric] by force+

lemma on_route_monitoring_spec:
  assumes "manager_inv C m" "prefixes_wf u" "\<not> is_eor u"
  shows "\<exists>m'. on_route_monitoring C D R spk now hdr u m = Ok m' \<and> manager_inv C m'
    \<and> routes m' = (routes m)(ph_address hdr := after_changes (update_changes C D now hdr u m) (routes m (ph_address hdr)))
    \<and> rm_sent m' = rm_sent m @ update_events C D R spk now hdr u m \<and> rm_speakers m' = rm_speakers m"
proof -
  let ?pa = "ph_address hdr"
  let ?rib = "hm_get_or (rm_ribs m) ?pa rib_new"
  let ?keep = "filter (\<lambda>(p, i). accepted C D hdr (attributes u) m p) (all_announced_with_path_id u)"
  let ?wev = "map (\<lambda>(n, (p, i)). route_event R spk now hdr Withdraw p None n) (enumerate (length (rm_sent m)) (all_withdrawn_with_path_id u))"
  obtain rib1 where 1: "rfold (withdraw_route C R spk now hdr) (all_withdrawn_with_path_id u) (?rib, rm_sent m) = Ok (rib1, rm_sent m @ ?wev)"
    "rib_ok C ?pa rib1" "view rib1 = after_changes (map (\<lambda>(p, i). Del (ph_rib_type hdr, key_of C p i)) (all_withdrawn_with_path_id u)) (view ?rib)"
    using withdraw_loop [OF manager_inv_rib [OF assms(1)] wf_update_pairs(1) [OF assms(2)]] by blast
  obtain rib2 where 2: "rfold (announce_route C D R spk now hdr (attributes u) (rm_roto m) (rm_filter m)) (all_announced_with_path_id u) (rib1, rm_sent m @ ?wev)
      = Ok (rib2, (rm_sent m @ ?wev) @ map (\<lambda>(n, (p, i)). route_event R spk now hdr Announce p (Some (attributes u)) n)
          (enumerate (length (rm_sent m @ ?wev)) ?keep))"
    "rib_ok C ?pa rib2"
    "view rib2 = after_changes (map (\<lambda>(p, i). Put (ph_rib_type hdr, key_of C p i) (new_entry now hdr (attributes u) p i)) ?keep) (view rib1)"
    using announce_loop [OF 1(2) wf_update_pairs(2) [OF assms(2)]] by blast
  let ?m' = "m\<lparr>rm_ribs := hm_insert ?pa rib2 (rm_ribs m), rm_sent := rm_sent m @ update_events C D R spk now hdr u m\<rparr>"
  have ev: "?wev @ map (\<lambda>(n, (p, i)). route_event R spk now hdr Announce p (Some (attributes u)) n)
      (enumerate (length (rm_sent m @ ?wev)) ?keep) = update_events C D R spk now hdr u m"
    by (simp add: update_events_def enumerate_append_eq enumerate_map comp_def split_def)
  have "on_route_monitoring C D R spk now hdr u m = Ok ?m'"
    using assms(3) 1(1) 2(1) ev by (simp add: on_route_monitoring_def Let_def)
  moreover have "manager_inv C ?m'" using assms(1) 2(2) by (simp add: manager_inv_def)
  moreover have "routes ?m' = (routes m)(?pa := view rib2)" by (simp add: routes_def fun_eq_iff)
  moreover have "view rib2 = after_changes (update_changes C D now hdr u m) (routes m ?pa)"
    by (simp add: 2(3) 1(3) routes_get_or update_changes_def after_changes_append)
  ultimately show ?thesis by auto
qed

lemma update_changes_eor: "is_eor u \<Longrightarrow> update_changes C D now hdr u m = []"
proof -
  assume "is_eor u"
  then have "map fst (all_announced_with_path_id u) = []" "map fst (all_withdrawn_with_path_id u) = []"
    unfolding all_with_path_id_prefixes by (simp_all add: is_eor_empty)
  then show ?thesis by (simp add: update_changes_def)
qed

lemma process_step:
  assumes "manager_inv C m" "payload_wf (msg_payload msg)"
  shows "\<exists>m'. process C D R msg m = Ok m' \<and> manager_inv C m' \<and> routes m' = spec_step C D msg m (routes m)"
proof (cases "msg_payload msg")
  case (Initiation n d ls)
  then show ?thesis using on_initiation_inv [OF assms(1)] by (simp add: process_def spec_step_def Let_def)
next
  case (Termination c t)
  then show ?thesis using on_termination_inv [OF assms(1)] by (simp add: process_def spec_step_def Let_def)
next
  case (PeerUp pu)
  then show ?thesis using on_peer_up_inv [OF assms(1)] by (simp add: process_def spec_step_def Let_def)
next
  case (PeerDown h r)
  then show ?thesis using on_peer_down_inv [OF assms(1)] by (simp add: process_def spec_step_def Let_def)
next
  case (RouteMonitoring hdr u)
  then have wf: "prefixes_wf u" using assms(2) by simp
  show ?thesis
  proof (cases "is_eor u")
    case True
    then show ?thesis using RouteMonitoring assms(1)
      by (simp add: process_def spec_step_def Let_def on_route_monitoring_def update_changes_eor)
  next
    case False
    from on_route_monitoring_spec [OF assms(1) wf False] RouteMonitoring show ?thesis
      unfolding process_def spec_step_def Let_def by fastforce
  qed
next
  case (StatsReport h st)
  then show ?thesis using assms(1) by (simp add: process_def spec_step_def Let_def)
next
  case (RouteMirroring h pdu)
  then show ?thesis using assms(1) by (simp add: process_def spec_step_def Let_def)
qed

subsection \<open>Reachable states\<close>

inductive manager_step :: "crates \<Rightarrow> filter_deps \<Rightarrow> runtime \<Rightarrow> rib_manager \<Rightarrow> rib_manager \<Rightarrow> bool" for C D R where
  process: "payload_wf (msg_payload msg) \<Longrightarrow> process C D R msg m = Ok m' \<Longrightarrow> manager_step C D R m m'"
| set_filter: "manager_step C D R m (set_filter en m)"
| clear_filter: "manager_step C D R m (clear_filter m)"
| set_roto_filter: "manager_step C D R m (set_roto_filter ro m)"
| expire: "manager_step C D R m (fst (expire_stale_for_peer C now pa secs m))"

inductive manager_reachable :: "crates \<Rightarrow> filter_deps \<Rightarrow> runtime \<Rightarrow> rib_manager \<Rightarrow> bool" for C D R where
  init: "manager_reachable C D R manager_new"
| step: "manager_reachable C D R m \<Longrightarrow> manager_step C D R m m' \<Longrightarrow> manager_reachable C D R m'"

inductive_cases manager_stepE: "manager_step C D R m m'"

lemma manager_step_inv:
  assumes "manager_step C D R m m'" "manager_inv C m"
  shows "manager_inv C m'"
  using assms(1)
proof cases
  case (process msg)
  then show ?thesis using process_step [OF assms(2) process(1), of D R] by auto
next
  case (expire now pa secs)
  show ?thesis
  proof (cases "hm_get (rm_ribs m) pa")
    case (Some t)
    obtain t' n where t': "drain_deleted_stale C now secs t = (t', n)" by (cases "drain_deleted_stale C now secs t")
    have "rib_ok C pa t'" using rib_ok_drain [OF _ t'] manager_invD(4) [OF assms(2) Some] by blast
    then show ?thesis using assms(2) Some t' expire by (simp add: expire_stale_for_peer_def manager_inv_def)
  qed (use assms(2) expire in \<open>simp add: expire_stale_for_peer_def\<close>)
qed (use assms(2) in \<open>simp_all add: set_filter_def clear_filter_def set_roto_filter_def manager_inv_def\<close>)

text \<open>C2: the manager refines the abstract route map.  On every message with well-formed prefixes
  \<^verbatim>\<open>process\<close> returns (no panic), keeps the invariant, and changes the routes exactly as the specification
  says: an UPDATE withdraws, then stores what the filter lets through; a Peer Down clears the peer's routes or, with
  long-lived graceful restart, marks them stale; a Termination removes the routes of the speaker's peers; every other
  message, End-of-RIB included, leaves the routes alone.\<close>

theorem process_refines:
  assumes "manager_inv C m" "payload_wf (msg_payload msg)"
  shows "\<exists>m'. process C D R msg m = Ok m' \<and> manager_inv C m' \<and> routes m' = spec_step C D msg m (routes m)"
  by (rule process_step [OF assms])

text \<open>A message that announces one IPv4 prefix.\<close>

definition example_peer :: peer_header where
  "example_peer = \<lparr>ph_peer_type = GlobalInstance, ph_peer_flags = PeerFlags 0, ph_distinguisher = replicate 8 0,
     ph_address = IpV4 1, ph_as = 65001, ph_bgp_id = 1, ph_timestamp = 0, ph_rib_type = AdjRibInPrePolicy\<rparr>"

definition example_update :: bgp_update where
  "example_update = \<lparr>withdrawn = [], withdrawn_path_ids = [], attributes = path_attributes_default,
     announced = [Prefix_V4 (Ipv4Net 0x0A010000 16)], announced_path_ids = [None]\<rparr>"

definition example_msg :: "bmp_payload \<Rightarrow> bmp_message" where
  "example_msg pl = \<lparr>msg_id = 0, msg_received_at = 5, msg_speaker_addr = IpV4 9, msg_payload = pl\<rparr>"

lemma example_prefixes_wf [simp]: "prefixes_wf example_update" "\<not> is_eor example_update"
  using net_example by (simp_all add: prefixes_wf_def all_withdrawn_def all_announced_def example_update_def path_attributes_default_def is_eor_def)

theorem process_refines_witness:
  "\<exists>m'. process doc_crates (example_deps []) \<lparr>new_v4 = word_of_nat, utc_now = int\<rparr>
      (example_msg (RouteMonitoring example_peer example_update)) manager_new = Ok m'
    \<and> routes m' (IpV4 1) (AdjRibInPrePolicy, key_of doc_crates (Prefix_V4 (Ipv4Net 0x0A010000 16)) None)
        = Some (new_entry 5 example_peer path_attributes_default (Prefix_V4 (Ipv4Net 0x0A010000 16)) None)"
proof -
  let ?msg = "example_msg (RouteMonitoring example_peer example_update)"
  have "payload_wf (msg_payload ?msg)" by (simp add: example_msg_def)
  from process_refines [OF manager_inv_new this, of doc_crates "example_deps []" "\<lparr>new_v4 = word_of_nat, utc_now = int\<rparr>"]
  obtain m' where m': "process doc_crates (example_deps []) \<lparr>new_v4 = word_of_nat, utc_now = int\<rparr> ?msg manager_new = Ok m'"
    "routes m' = spec_step doc_crates (example_deps []) ?msg manager_new (routes manager_new)" by blast
  have "all_announced_with_path_id example_update = [(Prefix_V4 (Ipv4Net 0x0A010000 16), None)]"
    "all_withdrawn_with_path_id example_update = []" "attributes example_update = path_attributes_default"
    by (simp_all add: all_announced_with_path_id_def all_withdrawn_with_path_id_def zip_ids_def example_update_def path_attributes_default_def)
  then show ?thesis using m'
    by (simp add: spec_step_def example_msg_def update_changes_def accepted_def filter_route_def manager_new_def example_peer_def)
qed

text \<open>C6: in every reachable state of the manager, under any sequence of messages, filter changes and stale-route
  expiries: speakers and peers are stored under their own addresses and every peer session satisfies its invariant;
  every route is stored under its own key, in the table of the peer that sent it, and is either normal or marked
  stale with the time of marking, never in the deleted state.\<close>

theorem manager_invariant:
  assumes "manager_reachable C D R m"
  shows "manager_inv C m"
  using assms by induction (auto intro: manager_step_inv)

theorem manager_invariant_witness:
  "\<exists>m. manager_reachable doc_crates (example_deps []) \<lparr>new_v4 = word_of_nat, utc_now = int\<rparr> m
     \<and> manager_inv doc_crates m \<and> rm_ribs m \<noteq> []"
proof -
  let ?R = "\<lparr>new_v4 = word_of_nat, utc_now = int\<rparr>"
  let ?msg = "example_msg (RouteMonitoring example_peer example_update)"
  obtain m where m: "process doc_crates (example_deps []) ?R ?msg manager_new = Ok m"
    using process_step [OF manager_inv_new, of ?msg doc_crates "example_deps []" ?R] by (auto simp: example_msg_def)
  have "manager_reachable doc_crates (example_deps []) ?R m"
    using m by (intro manager_reachable.step [OF manager_reachable.init] manager_step.process [where msg = ?msg])
       (simp_all add: example_msg_def)
  moreover have "rm_ribs m \<noteq> []"
    using m by (auto simp: process_def Let_def example_msg_def on_route_monitoring_def hm_insert_def manager_new_def)
  ultimately show ?thesis using manager_invariant by blast
qed

text \<open>C26: the event stream of an UPDATE: one withdraw event per withdrawn prefix and one announce event per announced
  prefix that the filter lets through, in message order, with the time of the message and fresh identifiers; the
  sessions are unchanged.\<close>

theorem route_monitoring_events:
  assumes "manager_inv C m" "prefixes_wf u" "\<not> is_eor u"
    and "msg_payload msg = RouteMonitoring hdr u" "process C D R msg m = Ok m'"
  shows "rm_sent m' = rm_sent m @ update_events C D R (msg_speaker_addr msg) (msg_received_at msg) hdr u m
    \<and> rm_speakers m' = rm_speakers m"
  using on_route_monitoring_spec [OF assms(1-3), of D R "msg_speaker_addr msg" "msg_received_at msg" hdr] assms(4,5)
  by (auto simp: process_def Let_def)

theorem route_monitoring_events_witness:
  "\<exists>m'. process doc_crates (example_deps []) \<lparr>new_v4 = word_of_nat, utc_now = int\<rparr>
      (example_msg (RouteMonitoring example_peer example_update)) manager_new = Ok m'
    \<and> map ev_payload (rm_sent m') = [Ev_RouteChange \<lparr>rc_action = Announce, rc_peer_header = example_peer,
        rc_rib_type = AdjRibInPrePolicy, rc_prefix = Prefix_V4 (Ipv4Net 0x0A010000 16), rc_attributes = Some path_attributes_default\<rparr>]"
proof -
  let ?R = "\<lparr>new_v4 = word_of_nat, utc_now = int\<rparr>"
  let ?msg = "example_msg (RouteMonitoring example_peer example_update)"
  obtain m' where m': "process doc_crates (example_deps []) ?R ?msg manager_new = Ok m'"
    using process_step [OF manager_inv_new, of ?msg doc_crates "example_deps []" ?R] by (auto simp: example_msg_def)
  have "all_announced_with_path_id example_update = [(Prefix_V4 (Ipv4Net 0x0A010000 16), None)]"
    "all_withdrawn_with_path_id example_update = []" "attributes example_update = path_attributes_default"
    by (simp_all add: all_announced_with_path_id_def all_withdrawn_with_path_id_def zip_ids_def example_update_def path_attributes_default_def)
  then show ?thesis
    using route_monitoring_events [OF manager_inv_new example_prefixes_wf _ m', of example_peer] m'
    by (simp add: update_events_def accepted_def filter_route_def manager_new_def route_event_def example_msg_def example_peer_def)
qed

end
