(* ===== verification/Pipeline.thy ===== *)
theory Pipeline
  imports Receiver Governor Rib_Manager
begin

text \<open>
  The ingest pipeline as \<^verbatim>\<open>main.rs\<close> wires it: what the connections send on the message channel is
  counted by the governor and processed by the RIB manager, one message after the other.
\<close>

fun pump :: "crates \<Rightarrow> filter_deps \<Rightarrow> runtime \<Rightarrow> bmp_message list \<Rightarrow> rib_manager \<Rightarrow> governor \<Rightarrow> (rib_manager \<times> governor) result" where
  "pump C D R [] m g = Ok (m, g)"
| "pump C D R (msg # msgs) m g =
     (let g = record_event g in rbind (process C D R msg m) (\<lambda>m. pump C D R msgs m g))"

lemma carried_payload_wf: "carried_wf pl \<Longrightarrow> payload_wf pl"
  by (cases pl) (auto simp: carried_wf_def update_wf_def prefixes_wf_def)

lemma messages_wf:
  assumes "bytes_ok C" "ipnet_ok C"
  shows "\<forall>msg \<in> set (messages (frame_message C E cfg speaker) n fs). payload_wf (msg_payload msg) \<and> msg_speaker_addr msg = speaker"
proof (induction fs arbitrary: n)
  case (Cons f fs)
  have "payload_wf pl" if "parse_bmp_message C now f speaker mx = Ok pl" for now mx pl
    using that parse_bmp_message_stops [OF assms, of now f speaker mx] by (auto simp: stops_iff intro: carried_payload_wf)
  with Cons show ?case by (auto simp: frame_message_def bmp_msg_def split: outcome.splits if_splits)
qed simp

lemma pump_ok:
  assumes "manager_inv C m" "\<forall>msg \<in> set msgs. payload_wf (msg_payload msg)"
  shows "\<exists>m' g'. pump C D R msgs m g = Ok (m', g') \<and> manager_inv C m'
    \<and> inbound_event_counter g' = inbound_event_counter g + word_of_nat (length msgs)"
  using assms
proof (induction msgs arbitrary: m g)
  case (Cons msg msgs)
  from process_step [OF Cons.prems(1), of msg D R] Cons.prems(2) obtain m1 where
    m1: "process C D R msg m = Ok m1" "manager_inv C m1" by auto
  from Cons.IH [OF m1(2), of "record_event g"] Cons.prems(2) m1(1) show ?case
    by (auto simp: record_event_def algebra_simps)
qed simp

lemma pump_append:
  "pump C D R (xs @ ys) m g = rbind (pump C D R xs m g) (\<lambda>(m, g). pump C D R ys m g)"
  by (induction xs arbitrary: m g) (auto simp: rbind_def Let_def split: outcome.splits)

lemma termination_evicts:
  assumes "manager_inv C m" "msg_payload msg = Termination c t" "process C D R msg m = Ok m'"
  shows "hm_get (rm_speakers m') (msg_speaker_addr msg) = None"
    and "\<And>sess pa rk. hm_get (rm_speakers m) (msg_speaker_addr msg) = Some sess \<Longrightarrow> hm_contains (bs_peers sess) pa \<Longrightarrow> routes m' pa rk = None"
  using assms process_step [OF assms(1), of msg D R]
  by (auto simp: process_def Let_def on_termination_def spec_step_def fun_eq_iff split: option.splits)



end
