(* ===== verification/Collector_Protocol.thy ===== *)
theory Collector_Protocol
  imports Bgp_Types
begin

text \<open>
  \<^verbatim>\<open>rbmp-core/src/collector_protocol.rs\<close>: the length-prefixed frames a collector sends to the core.
  The MessagePack codec (crate \<^verbatim>\<open>rmp_serde\<close>) is a parameter whose documented behaviour is that
  decoding inverts encoding (\<open>msgpack_ok\<close>).  A reader is the bytes it still delivers and the kind of
  error it reports when they run out; a writer is the bytes written so far and the error it fails with, if
  any.

  Result: a stream of frames written by \<open>write_frame\<close> is read back frame by frame, in order, and then
  reports a clean end of stream.
\<close>

record collector_envelope =
  collector_id :: string
  site :: string
  ce_speaker_addr :: ip_addr
  ce_received_at :: datetime
  raw_bmp :: bytes

record msgpack =
  to_vec :: "collector_envelope \<Rightarrow> string + bytes"
  from_slice :: "bytes \<Rightarrow> string + collector_envelope"

definition msgpack_ok :: "msgpack \<Rightarrow> bool" where
  "msgpack_ok M \<longleftrightarrow> (\<forall>env b. to_vec M env = Inr b \<longrightarrow> from_slice M b = Inr env)"

record reader =
  r_bytes :: bytes
  r_end :: io_kind

record writer =
  w_bytes :: bytes
  w_fail :: "io_kind option"

definition MAX_FRAME_BYTES :: u32 where "MAX_FRAME_BYTES = 8 * 1024 * 1024"
definition COLLECTOR_PORT :: u16 where "COLLECTOR_PORT = 5001"

definition encode_frame :: "msgpack \<Rightarrow> collector_envelope \<Rightarrow> bytes result" where
  "encode_frame M env =
     (case to_vec M env of
        Inl e \<Rightarrow> Err (BmpParse (''msgpack encode: '' @ e))
      | Inr payload \<Rightarrow>
          if length payload > unat MAX_FRAME_BYTES
          then Err (FrameTooLarge (word_of_nat (length payload)) MAX_FRAME_BYTES)
          else Ok (to_be 4 (unat (word_of_nat (length payload) :: u32)) @ payload))"

definition decode_body :: "msgpack \<Rightarrow> bytes \<Rightarrow> collector_envelope result" where
  "decode_body M body =
     (case from_slice M body of
        Inl e \<Rightarrow> Err (BmpParse (''msgpack decode: '' @ e))
      | Inr env \<Rightarrow> Ok env)"

definition read_exact :: "nat \<Rightarrow> reader \<Rightarrow> io_kind + bytes \<times> reader" where
  "read_exact n r =
     (if n \<le> length (r_bytes r) then Inr (take n (r_bytes r), r\<lparr>r_bytes := drop n (r_bytes r)\<rparr>)
      else Inl (r_end r))"

definition read_frame :: "msgpack \<Rightarrow> reader \<Rightarrow> (collector_envelope option \<times> reader) result" where
  "read_frame M r =
     (case read_exact 4 r of
        Inl IoUnexpectedEof \<Rightarrow> Ok (None, r)
      | Inl e \<Rightarrow> Err (Io e)
      | Inr (len_buf, r) \<Rightarrow>
          (let len = from_be len_buf :: u32 in
           if len > MAX_FRAME_BYTES then Err (FrameTooLarge len MAX_FRAME_BYTES)
           else (case read_exact (unat len) r of
                   Inl e \<Rightarrow> Err (Io e)
                 | Inr (body, r) \<Rightarrow> rbind (decode_body M body) (\<lambda>env. Ok (Some env, r)))))"

definition write_all :: "bytes \<Rightarrow> writer \<Rightarrow> writer result" where
  "write_all b w = (case w_fail w of None \<Rightarrow> Ok (w\<lparr>w_bytes := w_bytes w @ b\<rparr>) | Some e \<Rightarrow> Err (Io e))"

definition flush :: "writer \<Rightarrow> writer result" where
  "flush w = (case w_fail w of None \<Rightarrow> Ok w | Some e \<Rightarrow> Err (Io e))"

definition write_frame :: "msgpack \<Rightarrow> collector_envelope \<Rightarrow> writer \<Rightarrow> writer result" where
  "write_frame M env w = rbind (encode_frame M env) (\<lambda>buf. rbind (write_all buf w) flush)"

subsection \<open>Streams of frames\<close>

text \<open>What a sender and a receiver do with a connection: write envelopes one after the other, read
  frames until the stream ends.\<close>

fun write_frames :: "msgpack \<Rightarrow> collector_envelope list \<Rightarrow> writer \<Rightarrow> writer result" where
  "write_frames M [] w = Ok w"
| "write_frames M (e # es) w = rbind (write_frame M e w) (write_frames M es)"

definition read_frames :: "msgpack \<Rightarrow> reader \<Rightarrow> (reader \<times> collector_envelope list) result" where
  "read_frames M r =
     rwhile (\<lambda>_. True)
       (\<lambda>(r, es). rbind (read_frame M r) (\<lambda>(x, r).
          case x of None \<Rightarrow> Ok (Brk (r, es)) | Some env \<Rightarrow> Ok (Cont (r, es @ [env]))))
       (r, [])"

lemma encode_frame_Ok:
  assumes "encode_frame M env = Ok f"
  obtains p where "to_vec M env = Inr p" "length p \<le> unat MAX_FRAME_BYTES" "f = to_be 4 (length p) @ p"
proof -
  have "f = to_be 4 (length p) @ p" if "length p \<le> 8388608" "to_vec M env = Inr p" for p
    using that assms by (simp add: encode_frame_def MAX_FRAME_BYTES_def unat_of_nat del: to_be.simps)
  with assms that show ?thesis
    by (auto simp: encode_frame_def MAX_FRAME_BYTES_def split: sum.splits if_splits)
qed

lemma encode_frame_bound: "encode_frame M env = Ok f \<Longrightarrow> length f \<le> 4 + unat MAX_FRAME_BYTES"
  by (erule encode_frame_Ok) simp

lemma read_frame_encoded:
  assumes "msgpack_ok M" "encode_frame M env = Ok f"
  shows "read_frame M \<lparr>r_bytes = f @ rest, r_end = k\<rparr> = Ok (Some env, \<lparr>r_bytes = rest, r_end = k\<rparr>)"
  using assms(2)
proof (rule encode_frame_Ok)
  fix p assume p: "to_vec M env = Inr p" "length p \<le> unat MAX_FRAME_BYTES" "f = to_be 4 (length p) @ p"
  have l: "unat (from_be (to_be 4 (length p)) :: u32) = length p"
    using p(2) by (simp add: MAX_FRAME_BYTES_def unat_from_be be_nat_to_be del: to_be.simps)
  then have "\<not> MAX_FRAME_BYTES < from_be (to_be 4 (length p))"
    using p(2) by (simp add: word_less_nat_alt not_less)
  then show ?thesis
    using assms(1) p(1) l
    by (simp add: p(3) read_frame_def read_exact_def decode_body_def msgpack_ok_def Let_def del: to_be.simps)
qed

lemma write_frame_Ok:
  assumes "w_fail w = None" "write_frame M env w = Ok w'"
  obtains f where "encode_frame M env = Ok f" "w' = w\<lparr>w_bytes := w_bytes w @ f\<rparr>"
  using assms by (auto simp: write_frame_def write_all_def flush_def)

lemma read_frame_empty: "read_frame M \<lparr>r_bytes = [], r_end = IoUnexpectedEof\<rparr> = Ok (None, \<lparr>r_bytes = [], r_end = IoUnexpectedEof\<rparr>)"
  by (simp add: read_frame_def read_exact_def)

lemma write_frames_Ok:
  assumes "w_fail w = None" "write_frames M es w = Ok w'"
  shows "\<exists>fs. list_all2 (\<lambda>e f. encode_frame M e = Ok f) es fs \<and> w_bytes w' = w_bytes w @ concat fs"
  using assms
proof (induction es arbitrary: w)
  case (Cons e es)
  then obtain w1 where w1: "write_frame M e w = Ok w1" "write_frames M es w1 = Ok w'" by auto
  obtain f where f: "encode_frame M e = Ok f" "w1 = w\<lparr>w_bytes := w_bytes w @ f\<rparr>"
    using write_frame_Ok [OF Cons.prems(1) w1(1)] .
  obtain fs where "list_all2 (\<lambda>e f. encode_frame M e = Ok f) es fs" "w_bytes w' = w_bytes w1 @ concat fs"
    using Cons.IH [of w1] Cons.prems(1) w1(2) f(2) by auto
  with f show ?case by (intro exI [of _ "f # fs"]) simp
qed simp

lemma read_frames_encoded:
  assumes "msgpack_ok M" "list_all2 (\<lambda>e f. encode_frame M e = Ok f) es fs"
  shows "rwhile (\<lambda>_. True)
       (\<lambda>(r, es). rbind (read_frame M r) (\<lambda>(x, r).
          case x of None \<Rightarrow> Ok (Brk (r, es)) | Some env \<Rightarrow> Ok (Cont (r, es @ [env]))))
       (\<lparr>r_bytes = concat fs, r_end = IoUnexpectedEof\<rparr>, acc) =
     Ok (\<lparr>r_bytes = [], r_end = IoUnexpectedEof\<rparr>, acc @ es)"
  using assms(2)
proof (induction arbitrary: acc)
  case Nil
  then show ?case by (subst rwhile_break) (simp_all add: read_frame_empty)
next
  case (Cons e es f fs)
  then show ?case by (subst rwhile_step) (auto simp: read_frame_encoded [OF assms(1)])
qed

text \<open>The frames a collector writes are the envelopes the core reads, in order, followed by a clean
  end of stream.\<close>

theorem frames_roundtrip:
  assumes "msgpack_ok M" "write_frames M es \<lparr>w_bytes = [], w_fail = None\<rparr> = Ok w"
  shows "read_frames M \<lparr>r_bytes = w_bytes w, r_end = IoUnexpectedEof\<rparr> =
     Ok (\<lparr>r_bytes = [], r_end = IoUnexpectedEof\<rparr>, es)"
proof -
  obtain fs where "list_all2 (\<lambda>e f. encode_frame M e = Ok f) es fs" "w_bytes w = concat fs"
    using write_frames_Ok [OF _ assms(2)] by auto
  with read_frames_encoded [OF assms(1)] show ?thesis by (simp add: read_frames_def)
qed

text \<open>A codec for envelopes whose text fields are empty, for the concrete instance below.\<close>

definition bmp_only_codec :: msgpack where
  "bmp_only_codec = \<lparr>
     to_vec = (\<lambda>env. if env = \<lparr>collector_id = [], site = [], ce_speaker_addr = IpV4 0, ce_received_at = 0,
                               raw_bmp = raw_bmp env\<rparr> then Inr (raw_bmp env) else Inl ''unsupported''),
     from_slice = (\<lambda>b. Inr \<lparr>collector_id = [], site = [], ce_speaker_addr = IpV4 0, ce_received_at = 0,
                           raw_bmp = b\<rparr>) \<rparr>"

lemma bmp_only_codec_ok: "msgpack_ok bmp_only_codec"
  by (auto simp: msgpack_ok_def bmp_only_codec_def split: if_splits)

theorem frames_roundtrip_witness:
  "read_frames bmp_only_codec \<lparr>r_bytes = [0, 0, 0, 1, 7, 0, 0, 0, 0], r_end = IoUnexpectedEof\<rparr> =
     Ok (\<lparr>r_bytes = [], r_end = IoUnexpectedEof\<rparr>,
         [\<lparr>collector_id = [], site = [], ce_speaker_addr = IpV4 0, ce_received_at = 0, raw_bmp = [7]\<rparr>,
          \<lparr>collector_id = [], site = [], ce_speaker_addr = IpV4 0, ce_received_at = 0, raw_bmp = []\<rparr>])"
proof -
  have lengths: "to_be 4 (Suc 0) = [0, 0, 0, 1]" "to_be 4 0 = [0, 0, 0, 0]" by code_simp+
  have "write_frames bmp_only_codec
      [\<lparr>collector_id = [], site = [], ce_speaker_addr = IpV4 0, ce_received_at = 0, raw_bmp = [7]\<rparr>,
       \<lparr>collector_id = [], site = [], ce_speaker_addr = IpV4 0, ce_received_at = 0, raw_bmp = []\<rparr>]
      \<lparr>w_bytes = [], w_fail = None\<rparr> = Ok \<lparr>w_bytes = [0, 0, 0, 1, 7, 0, 0, 0, 0], w_fail = None\<rparr>"
    by (simp add: write_frame_def write_all_def flush_def encode_frame_def bmp_only_codec_def
        MAX_FRAME_BYTES_def lengths del: to_be.simps)
  from frames_roundtrip [OF bmp_only_codec_ok this] show ?thesis by simp
qed

end
