(* ===== verification/Collector.thy ===== *)
theory Collector
  imports Receiver Collector_Protocol
begin

text \<open>
  \<^verbatim>\<open>rbmp-server/src/bin/collector.rs\<close>, the edge collector, and the core's side of it,
  \<^verbatim>\<open>handle_collector_conn\<close> of \<^verbatim>\<open>main.rs\<close>: BMP messages are cut from the speaker's stream,
  wrapped in envelopes, queued, sent to the core as frames, and parsed there.

  The ring buffer is the list of the envelopes it accepted; whether it is full when an envelope arrives is a
  function of the number of envelopes so far, as is the clock.  A connection of the forwarder is a writer, an
  attempt to connect that failed is \<open>None\<close>.  The command line, the listeners and the log are left out.
\<close>

record collector_cfg =
  cc_listen_addr :: string
  cc_core_addr :: string
  cc_collector_id :: string
  cc_site :: string
  cc_ring_capacity :: nat
  cc_max_backoff_ms :: u64

subsection \<open>The speaker's side\<close>

type_synonym ring = "collector_envelope list"

definition speaker_step ::
    "(nat \<Rightarrow> datetime) \<Rightarrow> (nat \<Rightarrow> bool) \<Rightarrow> collector_cfg \<Rightarrow> ip_addr \<Rightarrow> reader \<times> nat \<times> ring \<Rightarrow> (reader \<times> nat \<times> ring) ctl result" where
  "speaker_step now full cfg speaker_addr = (\<lambda>(r, n, tx).
     case read_exact 6 r of
       Inl e \<Rightarrow> Ok (Brk (r, n, tx))
     | Inr (hdr, r) \<Rightarrow>
         rbind (u32_at hdr 1) (\<lambda>l. let total_len = unat l in
         if total_len < 6 \<or> total_len > 8 * 1024 * 1024 then Ok (Brk (r, n, tx))
         else case read_exact (total_len - 6) r of
                Inl e \<Rightarrow> Ok (Brk (r, n, tx))
              | Inr (body, r) \<Rightarrow>
                  let env = \<lparr>collector_id = cc_collector_id cfg, site = cc_site cfg, ce_speaker_addr = speaker_addr,
                             ce_received_at = now n, raw_bmp = hdr @ body\<rparr>
                  in Ok (Cont (r, Suc n, if full n then tx else tx @ [env]))))"

definition handle_speaker ::
    "(nat \<Rightarrow> datetime) \<Rightarrow> (nat \<Rightarrow> bool) \<Rightarrow> collector_cfg \<Rightarrow> ip_addr \<Rightarrow> reader \<Rightarrow> (reader \<times> nat \<times> ring) result" where
  "handle_speaker now full cfg speaker_addr r =
     rwhile (\<lambda>_. True) (speaker_step now full cfg speaker_addr) (r, 0, [])"

subsection \<open>The forwarder\<close>

text \<open>One connection to the core: frames are written until a write fails; that envelope is lost.  The flag says
  that the connection failed.\<close>

fun forward_frames :: "msgpack \<Rightarrow> ring \<Rightarrow> writer \<Rightarrow> (writer \<times> ring \<times> bool) result" where
  "forward_frames M [] w = Ok (w, [], False)"
| "forward_frames M (env # rx) w =
     (case write_frame M env w of
        Ok w' \<Rightarrow> forward_frames M rx w'
      | Err e \<Rightarrow> Ok (w, rx, True)
      | Panic \<Rightarrow> Panic
      | Diverge \<Rightarrow> Diverge)"

text \<open>The attempts to connect and the pauses between them: the connections used and the pauses in order.\<close>

fun run_forwarder ::
    "msgpack \<Rightarrow> collector_cfg \<Rightarrow> writer option list \<Rightarrow> u64 \<Rightarrow> ring \<Rightarrow> (writer list \<times> u64 list \<times> ring) result" where
  "run_forwarder M cfg [] backoff_ms rx = Ok ([], [], rx)"
| "run_forwarder M cfg (None # cs) backoff_ms rx =
     rbind (run_forwarder M cfg cs (min (backoff_ms * 2) (cc_max_backoff_ms cfg)) rx) (\<lambda>(ws, ps, rx).
     Ok (ws, backoff_ms # ps, rx))"
| "run_forwarder M cfg (Some w # cs) backoff_ms rx =
     rbind (forward_frames M rx w) (\<lambda>(w, rx, failed).
     if failed then rbind (run_forwarder M cfg cs 100 rx) (\<lambda>(ws, ps, rx). Ok (w # ws, ps, rx))
     else Ok ([w], [], rx))"

subsection \<open>The core's side\<close>

definition collector_conn_step ::
    "crates \<Rightarrow> msgpack \<Rightarrow> conn_env \<Rightarrow> reader \<times> pipe \<Rightarrow> (reader \<times> pipe) ctl result" where
  "collector_conn_step C M E = (\<lambda>(r, p).
     case read_frame M r of
       Ok (None, r) \<Rightarrow> Ok (Brk (r, p))
     | Err e \<Rightarrow> Ok (Brk (r, p))
     | Panic \<Rightarrow> Panic
     | Diverge \<Rightarrow> Diverge
     | Ok (Some envelope, r) \<Rightarrow>
         (let n = pi_frames p; p = p\<lparr>pi_frames := Suc n\<rparr> in
          case parse_bmp_message C (ce_now E n) (raw_bmp envelope) (ce_speaker_addr envelope) DEFAULT_MAX_FRAME of
            Err e \<Rightarrow> Ok (Cont (r, p))
          | Panic \<Rightarrow> Panic
          | Diverge \<Rightarrow> Diverge
          | Ok payload \<Rightarrow>
              if ce_closed E n then Ok (Brk (r, p))
              else Ok (Cont (r, p\<lparr>pi_sent := pi_sent p @
                     [\<lparr>msg_id = ce_new_v4 E n, msg_received_at = ce_received_at envelope,
                       msg_speaker_addr = ce_speaker_addr envelope, msg_payload = payload\<rparr>]\<rparr>))))"

definition handle_collector_conn :: "crates \<Rightarrow> msgpack \<Rightarrow> conn_env \<Rightarrow> reader \<Rightarrow> pipe \<Rightarrow> (reader \<times> pipe) result" where
  "handle_collector_conn C M E r p = rwhile (\<lambda>_. True) (collector_conn_step C M E) (r, p)"

subsection \<open>What the speaker's side queues\<close>

definition envelope :: "(nat \<Rightarrow> datetime) \<Rightarrow> collector_cfg \<Rightarrow> ip_addr \<Rightarrow> nat \<Rightarrow> bytes \<Rightarrow> collector_envelope" where
  "envelope now cfg speaker_addr n f = \<lparr>collector_id = cc_collector_id cfg, site = cc_site cfg, ce_speaker_addr = speaker_addr,
     ce_received_at = now n, raw_bmp = f\<rparr>"

fun envelopes :: "(nat \<Rightarrow> datetime) \<Rightarrow> collector_cfg \<Rightarrow> ip_addr \<Rightarrow> nat \<Rightarrow> bytes list \<Rightarrow> collector_envelope list" where
  "envelopes now cfg speaker_addr n [] = []"
| "envelopes now cfg speaker_addr n (f # fs) = envelope now cfg speaker_addr n f # envelopes now cfg speaker_addr (Suc n) fs"

text \<open>The collector has a lower and an upper bound on the length field.\<close>

definition collector_frame_ok :: "bytes \<Rightarrow> bool" where
  "collector_frame_ok f \<longleftrightarrow> frame_ok f \<and> length f \<le> 8 * 1024 * 1024"

lemma speaker_step_frame:
  assumes "collector_frame_ok f"
  shows "speaker_step now full cfg sp (\<lparr>r_bytes = f @ b, r_end = k\<rparr>, n, tx) =
    Ok (Cont (\<lparr>r_bytes = b, r_end = k\<rparr>, Suc n, if full n then tx else tx @ [envelope now cfg sp n f]))"
proof -
  have f: "6 \<le> length f" "frame_length f = length f" "length f \<le> 8388608"
    using assms by (auto simp: collector_frame_ok_def frame_ok_def BMP_HEADER_LEN_def)
  have "frame_length f = frame_length (take 6 f)"
    using frame_length_append [of "take 6 f" "drop 6 f"] f(1) by (simp add: BMP_HEADER_LEN_def)
  then have "frame_length (take 6 f) = length f" using f(2) by simp
  then obtain l :: u32 where l: "u32_at (take 6 f) 1 = (Ok l :: u32 result)" "unat l = length f"
    using f(1) u32_at_frame_length [of "take 6 f"] by (simp add: BMP_HEADER_LEN_def frame_length_def)
  have 1: "read_exact 6 \<lparr>r_bytes = f @ b, r_end = k\<rparr> = Inr (take 6 f, \<lparr>r_bytes = drop 6 f @ b, r_end = k\<rparr>)"
    using f(1) by (simp add: read_exact_def)
  have 2: "read_exact (length f - 6) \<lparr>r_bytes = drop 6 f @ b, r_end = k\<rparr> = Inr (drop 6 f, \<lparr>r_bytes = b, r_end = k\<rparr>)"
    by (simp add: read_exact_def)
  have "\<not> (length f < 6 \<or> 8 * 1024 * 1024 < length f)" using f by simp
  then show ?thesis
    unfolding speaker_step_def Let_def prod.case 1 sum.case l(1) l(2)
    by (simp add: l(2) 2 envelope_def)
qed

lemma speaker_loop:
  assumes "\<forall>f \<in> set fs. collector_frame_ok f" "\<forall>n. \<not> full n" "length rest < 6"
  shows "rwhile (\<lambda>_. True) (speaker_step now full cfg sp) (\<lparr>r_bytes = concat fs @ rest, r_end = k\<rparr>, n, tx) =
    Ok (\<lparr>r_bytes = rest, r_end = k\<rparr>, n + length fs, tx @ envelopes now cfg sp n fs)"
  using assms(1)
proof (induction fs arbitrary: n tx)
  case Nil
  then show ?case using assms(3) by (subst rwhile_break) (simp_all add: speaker_step_def read_exact_def)
next
  case (Cons f fs)
  then have "speaker_step now full cfg sp (\<lparr>r_bytes = concat (f # fs) @ rest, r_end = k\<rparr>, n, tx) =
     Ok (Cont (\<lparr>r_bytes = concat fs @ rest, r_end = k\<rparr>, Suc n, tx @ [envelope now cfg sp n f]))"
    using speaker_step_frame [of f now full cfg sp "concat fs @ rest"] assms(2) by simp
  then have "rwhile (\<lambda>_. True) (speaker_step now full cfg sp) (\<lparr>r_bytes = concat (f # fs) @ rest, r_end = k\<rparr>, n, tx) =
      rwhile (\<lambda>_. True) (speaker_step now full cfg sp) (\<lparr>r_bytes = concat fs @ rest, r_end = k\<rparr>, Suc n, tx @ [envelope now cfg sp n f])"
    by (intro rwhile_step) simp_all
  then show ?case using Cons.prems by (simp add: Cons.IH)
qed

lemma forward_frames_writes:
  "write_frames M es w = Ok w' \<Longrightarrow> forward_frames M es w = Ok (w', [], False)"
  by (induction es arbitrary: w) (auto split: outcome.splits)

text \<open>What the core sends on for the \<open>n\<close>th envelope.\<close>

definition envelope_message :: "crates \<Rightarrow> conn_env \<Rightarrow> nat \<Rightarrow> collector_envelope \<Rightarrow> bmp_message option" where
  "envelope_message C E n env =
     (case parse_bmp_message C (ce_now E n) (raw_bmp env) (ce_speaker_addr env) DEFAULT_MAX_FRAME of
        Ok pl \<Rightarrow> Some \<lparr>msg_id = ce_new_v4 E n, msg_received_at = ce_received_at env,
                       msg_speaker_addr = ce_speaker_addr env, msg_payload = pl\<rparr>
      | _ \<Rightarrow> None)"

fun core_messages :: "crates \<Rightarrow> conn_env \<Rightarrow> nat \<Rightarrow> collector_envelope list \<Rightarrow> bmp_message list" where
  "core_messages C E n [] = []"
| "core_messages C E n (e # es) = (case envelope_message C E n e of None \<Rightarrow> [] | Some m \<Rightarrow> [m]) @ core_messages C E (Suc n) es"

lemma core_loop:
  assumes "bytes_ok C" "ipnet_ok C" "msgpack_ok M" "\<forall>n. \<not> ce_closed E n"
    and "list_all2 (\<lambda>e f. encode_frame M e = Ok f) es fs"
    and "\<forall>e \<in> set es. \<forall>now. parse_bmp_message C now (raw_bmp e) (ce_speaker_addr e) DEFAULT_MAX_FRAME \<noteq> Panic"
  shows "\<exists>p'. rwhile (\<lambda>_. True) (collector_conn_step C M E) (\<lparr>r_bytes = concat fs, r_end = IoUnexpectedEof\<rparr>, p) =
      Ok (\<lparr>r_bytes = [], r_end = IoUnexpectedEof\<rparr>, p') \<and> pi_sent p' = pi_sent p @ core_messages C E (pi_frames p) es"
  using assms(5,6)
proof (induction arbitrary: p)
  case Nil
  then show ?case by (subst rwhile_break) (auto simp: collector_conn_step_def read_frame_empty)
next
  case (Cons e es f fs)
  let ?n = "pi_frames p"
  have "\<exists>q. collector_conn_step C M E (\<lparr>r_bytes = concat (f # fs), r_end = IoUnexpectedEof\<rparr>, p) =
      Ok (Cont (\<lparr>r_bytes = concat fs, r_end = IoUnexpectedEof\<rparr>, q)) \<and> pi_frames q = Suc ?n
    \<and> pi_sent q = pi_sent p @ (case envelope_message C E ?n e of None \<Rightarrow> [] | Some m \<Rightarrow> [m])"
    using Cons.hyps(1) Cons.prems assms(4)
      parse_bmp_message_not_Diverge [OF assms(1,2), of "ce_now E ?n" "raw_bmp e" "ce_speaker_addr e" DEFAULT_MAX_FRAME]
    by (cases "parse_bmp_message C (ce_now E ?n) (raw_bmp e) (ce_speaker_addr e) DEFAULT_MAX_FRAME")
      (auto simp: collector_conn_step_def read_frame_encoded [OF assms(3)] envelope_message_def Let_def)
  then obtain q where q: "collector_conn_step C M E (\<lparr>r_bytes = concat (f # fs), r_end = IoUnexpectedEof\<rparr>, p) =
      Ok (Cont (\<lparr>r_bytes = concat fs, r_end = IoUnexpectedEof\<rparr>, q))" "pi_frames q = Suc ?n"
    "pi_sent q = pi_sent p @ (case envelope_message C E ?n e of None \<Rightarrow> [] | Some m \<Rightarrow> [m])" by blast
  have "rwhile (\<lambda>_. True) (collector_conn_step C M E) (\<lparr>r_bytes = concat (f # fs), r_end = IoUnexpectedEof\<rparr>, p) =
      rwhile (\<lambda>_. True) (collector_conn_step C M E) (\<lparr>r_bytes = concat fs, r_end = IoUnexpectedEof\<rparr>, q)"
    using q(1) by (intro rwhile_step) simp_all
  with Cons.IH [of q] Cons.prems q(2,3) show ?case by simp
qed

lemma envelopes_raw [simp]: "map raw_bmp (envelopes now cfg sp n fs) = fs"
  by (induction fs arbitrary: n) (simp_all add: envelope_def)

lemma set_envelopes: "e \<in> set (envelopes now cfg sp n fs) \<Longrightarrow> raw_bmp e \<in> set fs \<and> ce_speaker_addr e = sp"
  by (induction fs arbitrary: n) (auto simp: envelope_def)

text \<open>Up to the time stamp the core sends what a receiver that never sheds sends for the same frames.\<close>

lemma core_messages_receiver:
  assumes "cfg_max_frame_bytes rcfg = DEFAULT_MAX_FRAME" "\<not> cfg_shed_stats_on_pressure rcfg"
  shows "map (\<lambda>m. (msg_id m, msg_speaker_addr m, msg_payload m)) (core_messages C E n (envelopes now cfg sp k fs)) =
    map (\<lambda>m. (msg_id m, msg_speaker_addr m, msg_payload m)) (messages (frame_message C E rcfg sp) n fs)"
  using assms
  by (induction fs arbitrary: n k) (auto simp: envelope_message_def frame_message_def envelope_def bmp_msg_def split: outcome.split)


text \<open>The pauses between attempts to connect are bounded by the configuration.\<close>

lemma run_forwarder_pauses:
  "backoff \<le> max 100 (cc_max_backoff_ms cfg) \<Longrightarrow> run_forwarder M cfg cs backoff rx = Ok (ws, ps, rx') \<Longrightarrow>
     \<forall>p \<in> set ps. p \<le> max 100 (cc_max_backoff_ms cfg)"
proof (induction cs arbitrary: backoff rx ws ps rx')
  case (Cons c cs)
  show ?case
  proof (cases c)
    case None
    have "min (backoff * 2) (cc_max_backoff_ms cfg) \<le> max 100 (cc_max_backoff_ms cfg)" by (simp add: min.coboundedI2)
    from Cons.IH [OF this] Cons.prems None show ?thesis by auto
  next
    case (Some w)
    then show ?thesis using Cons.IH [of 100] Cons.prems(2) by (auto split: if_splits)
  qed
qed simp


end
