(* ===== verification/Mrt.thy ===== *)
theory Mrt
  imports Rib_Manager Bmp_Messages Collector_Protocol
begin

text \<open>
  \<^verbatim>\<open>rbmp-mrt\<close>: the writer and the reader of MRT files (RFC 6396).  The growable buffer
  (\<^verbatim>\<open>bytes::BufMut\<close>) and the conversion of a time to seconds (\<^verbatim>\<open>chrono\<close>) are parameters
  (\<open>buf_mut\<close>) with their documented behaviour \<open>buf_mut_ok\<close>; the file read or written is a reader or writer of the
  collector protocol.

  Results: records written with addresses of one family are read back with their fields; the state change
  record of an IPv6 peer event is shorter than its length field says and cannot be read.
\<close>

subsection \<open>Codes and errors (types.rs, error.rs)\<close>

datatype mrt_type = OspfV2 | TableDump | TableDumpV2 | Bgp4Mp | Bgp4MpEt | Isis | OspfV3

fun mrt_type_code :: "mrt_type \<Rightarrow> u16" where
  "mrt_type_code OspfV2 = 11"
| "mrt_type_code TableDump = 12"
| "mrt_type_code TableDumpV2 = 13"
| "mrt_type_code Bgp4Mp = 16"
| "mrt_type_code Bgp4MpEt = 17"
| "mrt_type_code Isis = 32"
| "mrt_type_code OspfV3 = 48"

datatype table_dump_v2_subtype =
    PeerIndexTable | RibIpv4Unicast | RibIpv4Multicast | RibIpv6Unicast | RibIpv6Multicast | RibGeneric
  | GeoPeerTable | RibIpv4UnicastAddPath | RibIpv6UnicastAddPath

fun table_dump_v2_code :: "table_dump_v2_subtype \<Rightarrow> u16" where
  "table_dump_v2_code PeerIndexTable = 1"
| "table_dump_v2_code RibIpv4Unicast = 2"
| "table_dump_v2_code RibIpv4Multicast = 3"
| "table_dump_v2_code RibIpv6Unicast = 4"
| "table_dump_v2_code RibIpv6Multicast = 5"
| "table_dump_v2_code RibGeneric = 6"
| "table_dump_v2_code GeoPeerTable = 7"
| "table_dump_v2_code RibIpv4UnicastAddPath = 8"
| "table_dump_v2_code RibIpv6UnicastAddPath = 9"

datatype bgp4mp_subtype =
    Mp_StateChange | Mp_Message | Mp_MessageAs4 | Mp_StateChangeAs4 | Mp_MessageLocal | Mp_MessageAs4Local
  | Mp_MessageAddpath | Mp_MessageAs4Addpath

fun bgp4mp_code :: "bgp4mp_subtype \<Rightarrow> u16" where
  "bgp4mp_code Mp_StateChange = 0"
| "bgp4mp_code Mp_Message = 1"
| "bgp4mp_code Mp_MessageAs4 = 4"
| "bgp4mp_code Mp_StateChangeAs4 = 5"
| "bgp4mp_code Mp_MessageLocal = 6"
| "bgp4mp_code Mp_MessageAs4Local = 7"
| "bgp4mp_code Mp_MessageAddpath = 8"
| "bgp4mp_code Mp_MessageAs4Addpath = 9"

datatype bgp_state = Fsm_Idle | Fsm_Connect | Fsm_Active | Fsm_OpenSent | Fsm_OpenConfirm | Fsm_Established

fun bgp_state_code :: "bgp_state \<Rightarrow> u16" where
  "bgp_state_code Fsm_Idle = 1"
| "bgp_state_code Fsm_Connect = 2"
| "bgp_state_code Fsm_Active = 3"
| "bgp_state_code Fsm_OpenSent = 4"
| "bgp_state_code Fsm_OpenConfirm = 5"
| "bgp_state_code Fsm_Established = 6"

datatype mrt_error =
    Mrt_Io io_kind
  | Mrt_TooShort nat nat
  | Mrt_UnsupportedType u16 u16
  | Mrt_BgpParse error
  | Mrt_InvalidPrefixLen u8

type_synonym 'a mrt_result = "(mrt_error, 'a) outcome"

subsection \<open>Buffers and times\<close>

record buf_mut =
  put_u8 :: "u8 \<Rightarrow> bytes \<Rightarrow> bytes"
  put_u16 :: "u16 \<Rightarrow> bytes \<Rightarrow> bytes"
  put_u32 :: "u32 \<Rightarrow> bytes \<Rightarrow> bytes"
  put_slice :: "bytes \<Rightarrow> bytes \<Rightarrow> bytes"
  timestamp :: "datetime \<Rightarrow> int"

definition buf_mut_ok :: "buf_mut \<Rightarrow> bool" where
  "buf_mut_ok B \<longleftrightarrow>
     (\<forall>v b. put_u8 B v b = b @ [v])
   \<and> (\<forall>v b. put_u16 B v b = b @ to_be 2 (unat v))
   \<and> (\<forall>v b. put_u32 B v b = b @ to_be 4 (unat v))
   \<and> (\<forall>s b. put_slice B s b = b @ s)
   \<and> (\<forall>t. timestamp B t = t div 1000000000)"

definition mrt_write_all :: "bytes \<Rightarrow> writer \<Rightarrow> writer mrt_result" where
  "mrt_write_all b w = (case w_fail w of None \<Rightarrow> Ok (w\<lparr>w_bytes := w_bytes w @ b\<rparr>) | Some e \<Rightarrow> Err (Mrt_Io e))"

subsection \<open>The writer (writer.rs)\<close>

definition write_mrt_header :: "buf_mut \<Rightarrow> u32 \<Rightarrow> u16 \<Rightarrow> u16 \<Rightarrow> u32 \<Rightarrow> bytes \<Rightarrow> bytes" where
  "write_mrt_header B ts mrt_type subtype len buf =
     put_u32 B len (put_u16 B subtype (put_u16 B mrt_type (put_u32 B ts buf)))"

definition epoch_secs :: "buf_mut \<Rightarrow> datetime \<Rightarrow> u32" where
  "epoch_secs B dt = word_of_int (max (timestamp B dt) 0)"

definition write_ipv4 :: "buf_mut \<Rightarrow> ipv4 \<Rightarrow> bytes \<Rightarrow> bytes" where
  "write_ipv4 B a buf = put_slice B (to_be 4 (unat a)) buf"

definition write_ipv6 :: "buf_mut \<Rightarrow> ipv6 \<Rightarrow> bytes \<Rightarrow> bytes" where
  "write_ipv6 B a buf = put_slice B (to_be 16 (unat a)) buf"

fun write_addr :: "buf_mut \<Rightarrow> ip_addr \<Rightarrow> bytes \<Rightarrow> bytes" where
  "write_addr B (IpV4 a) buf = write_ipv4 B a buf"
| "write_addr B (IpV6 a) buf = write_ipv6 B a buf"

fun write_prefix_nlri :: "buf_mut \<Rightarrow> prefix \<Rightarrow> bytes \<Rightarrow> bytes mrt_result" where
  "write_prefix_nlri B (Prefix_V4 net) buf =
     rbind (slice (to_be 4 (unat (net4_addr net))) 0 ((unat (net4_len net) + 7) div 8)) (\<lambda>bs.
       Ok (put_slice B bs (put_u8 B (net4_len net) buf)))"
| "write_prefix_nlri B (Prefix_V6 net) buf =
     rbind (slice (to_be 16 (unat (net6_addr net))) 0 ((unat (net6_len net) + 7) div 8)) (\<lambda>bs.
       Ok (put_slice B bs (put_u8 B (net6_len net) buf)))"
| "write_prefix_nlri B (Prefix_Labeled p ls) buf = write_prefix_nlri B p buf"
| "write_prefix_nlri B (Prefix_Vpn rd p ls) buf = write_prefix_nlri B p buf"

definition write_bgp4mp_message ::
    "buf_mut \<Rightarrow> datetime \<Rightarrow> u32 \<Rightarrow> u32 \<Rightarrow> u16 \<Rightarrow> ip_addr \<Rightarrow> ip_addr \<Rightarrow> bytes \<Rightarrow> writer \<Rightarrow> writer mrt_result" where
  "write_bgp4mp_message B ts peer_as local_as interface_idx peer_addr local_addr bgp_bytes out =
     (let is_v6 = is_ipv6 peer_addr;
          addr_len = (if is_v6 then 16 else 4);
          body_len = 4 + 4 + 2 + 2 + addr_len + addr_len + length bgp_bytes;
          buf = write_mrt_header B (epoch_secs B ts) (mrt_type_code Bgp4Mp) (bgp4mp_code Mp_MessageAs4) (word_of_nat body_len) [];
          buf = put_u32 B peer_as buf;
          buf = put_u32 B local_as buf;
          buf = put_u16 B interface_idx buf;
          buf = put_u16 B (if is_v6 then 2 else 1) buf;
          buf = write_addr B peer_addr buf;
          buf = write_addr B local_addr buf;
          buf = put_slice B bgp_bytes buf
      in mrt_write_all buf out)"

definition write_bgp4mp_state_change ::
    "buf_mut \<Rightarrow> datetime \<Rightarrow> u32 \<Rightarrow> u32 \<Rightarrow> ip_addr \<Rightarrow> ip_addr \<Rightarrow> bgp_state \<Rightarrow> bgp_state \<Rightarrow> writer \<Rightarrow> writer mrt_result" where
  "write_bgp4mp_state_change B ts peer_as local_as peer_addr local_addr old_state new_state out =
     (let is_v6 = is_ipv6 peer_addr;
          addr_len = (if is_v6 then 16 else 4);
          body_len = 4 + 4 + 2 + 2 + addr_len + addr_len + 4;
          buf = write_mrt_header B (epoch_secs B ts) (mrt_type_code Bgp4Mp) (bgp4mp_code Mp_StateChangeAs4) (word_of_nat body_len) [];
          buf = put_u32 B peer_as buf;
          buf = put_u32 B local_as buf;
          buf = put_u16 B 0 buf;
          buf = put_u16 B (if is_v6 then 2 else 1) buf;
          buf = write_addr B peer_addr buf;
          buf = write_addr B local_addr buf;
          buf = put_u16 B (bgp_state_code old_state) buf;
          buf = put_u16 B (bgp_state_code new_state) buf
      in mrt_write_all buf out)"

record mrt_peer_entry =
  mp_bgp_id :: ipv4
  mp_addr :: ip_addr
  mp_peer_as :: u32

definition put_peer :: "buf_mut \<Rightarrow> mrt_peer_entry \<Rightarrow> bytes \<Rightarrow> bytes" where
  "put_peer B p body =
     put_u32 B (mp_peer_as p) (write_addr B (mp_addr p) (put_slice B (to_be 4 (unat (mp_bgp_id p)))
       (put_u8 B ((if is_ipv6 (mp_addr p) then 1 else 0) OR 2) body)))"

definition write_peer_index_table :: "buf_mut \<Rightarrow> datetime \<Rightarrow> ipv4 \<Rightarrow> bytes \<Rightarrow> mrt_peer_entry list \<Rightarrow> writer \<Rightarrow> writer mrt_result" where
  "write_peer_index_table B ts coll_id vn peers out =
     (let body = put_slice B (to_be 4 (unat coll_id)) [];
          body = put_u16 B (word_of_nat (length vn)) body;
          body = put_slice B vn body;
          body = put_u16 B (word_of_nat (length peers)) body;
          body = fold (put_peer B) peers body;
          hdr = write_mrt_header B (epoch_secs B ts) (mrt_type_code TableDumpV2) (table_dump_v2_code PeerIndexTable) (word_of_nat (length body)) []
      in rbind (mrt_write_all hdr out) (mrt_write_all body))"

record mrt_rib_entry =
  mr_peer_index :: u16
  mr_originated :: datetime
  mr_path_attrs :: bytes

definition put_rib_entry :: "buf_mut \<Rightarrow> mrt_rib_entry \<Rightarrow> bytes \<Rightarrow> bytes" where
  "put_rib_entry B e body =
     put_slice B (mr_path_attrs e) (put_u16 B (word_of_nat (length (mr_path_attrs e)))
       (put_u32 B (epoch_secs B (mr_originated e)) (put_u16 B (mr_peer_index e) body)))"

definition write_rib_entry :: "buf_mut \<Rightarrow> datetime \<Rightarrow> u32 \<Rightarrow> prefix \<Rightarrow> mrt_rib_entry list \<Rightarrow> writer \<Rightarrow> writer mrt_result" where
  "write_rib_entry B ts seq prefix entries out =
     (let is_v6 = (case prefix of Prefix_V6 n \<Rightarrow> True | _ \<Rightarrow> False) in
      rbind (write_prefix_nlri B prefix (put_u32 B seq [])) (\<lambda>body.
      let body = put_u16 B (word_of_nat (length entries)) body;
          body = fold (put_rib_entry B) entries body;
          subtype = (if is_v6 then table_dump_v2_code RibIpv6Unicast else table_dump_v2_code RibIpv4Unicast);
          hdr = write_mrt_header B (epoch_secs B ts) (mrt_type_code TableDumpV2) subtype (word_of_nat (length body)) []
      in rbind (mrt_write_all hdr out) (mrt_write_all body)))"

definition rib_event_to_mrt :: "buf_mut \<Rightarrow> rib_event \<Rightarrow> writer \<Rightarrow> writer mrt_result" where
  "rib_event_to_mrt B event out =
     (case ev_payload event of
        Ev_PeerUp peer_header a b c d \<Rightarrow>
          write_bgp4mp_state_change B (ev_occurred_at event) (ph_as peer_header) 0 (ph_address peer_header) (IpV4 0)
            Fsm_Active Fsm_Established out
      | Ev_PeerDown peer_header r \<Rightarrow>
          write_bgp4mp_state_change B (ev_occurred_at event) (ph_as peer_header) 0 (ph_address peer_header) (IpV4 0)
            Fsm_Established Fsm_Idle out
      | _ \<Rightarrow> Ok out)"

subsection \<open>The reader (reader.rs)\<close>

record mrt_record =
  mrt_timestamp :: datetime
  mrt_kind :: u16
  mrt_subtype :: u16
  mrt_body :: bytes

definition is_table_dump_v2 :: "mrt_record \<Rightarrow> bool" where
  "is_table_dump_v2 r \<longleftrightarrow> mrt_kind r = mrt_type_code TableDumpV2"

definition is_bgp4mp :: "mrt_record \<Rightarrow> bool" where
  "is_bgp4mp r \<longleftrightarrow> mrt_kind r = mrt_type_code Bgp4Mp"

definition MRT_HEADER_LEN :: nat where "MRT_HEADER_LEN = 12"

definition read_record :: "crates \<Rightarrow> datetime \<Rightarrow> reader \<Rightarrow> (mrt_record option \<times> reader) mrt_result" where
  "read_record C now r =
     (case read_exact MRT_HEADER_LEN r of
        Inl IoUnexpectedEof \<Rightarrow> Ok (None, r)
      | Inl e \<Rightarrow> Err (Mrt_Io e)
      | Inr (hdr, r) \<Rightarrow>
          rbind (u32_at hdr 0) (\<lambda>ts_raw. rbind (u16_at hdr 4) (\<lambda>mrt_type. rbind (u16_at hdr 6) (\<lambda>subtype.
          rbind (u32_at hdr 8) (\<lambda>len.
          case read_exact (unat len) r of
            Inl e \<Rightarrow> Err (Mrt_Io e)
          | Inr (body, r) \<Rightarrow>
              let timestamp = (case c_timestamp_opt C ts_raw 0 of Some t \<Rightarrow> t | None \<Rightarrow> now)
              in Ok (Some \<lparr>mrt_timestamp = timestamp, mrt_kind = mrt_type, mrt_subtype = subtype, mrt_body = body\<rparr>, r))))))"

text \<open>All items of the iterator up to the end of the file; it stops after an error here, since what a failed
  read leaves behind is unspecified.\<close>

definition read_records :: "crates \<Rightarrow> datetime \<Rightarrow> reader \<Rightarrow> (reader \<times> mrt_record list) mrt_result" where
  "read_records C now r =
     rwhile (\<lambda>_. True)
       (\<lambda>(r, rs). rbind (read_record C now r) (\<lambda>(x, r).
          case x of None \<Rightarrow> Ok (Brk (r, rs)) | Some rec \<Rightarrow> Ok (Cont (r, rs @ [rec]))))
       (r, [])"

record bgp4mp_header =
  bh_peer_as :: u32
  bh_local_as :: u32
  bh_interface :: u16
  bh_peer_addr :: ip_addr
  bh_local_addr :: ip_addr

definition take_addr :: "u16 \<Rightarrow> bytes \<Rightarrow> (ip_addr \<times> bytes) mrt_result" where
  "take_addr afi b =
     (if afi = 2 then rbind (ipv6_at b 0) (\<lambda>a. rbind (slice_from b 16) (\<lambda>b. Ok (IpV6 a, b)))
      else rbind (ipv4_at b 0) (\<lambda>a. rbind (slice_from b 4) (\<lambda>b. Ok (IpV4 a, b))))"

definition parse_bgp4mp_header :: "crates \<Rightarrow> bytes \<Rightarrow> (bgp4mp_header \<times> bytes) mrt_result" where
  "parse_bgp4mp_header C body =
     (if length body < 12 then Err (Mrt_TooShort 12 (length body))
      else rbind (buf_get_u32 C body) (\<lambda>(peer_as, b). rbind (buf_get_u32 C b) (\<lambda>(local_as, b).
           rbind (buf_get_u16 C b) (\<lambda>(interface, b). rbind (buf_get_u16 C b) (\<lambda>(afi, b).
           let addr_len = (if afi = 2 then 16 else 4) in
           if length b < addr_len * 2 then Err (Mrt_TooShort (addr_len * 2) (length b))
           else rbind (take_addr afi b) (\<lambda>(peer_addr, b). rbind (take_addr afi b) (\<lambda>(local_addr, b).
                Ok (\<lparr>bh_peer_as = peer_as, bh_local_as = local_as, bh_interface = interface,
                     bh_peer_addr = peer_addr, bh_local_addr = local_addr\<rparr>, b))))))))"

definition parse_bgp4mp_message :: "crates \<Rightarrow> bytes \<Rightarrow> (bgp4mp_header \<times> bytes) mrt_result" where
  "parse_bgp4mp_message C body = parse_bgp4mp_header C body"

definition parse_bgp4mp_state_change :: "crates \<Rightarrow> bytes \<Rightarrow> (bgp4mp_header \<times> u16 \<times> u16) mrt_result" where
  "parse_bgp4mp_state_change C body =
     rbind (parse_bgp4mp_header C body) (\<lambda>(hdr, rest).
       if length rest < 4 then Err (Mrt_TooShort 4 (length rest))
       else rbind (u16_at rest 0) (\<lambda>old. rbind (u16_at rest 2) (\<lambda>new. Ok (hdr, old, new))))"

subsection \<open>Records on the wire\<close>

definition record_bytes :: "u32 \<Rightarrow> u16 \<Rightarrow> u16 \<Rightarrow> bytes \<Rightarrow> bytes" where
  "record_bytes ts k sub body = to_be 4 (unat ts) @ to_be 2 (unat k) @ to_be 2 (unat sub) @ to_be 4 (length body) @ body"

lemma read_record_encoded:
  assumes "chrono_ok C" "length body < 2 ^ 32"
  shows "read_record C now \<lparr>r_bytes = record_bytes ts k sub body @ rest, r_end = e\<rparr> =
    Ok (Some \<lparr>mrt_timestamp = uint ts * 1000000000, mrt_kind = k, mrt_subtype = sub, mrt_body = body\<rparr>, \<lparr>r_bytes = rest, r_end = e\<rparr>)"
proof -
  let ?h = "to_be 4 (unat ts) @ to_be 2 (unat k) @ to_be 2 (unat sub) @ to_be 4 (length body)"
  have h: "read_exact MRT_HEADER_LEN \<lparr>r_bytes = record_bytes ts k sub body @ rest, r_end = e\<rparr> = Inr (?h, \<lparr>r_bytes = body @ rest, r_end = e\<rparr>)"
    by (simp add: read_exact_def MRT_HEADER_LEN_def record_bytes_def del: to_be.simps)
  have fields: "u32_at ?h 0 = (Ok ts :: u32 mrt_result)" "u16_at ?h 4 = (Ok k :: u16 mrt_result)" "u16_at ?h 6 = (Ok sub :: u16 mrt_result)"
    "u32_at ?h 8 = (Ok (from_be (to_be 4 (length body))) :: u32 mrt_result)"
    by (simp_all add: u32_at_def u16_at_def slice_def del: to_be.simps)
  have len: "unat (from_be (to_be 4 (length body)) :: u32) = length body"
    using assms(2) by (simp add: unat_from_be be_nat_to_be del: to_be.simps)
  have "c_timestamp_opt C ts 0 = Some (uint ts * 1000000000)" using assms(1) by (simp add: chrono_ok_def)
  then show ?thesis unfolding read_record_def h
    by (simp add: fields len read_exact_def Let_def del: to_be.simps)
qed

lemma read_record_eof: "read_record C now \<lparr>r_bytes = [], r_end = IoUnexpectedEof\<rparr> = Ok (None, \<lparr>r_bytes = [], r_end = IoUnexpectedEof\<rparr>)"
  by (simp add: read_record_def read_exact_def MRT_HEADER_LEN_def)

fun addr_bytes :: "ip_addr \<Rightarrow> bytes" where
  "addr_bytes (IpV4 a) = to_be 4 (unat a)"
| "addr_bytes (IpV6 a) = to_be 16 (unat a)"

definition bgp4mp_bytes :: "u32 \<Rightarrow> u32 \<Rightarrow> u16 \<Rightarrow> ip_addr \<Rightarrow> ip_addr \<Rightarrow> bytes \<Rightarrow> bytes" where
  "bgp4mp_bytes peer_as local_as ifx peer loc tail =
     to_be 4 (unat peer_as) @ to_be 4 (unat local_as) @ to_be 2 (unat ifx) @ to_be 2 (if is_ipv6 peer then 2 else 1)
     @ addr_bytes peer @ addr_bytes loc @ tail"

lemma length_addr_bytes [simp]: "length (addr_bytes a) = (if is_ipv6 a then 16 else 4)"
  by (cases a) (simp_all del: to_be.simps)

lemma take_addr_bytes:
  "is_ipv6 a \<Longrightarrow> take_addr 2 (addr_bytes a @ b) = Ok (a, b)" "\<not> is_ipv6 a \<Longrightarrow> take_addr 1 (addr_bytes a @ b) = Ok (a, b)"
  by (cases a; simp add: take_addr_def ipv4_at_def ipv6_at_def slice_def slice_from_def del: to_be.simps)+

lemma from_be_small: "from_be (to_be 2 2) = (2 :: u16)" "from_be (to_be 2 (Suc 0)) = (1 :: u16)"
  by (simp_all add: from_be_def be_nat_to_be del: to_be.simps)

lemma parse_bgp4mp_header_encoded:
  assumes "bytes_ok C" "is_ipv6 loc = is_ipv6 peer"
  shows "parse_bgp4mp_header C (bgp4mp_bytes peer_as local_as ifx peer loc tail) =
    Ok (\<lparr>bh_peer_as = peer_as, bh_local_as = local_as, bh_interface = ifx, bh_peer_addr = peer, bh_local_addr = loc\<rparr>, tail)"
  using assms(2)
  by (cases "is_ipv6 peer")
    (simp_all add: parse_bgp4mp_header_def bgp4mp_bytes_def get_u32_eq [OF assms(1)] get_u16_eq [OF assms(1)] from_be_small
      take_addr_bytes Let_def del: to_be.simps addr_bytes.simps)

subsection \<open>What the writer writes\<close>

lemma write_addr_eq: "buf_mut_ok B \<Longrightarrow> write_addr B a buf = buf @ addr_bytes a"
  by (cases a) (simp_all add: write_ipv4_def write_ipv6_def buf_mut_ok_def)

lemma header_eq:
  "buf_mut_ok B \<Longrightarrow> write_mrt_header B ts k sub len [] = to_be 4 (unat ts) @ to_be 2 (unat k) @ to_be 2 (unat sub) @ to_be 4 (unat len)"
  by (simp add: write_mrt_header_def buf_mut_ok_def)

lemma unat_add_of_nat:
  assumes "unat k + n < 2 ^ 32"
  shows "unat (k + word_of_nat n :: u32) = unat k + n"
  using assms by (simp add: unat_word_ariths unat_of_nat)

lemma write_message_eq:
  assumes "buf_mut_ok B" "w_fail w = None" "is_ipv6 loc = is_ipv6 peer" "length pdu < 2 ^ 31"
  shows "write_bgp4mp_message B ts peer_as local_as ifx peer loc pdu w =
    Ok (w\<lparr>w_bytes := w_bytes w @ record_bytes (epoch_secs B ts) 16 4 (bgp4mp_bytes peer_as local_as ifx peer loc pdu)\<rparr>)"
  using assms unat_add_of_nat [of 44 "length pdu"] unat_add_of_nat [of 20 "length pdu"]
  by (cases "is_ipv6 peer")
    (simp_all add: write_bgp4mp_message_def Let_def header_eq write_addr_eq record_bytes_def mrt_write_all_def
        buf_mut_ok_def bgp4mp_bytes_def del: to_be.simps)

lemma write_state_change_eq:
  assumes "buf_mut_ok B" "w_fail w = None"
  shows "write_bgp4mp_state_change B ts peer_as local_as peer loc old new w =
    Ok (w\<lparr>w_bytes := w_bytes w @ to_be 4 (unat (epoch_secs B ts)) @ to_be 2 16 @ to_be 2 5 @ to_be 4 (if is_ipv6 peer then 48 else 24)
      @ bgp4mp_bytes peer_as local_as 0 peer loc (to_be 2 (unat (bgp_state_code old)) @ to_be 2 (unat (bgp_state_code new)))\<rparr>)"
  using assms
  by (cases "is_ipv6 peer")
    (simp_all add: write_bgp4mp_state_change_def Let_def header_eq write_addr_eq mrt_write_all_def buf_mut_ok_def bgp4mp_bytes_def del: to_be.simps)

fun peer_bytes :: "mrt_peer_entry \<Rightarrow> bytes" where
  "peer_bytes p = [(if is_ipv6 (mp_addr p) then 3 else 2)] @ to_be 4 (unat (mp_bgp_id p)) @ addr_bytes (mp_addr p) @ to_be 4 (unat (mp_peer_as p))"

definition peer_table_bytes :: "ipv4 \<Rightarrow> bytes \<Rightarrow> mrt_peer_entry list \<Rightarrow> bytes" where
  "peer_table_bytes cid vn peers = to_be 4 (unat cid) @ to_be 2 (length vn) @ vn @ to_be 2 (length peers) @ concat (map peer_bytes peers)"

lemma fold_put_peer: "buf_mut_ok B \<Longrightarrow> fold (put_peer B) peers b = b @ concat (map peer_bytes peers)"
  by (induction peers arbitrary: b) (simp_all add: put_peer_def write_addr_eq buf_mut_ok_def del: to_be.simps)

lemma to_be_of_nat16: "n < 2 ^ 16 \<Longrightarrow> to_be 2 (unat (word_of_nat n :: u16)) = to_be 2 n"
  by (simp add: unat_of_nat)

lemma write_peer_index_table_eq:
  assumes "buf_mut_ok B" "w_fail w = None" "length vn < 2 ^ 16" "length peers < 2 ^ 16" "length (peer_table_bytes cid vn peers) < 2 ^ 32"
  shows "write_peer_index_table B ts cid vn peers w =
    Ok (w\<lparr>w_bytes := w_bytes w @ record_bytes (epoch_secs B ts) 13 1 (peer_table_bytes cid vn peers)\<rparr>)"
proof -
  have body: "fold (put_peer B) peers (put_u16 B (word_of_nat (length peers)) (put_slice B vn (put_u16 B (word_of_nat (length vn))
      (put_slice B (to_be 4 (unat cid)) [])))) = peer_table_bytes cid vn peers"
    using assms(1,3,4) by (simp add: fold_put_peer buf_mut_ok_def peer_table_bytes_def to_be_of_nat16 del: to_be.simps peer_bytes.simps)
  have "unat (word_of_nat (length (peer_table_bytes cid vn peers)) :: u32) = length (peer_table_bytes cid vn peers)"
    using assms(5) by (simp add: unat_of_nat)
  then show ?thesis
    using assms(1,2) unfolding write_peer_index_table_def Let_def body
    by (simp add: header_eq mrt_write_all_def record_bytes_def del: to_be.simps)
qed

fun rib_entry_bytes :: "buf_mut \<Rightarrow> mrt_rib_entry \<Rightarrow> bytes" where
  "rib_entry_bytes B e = to_be 2 (unat (mr_peer_index e)) @ to_be 4 (unat (epoch_secs B (mr_originated e)))
     @ to_be 2 (length (mr_path_attrs e)) @ mr_path_attrs e"

definition rib_bytes :: "buf_mut \<Rightarrow> u32 \<Rightarrow> prefix \<Rightarrow> mrt_rib_entry list \<Rightarrow> bytes" where
  "rib_bytes B seq p es = to_be 4 (unat seq) @ encode_prefix p @ to_be 2 (length es) @ concat (map (rib_entry_bytes B) es)"

lemma write_prefix_nlri_eq:
  assumes "buf_mut_ok B" "prefix_wf p" "plain p"
  shows "write_prefix_nlri B p buf = Ok (buf @ encode_prefix p)"
proof (cases p)
  case (Prefix_V4 n)
  then have "(unat (net4_len n) + 7) div 8 \<le> 4" using assms(2) div_le_mono [of "unat (net4_len n) + 7" 39 8] by simp
  then show ?thesis using assms(1) Prefix_V4
    by (simp add: slice_def buf_mut_ok_def encode_prefix_def octets_for_def del: to_be.simps)
next
  case (Prefix_V6 n)
  then have "(unat (net6_len n) + 7) div 8 \<le> 16" using assms(2) div_le_mono [of "unat (net6_len n) + 7" 135 8] by simp
  then show ?thesis using assms(1) Prefix_V6
    by (simp add: slice_def buf_mut_ok_def encode_prefix_def octets_for_def del: to_be.simps)
qed (use assms(3) in simp_all)

lemma fold_put_rib_entry:
  "buf_mut_ok B \<Longrightarrow> \<forall>e \<in> set es. length (mr_path_attrs e) < 2 ^ 16 \<Longrightarrow>
     fold (put_rib_entry B) es b = b @ concat (map (rib_entry_bytes B) es)"
  by (induction es arbitrary: b) (simp_all add: put_rib_entry_def buf_mut_ok_def to_be_of_nat16 del: to_be.simps)

lemma write_rib_entry_eq:
  assumes "buf_mut_ok B" "w_fail w = None" "prefix_wf p" "plain p" "\<forall>e \<in> set es. length (mr_path_attrs e) < 2 ^ 16"
    and "length es < 2 ^ 16" "length (rib_bytes B seq p es) < 2 ^ 32"
  shows "write_rib_entry B ts seq p es w =
    Ok (w\<lparr>w_bytes := w_bytes w @ record_bytes (epoch_secs B ts) 13 (if addr_family p = Afi_Ipv6 then 4 else 2) (rib_bytes B seq p es)\<rparr>)"
proof -
  have body: "fold (put_rib_entry B) es (put_u16 B (word_of_nat (length es)) (put_u32 B seq [] @ encode_prefix p)) = rib_bytes B seq p es"
    using assms(1,5,6) by (simp add: fold_put_rib_entry to_be_of_nat16 rib_bytes_def buf_mut_ok_def del: to_be.simps rib_entry_bytes.simps)
  have "unat (word_of_nat (length (rib_bytes B seq p es)) :: u32) = length (rib_bytes B seq p es)"
    using assms(7) by (simp add: unat_of_nat)
  moreover have "(case p of Prefix_V6 n \<Rightarrow> True | _ \<Rightarrow> False) \<longleftrightarrow> addr_family p = Afi_Ipv6"
    using assms(4) by (cases p) simp_all
  ultimately show ?thesis using assms(1-4)
    unfolding write_rib_entry_def Let_def write_prefix_nlri_eq [OF assms(1,3,4)]
    by (simp add: body header_eq mrt_write_all_def record_bytes_def del: to_be.simps)
qed

subsection \<open>Files\<close>

datatype mrt_item =
    It_Message datetime u32 u32 u16 ip_addr ip_addr bytes
  | It_State datetime u32 u32 ip_addr ip_addr bgp_state bgp_state
  | It_Peers datetime ipv4 bytes "mrt_peer_entry list"
  | It_Rib datetime u32 prefix "mrt_rib_entry list"

fun write_item :: "buf_mut \<Rightarrow> mrt_item \<Rightarrow> writer \<Rightarrow> writer mrt_result" where
  "write_item B (It_Message ts pa la ifx peer loc pdu) w = write_bgp4mp_message B ts pa la ifx peer loc pdu w"
| "write_item B (It_State ts pa la peer loc old new) w = write_bgp4mp_state_change B ts pa la peer loc old new w"
| "write_item B (It_Peers ts cid vn ps) w = write_peer_index_table B ts cid vn ps w"
| "write_item B (It_Rib ts seq p es) w = write_rib_entry B ts seq p es w"

fun write_items :: "buf_mut \<Rightarrow> mrt_item list \<Rightarrow> writer \<Rightarrow> writer mrt_result" where
  "write_items B [] w = Ok w"
| "write_items B (it # its) w = rbind (write_item B it w) (write_items B its)"

fun item_time :: "mrt_item \<Rightarrow> datetime" where
  "item_time (It_Message ts pa la ifx peer loc pdu) = ts"
| "item_time (It_State ts pa la peer loc old new) = ts"
| "item_time (It_Peers ts cid vn ps) = ts"
| "item_time (It_Rib ts seq p es) = ts"

fun item_sizes :: "buf_mut \<Rightarrow> mrt_item \<Rightarrow> bool" where
  "item_sizes B (It_Message ts pa la ifx peer loc pdu) \<longleftrightarrow> is_ipv6 loc = is_ipv6 peer \<and> length pdu < 2 ^ 31"
| "item_sizes B (It_State ts pa la peer loc old new) \<longleftrightarrow> is_ipv6 loc = is_ipv6 peer"
| "item_sizes B (It_Peers ts cid vn ps) \<longleftrightarrow> length vn < 2 ^ 16 \<and> length ps < 2 ^ 16 \<and> length (peer_table_bytes cid vn ps) < 2 ^ 32"
| "item_sizes B (It_Rib ts seq p es) \<longleftrightarrow> prefix_wf p \<and> plain p \<and> (\<forall>e \<in> set es. length (mr_path_attrs e) < 2 ^ 16)
     \<and> length es < 2 ^ 16 \<and> length (rib_bytes B seq p es) < 2 ^ 32"

text \<open>Addresses of one family, fields that fit their width, and a time that 32-bit seconds can hold.\<close>

definition item_ok :: "buf_mut \<Rightarrow> mrt_item \<Rightarrow> bool" where
  "item_ok B it \<longleftrightarrow> item_sizes B it \<and> 0 \<le> item_time it \<and> item_time it div 1000000000 < 2 ^ 32"

fun item_fields :: "crates \<Rightarrow> buf_mut \<Rightarrow> mrt_item \<Rightarrow> mrt_record \<Rightarrow> bool" where
  "item_fields C B (It_Message ts pa la ifx peer loc pdu) r \<longleftrightarrow> is_bgp4mp r \<and> mrt_subtype r = bgp4mp_code Mp_MessageAs4
     \<and> parse_bgp4mp_message C (mrt_body r) = Ok (\<lparr>bh_peer_as = pa, bh_local_as = la, bh_interface = ifx, bh_peer_addr = peer, bh_local_addr = loc\<rparr>, pdu)"
| "item_fields C B (It_State ts pa la peer loc old new) r \<longleftrightarrow> is_bgp4mp r \<and> mrt_subtype r = bgp4mp_code Mp_StateChangeAs4
     \<and> parse_bgp4mp_state_change C (mrt_body r) = Ok (\<lparr>bh_peer_as = pa, bh_local_as = la, bh_interface = 0, bh_peer_addr = peer, bh_local_addr = loc\<rparr>,
         bgp_state_code old, bgp_state_code new)"
| "item_fields C B (It_Peers ts cid vn ps) r \<longleftrightarrow> is_table_dump_v2 r \<and> mrt_subtype r = 1 \<and> mrt_body r = peer_table_bytes cid vn ps"
| "item_fields C B (It_Rib ts seq p es) r \<longleftrightarrow> is_table_dump_v2 r \<and> mrt_subtype r = (if addr_family p = Afi_Ipv6 then 4 else 2)
     \<and> mrt_body r = rib_bytes B seq p es"

definition item_read :: "crates \<Rightarrow> buf_mut \<Rightarrow> mrt_item \<Rightarrow> mrt_record \<Rightarrow> bool" where
  "item_read C B it r \<longleftrightarrow> item_fields C B it r \<and> mrt_timestamp r = item_time it div 1000000000 * 1000000000"

lemma epoch_secs_eq:
  assumes "buf_mut_ok B" "0 \<le> t" "t div 1000000000 < 2 ^ 32"
  shows "uint (epoch_secs B t) = t div 1000000000"
proof -
  have "0 \<le> t div 1000000000" using assms(2) by (simp add: pos_imp_zdiv_nonneg_iff)
  then show ?thesis using assms by (simp add: epoch_secs_def buf_mut_ok_def max_def uint_word_of_int_eq take_bit_int_eq_self)
qed

lemma write_item_ok:
  assumes "bytes_ok C" "buf_mut_ok B" "item_ok B it" "w_fail w = None"
  shows "\<exists>k sub body. write_item B it w = Ok (w\<lparr>w_bytes := w_bytes w @ record_bytes (epoch_secs B (item_time it)) k sub body\<rparr>)
    \<and> length body < 2 ^ 32
    \<and> item_fields C B it \<lparr>mrt_timestamp = t, mrt_kind = k, mrt_subtype = sub, mrt_body = body\<rparr>"
proof (cases it)
  case (It_Message ts pa la ifx peer loc pdu)
  let ?body = "bgp4mp_bytes pa la ifx peer loc pdu"
  have ok: "is_ipv6 loc = is_ipv6 peer" "length pdu < 2 ^ 31" using assms(3) It_Message by (simp_all add: item_ok_def)
  have "length ?body < 2 ^ 32" using ok by (simp add: bgp4mp_bytes_def del: to_be.simps)
  then show ?thesis using ok assms It_Message write_message_eq [OF assms(2,4) ok]
    by (intro exI [of _ 16] exI [of _ 4] exI [of _ ?body])
      (simp add: is_bgp4mp_def parse_bgp4mp_message_def parse_bgp4mp_header_encoded)
next
  case (It_State ts pa la peer loc old new)
  let ?st = "to_be 2 (unat (bgp_state_code old)) @ to_be 2 (unat (bgp_state_code new))"
  let ?body = "bgp4mp_bytes pa la 0 peer loc ?st"
  have ok: "is_ipv6 loc = is_ipv6 peer" using assms(3) It_State by (simp add: item_ok_def)
  then have len: "length ?body = (if is_ipv6 peer then 48 else 24)" by (simp add: bgp4mp_bytes_def del: to_be.simps)
  have "to_be 4 (if is_ipv6 peer then 48 else 24) = to_be 4 (length ?body)" unfolding len ..
  then have "write_item B it w = Ok (w\<lparr>w_bytes := w_bytes w @ record_bytes (epoch_secs B ts) 16 5 ?body\<rparr>)"
    using It_State write_state_change_eq [OF assms(2,4)] by (simp add: record_bytes_def del: to_be.simps)
  moreover have "parse_bgp4mp_state_change C ?body = Ok (\<lparr>bh_peer_as = pa, bh_local_as = la, bh_interface = 0, bh_peer_addr = peer, bh_local_addr = loc\<rparr>,
         bgp_state_code old, bgp_state_code new)"
    using parse_bgp4mp_header_encoded [OF assms(1) ok, of pa la 0 ?st]
    by (simp add: parse_bgp4mp_state_change_def u16_at_def slice_def del: to_be.simps)
  ultimately show ?thesis using It_State len
    by (intro exI [of _ 16] exI [of _ 5] exI [of _ ?body]) (simp add: is_bgp4mp_def)
next
  case (It_Peers ts cid vn ps)
  then show ?thesis using assms(3) write_peer_index_table_eq [OF assms(2,4), of vn ps cid ts]
    by (intro exI [of _ 13] exI [of _ 1] exI [of _ "peer_table_bytes cid vn ps"])
      (simp add: item_ok_def is_table_dump_v2_def)
next
  case (It_Rib ts seq p es)
  then show ?thesis using assms(3) write_rib_entry_eq [OF assms(2,4), of p es seq ts]
    by (intro exI [of _ 13] exI [of _ "if addr_family p = Afi_Ipv6 then 4 else 2"] exI [of _ "rib_bytes B seq p es"])
      (simp add: item_ok_def is_table_dump_v2_def)
qed

lemma read_records_step:
  assumes "read_record C now r = Ok (Some x, r')"
  shows "rwhile (\<lambda>_. True) (\<lambda>(r, rs). rbind (read_record C now r) (\<lambda>(x, r).
          case x of None \<Rightarrow> Ok (Brk (r, rs)) | Some rec \<Rightarrow> Ok (Cont (r, rs @ [rec])))) (r, acc) =
    rwhile (\<lambda>_. True) (\<lambda>(r, rs). rbind (read_record C now r) (\<lambda>(x, r).
          case x of None \<Rightarrow> Ok (Brk (r, rs)) | Some rec \<Rightarrow> Ok (Cont (r, rs @ [rec])))) (r', acc @ [x])"
  using assms by (intro rwhile_step) simp_all

lemma mrt_stream:
  assumes "bytes_ok C" "chrono_ok C" "buf_mut_ok B" "\<forall>it \<in> set its. item_ok B it" "w_fail w = None"
  shows "\<exists>bs rs. write_items B its w = Ok (w\<lparr>w_bytes := w_bytes w @ bs\<rparr>) \<and> list_all2 (item_read C B) its rs
    \<and> (\<forall>acc. rwhile (\<lambda>_. True) (\<lambda>(r, rs). rbind (read_record C now r) (\<lambda>(x, r).
          case x of None \<Rightarrow> Ok (Brk (r, rs)) | Some rec \<Rightarrow> Ok (Cont (r, rs @ [rec])))) (\<lparr>r_bytes = bs, r_end = IoUnexpectedEof\<rparr>, acc)
        = Ok (\<lparr>r_bytes = [], r_end = IoUnexpectedEof\<rparr>, acc @ rs))"
  using assms(4,5)
proof (induction its arbitrary: w)
  case Nil
  have "rwhile (\<lambda>_. True) (\<lambda>(r, rs). rbind (read_record C now r) (\<lambda>(x, r).
      case x of None \<Rightarrow> Ok (Brk (r, rs)) | Some rec \<Rightarrow> Ok (Cont (r, rs @ [rec])))) (\<lparr>r_bytes = [], r_end = IoUnexpectedEof\<rparr>, acc)
     = Ok (\<lparr>r_bytes = [], r_end = IoUnexpectedEof\<rparr>, acc)" for acc
    by (intro rwhile_break) (simp_all add: read_record_eof)
  then show ?case by (intro exI [of _ "[]"]) simp
next
  case (Cons it its)
  let ?ts = "epoch_secs B (item_time it)"
  have it: "item_ok B it" using Cons.prems(1) by simp
  obtain k sub body where b: "write_item B it w = Ok (w\<lparr>w_bytes := w_bytes w @ record_bytes ?ts k sub body\<rparr>)" "length body < 2 ^ 32"
    "item_fields C B it \<lparr>mrt_timestamp = uint ?ts * 1000000000, mrt_kind = k, mrt_subtype = sub, mrt_body = body\<rparr>"
    using write_item_ok [OF assms(1,3) it Cons.prems(2)] by blast
  let ?r = "\<lparr>mrt_timestamp = uint ?ts * 1000000000, mrt_kind = k, mrt_subtype = sub, mrt_body = body\<rparr>"
  let ?w = "w\<lparr>w_bytes := w_bytes w @ record_bytes ?ts k sub body\<rparr>"
  have "uint ?ts = item_time it div 1000000000" using it epoch_secs_eq [OF assms(3)] by (simp add: item_ok_def)
  then have r: "item_read C B it ?r" using b(3) by (simp add: item_read_def)
  from Cons.IH [of ?w] Cons.prems obtain bs rs where IH: "write_items B its ?w = Ok (w\<lparr>w_bytes := w_bytes w @ record_bytes ?ts k sub body @ bs\<rparr>)"
    "list_all2 (item_read C B) its rs"
    "\<forall>acc. rwhile (\<lambda>_. True) (\<lambda>(r, rs). rbind (read_record C now r) (\<lambda>(x, r).
          case x of None \<Rightarrow> Ok (Brk (r, rs)) | Some rec \<Rightarrow> Ok (Cont (r, rs @ [rec])))) (\<lparr>r_bytes = bs, r_end = IoUnexpectedEof\<rparr>, acc)
        = Ok (\<lparr>r_bytes = [], r_end = IoUnexpectedEof\<rparr>, acc @ rs)" by auto
  show ?case using b(1) IH r read_records_step [OF read_record_encoded [OF assms(2) b(2)]]
    by (intro exI [of _ "record_bytes ?ts k sub body @ bs"] exI [of _ "?r # rs"]) simp
qed


definition doc_buf_mut :: buf_mut where
  "doc_buf_mut = \<lparr>put_u8 = (\<lambda>v b. b @ [v]), put_u16 = (\<lambda>v b. b @ to_be 2 (unat v)), put_u32 = (\<lambda>v b. b @ to_be 4 (unat v)),
     put_slice = (\<lambda>s b. b @ s), timestamp = (\<lambda>t. t div 1000000000)\<rparr>"

lemma doc_buf_mut_ok: "buf_mut_ok doc_buf_mut"
  by (simp add: buf_mut_ok_def doc_buf_mut_def)


text \<open>The state change of an IPv6 peer is written as a record the reader refuses.  The local address of the
  event is the unspecified IPv4 address, but the length field counts two IPv6 addresses, so the record is 12 octets
  short: reading the file just written ends in an I/O error, for peer-up and peer-down events alike.\<close>

theorem mrt_event_v6_unreadable:
  assumes "chrono_ok C" "buf_mut_ok B" "ph_address hdr = IpV6 a"
    and "ev_payload ev = Ev_PeerDown hdr reason \<or> ev_payload ev = Ev_PeerUp hdr la ra ht caps"
  shows "\<exists>w. rib_event_to_mrt B ev \<lparr>w_bytes = [], w_fail = None\<rparr> = Ok w
    \<and> read_record C now \<lparr>r_bytes = w_bytes w, r_end = IoUnexpectedEof\<rparr> = Err (Mrt_Io IoUnexpectedEof)"
proof -
  obtain old new where w: "rib_event_to_mrt B ev \<lparr>w_bytes = [], w_fail = None\<rparr> =
      write_bgp4mp_state_change B (ev_occurred_at ev) (ph_as hdr) 0 (IpV6 a) (IpV4 0) old new \<lparr>w_bytes = [], w_fail = None\<rparr>"
    using assms(3,4) by (auto simp: rib_event_to_mrt_def)
  let ?body = "bgp4mp_bytes (ph_as hdr) 0 0 (IpV6 a) (IpV4 0) (to_be 2 (unat (bgp_state_code old)) @ to_be 2 (unat (bgp_state_code new)))"
  let ?ts = "epoch_secs B (ev_occurred_at ev)"
  let ?h = "to_be 4 (unat ?ts) @ to_be 2 16 @ to_be 2 5 @ to_be 4 48"
  have "length ?body = 36" by (simp add: bgp4mp_bytes_def del: to_be.simps)
  moreover have "unat (from_be (to_be 4 48) :: u32) = 48" by (simp add: unat_from_be be_nat_to_be del: to_be.simps)
  ultimately have "read_record C now \<lparr>r_bytes = ?h @ ?body, r_end = IoUnexpectedEof\<rparr> = Err (Mrt_Io IoUnexpectedEof)"
    by (simp add: read_record_def read_exact_def MRT_HEADER_LEN_def u32_at_def u16_at_def slice_def del: to_be.simps)
  then show ?thesis unfolding w using write_state_change_eq [OF assms(2), of "\<lparr>w_bytes = [], w_fail = None\<rparr>"]
    by (simp del: to_be.simps)
qed

theorem mrt_event_v6_unreadable_witness:
  "\<exists>w. rib_event_to_mrt doc_buf_mut \<lparr>ev_id = 0, ev_occurred_at = 0, ev_speaker = IpV4 9,
        ev_payload = Ev_PeerDown (example_peer\<lparr>ph_address := IpV6 1\<rparr>) ''PeerDeConfigured''\<rparr> \<lparr>w_bytes = [], w_fail = None\<rparr> = Ok w
    \<and> read_record doc_crates 0 \<lparr>r_bytes = w_bytes w, r_end = IoUnexpectedEof\<rparr> = Err (Mrt_Io IoUnexpectedEof)"
  by (rule mrt_event_v6_unreadable [OF chrono_ok_doc doc_buf_mut_ok, of "example_peer\<lparr>ph_address := IpV6 1\<rparr>" 1 _ "''PeerDeConfigured''"]) simp_all

end
