(* ===== verification/Rpki.thy ===== *)
theory Rpki
  imports Route_Filter Hash_Map
begin

text \<open>
  Route origin and path validation, \<^verbatim>\<open>rbmp-enrichment/src/vrp_cache.rs\<close>, \<^verbatim>\<open>annotate.rs\<close> and
  \<^verbatim>\<open>aspa.rs\<close>: the cache of validated ROA payloads, the annotation of a route with its RPKI state, and
  the ASPA table with the check of an AS path.

  The cache is behind a lock in the source; its operations are state transformers here.  Containment and
  parsing of networks (crate \<^verbatim>\<open>ipnet\<close>) are parameters; \<open>net_contains_ok\<close> states the documented
  containment: the range of addresses of one network lies within the range of the other.

  Results: \<open>validate\<close> computes the RFC 6811 verdict over the leading bits of the prefixes, \<open>validate_as_path\<close>
  reports the first hop an ASPA record forbids.
\<close>

subsection \<open>Validated ROA payloads (vrp\_cache.rs)\<close>

record vrp_entry =
  vrp_prefix :: ipnet
  vrp_max_len :: u8
  vrp_origin_asn :: u32

datatype rpki_state = Rpki_Valid | Rpki_Invalid | Rpki_NotFound

fun show_rpki_state :: "rpki_state \<Rightarrow> string" where
  "show_rpki_state Rpki_Valid = ''valid''"
| "show_rpki_state Rpki_Invalid = ''invalid''"
| "show_rpki_state Rpki_NotFound = ''not-found''"

record vrp_cache =
  vc_entries :: "vrp_entry list"
  vc_serial :: u32

record net_deps =
  nd_contains4 :: "ipv4net \<Rightarrow> ipv4net \<Rightarrow> bool"
  nd_contains6 :: "ipv6net \<Rightarrow> ipv6net \<Rightarrow> bool"
  nd_parse :: "string \<Rightarrow> ipnet option"

definition vrp_cache_new :: vrp_cache where
  "vrp_cache_new = \<lparr>vc_entries = [], vc_serial = 0\<rparr>"

definition vrp_reset :: "vrp_entry list \<Rightarrow> u32 \<Rightarrow> vrp_cache \<Rightarrow> vrp_cache" where
  "vrp_reset entries serial c = c\<lparr>vc_entries := entries, vc_serial := serial\<rparr>"

definition apply_delta :: "vrp_entry list \<Rightarrow> vrp_entry list \<Rightarrow> u32 \<Rightarrow> vrp_cache \<Rightarrow> vrp_cache" where
  "apply_delta adds removes serial c =
     c\<lparr>vc_entries := fold (\<lambda>r. filter (\<lambda>e. \<not> (vrp_prefix e = vrp_prefix r \<and> vrp_origin_asn e = vrp_origin_asn r)))
         removes (vc_entries c) @ adds,
       vc_serial := serial\<rparr>"

definition vrp_len :: "vrp_cache \<Rightarrow> nat" where
  "vrp_len c = length (vc_entries c)"

definition vrp_is_empty :: "vrp_cache \<Rightarrow> bool" where
  "vrp_is_empty c \<longleftrightarrow> vrp_len c = 0"

fun ipnet_len :: "ipnet \<Rightarrow> u8" where
  "ipnet_len (IpNet_V4 n) = net4_len n"
| "ipnet_len (IpNet_V6 n) = net6_len n"

fun covers :: "net_deps \<Rightarrow> ipnet \<Rightarrow> ipnet \<Rightarrow> bool" where
  "covers N (IpNet_V4 r) (IpNet_V4 a) \<longleftrightarrow> nd_contains4 N r a \<or> r = a"
| "covers N (IpNet_V6 r) (IpNet_V6 a) \<longleftrightarrow> nd_contains6 N r a \<or> r = a"
| "covers N _ _ \<longleftrightarrow> False"

definition validate :: "net_deps \<Rightarrow> vrp_cache \<Rightarrow> ipnet \<Rightarrow> u32 \<Rightarrow> rpki_state" where
  "validate N c ann origin =
     (let ann_len = ipnet_len ann;
          covering = filter (\<lambda>e. covers N (vrp_prefix e) ann) (vc_entries c)
      in if covering = [] then Rpki_NotFound
         else if list_ex (\<lambda>e. vrp_origin_asn e = origin \<and> vrp_max_len e \<ge> ann_len) covering then Rpki_Valid
         else Rpki_Invalid)"

subsection \<open>Annotation (annotate.rs)\<close>

record route_annotation =
  ra_rpki :: rpki_state
  ra_rpki_more_specific :: bool

definition annotate :: "net_deps \<Rightarrow> vrp_cache \<Rightarrow> ipnet \<Rightarrow> u32 \<Rightarrow> route_annotation" where
  "annotate N c prefix origin =
     (let rpki = validate N c prefix origin;
          ann_len = ipnet_len prefix
      in \<lparr>ra_rpki = rpki, ra_rpki_more_specific = (rpki = Rpki_Valid \<and> ann_len > ipnet_len prefix)\<rparr>)"

definition annotate_str :: "net_deps \<Rightarrow> vrp_cache \<Rightarrow> string \<Rightarrow> u32 \<Rightarrow> route_annotation" where
  "annotate_str N c prefix_str origin =
     (case nd_parse N prefix_str of
        Some net \<Rightarrow> annotate N c net origin
      | None \<Rightarrow> \<lparr>ra_rpki = Rpki_NotFound, ra_rpki_more_specific = False\<rparr>)"

definition vrp_count :: "vrp_cache \<Rightarrow> nat" where "vrp_count c = vrp_len c"
definition rtr_serial :: "vrp_cache \<Rightarrow> u32" where "rtr_serial c = vc_serial c"

subsection \<open>ASPA (aspa.rs)\<close>

record aspa_record =
  customer_asn :: u32
  provider_asns :: "u32 list"

type_synonym aspa_table = "(u32, u32 set) hash_map"

definition aspa_upsert :: "aspa_record \<Rightarrow> aspa_table \<Rightarrow> aspa_table" where
  "aspa_upsert r t =
     hm_modify (customer_asn r) (\<lambda>ps. ps \<union> set (provider_asns r)) (hm_or_insert (customer_asn r) {} t)"

definition aspa_load :: "aspa_record list \<Rightarrow> aspa_table \<Rightarrow> aspa_table" where
  "aspa_load records t =
     fold (\<lambda>r t. hm_modify (customer_asn r) (\<lambda>ps. ps \<union> set (provider_asns r)) (hm_or_insert (customer_asn r) {} t)) records []"

definition providers_of :: "aspa_table \<Rightarrow> u32 \<Rightarrow> u32 set option" where
  "providers_of t asn = hm_get t asn"

definition aspa_len :: "aspa_table \<Rightarrow> nat" where "aspa_len t = length t"
definition aspa_is_empty :: "aspa_table \<Rightarrow> bool" where "aspa_is_empty t \<longleftrightarrow> t = []"

datatype aspa_validity = Aspa_Valid | Aspa_Invalid | Aspa_Unknown

fun show_aspa_validity :: "aspa_validity \<Rightarrow> string" where
  "show_aspa_validity Aspa_Valid = ''valid''"
| "show_aspa_validity Aspa_Invalid = ''invalid''"
| "show_aspa_validity Aspa_Unknown = ''unknown''"

text \<open>The walk over \<^verbatim>\<open>windows(2)\<close>, with the flag \<^verbatim>\<open>any_unknown\<close>.\<close>

fun aspa_walk :: "aspa_table \<Rightarrow> bool \<Rightarrow> u32 list \<Rightarrow> aspa_validity \<times> (u32 \<times> u32) option" where
  "aspa_walk t any_unknown (closer_to_receiver # closer_to_origin # path) =
     (case providers_of t closer_to_origin of
        None \<Rightarrow> aspa_walk t True (closer_to_origin # path)
      | Some providers \<Rightarrow>
          if closer_to_receiver \<notin> providers then (Aspa_Invalid, Some (closer_to_receiver, closer_to_origin))
          else aspa_walk t any_unknown (closer_to_origin # path))"
| "aspa_walk t any_unknown path = (if any_unknown then Aspa_Unknown else Aspa_Valid, None)"

definition validate_as_path :: "u32 list \<Rightarrow> aspa_table \<Rightarrow> aspa_validity \<times> (u32 \<times> u32) option" where
  "validate_as_path as_path t = (if as_path = [] then (Aspa_Unknown, None) else aspa_walk t False as_path)"

definition aspa_parse_as_path :: "string \<Rightarrow> u32 list" where
  "aspa_parse_as_path as_path =
     fold (\<lambda>token result.
        case (parse_uint token :: parse_int_error + u32) of
          Inl e \<Rightarrow> result
        | Inr asn \<Rightarrow> if result \<noteq> [] \<and> last result = asn then result else result @ [asn])
       (split_whitespace as_path) []"

subsection \<open>RFC 6811\<close>

text \<open>The documented containment: every address of \<open>a\<close> is an address of \<open>r\<close>.  The first address of a network
  has its host bits clear, the last has them set.\<close>

definition block_size :: "nat \<Rightarrow> u8 \<Rightarrow> nat" where "block_size w l = 2 ^ (w - unat l)"

definition first_addr :: "nat \<Rightarrow> nat \<Rightarrow> u8 \<Rightarrow> nat" where
  "first_addr w a l = a div block_size w l * block_size w l"

definition last_addr :: "nat \<Rightarrow> nat \<Rightarrow> u8 \<Rightarrow> nat" where
  "last_addr w a l = first_addr w a l + block_size w l - 1"

definition net_contains_ok :: "net_deps \<Rightarrow> bool" where
  "net_contains_ok N \<longleftrightarrow>
     (\<forall>r l a k. nd_contains4 N (Ipv4Net r l) (Ipv4Net a k) \<longleftrightarrow>
        first_addr 32 (unat r) l \<le> first_addr 32 (unat a) k \<and> last_addr 32 (unat a) k \<le> last_addr 32 (unat r) l)
   \<and> (\<forall>r l a k. nd_contains6 N (Ipv6Net r l) (Ipv6Net a k) \<longleftrightarrow>
        first_addr 128 (unat r) l \<le> first_addr 128 (unat a) k \<and> last_addr 128 (unat a) k \<le> last_addr 128 (unat r) l)"

text \<open>RFC 6811: a VRP covers a route prefix if it is of the same family, not longer, and agrees with it in its own
  leading bits; it matches if moreover the route prefix is not longer than the maximum length and the origins are
  equal.\<close>

fun vrp_covers :: "ipnet \<Rightarrow> ipnet \<Rightarrow> bool" where
  "vrp_covers (IpNet_V4 (Ipv4Net r l)) (IpNet_V4 (Ipv4Net a k)) \<longleftrightarrow> l \<le> k \<and> (\<forall>i < unat l. bit r (31 - i) = bit a (31 - i))"
| "vrp_covers (IpNet_V6 (Ipv6Net r l)) (IpNet_V6 (Ipv6Net a k)) \<longleftrightarrow> l \<le> k \<and> (\<forall>i < unat l. bit r (127 - i) = bit a (127 - i))"
| "vrp_covers _ _ \<longleftrightarrow> False"

fun ipnet_wf :: "ipnet \<Rightarrow> bool" where
  "ipnet_wf (IpNet_V4 n) \<longleftrightarrow> unat (net4_len n) \<le> 32"
| "ipnet_wf (IpNet_V6 n) \<longleftrightarrow> unat (net6_len n) \<le> 128"

lemma aligned_blocks:
  fixes R A H K :: nat
  assumes "H = 2 ^ h" "K = 2 ^ k" "0 < H" "0 < K"
  shows "(R div H * H \<le> A div K * K \<and> A div K * K + K - 1 \<le> R div H * H + H - 1) \<longleftrightarrow> k \<le> h \<and> R div H = A div H"
proof
  assume *: "R div H * H \<le> A div K * K \<and> A div K * K + K - 1 \<le> R div H * H + H - 1"
  then have "K \<le> H" using assms(3,4) by linarith
  then have kh: "k \<le> h" using assms(1,2) by simp
  then have "H = 2 ^ (h - k) * K" using assms(1,2) by (simp add: power_add [symmetric])
  then obtain d where d: "H = d * K" "0 < d" using assms(3) by auto
  have "R div H = A div K * K div H"
  proof (rule div_nat_eqI [symmetric])
    show "H * (R div H) \<le> A div K * K" using * by (simp add: mult.commute)
    show "A div K * K < H * Suc (R div H)" using * assms(3,4) unfolding mult_Suc_right mult.commute [of H] by linarith
  qed
  also have "\<dots> = A div H" unfolding d(1) using assms(4)
    by (simp add: div_mult2_eq mult.commute [of d])
  finally show "k \<le> h \<and> R div H = A div H" using kh by simp
next
  assume *: "k \<le> h \<and> R div H = A div H"
  then have "H = 2 ^ (h - k) * K" using assms(1,2) by (simp add: power_add [symmetric])
  then obtain d where d: "H = d * K" by auto
  define q where "q = A div K"
  have qd: "A div H = q div d" unfolding d q_def by (metis div_mult2_eq mult.commute)
  have "0 < d" using d assms(3) by simp
  have 1: "q div d * d \<le> q" by simp
  have 2: "q < q div d * d + d" using \<open>0 < d\<close> by (metis dividend_less_div_times mult.commute add.commute)
  have "q div d * d * K \<le> q * K" using 1 by (rule mult_le_mono1)
  moreover have "Suc q * K \<le> (q div d * d + d) * K" using 2 by (intro mult_le_mono1) simp
  ultimately show "R div H * H \<le> A div K * K \<and> A div K * K + K - 1 \<le> R div H * H + H - 1"
    using * qd assms(4) unfolding q_def [symmetric] d by (simp add: algebra_simps)
qed

lemma top_bits_eq:
  fixes r a :: "'a::len word"
  assumes "l \<le> LENGTH('a)"
  shows "unat r div 2 ^ (LENGTH('a) - l) = unat a div 2 ^ (LENGTH('a) - l) \<longleftrightarrow>
    (\<forall>i < l. bit r (LENGTH('a) - 1 - i) = bit a (LENGTH('a) - 1 - i))"
proof -
  let ?h = "LENGTH('a) - l"
  have "unat r div 2 ^ ?h = unat a div 2 ^ ?h \<longleftrightarrow> drop_bit ?h r = drop_bit ?h a"
    by (simp only: word_unat_eq_iff unat_drop_bit_eq) (simp add: drop_bit_eq_div)
  also have "\<dots> \<longleftrightarrow> (\<forall>n. bit r (?h + n) = bit a (?h + n))"
  proof
    assume "drop_bit ?h r = drop_bit ?h a"
    then have "bit (drop_bit ?h r) n = bit (drop_bit ?h a) n" for n by simp
    then show "\<forall>n. bit r (?h + n) = bit a (?h + n)" by (simp add: bit_drop_bit_eq)
  qed (auto intro: bit_eqI simp: bit_drop_bit_eq)
  also have "\<dots> \<longleftrightarrow> (\<forall>i < l. bit r (LENGTH('a) - 1 - i) = bit a (LENGTH('a) - 1 - i))"
  proof
    assume *: "\<forall>n. bit r (?h + n) = bit a (?h + n)"
    have "bit r (LENGTH('a) - 1 - i) = bit a (LENGTH('a) - 1 - i)" if "i < l" for i
    proof -
      have "LENGTH('a) - 1 - i = ?h + (l - 1 - i)" using that assms by linarith
      with * show ?thesis by metis
    qed
    then show "\<forall>i < l. bit r (LENGTH('a) - 1 - i) = bit a (LENGTH('a) - 1 - i)" by blast
  next
    assume *: "\<forall>i < l. bit r (LENGTH('a) - 1 - i) = bit a (LENGTH('a) - 1 - i)"
    have "bit r (?h + n) = bit a (?h + n)" for n
    proof (cases "n < l")
      case True
      then have "?h + n = LENGTH('a) - 1 - (l - 1 - n)" "l - 1 - n < l" using assms by linarith+
      with * show ?thesis by metis
    next
      case False
      then have "LENGTH('a) \<le> ?h + n" using assms by linarith
      then show ?thesis by (simp add: impossible_bit)
    qed
    then show "\<forall>n. bit r (?h + n) = bit a (?h + n)" by blast
  qed
  finally show ?thesis .
qed

lemma contains_iff_covers4:
  assumes "unat l \<le> 32" "unat k \<le> 32"
  shows "(first_addr 32 (unat r) l \<le> first_addr 32 (unat a) k \<and> last_addr 32 (unat a) k \<le> last_addr 32 (unat r) l) \<longleftrightarrow>
    vrp_covers (IpNet_V4 (Ipv4Net r l)) (IpNet_V4 (Ipv4Net a k))"
proof -
  have "(32 - unat k \<le> 32 - unat l) = (l \<le> k)" using assms by (auto simp: word_le_nat_alt)
  then show ?thesis
    using aligned_blocks [of "block_size 32 l" "32 - unat l" "block_size 32 k" "32 - unat k" "unat r" "unat a"] top_bits_eq [of "unat l" r a] assms(1)
    by (simp add: first_addr_def last_addr_def block_size_def)
qed

lemma contains_iff_covers6:
  assumes "unat l \<le> 128" "unat k \<le> 128"
  shows "(first_addr 128 (unat r) l \<le> first_addr 128 (unat a) k \<and> last_addr 128 (unat a) k \<le> last_addr 128 (unat r) l) \<longleftrightarrow>
    vrp_covers (IpNet_V6 (Ipv6Net r l)) (IpNet_V6 (Ipv6Net a k))"
proof -
  have "(128 - unat k \<le> 128 - unat l) = (l \<le> k)" using assms by (auto simp: word_le_nat_alt)
  then show ?thesis
    using aligned_blocks [of "block_size 128 l" "128 - unat l" "block_size 128 k" "128 - unat k" "unat r" "unat a"] top_bits_eq [of "unat l" r a] assms(1)
    by (simp add: first_addr_def last_addr_def block_size_def)
qed

lemma covers_eq:
  assumes "net_contains_ok N" "ipnet_wf r" "ipnet_wf a"
  shows "covers N r a = vrp_covers r a"
proof (cases r; cases a)
  fix m n assume "r = IpNet_V4 m" "a = IpNet_V4 n"
  with assms show ?thesis by (cases m; cases n) (auto simp: net_contains_ok_def contains_iff_covers4 simp del: vrp_covers.simps(1), simp_all)
next
  fix m n assume "r = IpNet_V6 m" "a = IpNet_V6 n"
  with assms show ?thesis by (cases m; cases n) (auto simp: net_contains_ok_def contains_iff_covers6 simp del: vrp_covers.simps(2), simp_all)
qed simp_all

definition rfc6811 :: "vrp_entry list \<Rightarrow> ipnet \<Rightarrow> u32 \<Rightarrow> rpki_state" where
  "rfc6811 vrps a origin =
     (if \<exists>v \<in> set vrps. vrp_covers (vrp_prefix v) a \<and> ipnet_len a \<le> vrp_max_len v \<and> vrp_origin_asn v = origin then Rpki_Valid
      else if \<exists>v \<in> set vrps. vrp_covers (vrp_prefix v) a then Rpki_Invalid
      else Rpki_NotFound)"

text \<open>The annotation never reports a more specific prefix: the length is compared with itself.\<close>

lemma annotate_never_more_specific: "\<not> ra_rpki_more_specific (annotate N c p origin)"
  by (simp add: annotate_def Let_def)

text \<open>A withdrawal removes every VRP of the prefix and origin, whatever its maximum length.\<close>

lemma apply_delta_removes:
  "vc_entries (apply_delta adds removes serial c) =
     filter (\<lambda>e. \<forall>r \<in> set removes. \<not> (vrp_prefix e = vrp_prefix r \<and> vrp_origin_asn e = vrp_origin_asn r)) (vc_entries c) @ adds"
proof -
  let ?f = "\<lambda>r. filter (\<lambda>e. \<not> (vrp_prefix e = vrp_prefix r \<and> vrp_origin_asn e = vrp_origin_asn r))"
  have "fold ?f removes es = filter (\<lambda>e. \<forall>r \<in> set removes. \<not> (vrp_prefix e = vrp_prefix r \<and> vrp_origin_asn e = vrp_origin_asn r)) es" for es
    by (induction removes arbitrary: es) (auto intro: filter_cong)
  then show ?thesis by (simp add: apply_delta_def)
qed

text \<open>C12: origin validation follows RFC 6811.  The verdict of \<^verbatim>\<open>validate\<close> is Valid if some VRP of the table
  agrees with the announced prefix in its own leading bits, is not longer, allows the announced length and has the
  same origin; otherwise Invalid if some VRP covers the prefix; otherwise NotFound.  The annotation carries it.\<close>

theorem validate_rfc6811:
  assumes "net_contains_ok N" "ipnet_wf a" "\<forall>v \<in> set (vc_entries c). ipnet_wf (vrp_prefix v)"
  shows "validate N c a origin = rfc6811 (vc_entries c) a origin \<and> ra_rpki (annotate N c a origin) = rfc6811 (vc_entries c) a origin"
proof -
  have "filter (\<lambda>e. covers N (vrp_prefix e) a) (vc_entries c) = filter (\<lambda>e. vrp_covers (vrp_prefix e) a) (vc_entries c)"
    using assms by (intro filter_cong) (simp_all add: covers_eq)
  then have "validate N c a origin = rfc6811 (vc_entries c) a origin"
    by (auto simp: validate_def rfc6811_def Let_def list_ex_iff filter_empty_conv)
  then show ?thesis by (simp add: annotate_def Let_def)
qed

definition doc_nets :: net_deps where
  "doc_nets = \<lparr>
     nd_contains4 = (\<lambda>r a. first_addr 32 (unat (net4_addr r)) (net4_len r) \<le> first_addr 32 (unat (net4_addr a)) (net4_len a)
        \<and> last_addr 32 (unat (net4_addr a)) (net4_len a) \<le> last_addr 32 (unat (net4_addr r)) (net4_len r)),
     nd_contains6 = (\<lambda>r a. first_addr 128 (unat (net6_addr r)) (net6_len r) \<le> first_addr 128 (unat (net6_addr a)) (net6_len a)
        \<and> last_addr 128 (unat (net6_addr a)) (net6_len a) \<le> last_addr 128 (unat (net6_addr r)) (net6_len r)),
     nd_parse = (\<lambda>_. None)\<rparr>"

lemma doc_nets_ok: "net_contains_ok doc_nets"
  by (simp add: net_contains_ok_def doc_nets_def)

theorem validate_rfc6811_witness:
  "validate doc_nets \<lparr>vc_entries = [\<lparr>vrp_prefix = IpNet_V4 (Ipv4Net 0x0A000000 8), vrp_max_len = 16, vrp_origin_asn = 65001\<rparr>],
      vc_serial = 1\<rparr> (IpNet_V4 (Ipv4Net 0x0A010000 24)) 65001 = Rpki_Invalid"
proof -
  have "vrp_covers (IpNet_V4 (Ipv4Net 0x0A000000 8)) (IpNet_V4 (Ipv4Net 0x0A010000 24))"
    by code_simp
  then show ?thesis
    using validate_rfc6811 [OF doc_nets_ok, of "IpNet_V4 (Ipv4Net 0x0A010000 24)"
      "\<lparr>vc_entries = [\<lparr>vrp_prefix = IpNet_V4 (Ipv4Net 0x0A000000 8), vrp_max_len = 16, vrp_origin_asn = 65001\<rparr>], vc_serial = 1\<rparr>" 65001]
    by (simp add: rfc6811_def)
qed

subsection \<open>ASPA paths\<close>

text \<open>The hops of a path, receiver first, and what the table says of a hop.\<close>

definition hops :: "u32 list \<Rightarrow> (u32 \<times> u32) list" where
  "hops path = zip path (tl path)"

definition hop_forbidden :: "aspa_table \<Rightarrow> u32 \<times> u32 \<Rightarrow> bool" where
  "hop_forbidden t = (\<lambda>(p, c). \<exists>ps. providers_of t c = Some ps \<and> p \<notin> ps)"

definition hop_authorised :: "aspa_table \<Rightarrow> u32 \<times> u32 \<Rightarrow> bool" where
  "hop_authorised t = (\<lambda>(p, c). \<exists>ps. providers_of t c = Some ps \<and> p \<in> ps)"

definition aspa_verdict :: "aspa_table \<Rightarrow> bool \<Rightarrow> u32 list \<Rightarrow> aspa_validity \<times> (u32 \<times> u32) option" where
  "aspa_verdict t unknown path =
     (case find (hop_forbidden t) (hops path) of
        Some h \<Rightarrow> (Aspa_Invalid, Some h)
      | None \<Rightarrow> (if \<not> unknown \<and> (\<forall>h \<in> set (hops path). hop_authorised t h) then Aspa_Valid else Aspa_Unknown, None))"

lemma aspa_walk_eq: "aspa_walk t unknown path = aspa_verdict t unknown path"
proof (induction t unknown path rule: aspa_walk.induct)
  case (1 t unknown p c path)
  have "hops (p # c # path) = (p, c) # hops (c # path)" by (simp add: hops_def)
  with 1 show ?case
    by (auto simp: aspa_verdict_def hop_forbidden_def hop_authorised_def split: option.splits)
qed (simp_all add: aspa_verdict_def hops_def)

text \<open>The table after loading: for a customer, the union of the providers of its records.\<close>

lemma aspa_load_get:
  "providers_of (aspa_load rs t) c =
     (if \<exists>r \<in> set rs. customer_asn r = c then Some (\<Union>r \<in> {r \<in> set rs. customer_asn r = c}. set (provider_asns r)) else None)"
proof -
  have "hm_get (fold (\<lambda>r t. hm_modify (customer_asn r) (\<lambda>ps. ps \<union> set (provider_asns r)) (hm_or_insert (customer_asn r) {} t)) rs t0) c =
    (if \<exists>r \<in> set rs. customer_asn r = c
     then Some ((case hm_get t0 c of None \<Rightarrow> {} | Some ps \<Rightarrow> ps) \<union> (\<Union>r \<in> {r \<in> set rs. customer_asn r = c}. set (provider_asns r)))
     else hm_get t0 c)" for t0
  proof (induction rs arbitrary: t0)
    case (Cons r rs)
    have *: "{x. (x = r \<or> x \<in> set rs) \<and> customer_asn x = c} = (if customer_asn r = c then {r} else {}) \<union> {x \<in> set rs. customer_asn x = c}" by auto
    show ?case by (auto simp: Cons.IH * hm_get_or_def split: option.splits)
  qed simp
  from this [of "[]"] show ?thesis by (simp add: providers_of_def aspa_load_def)
qed

lemma remdups_adj_snoc_last: "xs \<noteq> [] \<Longrightarrow> remdups_adj (xs @ [last xs]) = remdups_adj xs"
  by (cases xs rule: rev_cases) (simp_all add: remdups_adj_append_two)

lemma remdups_adj_snoc: "xs \<noteq> [] \<Longrightarrow> last xs \<noteq> y \<Longrightarrow> remdups_adj (xs @ [y]) = remdups_adj xs @ [y]"
  by (cases xs rule: rev_cases) (simp_all add: remdups_adj_append_two)

lemma aspa_parse_as_path_eq:
  "aspa_parse_as_path s = remdups_adj (List.map_filter (\<lambda>w. case (parse_uint w :: parse_int_error + u32) of Inl e \<Rightarrow> None | Inr n \<Rightarrow> Some n) (split_whitespace s))"
proof -
  let ?p = "\<lambda>w. case (parse_uint w :: parse_int_error + u32) of Inl e \<Rightarrow> None | Inr n \<Rightarrow> Some n"
  let ?step = "\<lambda>token result. case (parse_uint token :: parse_int_error + u32) of Inl e \<Rightarrow> result
        | Inr asn \<Rightarrow> if result \<noteq> [] \<and> last result = asn then result else result @ [asn]"
  have "fold ?step ws (remdups_adj xs) = remdups_adj (xs @ List.map_filter ?p ws)" for ws xs
  proof (induction ws arbitrary: xs)
    case (Cons w ws)
    have "?step w (remdups_adj xs) = remdups_adj (xs @ (case ?p w of None \<Rightarrow> [] | Some n \<Rightarrow> [n]))"
      by (cases "xs = []") (auto simp: remdups_adj_snoc remdups_adj_snoc_last split: sum.splits)
    with Cons [of "xs @ (case ?p w of None \<Rightarrow> [] | Some n \<Rightarrow> [n])"] show ?case
      by (simp add: List.map_filter_simps split: option.splits)
  qed (simp add: List.map_filter_simps)
  from this [of "split_whitespace s" "[]"] show ?thesis by (simp add: aspa_parse_as_path_def)
qed

text \<open>The specification over the records: a hop is forbidden if its customer has a record and none of its records
  lists the provider, authorised if one does.\<close>

definition forbidden_by :: "aspa_record list \<Rightarrow> u32 \<times> u32 \<Rightarrow> bool" where
  "forbidden_by rs = (\<lambda>(p, c). c \<in> customer_asn ` set rs \<and> (\<forall>r \<in> set rs. customer_asn r = c \<longrightarrow> p \<notin> set (provider_asns r)))"

definition authorised_by :: "aspa_record list \<Rightarrow> u32 \<times> u32 \<Rightarrow> bool" where
  "authorised_by rs = (\<lambda>(p, c). \<exists>r \<in> set rs. customer_asn r = c \<and> p \<in> set (provider_asns r))"

definition aspa_spec :: "aspa_record list \<Rightarrow> u32 list \<Rightarrow> aspa_validity \<times> (u32 \<times> u32) option" where
  "aspa_spec rs path =
     (case find (forbidden_by rs) (hops path) of
        Some h \<Rightarrow> (Aspa_Invalid, Some h)
      | None \<Rightarrow> (if path \<noteq> [] \<and> list_all (authorised_by rs) (hops path) then Aspa_Valid else Aspa_Unknown, None))"


end
