(* ===== verification/Rtr.thy ===== *)
theory Rtr
  imports Rpki Receiver
begin

text \<open>
  \<^verbatim>\<open>rbmp-enrichment/src/rtr.rs\<close>: the client of an RPKI cache (RFC 8210).  One session is the list of
  what its socket delivers; the queries it writes are collected in \<open>rs_out\<close>, and whether a write fails is a
  function of the number of bytes written before.
\<close>

datatype rtr_error = Rtr_Closed | Rtr_Io | Rtr_Length nat | Rtr_Bad_Ipv4 | Rtr_Bad_Ipv6 | Rtr_Code u16

definition PDU_SERIAL_NOTIFY :: u8 where "PDU_SERIAL_NOTIFY = 0"
definition PDU_SERIAL_QUERY :: u8 where "PDU_SERIAL_QUERY = 1"
definition PDU_RESET_QUERY :: u8 where "PDU_RESET_QUERY = 2"
definition PDU_CACHE_RESPONSE :: u8 where "PDU_CACHE_RESPONSE = 3"
definition PDU_IPV4_PREFIX :: u8 where "PDU_IPV4_PREFIX = 4"
definition PDU_IPV6_PREFIX :: u8 where "PDU_IPV6_PREFIX = 6"
definition PDU_END_OF_DATA :: u8 where "PDU_END_OF_DATA = 7"
definition PDU_CACHE_RESET :: u8 where "PDU_CACHE_RESET = 8"
definition PDU_ROUTER_KEY :: u8 where "PDU_ROUTER_KEY = 9"
definition PDU_ERROR_REPORT :: u8 where "PDU_ERROR_REPORT = 10"
definition RTR_VERSION :: u8 where "RTR_VERSION = 2"
definition RTR_HDR_LEN :: nat where "RTR_HDR_LEN = 8"

lemmas rtr_consts = PDU_SERIAL_NOTIFY_def PDU_SERIAL_QUERY_def PDU_RESET_QUERY_def PDU_CACHE_RESPONSE_def
  PDU_IPV4_PREFIX_def PDU_IPV6_PREFIX_def PDU_END_OF_DATA_def PDU_CACHE_RESET_def PDU_ROUTER_KEY_def
  PDU_ERROR_REPORT_def RTR_VERSION_def RTR_HDR_LEN_def

record rtr_session =
  rs_pending :: "vrp_entry list"
  rs_in_cache_response :: bool
  rs_session_id :: u16
  rs_cache :: vrp_cache
  rs_out :: bytes

type_synonym 'a rtr_result = "(rtr_error, 'a) outcome"

definition rtr_write :: "(nat \<Rightarrow> bool) \<Rightarrow> bytes \<Rightarrow> rtr_session \<Rightarrow> rtr_session rtr_result" where
  "rtr_write fails bs st = (if fails (length (rs_out st)) then Err Rtr_Io else Ok (st\<lparr>rs_out := rs_out st @ bs\<rparr>))"

definition send_reset_query :: "(nat \<Rightarrow> bool) \<Rightarrow> rtr_session \<Rightarrow> rtr_session rtr_result" where
  "send_reset_query fails st = rtr_write fails [RTR_VERSION, PDU_RESET_QUERY, 0, 0, 0, 0, 0, 8] st"

definition send_serial_query :: "(nat \<Rightarrow> bool) \<Rightarrow> u16 \<Rightarrow> u32 \<Rightarrow> rtr_session \<Rightarrow> rtr_session rtr_result" where
  "send_serial_query fails session_id serial st =
     rtr_write fails ([RTR_VERSION, PDU_SERIAL_QUERY] @ to_be 2 (unat session_id) @ to_be 4 12 @ to_be 4 (unat serial)) st"

text \<open>An announcement waits for the end of the data; a withdrawal changes the cache at once.\<close>

definition add_or_remove :: "u8 \<Rightarrow> vrp_entry \<Rightarrow> rtr_session \<Rightarrow> rtr_session" where
  "add_or_remove flags e st =
     (if flags AND 1 \<noteq> 0 then st\<lparr>rs_pending := rs_pending st @ [e]\<rparr>
      else st\<lparr>rs_cache := apply_delta [] [e] (vc_serial (rs_cache st)) (rs_cache st)\<rparr>)"

definition on_ipv4_prefix :: "crates \<Rightarrow> bytes \<Rightarrow> rtr_session \<Rightarrow> rtr_session rtr_result" where
  "on_ipv4_prefix C pdu st =
     (if length pdu < RTR_HDR_LEN + 12 then Ok st
      else rbind (idx pdu 8) (\<lambda>flags. rbind (idx pdu 9) (\<lambda>prefix_len. rbind (idx pdu 10) (\<lambda>max_len.
           rbind (ipv4_at pdu 12) (\<lambda>addr. rbind (u32_at pdu 16) (\<lambda>asn.
           case c_ipv4net_new C addr prefix_len of
             None \<Rightarrow> Err Rtr_Bad_Ipv4
           | Some net \<Rightarrow> Ok (add_or_remove flags
               \<lparr>vrp_prefix = IpNet_V4 (c_ipv4net_trunc C net), vrp_max_len = max_len, vrp_origin_asn = asn\<rparr> st)))))))"

definition on_ipv6_prefix :: "crates \<Rightarrow> bytes \<Rightarrow> rtr_session \<Rightarrow> rtr_session rtr_result" where
  "on_ipv6_prefix C pdu st =
     (if length pdu < RTR_HDR_LEN + 28 then Ok st
      else rbind (idx pdu 8) (\<lambda>flags. rbind (idx pdu 9) (\<lambda>prefix_len. rbind (idx pdu 10) (\<lambda>max_len.
           rbind (ipv6_at pdu 12) (\<lambda>addr. rbind (u32_at pdu 28) (\<lambda>asn.
           case c_ipv6net_new C addr prefix_len of
             None \<Rightarrow> Err Rtr_Bad_Ipv6
           | Some net \<Rightarrow> Ok (add_or_remove flags
               \<lparr>vrp_prefix = IpNet_V6 (c_ipv6net_trunc C net), vrp_max_len = max_len, vrp_origin_asn = asn\<rparr> st)))))))"

definition on_end_of_data :: "bytes \<Rightarrow> rtr_session \<Rightarrow> rtr_session rtr_result" where
  "on_end_of_data pdu st =
     rbind (u32_at pdu 8) (\<lambda>serial.
       if rs_in_cache_response st
       then Ok (st\<lparr>rs_cache := vrp_reset (rs_pending st) serial (rs_cache st), rs_pending := [], rs_in_cache_response := False\<rparr>)
       else Ok (st\<lparr>rs_cache := apply_delta [] [] serial (rs_cache st)\<rparr>))"

definition on_pdu :: "crates \<Rightarrow> (nat \<Rightarrow> bool) \<Rightarrow> bytes \<Rightarrow> rtr_session \<Rightarrow> rtr_session rtr_result" where
  "on_pdu C fails pdu st =
     rbind (idx pdu 1) (\<lambda>pdu_type.
       if pdu_type = PDU_CACHE_RESPONSE then
         rbind (u16_at pdu 2) (\<lambda>sid. Ok (st\<lparr>rs_session_id := sid, rs_in_cache_response := True, rs_pending := []\<rparr>))
       else if pdu_type = PDU_IPV4_PREFIX then on_ipv4_prefix C pdu st
       else if pdu_type = PDU_IPV6_PREFIX then on_ipv6_prefix C pdu st
       else if pdu_type = PDU_END_OF_DATA then on_end_of_data pdu st
       else if pdu_type = PDU_CACHE_RESET then
         rbind (send_reset_query fails st) (\<lambda>st. Ok (st\<lparr>rs_pending := [], rs_in_cache_response := False\<rparr>))
       else if pdu_type = PDU_SERIAL_NOTIFY then
         rbind (u32_at pdu 4) (\<lambda>serial. send_serial_query fails (rs_session_id st) (vc_serial (rs_cache st)) st)
       else if pdu_type = PDU_ERROR_REPORT then rbind (u16_at pdu 2) (\<lambda>err_code. Err (Rtr_Code err_code))
       else Ok st)"

definition rtr_step :: "crates \<Rightarrow> (nat \<Rightarrow> bool) \<Rightarrow> bytes \<times> rtr_session \<Rightarrow> (bytes \<times> rtr_session) ctl rtr_result" where
  "rtr_step C fails = (\<lambda>(buf, st).
     if length buf < RTR_HDR_LEN then Ok (Brk (buf, st))
     else rbind (u32_at buf 4) (\<lambda>l. let pdu_len = unat l in
       if pdu_len < RTR_HDR_LEN then Err (Rtr_Length pdu_len)
       else if length buf < pdu_len then Ok (Brk (buf, st))
       else rbind (buf_copy_to_bytes C pdu_len buf) (\<lambda>(pdu, buf).
            rbind (on_pdu C fails pdu st) (\<lambda>st. Ok (Cont (buf, st))))))"

definition rtr_drain :: "crates \<Rightarrow> (nat \<Rightarrow> bool) \<Rightarrow> bytes \<Rightarrow> rtr_session \<Rightarrow> (bytes \<times> rtr_session) rtr_result" where
  "rtr_drain C fails buf st = rwhile (\<lambda>_. True) (rtr_step C fails) (buf, st)"

text \<open>The session after the connection is made, until the given input is used up.\<close>

fun rtr_reads ::
    "crates \<Rightarrow> (nat \<Rightarrow> bool) \<Rightarrow> read_event list \<Rightarrow> bytes \<Rightarrow> rtr_session \<Rightarrow> rtr_session rtr_result" where
  "rtr_reads C fails [] buf st = Ok st"
| "rtr_reads C fails (Cancelled # evs) buf st = Ok st"
| "rtr_reads C fails (Read_Error # evs) buf st = Err Rtr_Io"
| "rtr_reads C fails (Data bs # evs) buf st =
     (if bs = [] then Err Rtr_Closed
      else rbind (rtr_drain C fails (buf @ bs) st) (\<lambda>(buf, st). rtr_reads C fails evs buf st))"

definition rtr_session_new :: "vrp_cache \<Rightarrow> rtr_session" where
  "rtr_session_new c = \<lparr>rs_pending = [], rs_in_cache_response = False, rs_session_id = 0, rs_cache = c, rs_out = []\<rparr>"

definition connect_and_sync :: "crates \<Rightarrow> (nat \<Rightarrow> bool) \<Rightarrow> read_event list \<Rightarrow> vrp_cache \<Rightarrow> rtr_session rtr_result" where
  "connect_and_sync C fails evs c =
     rbind (send_reset_query fails (rtr_session_new c)) (\<lambda>st. rtr_reads C fails evs [] st)"

text \<open>The pauses, in seconds, between sessions of which it is known whether they ended cleanly.\<close>

fun rtr_run :: "bool list \<Rightarrow> nat \<Rightarrow> nat list" where
  "rtr_run [] backoff = []"
| "rtr_run (clean # rest) backoff = (let b = (if clean then 5 else backoff) in b # rtr_run rest (min (b * 2) 300))"

subsection \<open>The session ends each turn\<close>

lemma on_pdu_not_Diverge: "on_pdu C fails pdu st \<noteq> Diverge"
  by (auto simp: on_pdu_def on_ipv4_prefix_def on_ipv6_prefix_def on_end_of_data_def send_reset_query_def send_serial_query_def
      rtr_write_def ipv4_at_def ipv6_at_def split: if_splits option.splits)

lemma rtr_drain_not_Diverge:
  assumes "bytes_ok C"
  shows "rtr_drain C fails buf st \<noteq> Diverge"
  unfolding rtr_drain_def
proof (rule rwhile_not_Diverge [where \<mu> = "\<lambda>(buf, st). length buf"])
  fix s s'
  show "rtr_step C fails s \<noteq> Diverge"
    by (cases s) (auto simp: rtr_step_def Let_def on_pdu_not_Diverge split: if_splits)
  assume "rtr_step C fails s = Ok (Cont s')"
  then show "(case s' of (buf, st) \<Rightarrow> length buf) < (case s of (buf, st) \<Rightarrow> length buf)"
    by (cases s) (auto simp: rtr_step_def Let_def rtr_consts copy_to_bytes_eq [OF assms] split: if_splits)
qed

subsection \<open>The PDUs of a cache\<close>

definition pdu_ok :: "bytes \<Rightarrow> bool" where
  "pdu_ok pdu \<longleftrightarrow> 8 \<le> length pdu \<and> length pdu < 2 ^ 32 \<and> take 4 (drop 4 pdu) = to_be 4 (length pdu)"

lemma rtr_step_pdu:
  assumes "bytes_ok C" "pdu_ok pdu"
  shows "rtr_step C fails (pdu @ b, st) = rbind (on_pdu C fails pdu st) (\<lambda>st. Ok (Cont (b, st)))"
proof -
  have pdu: "8 \<le> length pdu" "length pdu < 2 ^ 32" "take 4 (drop 4 pdu) = to_be 4 (length pdu)" using assms(2) by (simp_all add: pdu_ok_def)
  have "take 4 (drop 4 (pdu @ b)) = to_be 4 (length pdu)" using pdu by (simp del: to_be.simps)
  then have "u32_at (pdu @ b) 4 = (Ok (from_be (to_be 4 (length pdu))) :: u32 rtr_result)"
    using pdu(1) by (simp add: u32_at_def slice_def del: to_be.simps)
  moreover have "unat (from_be (to_be 4 (length pdu)) :: u32) = length pdu"
    using pdu(2) by (simp add: unat_from_be be_nat_to_be del: to_be.simps)
  ultimately show ?thesis using pdu(1)
    by (simp add: rtr_step_def rtr_consts Let_def copy_to_bytes_eq [OF assms(1)] del: to_be.simps)
qed

fun on_pdus :: "crates \<Rightarrow> (nat \<Rightarrow> bool) \<Rightarrow> bytes list \<Rightarrow> rtr_session \<Rightarrow> rtr_session rtr_result" where
  "on_pdus C fails [] st = Ok st"
| "on_pdus C fails (pdu # pdus) st = rbind (on_pdu C fails pdu st) (on_pdus C fails pdus)"

lemma rtr_drain_pdus:
  assumes "bytes_ok C" "\<forall>pdu \<in> set pdus. pdu_ok pdu" "length rest < 8"
  shows "rtr_drain C fails (concat pdus @ rest) st = rbind (on_pdus C fails pdus st) (\<lambda>st. Ok (rest, st))"
  using assms(2)
proof (induction pdus arbitrary: st)
  case Nil
  then show ?case using assms(3) by (simp add: rtr_drain_def rwhile_break rtr_step_def rtr_consts)
next
  case (Cons pdu pdus)
  then have "rtr_step C fails (concat (pdu # pdus) @ rest, st) = rbind (on_pdu C fails pdu st) (\<lambda>st. Ok (Cont (concat pdus @ rest, st)))"
    using rtr_step_pdu [OF assms(1)] by simp
  then show ?case using Cons unfolding rtr_drain_def
    by (cases "on_pdu C fails pdu st") (simp_all add: rwhile_unfold [of _ _ "(pdu @ concat pdus @ rest, st)"])
qed

text \<open>RFC 8210: Cache Response, the prefix PDUs of IPv4 (20 octets) and IPv6 (32 octets), End of Data, which has 12
  octets in version 0 and 24 in version 1 (\<open>timers\<close>).\<close>

definition cache_response_pdu :: "u8 \<Rightarrow> u16 \<Rightarrow> bytes" where
  "cache_response_pdu v sid = [v, 3] @ to_be 2 (unat sid) @ to_be 4 8"

fun vrp_pdu :: "u8 \<Rightarrow> u8 \<Rightarrow> vrp_entry \<Rightarrow> bytes" where
  "vrp_pdu v flags e =
     (case vrp_prefix e of
        IpNet_V4 n \<Rightarrow> [v, 4, 0, 0] @ to_be 4 20 @ [flags, net4_len n, vrp_max_len e, 0] @ to_be 4 (unat (net4_addr n)) @ to_be 4 (unat (vrp_origin_asn e))
      | IpNet_V6 n \<Rightarrow> [v, 6, 0, 0] @ to_be 4 32 @ [flags, net6_len n, vrp_max_len e, 0] @ to_be 16 (unat (net6_addr n)) @ to_be 4 (unat (vrp_origin_asn e)))"

definition end_of_data_pdu :: "u8 \<Rightarrow> u16 \<Rightarrow> u32 \<Rightarrow> bytes \<Rightarrow> bytes" where
  "end_of_data_pdu v sid serial timers = [v, 7] @ to_be 2 (unat sid) @ to_be 4 (12 + length timers) @ to_be 4 (unat serial) @ timers"

definition is_v4 :: "vrp_entry \<Rightarrow> bool" where
  "is_v4 e \<longleftrightarrow> (case vrp_prefix e of IpNet_V4 n \<Rightarrow> True | IpNet_V6 n \<Rightarrow> False)"

text \<open>A VRP with a valid length and no host bits.\<close>

fun net_wf :: "ipnet \<Rightarrow> bool" where
  "net_wf (IpNet_V4 n) \<longleftrightarrow> unat (net4_len n) \<le> 32 \<and> net4_addr n AND netmask4 (net4_len n) = net4_addr n"
| "net_wf (IpNet_V6 n) \<longleftrightarrow> unat (net6_len n) \<le> 128 \<and> net6_addr n AND netmask6 (net6_len n) = net6_addr n"

lemma pdus_ok:
  "pdu_ok (cache_response_pdu v sid)" "pdu_ok (vrp_pdu v flags e)" "length timers \<le> 12 \<Longrightarrow> pdu_ok (end_of_data_pdu v sid serial timers)"
  by (auto simp: pdu_ok_def cache_response_pdu_def end_of_data_pdu_def simp del: to_be.simps split: ipnet.split)

lemma on_cache_response:
  "on_pdu C fails (cache_response_pdu v sid) st = Ok (st\<lparr>rs_session_id := sid, rs_in_cache_response := True, rs_pending := []\<rparr>)"
  by (simp add: on_pdu_def cache_response_pdu_def rtr_consts idx_def u16_at_def slice_def del: to_be.simps)

lemma on_vrp_v4:
  assumes "ipnet_ok C" "net_wf (vrp_prefix e)" "is_v4 e" "flags AND 1 \<noteq> 0"
  shows "on_pdu C fails (vrp_pdu v flags e) st = Ok (st\<lparr>rs_pending := rs_pending st @ [e]\<rparr>)"
proof (cases "vrp_prefix e")
  case (IpNet_V4 n)
  obtain a l where n: "n = Ipv4Net a l" by (cases n)
  have "c_ipv4net_new C a l = Some n" "c_ipv4net_trunc C n = n"
    using assms(1,2) by (simp_all add: IpNet_V4 n ipnet_ok_def)
  moreover have "\<lparr>vrp_prefix = IpNet_V4 n, vrp_max_len = vrp_max_len e, vrp_origin_asn = vrp_origin_asn e\<rparr> = e"
    using IpNet_V4 by (cases e) simp
  ultimately show ?thesis using assms(4)
    by (simp add: on_pdu_def on_ipv4_prefix_def add_or_remove_def IpNet_V4 n rtr_consts idx_def ipv4_at_def u32_at_def slice_def
        nth_append del: to_be.simps)
qed (use assms(3) in \<open>simp add: is_v4_def\<close>)

lemma on_vrp_v6:
  assumes "\<not> is_v4 e"
  shows "on_pdu C fails (vrp_pdu v flags e) st = Ok st"
  using assms by (auto simp: on_pdu_def is_v4_def on_ipv6_prefix_def rtr_consts idx_def simp del: to_be.simps split: ipnet.splits)

lemma on_eod:
  "on_pdu C fails (end_of_data_pdu v sid serial timers) st = (if rs_in_cache_response st
       then Ok (st\<lparr>rs_cache := vrp_reset (rs_pending st) serial (rs_cache st), rs_pending := [], rs_in_cache_response := False\<rparr>)
       else Ok (st\<lparr>rs_cache := apply_delta [] [] serial (rs_cache st)\<rparr>))"
  by (simp add: on_pdu_def end_of_data_pdu_def on_end_of_data_def rtr_consts idx_def u32_at_def slice_def del: to_be.simps)

lemma on_vrps:
  assumes "ipnet_ok C" "\<forall>e \<in> set es. net_wf (vrp_prefix e)"
  shows "on_pdus C fails (map (vrp_pdu v 1) es @ pdus) st = on_pdus C fails pdus (st\<lparr>rs_pending := rs_pending st @ filter is_v4 es\<rparr>)"
  using assms(2)
proof (induction es arbitrary: st)
  case (Cons e es)
  then show ?case by (cases "is_v4 e") (simp_all add: on_vrp_v4 [OF assms(1)] on_vrp_v6 del: vrp_pdu.simps)
qed simp

definition sync_pdus :: "u8 \<Rightarrow> u16 \<Rightarrow> vrp_entry list \<Rightarrow> u32 \<Rightarrow> bytes \<Rightarrow> bytes list" where
  "sync_pdus v sid es serial timers = cache_response_pdu v sid # map (vrp_pdu v 1) es @ [end_of_data_pdu v sid serial timers]"

text \<open>C31: a cache response replaces the table.  Whatever the cache held before, after the PDUs of a response that
  announces the VRPs \<open>es\<close>, the cache holds exactly the IPv4 VRPs among them, in order, with the serial of the end of
  data: nothing held before survives, and every IPv6 VRP is dropped, since its 32-octet PDU is taken to be too short.\<close>

theorem rtr_sync:
  assumes "bytes_ok C" "ipnet_ok C" "\<forall>e \<in> set es. net_wf (vrp_prefix e)" "length timers \<le> 12" "\<forall>n. \<not> fails n"
  shows "\<exists>st. connect_and_sync C fails [Data (concat (sync_pdus v sid es serial timers))] c = Ok st
    \<and> vc_entries (rs_cache st) = filter is_v4 es \<and> vc_serial (rs_cache st) = serial"
proof -
  let ?pdus = "sync_pdus v sid es serial timers"
  obtain st0 where st0: "send_reset_query fails (rtr_session_new c) = Ok st0"
    using assms(5) by (simp add: send_reset_query_def rtr_write_def)
  let ?st = "st0\<lparr>rs_session_id := sid, rs_in_cache_response := True, rs_pending := filter is_v4 es\<rparr>"
  have "\<forall>pdu \<in> set ?pdus. pdu_ok pdu" using pdus_ok assms(4) by (auto simp: sync_pdus_def)
  from rtr_drain_pdus [OF assms(1) this, of "[]"]
  have "rtr_drain C fails (concat ?pdus) st0 = rbind (on_pdus C fails ?pdus st0) (\<lambda>st. Ok ([], st))" by simp
  moreover have "on_pdus C fails ?pdus st0 = Ok (?st\<lparr>rs_cache := vrp_reset (filter is_v4 es) serial (rs_cache st0), rs_pending := [], rs_in_cache_response := False\<rparr>)"
    by (simp add: sync_pdus_def on_cache_response on_vrps [OF assms(2,3)] on_eod)
  moreover have "concat ?pdus \<noteq> []" by (simp add: sync_pdus_def cache_response_pdu_def)
  ultimately show ?thesis using st0 by (simp add: connect_and_sync_def vrp_reset_def)
qed

theorem rtr_sync_witness:
  "\<exists>st. connect_and_sync doc_crates (\<lambda>_. False) [Data (concat (sync_pdus 1 7
        [\<lparr>vrp_prefix = IpNet_V6 (Ipv6Net 0 0), vrp_max_len = 48, vrp_origin_asn = 65001\<rparr>,
         \<lparr>vrp_prefix = IpNet_V4 (Ipv4Net 0 0), vrp_max_len = 24, vrp_origin_asn = 65002\<rparr>] 5 []))]
      \<lparr>vc_entries = [\<lparr>vrp_prefix = IpNet_V4 (Ipv4Net 0 0), vrp_max_len = 8, vrp_origin_asn = 65000\<rparr>], vc_serial = 4\<rparr> = Ok st
    \<and> vc_entries (rs_cache st) = [\<lparr>vrp_prefix = IpNet_V4 (Ipv4Net 0 0), vrp_max_len = 24, vrp_origin_asn = 65002\<rparr>]"
  using rtr_sync [OF bytes_ok_doc ipnet_ok_doc, of "[\<lparr>vrp_prefix = IpNet_V6 (Ipv6Net 0 0), vrp_max_len = 48, vrp_origin_asn = 65001\<rparr>,
         \<lparr>vrp_prefix = IpNet_V4 (Ipv4Net 0 0), vrp_max_len = 24, vrp_origin_asn = 65002\<rparr>]" "[]" "\<lambda>_. False" 1 7 5
      "\<lparr>vc_entries = [\<lparr>vrp_prefix = IpNet_V4 (Ipv4Net 0 0), vrp_max_len = 8, vrp_origin_asn = 65000\<rparr>], vc_serial = 4\<rparr>"]
  by (auto simp: is_v4_def)

text \<open>An End of Data PDU whose length field is below 12 makes the client panic, in every state of a session.\<close>

theorem rtr_short_end_of_data:
  assumes "bytes_ok C" "pdu_ok pdu" "pdu ! 1 = PDU_END_OF_DATA" "length pdu < 12"
  shows "rtr_drain C fails (pdu @ rest) st = Panic"
proof -
  have "on_pdu C fails pdu st = Panic"
    using assms(2-4) by (simp add: on_pdu_def pdu_ok_def rtr_consts idx_def on_end_of_data_def u32_at_def slice_def)
  then show ?thesis unfolding rtr_drain_def by (intro rwhile_panic) (simp_all add: rtr_step_pdu [OF assms(1,2)])
qed

theorem rtr_short_end_of_data_witness:
  "rtr_drain doc_crates (\<lambda>_. False) ([1, 7, 0, 0, 0, 0, 0, 8] @ []) (rtr_session_new vrp_cache_new) = Panic"
proof -
  have "to_be 4 (length [1, 7, 0, 0, 0, 0, 0, 8 :: u8]) = [0, 0, 0, 8]" by code_simp
  then have "pdu_ok [1, 7, 0, 0, 0, 0, 0, 8]" by (simp add: pdu_ok_def del: to_be.simps)
  then show ?thesis by (rule rtr_short_end_of_data [OF bytes_ok_doc]) (simp_all add: rtr_consts)
qed

lemma rtr_run_bounds: "5 \<le> b \<Longrightarrow> b \<le> 300 \<Longrightarrow> \<forall>p \<in> set (rtr_run cs b). 5 \<le> p \<and> p \<le> 300"
proof (induction cs arbitrary: b)
  case (Cons clean cs)
  have "5 \<le> min ((if clean then 5 else b) * 2) 300" using Cons.prems by simp
  from Cons.IH [OF this] Cons.prems show ?case by (auto simp: Let_def)
qed simp

end
