(* ===== verification/Bgpsec.thy ===== *)
theory Bgpsec
  imports Attributes Hash_Map
begin

text \<open>
  \<^verbatim>\<open>rbmp-enrichment/src/bgpsec.rs\<close>: the BGPsec validator.  X.509 decoding (crate
  \<^verbatim>\<open>x509\_cert\<close>) and ECDSA verification (crate \<^verbatim>\<open>ring\<close>) are parameters.
\<close>

datatype bgpsec_verdict =
    Bgpsec_Valid
  | Bgpsec_Invalid u8 string
  | Bgpsec_NotFound u32
  | Bgpsec_Malformed
  | Bgpsec_Absent

fun verdict_str :: "bgpsec_verdict \<Rightarrow> string" where
  "verdict_str Bgpsec_Valid = ''valid''"
| "verdict_str (Bgpsec_Invalid h r) = ''invalid''"
| "verdict_str (Bgpsec_NotFound a) = ''not_found''"
| "verdict_str Bgpsec_Malformed = ''malformed''"
| "verdict_str Bgpsec_Absent = ''absent''"

record crypto =
  cy_spki_of_der :: "bytes \<Rightarrow> string + bytes"
  cy_verify :: "bytes \<Rightarrow> bytes \<Rightarrow> bytes \<Rightarrow> bool"

type_synonym bgpsec_validator = "(u32, bytes) hash_map"

definition load_router_cert :: "crypto \<Rightarrow> u32 \<Rightarrow> bytes \<Rightarrow> bgpsec_validator \<Rightarrow> string + bgpsec_validator" where
  "load_router_cert Y asn der v =
     (case cy_spki_of_der Y der of
        Inl e \<Rightarrow> Inl (''x509 parse error for AS'' @ show_nat (unat asn) @ '': '' @ e)
      | Inr key_bytes \<Rightarrow>
          if length key_bytes \<noteq> 65
          then Inl (''AS'' @ show_nat (unat asn) @ '' router cert: expected 65-byte uncompressed P-256 key, got ''
                 @ show_nat (length key_bytes))
          else Inr (hm_insert asn key_bytes v))"

definition load_raw_key :: "u32 \<Rightarrow> bytes \<Rightarrow> bgpsec_validator \<Rightarrow> string + bgpsec_validator" where
  "load_raw_key asn key v =
     (if length key \<noteq> 65
      then Inl (''raw key for AS'' @ show_nat (unat asn) @ '' must be 65 bytes (uncompressed P-256), got '' @ show_nat (length key))
      else Inr (hm_insert asn key v))"

definition cert_count :: "bgpsec_validator \<Rightarrow> nat" where "cert_count v = length v"

subsection \<open>The walk over the signature blocks\<close>

text \<open>One signature segment; the result of the verification is discarded.  The hop counter is an octet and wraps.\<close>

definition segment_step ::
    "crypto \<Rightarrow> bgpsec_validator \<Rightarrow> bgpsec_path \<Rightarrow> nat \<Rightarrow> nat \<times> u8 \<Rightarrow> (nat \<times> u8) ctl result" where
  "segment_step Y v b block_end = (\<lambda>(seg_pos, hop).
     rbind (len16_at (bgpsec_raw b) (seg_pos + 20)) (\<lambda>sig_len. let seg_pos = seg_pos + 22 in
     if seg_pos + sig_len > block_end then Ok (Brk (seg_pos, hop))
     else rbind (slice (bgpsec_raw b) seg_pos (seg_pos + sig_len)) (\<lambda>sig_bytes.
          let asn = (if unat hop < length (signing_asns b) then signing_asns b ! unat hop else 0);
              checked = (case hm_get v asn of None \<Rightarrow> False | Some pub_key \<Rightarrow> cy_verify Y pub_key sig_bytes sig_bytes)
          in Ok (Cont (seg_pos + sig_len, hop + 1)))))"

definition segments :: "crypto \<Rightarrow> bgpsec_validator \<Rightarrow> bgpsec_path \<Rightarrow> nat \<Rightarrow> nat \<times> u8 \<Rightarrow> (nat \<times> u8) result" where
  "segments Y v b block_end s = rwhile (\<lambda>(seg_pos, hop). seg_pos + 22 \<le> block_end) (segment_step Y v b block_end) s"

definition block_step :: "crypto \<Rightarrow> bgpsec_validator \<Rightarrow> bgpsec_path \<Rightarrow> nat \<times> u8 \<Rightarrow> (nat \<times> u8) ctl result" where
  "block_step Y v b = (\<lambda>(pos, hop).
     rbind (len16_at (bgpsec_raw b) pos) (\<lambda>block_len.
     if block_len < 2 \<or> pos + 2 + block_len > length (bgpsec_raw b) then Ok (Brk (pos, hop))
     else rbind (idx (bgpsec_raw b) (pos + 2)) (\<lambda>algo.
          rbind (segments Y v b (pos + 2 + block_len) (pos + 3, hop)) (\<lambda>(seg_pos, hop).
          Ok (Cont (pos + (2 + block_len), hop))))))"

definition verify_signatures :: "crypto \<Rightarrow> bgpsec_validator \<Rightarrow> bgpsec_path \<Rightarrow> bytes \<Rightarrow> bgpsec_verdict option result" where
  "verify_signatures Y v b wire =
     (let raw = bgpsec_raw b in
      if length raw < 4 then Ok None
      else rbind (len16_at raw 0) (\<lambda>secure_path_len. let sig_block_start = 2 + secure_path_len in
           if length raw \<le> sig_block_start + 4 then Ok None
           else rbind (rwhile (\<lambda>(pos, hop). pos + 4 \<le> length raw) (block_step Y v b) (sig_block_start, 0)) (\<lambda>_.
                Ok None)))"

definition validate_path :: "crypto \<Rightarrow> bgpsec_validator \<Rightarrow> bgpsec_path \<Rightarrow> bytes option \<Rightarrow> bgpsec_verdict result" where
  "validate_path Y v b update_wire =
     (if bgpsec_raw b = [] then Ok Bgpsec_Absent
      else if signing_asns b = [] then Ok Bgpsec_Malformed
      else case find (\<lambda>asn. \<not> hm_contains v asn) (signing_asns b) of
             Some asn \<Rightarrow> Ok (Bgpsec_NotFound asn)
           | None \<Rightarrow>
               (case update_wire of
                  None \<Rightarrow> Ok Bgpsec_Valid
                | Some wire \<Rightarrow> rbind (verify_signatures Y v b wire) (\<lambda>r.
                    case r of Some verdict \<Rightarrow> Ok verdict | None \<Rightarrow> Ok Bgpsec_Valid)))"

subsection \<open>What is checked\<close>

lemma segments_ok:
  assumes "block_end \<le> length (bgpsec_raw b)"
  shows "sat (segments Y v b block_end s) (\<lambda>_. True)" "segments Y v b block_end s \<noteq> Err e"
proof -
  show "sat (segments Y v b block_end s) (\<lambda>_. True)" unfolding segments_def
    by (rule rwhile_sat [where I = "\<lambda>_. True" and \<mu> = "\<lambda>(pos, hop). length (bgpsec_raw b) - pos"])
      (use assms in \<open>auto simp: segment_step_def Let_def\<close>)
  show "segments Y v b block_end s \<noteq> Err e" unfolding segments_def
    by (rule rwhile_not_Err) (auto simp: segment_step_def Let_def split: if_splits)
qed

lemma verify_signatures_None: "verify_signatures Y v b wire = Ok None"
proof -
  let ?loop = "\<lambda>s. rwhile (\<lambda>(pos, hop). pos + 4 \<le> length (bgpsec_raw b)) (block_step Y v b) s"
  have sat: "sat (?loop s) (\<lambda>_. True)" for s
    by (rule rwhile_sat [where I = "\<lambda>_. True" and \<mu> = "\<lambda>(pos, hop). length (bgpsec_raw b) - pos"])
      (auto simp: block_step_def intro!: sat_weaken [OF segments_ok(1)])
  have err: "?loop s \<noteq> Err e" for s e
    by (rule rwhile_not_Err) (auto simp: block_step_def segments_ok(2) split: if_splits)
  have "\<exists>p h. ?loop s = Ok (p, h)" for s
    using sat [of s] err [of s] by (cases "?loop s") auto
  then show ?thesis by (auto simp: verify_signatures_def Let_def len16_at_def u16_at_def slice_def)
qed

text \<open>C35: what a BGPsec verdict means.  For every key store, attribute and wire image, whatever the signature checks
  return: the verdict is Absent for an empty attribute, Malformed without signing ASes, NotFound with the first
  signing AS that has no key, and Valid otherwise.  Invalid is never the verdict: no signature is ever held against
  a path.\<close>

theorem validate_path_spec:
  "validate_path Y v b update_wire = Ok (
     if bgpsec_raw b = [] then Bgpsec_Absent
     else if signing_asns b = [] then Bgpsec_Malformed
     else case find (\<lambda>asn. hm_get v asn = None) (signing_asns b) of
            Some asn \<Rightarrow> Bgpsec_NotFound asn
          | None \<Rightarrow> Bgpsec_Valid)"
  by (auto simp: validate_path_def verify_signatures_None hm_contains_iff split: option.splits)

end
