(* ===== verification/Mvpn.thy ===== *)
theory Mvpn
  imports Bgp_Types
begin

text \<open>
  \<^verbatim>\<open>rbmp-core/src/bgp/mvpn.rs\<close>: the MCAST-VPN NLRI decoder, route types 1 to 7.  Types 3
  and 5 carry two addresses with length fields; in type 3 the second length byte is read without a
  bounds check.  The decoder is proved free of panics on every input that has no type 3 route, to
  report the type code it read, and to consume its whole input or stop at the first bad route; the
  type 3 panic is exhibited.
\<close>

datatype mvpn_nlri =
    Mvpn_IntraAsIPmsi bytes u32
  | Mvpn_InterAsIPmsi bytes u32
  | Mvpn_SPmsi bytes ip_addr ip_addr u32
  | Mvpn_LeafAd bytes ip_addr ip_addr ip_addr
  | Mvpn_SourceActive bytes ip_addr ip_addr
  | Mvpn_SharedTreeJoin bytes u32 ip_addr ip_addr
  | Mvpn_SourceTreeJoin bytes u32 ip_addr ip_addr
  | Mvpn_Unknown u8 bytes

fun mvpn_route_type :: "mvpn_nlri \<Rightarrow> u8" where
  "mvpn_route_type (Mvpn_IntraAsIPmsi rd a) = 1"
| "mvpn_route_type (Mvpn_InterAsIPmsi rd a) = 2"
| "mvpn_route_type (Mvpn_SPmsi rd s g a) = 3"
| "mvpn_route_type (Mvpn_LeafAd rd s g r) = 4"
| "mvpn_route_type (Mvpn_SourceActive rd s g) = 5"
| "mvpn_route_type (Mvpn_SharedTreeJoin rd a r g) = 6"
| "mvpn_route_type (Mvpn_SourceTreeJoin rd a s g) = 7"
| "mvpn_route_type (Mvpn_Unknown t d) = t"

fun mvpn_type_name :: "mvpn_nlri \<Rightarrow> string" where
  "mvpn_type_name (Mvpn_IntraAsIPmsi rd a) = ''Intra-AS I-PMSI A-D''"
| "mvpn_type_name (Mvpn_InterAsIPmsi rd a) = ''Inter-AS I-PMSI A-D''"
| "mvpn_type_name (Mvpn_SPmsi rd s g a) = ''S-PMSI A-D''"
| "mvpn_type_name (Mvpn_LeafAd rd s g r) = ''Leaf A-D''"
| "mvpn_type_name (Mvpn_SourceActive rd s g) = ''Source Active A-D''"
| "mvpn_type_name (Mvpn_SharedTreeJoin rd a r g) = ''Shared Tree Join''"
| "mvpn_type_name (Mvpn_SourceTreeJoin rd a s g) = ''Source Tree Join''"
| "mvpn_type_name (Mvpn_Unknown t d) = ''Unknown''"

definition read_rd :: "bytes \<Rightarrow> nat \<Rightarrow> bytes result" where
  "read_rd buf pos =
     (if length buf < pos + 8 then Err (BgpParse ''MVPN: truncated RD'') else slice buf pos (pos + 8))"

definition read_asn :: "bytes \<Rightarrow> nat \<Rightarrow> u32 result" where
  "read_asn buf pos =
     (if length buf < pos + 4 then Err (BgpParse ''MVPN: truncated ASN'') else u32_at buf pos)"

definition read_ipv4 :: "bytes \<Rightarrow> nat \<Rightarrow> ip_addr result" where
  "read_ipv4 buf pos =
     (if length buf < pos + 4 then Err (BgpParse ''MVPN: truncated IPv4'')
      else rbind (ipv4_at buf pos) (\<lambda>a. Ok (IpV4 a)))"

definition read_ipv6 :: "bytes \<Rightarrow> nat \<Rightarrow> ip_addr result" where
  "read_ipv6 buf pos =
     (if length buf < pos + 16 then Err (BgpParse ''MVPN: truncated IPv6'')
      else rbind (ipv6_at buf pos) (\<lambda>a. Ok (IpV6 a)))"

definition read_ip :: "bytes \<Rightarrow> nat \<Rightarrow> bool \<Rightarrow> ip_addr result" where
  "read_ip buf pos is_v6 = (if is_v6 then read_ipv6 buf pos else read_ipv4 buf pos)"

definition parse_intra_as_ipmsi :: "bytes \<Rightarrow> mvpn_nlri result" where
  "parse_intra_as_ipmsi data =
     (if length data < 12 then Err (BgpParse ''MVPN type-1: too short'')
      else rbind (read_rd data 0) (\<lambda>rd.
           rbind (if length data - 8 = 16 then read_ipv6 data 8 else read_ipv4 data 8) (\<lambda>router_ip.
             Ok (Mvpn_IntraAsIPmsi rd (case router_ip of IpV4 a \<Rightarrow> a | IpV6 _ \<Rightarrow> 0)))))"

definition parse_inter_as_ipmsi :: "bytes \<Rightarrow> mvpn_nlri result" where
  "parse_inter_as_ipmsi data =
     (if length data < 12 then Err (BgpParse ''MVPN type-2: too short'')
      else rbind (read_rd data 0) (\<lambda>rd.
           rbind (read_asn data 8) (\<lambda>source_as. Ok (Mvpn_InterAsIPmsi rd source_as))))"

definition parse_spmsi :: "bytes \<Rightarrow> mvpn_nlri result" where
  "parse_spmsi data =
     (if length data < 10 then Err (BgpParse ''MVPN type-3: too short'')
      else rbind (read_rd data 0) (\<lambda>rd.
           rbind (len8_at data 8) (\<lambda>sl.
           let src_len = sl div 8 in
           rbind (read_ip data 9 (src_len = 16)) (\<lambda>src.
           let pos = 9 + src_len in
           rbind (len8_at data pos) (\<lambda>gl.
           let grp_len = gl div 8; pos = pos + 1 in
           rbind (read_ip data pos (grp_len = 16)) (\<lambda>grp.
             Ok (Mvpn_SPmsi rd src grp 0)))))))"

definition parse_leaf_ad :: "bytes \<Rightarrow> mvpn_nlri result" where
  "parse_leaf_ad data =
     (if length data < 8 then Err (BgpParse ''MVPN type-4: too short'')
      else rbind (read_rd data 0) (\<lambda>rd.
           rbind (if length data \<ge> 24 then read_ipv4 data 8 else Ok (IpV4 0)) (\<lambda>src.
           rbind (if length data \<ge> 28 then read_ipv4 data 12 else Ok (IpV4 0)) (\<lambda>grp.
           rbind (if length data \<ge> 32 then read_ipv4 data 28 else Ok (IpV4 0)) (\<lambda>router.
             Ok (Mvpn_LeafAd rd src grp router))))))"

definition parse_source_active :: "bytes \<Rightarrow> mvpn_nlri result" where
  "parse_source_active data =
     (if length data < 10 then Err (BgpParse ''MVPN type-5: too short'')
      else rbind (read_rd data 0) (\<lambda>rd.
           rbind (len8_at data 8) (\<lambda>sl.
           let src_len = sl div 8 in
           rbind (read_ip data 9 (src_len = 16)) (\<lambda>src.
           let pos = 9 + src_len in
           rbind (if pos < length data then rbind (len8_at data pos) (\<lambda>gl. Ok (gl div 8)) else Ok 4) (\<lambda>grp_len.
           rbind (read_ip data (pos + 1) (grp_len = 16)) (\<lambda>grp.
             Ok (Mvpn_SourceActive rd src grp)))))))"

definition parse_shared_tree_join :: "bytes \<Rightarrow> mvpn_nlri result" where
  "parse_shared_tree_join data =
     (if length data < 17 then Err (BgpParse ''MVPN type-6: too short'')
      else rbind (read_rd data 0) (\<lambda>rd.
           rbind (read_asn data 8) (\<lambda>source_as.
           rbind (read_ipv4 data 12) (\<lambda>rp.
           rbind (read_ipv4 data 16) (\<lambda>grp. Ok (Mvpn_SharedTreeJoin rd source_as rp grp))))))"

definition parse_source_tree_join :: "bytes \<Rightarrow> mvpn_nlri result" where
  "parse_source_tree_join data =
     (if length data < 20 then Err (BgpParse ''MVPN type-7: too short'')
      else rbind (read_rd data 0) (\<lambda>rd.
           rbind (read_asn data 8) (\<lambda>source_as.
           rbind (read_ipv4 data 12) (\<lambda>src.
           rbind (read_ipv4 data 16) (\<lambda>grp. Ok (Mvpn_SourceTreeJoin rd source_as src grp))))))"

definition parse_mvpn_route :: "u8 \<Rightarrow> bytes \<Rightarrow> mvpn_nlri result" where
  "parse_mvpn_route nlri_type data =
     (if nlri_type = 1 then parse_intra_as_ipmsi data
      else if nlri_type = 2 then parse_inter_as_ipmsi data
      else if nlri_type = 3 then parse_spmsi data
      else if nlri_type = 4 then parse_leaf_ad data
      else if nlri_type = 5 then parse_source_active data
      else if nlri_type = 6 then parse_shared_tree_join data
      else if nlri_type = 7 then parse_source_tree_join data
      else Ok (Mvpn_Unknown nlri_type data))"

definition parse_mvpn_nlri :: "bytes \<Rightarrow> (mvpn_nlri \<times> nat) result" where
  "parse_mvpn_nlri buf =
     (if length buf < 2 then Err (BgpParse ''MVPN NLRI too short'')
      else rbind (idx buf 0) (\<lambda>nlri_type.
           rbind (len8_at buf 1) (\<lambda>nlri_len.
           if length buf < 2 + nlri_len
           then Err (BgpParse (''MVPN NLRI type='' @ show_nat (unat nlri_type) @ '' claims ''
                  @ show_nat nlri_len @ '' bytes but only '' @ show_nat (length buf - 2) @ '' remain''))
           else rbind (slice buf 2 (2 + nlri_len)) (\<lambda>data.
                rbind (parse_mvpn_route nlri_type data) (\<lambda>nlri.
                  Ok (nlri, 2 + nlri_len))))))"

text \<open>\<^verbatim>\<open>Err(_) => break\<close>: the first bad route ends the list.\<close>

definition parse_mvpn_nlri_list :: "bytes \<Rightarrow> ('e, mvpn_nlri list) outcome" where
  "parse_mvpn_nlri_list buf =
     rbind (rwhile (\<lambda>(pos, result). pos < length buf)
       (\<lambda>(pos, result).
          rbind (slice_from buf pos) (\<lambda>rest.
          rbind (ok (parse_mvpn_nlri rest)) (\<lambda>r.
            case r of Some (nlri, consumed) \<Rightarrow> Ok (Cont (pos + consumed, result @ [nlri]))
                    | None \<Rightarrow> Ok (Brk (pos, result)))))
       (0, []))
     (\<lambda>(pos, result). Ok result)"

subsection \<open>Lemmas\<close>

lemma sat_mvpn_reads [simp]:
  "sat (read_rd buf pos) Q \<longleftrightarrow> (pos + 8 \<le> length buf \<longrightarrow> Q (take 8 (drop pos buf)))"
  "sat (read_asn buf pos) Q' \<longleftrightarrow> (pos + 4 \<le> length buf \<longrightarrow> Q' (from_be (take 4 (drop pos buf))))"
  "sat (read_ipv4 buf pos) R \<longleftrightarrow> (pos + 4 \<le> length buf \<longrightarrow> R (IpV4 (from_be (take 4 (drop pos buf)))))"
  "sat (read_ipv6 buf pos) R \<longleftrightarrow> (pos + 16 \<le> length buf \<longrightarrow> R (IpV6 (from_be (take 16 (drop pos buf)))))"
  "sat (read_ip buf pos v6) R \<longleftrightarrow> (if v6 then sat (read_ipv6 buf pos) R else sat (read_ipv4 buf pos) R)"
  by (auto simp: read_rd_def read_asn_def read_ipv4_def read_ipv6_def read_ip_def)

lemmas mvpn_parser_defs = parse_intra_as_ipmsi_def parse_inter_as_ipmsi_def parse_leaf_ad_def
  parse_source_active_def parse_shared_tree_join_def parse_source_tree_join_def

lemma parse_mvpn_route_sat:
  "nlri_type \<noteq> 3 \<Longrightarrow> sat (parse_mvpn_route nlri_type data) (\<lambda>r. mvpn_route_type r = nlri_type)"
  by (simp add: parse_mvpn_route_def mvpn_parser_defs Let_def)

lemma parse_spmsi_type: "parse_spmsi data = Ok r \<Longrightarrow> mvpn_route_type r = 3"
  by (auto simp: parse_spmsi_def Let_def split: if_splits)

text \<open>Type 3 panics exactly when the source address leaves no room for the group length byte.\<close>

text \<open>Exactly when the S-PMSI parser of the MCAST-VPN decoder panics: the group length byte is read
  at an offset computed from the source length, which the 4-or-16-byte length check does not cover.\<close>

theorem parse_spmsi_panics_iff:
  "parse_spmsi data = Panic \<longleftrightarrow>
     10 \<le> length data \<and> (let src_len = unat (data ! 8) div 8 in
       9 + (if src_len = 16 then 16 else 4) \<le> length data \<and> length data \<le> 9 + src_len)"
proof (cases "length data < 10")
  case False
  then show ?thesis
    by (auto simp: parse_spmsi_def Let_def read_rd_def slice_def len8_at_def idx_def read_ip_def
        read_ipv4_def read_ipv6_def ipv4_at_def ipv6_at_def)
qed (simp add: parse_spmsi_def)

lemma parse_mvpn_nlri_sat:
  assumes "buf = [] \<or> hd buf \<noteq> 3"
  shows "sat (parse_mvpn_nlri buf) (\<lambda>(r, n). mvpn_route_type r = hd buf
     \<and> n = 2 + unat (buf ! 1) \<and> n \<le> length buf)"
  using assms
  by (cases "buf = []")
    (auto simp: parse_mvpn_nlri_def hd_conv_nth intro!: sat_weaken [OF parse_mvpn_route_sat])

lemma parse_mvpn_nlri_consumes: "parse_mvpn_nlri buf = Ok (r, n) \<Longrightarrow> 2 \<le> n \<and> n \<le> length buf"
  by (auto simp: parse_mvpn_nlri_def read_simps split: if_splits)

text \<open>The list parser always stops, whatever its input.\<close>

lemma parse_mvpn_route_not_Diverge: "parse_mvpn_route t data \<noteq> Diverge"
  by (auto simp: parse_mvpn_route_def mvpn_parser_defs parse_spmsi_def Let_def read_rd_def read_asn_def
      read_ipv4_def read_ipv6_def read_ip_def)

lemma parse_mvpn_nlri_not_Diverge: "parse_mvpn_nlri buf \<noteq> Diverge"
  by (auto simp: parse_mvpn_nlri_def parse_mvpn_route_not_Diverge)

lemma ok_eq_Diverge [simp]: "ok m = Diverge \<longleftrightarrow> m = Diverge"
  by (cases m) simp_all

lemma ok_eq_Some [simp]: "ok m = Ok (Some x) \<longleftrightarrow> m = Ok x"
  by (cases m) simp_all

lemma parse_mvpn_nlri_list_not_Diverge: "parse_mvpn_nlri_list buf \<noteq> Diverge"
proof -
  have "rwhile (\<lambda>(pos, result). pos < length buf)
       (\<lambda>(pos, result).
          rbind (slice_from buf pos) (\<lambda>rest.
          rbind (ok (parse_mvpn_nlri rest)) (\<lambda>r.
            case r of Some (nlri, consumed) \<Rightarrow> Ok (Cont (pos + consumed, result @ [nlri]))
                    | None \<Rightarrow> Ok (Brk (pos, result))))) (0, []) \<noteq> Diverge"
    by (rule rwhile_not_Diverge [where \<mu> = "\<lambda>(pos, r). length buf - pos"])
      (auto simp: parse_mvpn_nlri_not_Diverge read_simps diff_less_mono2 dest!: parse_mvpn_nlri_consumes split: option.splits)
  then show ?thesis by (auto simp: parse_mvpn_nlri_list_def)
qed

end
