(* ===== verification/Topology.thy ===== *)
theory Topology
  imports Hash_Map Rust_Std "HOL-Library.Char_ord" "HOL-Library.List_Lexorder" "HOL-Library.Product_Lexorder"
begin

text \<open>
  \<^verbatim>\<open>rbmp-server/src/api/topology.rs\<close>: the BGP-LS topology graph and the shortest IGP path between two
  routers.  The database is a parameter: the rows its queries return.

  \<^verbatim>\<open>BinaryHeap<Reverse<..>>\<close> is the ascending list of its elements, so that \<^verbatim>\<open>pop\<close> returns the least
  pair of cost and name; names are compared byte by byte.  The cost is a wrapping \<^verbatim>\<open>u32\<close> sum.

  Results: when the metrics are small enough for the number of routers, \<open>dijkstra_path\<close> ends and returns a
  walk of least weight, or nothing exactly when there is no walk; with larger metrics the sum wraps around and
  the reconstruction of the path can run for ever.
\<close>

subsection \<open>The graph\<close>

record topology_node =
  tn_id :: string
  tn_name :: "string option"
  tn_protocol :: "string option"
  tn_router_id :: string

record topology_link =
  tl_source :: string
  tl_target :: string
  tl_local_ip :: "string option"
  tl_remote_ip :: "string option"
  tl_igp_metric :: "u32 option"
  tl_adj_sid :: "string option"

record topology_graph =
  tg_nodes :: "topology_node list"
  tg_links :: "topology_link list"

text \<open>What the handler gets from the store: whether the lock is free, the value of the existence query, and for
  a query that can be prepared and run its rows, each of them converted or refused.\<close>

record graph_db =
  gd_locked :: bool
  gd_count :: "string \<Rightarrow> bool option"
  gd_node_rows :: "string \<Rightarrow> (string \<times> string option \<times> string option) option list option"
  gd_link_rows :: "string \<Rightarrow> (string \<times> string \<times> string option \<times> string option \<times> u32 option \<times> string option) option list option"

definition nl :: string where "nl = [CHR 0x0A]"

definition table_sql :: string where
  "table_sql = ''SELECT COUNT(*) > 0 FROM information_schema.tables WHERE table_name = '' @ [CHR 0x27] @ ''bgpls_nodes'' @ [CHR 0x27]"

definition proto_clause :: "string option \<Rightarrow> string" where
  "proto_clause f = (case f of Some p \<Rightarrow> ''AND protocol_id = '' @ [CHR 0x27] @ p @ [CHR 0x27] | None \<Rightarrow> '''')"

definition node_sql :: "string option \<Rightarrow> string" where
  "node_sql f = ''SELECT DISTINCT router_id, node_name, protocol_id'' @ nl
     @ ''         FROM bgpls_nodes'' @ nl
     @ ''         WHERE action = '' @ [CHR 0x27] @ ''announce'' @ [CHR 0x27] @ '' '' @ proto_clause f @ nl
     @ ''         LIMIT 2000''"

definition link_sql :: string where
  "link_sql = ''SELECT local_router_id, remote_router_id, local_ip, remote_ip, igp_metric, adj_sid_labels'' @ nl
     @ ''         FROM ('' @ nl
     @ ''           SELECT *, ROW_NUMBER() OVER ('' @ nl
     @ ''               PARTITION BY local_router_id, remote_router_id'' @ nl
     @ ''               ORDER BY occurred_at DESC'' @ nl
     @ ''           ) AS rn'' @ nl
     @ ''           FROM bgpls_links WHERE action = '' @ [CHR 0x27] @ ''announce'' @ [CHR 0x27] @ nl
     @ ''         ) WHERE rn = 1'' @ nl
     @ ''         LIMIT 10000''"

definition empty_graph :: topology_graph where
  "empty_graph = \<lparr>tg_nodes = [], tg_links = []\<rparr>"

fun node_of_row :: "string \<times> string option \<times> string option \<Rightarrow> topology_node" where
  "node_of_row (router_id, node_name, protocol) =
     \<lparr>tn_id = router_id, tn_name = node_name, tn_protocol = protocol, tn_router_id = router_id\<rparr>"

fun link_of_row :: "string \<times> string \<times> string option \<times> string option \<times> u32 option \<times> string option \<Rightarrow> topology_link" where
  "link_of_row (source, target, local_ip, remote_ip, igp_metric, adj_sid) =
     \<lparr>tl_source = source, tl_target = target, tl_local_ip = local_ip, tl_remote_ip = remote_ip,
      tl_igp_metric = igp_metric, tl_adj_sid = adj_sid\<rparr>"

text \<open>\<^verbatim>\<open>rows.flatten()\<close> skips the rows that could not be converted.\<close>

definition flatten_rows :: "('r \<Rightarrow> 'a) \<Rightarrow> 'r option list option \<Rightarrow> 'a list" where
  "flatten_rows f rows = (case rows of None \<Rightarrow> [] | Some rs \<Rightarrow> map f (List.map_filter id rs))"

definition build_graph :: "graph_db \<Rightarrow> string option \<Rightarrow> topology_graph" where
  "build_graph db protocol_filter =
     (if \<not> gd_locked db then empty_graph
      else if gd_count db table_sql \<noteq> Some True then empty_graph
      else \<lparr>tg_nodes = flatten_rows node_of_row (gd_node_rows db (node_sql protocol_filter)),
            tg_links = flatten_rows link_of_row (gd_link_rows db link_sql)\<rparr>)"

subsection \<open>Shortest path\<close>

definition u32_max :: u32 where "u32_max = 0xFFFFFFFF"

definition link_weight :: "topology_link \<Rightarrow> u32" where
  "link_weight l = (case tl_igp_metric l of Some w \<Rightarrow> w | None \<Rightarrow> 1)"

definition hm_push :: "'k \<Rightarrow> 'a \<Rightarrow> ('k, 'a list) hash_map \<Rightarrow> ('k, 'a list) hash_map" where
  "hm_push k x m = hm_insert k (hm_get_or m k [] @ [x]) m"

definition adjacency :: "topology_link list \<Rightarrow> (string, (string \<times> u32) list) hash_map" where
  "adjacency links = fold (\<lambda>l adj. hm_push (tl_target l) (tl_source l, link_weight l)
     (hm_push (tl_source l) (tl_target l, link_weight l) adj)) links []"

record dijkstra_state =
  dj_dist :: "(string, u32) hash_map"
  dj_prev :: "(string, string) hash_map"
  dj_heap :: "(u32 \<times> string) list"

definition relax :: "u32 \<Rightarrow> string \<Rightarrow> string \<times> u32 \<Rightarrow> dijkstra_state \<Rightarrow> dijkstra_state" where
  "relax cost node nw st =
     (case nw of (neighbor, weight) \<Rightarrow>
        let next_cost = cost + weight; dist = hm_or_insert neighbor u32_max (dj_dist st) in
        if next_cost < hm_get_or dist neighbor u32_max
        then \<lparr>dj_dist = hm_insert neighbor next_cost dist, dj_prev = hm_insert neighbor node (dj_prev st),
              dj_heap = insort (next_cost, neighbor) (dj_heap st)\<rparr>
        else st\<lparr>dj_dist := dist\<rparr>)"

definition dijkstra_step :: "(string, (string \<times> u32) list) hash_map \<Rightarrow> string \<Rightarrow> dijkstra_state \<Rightarrow> (unit, dijkstra_state ctl) outcome" where
  "dijkstra_step adj dst st =
     (case dj_heap st of
        [] \<Rightarrow> Ok (Brk st)
      | (cost, node) # heap \<Rightarrow>
          let st = st\<lparr>dj_heap := heap\<rparr> in
          if node = dst then Ok (Brk st)
          else if cost > hm_get_or (dj_dist st) node u32_max then Ok (Cont st)
          else Ok (Cont (fold (relax cost node) (hm_get_or adj node []) st)))"

definition dijkstra_init :: "string \<Rightarrow> dijkstra_state" where
  "dijkstra_init src = \<lparr>dj_dist = hm_insert src 0 [], dj_prev = [], dj_heap = [(0, src)]\<rparr>"

text \<open>The path is collected backwards, with the current node last pushed.\<close>

definition path_step :: "(string, string) hash_map \<Rightarrow> string \<Rightarrow> string list \<times> string \<Rightarrow> (unit, (string list \<times> string) ctl) outcome" where
  "path_step prev src st =
     (case st of (path, cur) \<Rightarrow>
        (case hm_get prev cur of
           None \<Rightarrow> Ok (Brk (path, cur))
         | Some p \<Rightarrow> if p = src then Ok (Brk (path @ [p], p)) else Ok (Cont (path @ [p], p))))"

definition dijkstra_path :: "topology_graph \<Rightarrow> string \<Rightarrow> string \<Rightarrow> (unit, string list option) outcome" where
  "dijkstra_path graph src dst =
     rbind (rwhile (\<lambda>_. True) (dijkstra_step (adjacency (tg_links graph)) dst) (dijkstra_init src)) (\<lambda>st.
       if \<not> hm_contains (dj_dist st) dst then Ok None
       else rbind (rwhile (\<lambda>_. True) (path_step (dj_prev st) src) ([dst], dst)) (\<lambda>(path, cur).
         let path = rev path in
         Ok (if path \<noteq> [] \<and> hd path = src then Some path else None)))"

datatype path_response =
    Path_Error string
  | Path_Found string string "string list" bool

definition bgpls_path :: "graph_db \<Rightarrow> string option \<Rightarrow> string option \<Rightarrow> (unit, path_response) outcome" where
  "bgpls_path db from to =
     (let from = (case from of Some s \<Rightarrow> s | None \<Rightarrow> []); to = (case to of Some s \<Rightarrow> s | None \<Rightarrow> []) in
      if from = [] \<or> to = [] then Ok (Path_Error ''from and to query params required'')
      else rbind (dijkstra_path (build_graph db None) from to) (\<lambda>path.
        Ok (Path_Found from to (case path of Some p \<Rightarrow> p | None \<Rightarrow> []) (path \<noteq> None))))"

definition bgpls_graph :: "graph_db \<Rightarrow> string option \<Rightarrow> topology_graph" where
  "bgpls_graph db protocol = build_graph db protocol"


subsection \<open>Specification: walks over the links\<close>

definition arcs :: "topology_link list \<Rightarrow> (string \<times> string \<times> nat) set" where
  "arcs links = (\<Union>l \<in> set links. {(tl_source l, tl_target l, unat (link_weight l)),
     (tl_target l, tl_source l, unat (link_weight l))})"

inductive walk :: "(string \<times> string \<times> nat) set \<Rightarrow> string list \<Rightarrow> nat \<Rightarrow> bool" for A where
  walk_single: "walk A [v] 0"
| walk_step: "(u, v, w) \<in> A \<Longrightarrow> walk A (v # vs) W \<Longrightarrow> walk A (u # v # vs) (w + W)"

inductive_cases walk_NilE [elim!]: "walk A [] W"

definition routers :: "topology_link list \<Rightarrow> string \<Rightarrow> string set" where
  "routers links src = insert src (tl_source ` set links \<union> tl_target ` set links)"

lemma hm_get_or_push: "hm_get_or (hm_push k x m) k' [] = (if k' = k then hm_get_or m k [] @ [x] else hm_get_or m k' [])"
  by (simp add: hm_push_def hm_get_or_def)

lemma set_adjacency:
  "set (hm_get_or (adjacency links) u []) = {(v, w). \<exists>l \<in> set links. w = link_weight l \<and>
     (tl_source l = u \<and> tl_target l = v \<or> tl_target l = u \<and> tl_source l = v)}"
proof (induction links rule: rev_induct)
  case Nil
  then show ?case by (simp add: adjacency_def)
next
  case (snoc l links)
  have "adjacency (links @ [l]) = hm_push (tl_target l) (tl_source l, link_weight l)
      (hm_push (tl_source l) (tl_target l, link_weight l) (adjacency links))"
    by (simp add: adjacency_def)
  with snoc show ?case by (auto simp: hm_get_or_push)
qed

lemma adjacency_arcs: "(v, w) \<in> set (hm_get_or (adjacency links) u []) \<Longrightarrow> (u, v, unat w) \<in> arcs links"
  by (auto simp: set_adjacency arcs_def)

lemma arcs_adjacency: "(u, v, n) \<in> arcs links \<Longrightarrow> \<exists>w. n = unat w \<and> (v, w) \<in> set (hm_get_or (adjacency links) u [])"
  by (auto simp: set_adjacency arcs_def)

lemma arcs_routers: "(u, v, w) \<in> arcs links \<Longrightarrow> u \<in> routers links src \<and> v \<in> routers links src"
  by (auto simp: arcs_def routers_def)

lemma finite_routers: "finite (routers links src)"
  by (simp add: routers_def)

subsection \<open>The invariant of the search\<close>

text \<open>\<open>D\<close> and \<open>P\<close> are the maps of distances and predecessors, \<open>H\<close> the heap.  A distance is at most the number
  of smaller distances times the largest metric, which keeps the sums in range.  \<open>X\<close> holds the arcs of the node at
  hand that are still to be looked at.\<close>

definition dist_bounded :: "string set \<Rightarrow> nat \<Rightarrow> (string \<Rightarrow> u32 option) \<Rightarrow> bool" where
  "dist_bounded V B D \<longleftrightarrow> (\<forall>v d. D v = Some d \<longrightarrow> v \<in> V \<and> unat d \<le> card {x. \<exists>e. D x = Some e \<and> e < d} * B)"

definition heap_valid :: "(string \<Rightarrow> u32 option) \<Rightarrow> (u32 \<times> string) list \<Rightarrow> bool" where
  "heap_valid D H \<longleftrightarrow> sorted H \<and> (\<forall>c v. (c, v) \<in> set H \<longrightarrow> (\<exists>d. D v = Some d \<and> d \<le> c))"

definition arcs_relaxed :: "(string \<times> string \<times> nat) set \<Rightarrow> string \<Rightarrow> (string \<times> string \<times> nat) set
    \<Rightarrow> (string \<Rightarrow> u32 option) \<Rightarrow> (u32 \<times> string) set \<Rightarrow> bool" where
  "arcs_relaxed A dst X D H \<longleftrightarrow> (\<forall>v d. D v = Some d \<longrightarrow> (d, v) \<in> H \<or>
     v \<noteq> dst \<and> (\<forall>u w. (v, u, w) \<in> A \<longrightarrow> (v, u, w) \<notin> X \<longrightarrow> (\<exists>e. D u = Some e \<and> unat e \<le> unat d + w)))"

definition pred_rel :: "(string \<Rightarrow> string option) \<Rightarrow> (string \<times> string) set" where
  "pred_rel P = {(p, v). P v = Some p}"

definition preds_valid :: "(string \<times> string \<times> nat) set \<Rightarrow> string \<Rightarrow> (string \<Rightarrow> u32 option) \<Rightarrow> (string \<Rightarrow> string option) \<Rightarrow> bool" where
  "preds_valid A src D P \<longleftrightarrow> D src = Some 0
     \<and> (\<forall>v p. P v = Some p \<longrightarrow> v \<noteq> src \<and>
          (\<exists>dv dp w. D v = Some dv \<and> D p = Some dp \<and> (p, v, w) \<in> A \<and> unat dp + w \<le> unat dv))
     \<and> (\<forall>v d. D v = Some d \<longrightarrow> v \<noteq> src \<longrightarrow> P v \<noteq> None)
     \<and> acyclic (pred_rel P)"

lemma pred_rel_decreases:
  assumes "preds_valid A src D P" "(a, b) \<in> (pred_rel P)\<^sup>*" "D b = Some db"
  shows "\<exists>da. D a = Some da \<and> da \<le> db"
  using assms(2,3)
proof (induction arbitrary: db rule: rtrancl_induct)
  case (step y z)
  then have "P z = Some y" by (simp add: pred_rel_def)
  with assms(1) obtain dz dy w where "D z = Some dz" "D y = Some dy" "unat dy + w \<le> unat dz"
    unfolding preds_valid_def by blast
  with step.prems have "D y = Some dy" "dy \<le> db" by (simp_all add: word_le_nat_alt)
  with step.IH show ?case by force
qed auto

text \<open>One improvement: the neighbour \<open>v\<close> gets the cost \<open>n\<close> through \<open>u\<close>.\<close>

lemma dist_bounded_update:
  assumes inv: "dist_bounded V B D" and fin: "finite V" and v: "v \<in> V"
    and u: "D u = Some c" and n: "unat n = unat c + w" and w: "w \<le> B"
    and better: "\<And>e. D v = Some e \<Longrightarrow> n < e"
  shows "dist_bounded V B (D(v \<mapsto> n))"
proof -
  let ?less = "\<lambda>D d. {x. \<exists>e. D x = Some e \<and> e < (d :: u32)}"
  have fin_less: "finite (?less (D(v \<mapsto> n)) d)" for d
    by (rule finite_subset [OF _ fin]) (use inv v in \<open>auto simp: dist_bounded_def split: if_splits\<close>)
  have grows: "?less D d \<subseteq> ?less (D(v \<mapsto> n)) d" for d
    using better less_trans by fastforce
  have card: "card (?less D d) \<le> card (?less (D(v \<mapsto> n)) d)" for d
    by (rule card_mono [OF fin_less grows])
  have old: "unat d \<le> card (?less (D(v \<mapsto> n)) d) * B" if "D x = Some d" for x d
    using inv that card [of d] mult_le_mono1 [OF card [of d], of B] unfolding dist_bounded_def by (meson le_trans)
  have "c \<le> n" using n by (simp add: word_le_nat_alt)
  have new: "unat n \<le> card (?less (D(v \<mapsto> n)) n) * B"
  proof (cases "c = n")
    case True
    then show ?thesis using old [OF u] by simp
  next
    case False
    with \<open>c \<le> n\<close> have cn: "c < n" by simp
    have uv: "u \<noteq> v" using better u cn by (metis less_asym')
    have "?less D c \<subseteq> ?less D n" using cn by (auto intro: less_trans)
    moreover have "u \<in> ?less (D(v \<mapsto> n)) n" using u uv cn by simp
    ultimately have "insert u (?less D c) \<subseteq> ?less (D(v \<mapsto> n)) n" using grows [of n] by blast
    from card_mono [OF fin_less this] have "card (insert u (?less D c)) \<le> card (?less (D(v \<mapsto> n)) n)" .
    moreover have "card (insert u (?less D c)) = Suc (card (?less D c))"
      by (rule card_insert_disjoint) (use finite_subset [OF grows fin_less] u in auto)
    ultimately have "Suc (card (?less D c)) \<le> card (?less (D(v \<mapsto> n)) n)" by simp
    then have "Suc (card (?less D c)) * B \<le> card (?less (D(v \<mapsto> n)) n) * B" by (rule mult_le_mono1)
    moreover have "unat c \<le> card (?less D c) * B" using inv u by (simp add: dist_bounded_def)
    ultimately show ?thesis using n w by simp
  qed
  show ?thesis unfolding dist_bounded_def
  proof (intro allI impI)
    fix x d assume xd: "(D(v \<mapsto> n)) x = Some d"
    show "x \<in> V \<and> unat d \<le> card (?less (D(v \<mapsto> n)) d) * B"
    proof (cases "x = v")
      case False
      with xd have "D x = Some d" by simp
      then show ?thesis using old inv by (auto simp: dist_bounded_def)
    qed (use xd new v in auto)
  qed
qed

lemma heap_valid_update:
  assumes "heap_valid D H" "\<And>e. D v = Some e \<Longrightarrow> n < e"
  shows "heap_valid (D(v \<mapsto> n)) (insort (n, v) H)"
  unfolding heap_valid_def
proof (intro conjI allI impI)
  show "sorted (insort (n, v) H)" using assms(1) by (simp add: heap_valid_def sorted_insort)
  fix c x assume "(c, x) \<in> set (insort (n, v) H)"
  then have "c = n \<and> x = v \<or> (\<exists>d. D x = Some d \<and> d \<le> c)"
    using assms(1) by (auto simp: set_insort_key heap_valid_def)
  then show "\<exists>d. (D(v \<mapsto> n)) x = Some d \<and> d \<le> c"
    using assms(2) by (cases "x = v") (auto intro: less_imp_le less_le_trans)
qed

lemma arcs_relaxed_update:
  assumes inv: "arcs_relaxed A dst X D H" and n: "unat n = unat c + w"
    and u: "D u = Some c" "u \<noteq> v" and better: "\<And>e. D v = Some e \<Longrightarrow> n < e"
  shows "arcs_relaxed A dst (X - {(u, v, w)}) (D(v \<mapsto> n)) (insert (n, v) H)"
  unfolding arcs_relaxed_def
proof (intro allI impI)
  fix x d assume xd: "(D(v \<mapsto> n)) x = Some d"
  let ?R = "\<lambda>D X. \<forall>y k. (x, y, k) \<in> A \<longrightarrow> (x, y, k) \<notin> X \<longrightarrow> (\<exists>e. D y = Some e \<and> unat e \<le> unat d + k)"
  show "(d, x) \<in> insert (n, v) H \<or> x \<noteq> dst \<and> ?R (D(v \<mapsto> n)) (X - {(u, v, w)})"
  proof (cases "x = v \<or> (d, x) \<in> H")
    case True
    then show ?thesis using xd by auto
  next
    case False
    then have x: "D x = Some d" "x \<noteq> v" using xd by auto
    with inv False have "x \<noteq> dst" and R: "?R D X" unfolding arcs_relaxed_def by blast+
    have "?R (D(v \<mapsto> n)) (X - {(u, v, w)})"
    proof (intro allI impI)
      fix y k assume yk: "(x, y, k) \<in> A" "(x, y, k) \<notin> X - {(u, v, w)}"
      show "\<exists>e. (D(v \<mapsto> n)) y = Some e \<and> unat e \<le> unat d + k"
      proof (cases "(x, y, k) \<in> X")
        case True
        with yk have "x = u" "y = v" "k = w" by auto
        with x u n show ?thesis by auto
      next
        case False
        with R yk obtain e where "D y = Some e" "unat e \<le> unat d + k" by blast
        with better show ?thesis by (cases "y = v") (auto simp: word_less_nat_alt intro: less_imp_le order_trans)
      qed
    qed
    with \<open>x \<noteq> dst\<close> show ?thesis by blast
  qed
qed

lemma preds_valid_update:
  assumes inv: "preds_valid A src D P" and a: "(u, v, w) \<in> A" and n: "unat n = unat c + w"
    and u: "D u = Some c" and better: "\<And>e. D v = Some e \<Longrightarrow> n < e"
  shows "preds_valid A src (D(v \<mapsto> n)) (P(v \<mapsto> u))"
proof -
  have src: "D src = Some 0" using inv by (simp add: preds_valid_def)
  then have v: "v \<noteq> src" using better [of 0] by auto
  have cn: "c \<le> n" using n by (simp add: word_le_nat_alt)
  have uv: "u \<noteq> v" using better u cn by (meson leD)
  have "(v, u) \<notin> (pred_rel P)\<^sup>*"
    using pred_rel_decreases [OF inv _ u, of v] better cn by fastforce
  moreover have "pred_rel (P(v \<mapsto> u)) \<subseteq> insert (u, v) (pred_rel P)"
    by (auto simp: pred_rel_def split: if_splits)
  ultimately have "acyclic (pred_rel (P(v \<mapsto> u)))"
    using inv acyclic_subset acyclic_insert unfolding preds_valid_def by metis
  moreover have "\<exists>dv dp k. (D(v \<mapsto> n)) x = Some dv \<and> (D(v \<mapsto> n)) p = Some dp \<and> (p, x, k) \<in> A \<and> unat dp + k \<le> unat dv"
    if "(P(v \<mapsto> u)) x = Some p" "x \<noteq> v" for x p
  proof -
    from that have "P x = Some p" by simp
    with inv obtain dv dp k where k: "D x = Some dv" "D p = Some dp" "(p, x, k) \<in> A" "unat dp + k \<le> unat dv"
      unfolding preds_valid_def by blast
    have "p = v \<Longrightarrow> unat n \<le> unat dp" using better k(2) by (simp add: word_less_nat_alt less_imp_le)
    with k that show ?thesis by (cases "p = v") auto
  qed
  ultimately show ?thesis
    using inv src v a n u uv unfolding preds_valid_def by (auto split: if_splits)
qed

text \<open>The state of the search with the arcs in \<open>X\<close> still to do.\<close>

definition search_inv :: "(string \<times> string \<times> nat) set \<Rightarrow> string set \<Rightarrow> nat \<Rightarrow> string \<Rightarrow> string
    \<Rightarrow> (string \<times> string \<times> nat) set \<Rightarrow> dijkstra_state \<Rightarrow> bool" where
  "search_inv A V B src dst X st \<longleftrightarrow> dist_bounded V B (hm_get (dj_dist st))
     \<and> heap_valid (hm_get (dj_dist st)) (dj_heap st)
     \<and> arcs_relaxed A dst X (hm_get (dj_dist st)) (set (dj_heap st))
     \<and> preds_valid A src (hm_get (dj_dist st)) (hm_get (dj_prev st))"

definition search_size :: "string set \<Rightarrow> dijkstra_state \<Rightarrow> nat" where
  "search_size V st = 2 * (\<Sum>v \<in> V. unat (hm_get_or (dj_dist st) v u32_max)) + length (dj_heap st)"

definition graph_fits :: "(string \<times> string \<times> nat) set \<Rightarrow> string set \<Rightarrow> nat \<Rightarrow> bool" where
  "graph_fits A V B \<longleftrightarrow> finite V \<and> (\<forall>u v w. (u, v, w) \<in> A \<longrightarrow> u \<in> V \<and> v \<in> V \<and> w \<le> B) \<and> card V * B < 2 ^ 32 - 1"

lemma next_cost_fits:
  assumes "dist_bounded V B D" "finite V" "D u = Some c" "w \<le> B"
  shows "unat c + w \<le> card V * B"
proof -
  let ?less = "{x. \<exists>e. D x = Some e \<and> e < c}"
  have "?less \<subseteq> V" "u \<in> V" "u \<notin> ?less" using assms(1,3) by (auto simp: dist_bounded_def)
  then have "?less \<subset> V" by blast
  from psubset_card_mono [OF assms(2) this] have "Suc (card ?less) \<le> card V" by simp
  then have "Suc (card ?less) * B \<le> card V * B" by (rule mult_le_mono1)
  moreover have "unat c \<le> card ?less * B" using assms(1,3) by (simp add: dist_bounded_def)
  ultimately show ?thesis using assms(4) by simp
qed

lemma unat_next_cost: "unat c + unat w < 2 ^ 32 - 1 \<Longrightarrow> unat (c + w :: u32) = unat c + unat w"
  by (simp add: unat_word_ariths)

lemma search_size_update:
  assumes fin: "finite V" and v: "v \<in> V" and n: "n < hm_get_or (dj_dist st) v u32_max"
    and st': "hm_get (dj_dist st') = (hm_get (dj_dist st))(v \<mapsto> n)" "length (dj_heap st') = Suc (length (dj_heap st))"
  shows "search_size V st' < search_size V st"
proof -
  have get: "hm_get_or (dj_dist st') x u32_max = (if x = v then n else hm_get_or (dj_dist st) x u32_max)" for x
    by (simp add: hm_get_or_def st'(1))
  have "(\<Sum>x \<in> V. unat (hm_get_or (dj_dist st') x u32_max)) < (\<Sum>x \<in> V. unat (hm_get_or (dj_dist st) x u32_max))"
    by (rule sum_strict_mono_ex1 [OF fin]) (use n v in \<open>auto simp: get word_less_nat_alt\<close>)
  then show ?thesis by (simp add: search_size_def st'(2))
qed

lemma relax_inv:
  assumes fits: "graph_fits A V B" and inv: "search_inv A V B src dst X st"
    and u: "hm_get (dj_dist st) u = Some c" and a: "(u, v, unat w) \<in> A"
  shows "search_inv A V B src dst (X - {(u, v, unat w)}) (relax c u (v, w) st)
    \<and> hm_get (dj_dist (relax c u (v, w) st)) u = Some c
    \<and> search_size V (relax c u (v, w) st) \<le> search_size V st"
proof -
  let ?D = "hm_get (dj_dist st)" and ?n = "c + w" and ?st = "relax c u (v, w) st"
  from fits a have fin: "finite V" and v: "v \<in> V" and w: "unat w \<le> B" by (auto simp: graph_fits_def)
  have "unat c + unat w < 2 ^ 32 - 1"
    using next_cost_fits [where D = ?D, OF _ fin u w] inv fits by (simp add: search_inv_def graph_fits_def)
  then have n: "unat ?n = unat c + unat w" and lt: "?n < u32_max"
    by (auto simp: unat_next_cost word_less_nat_alt u32_max_def)
  have cn: "c \<le> ?n" using n by (simp add: word_le_nat_alt)
  show ?thesis
  proof (cases "\<forall>e. ?D v = Some e \<longrightarrow> ?n < e")
    case True
    then have less: "?n < hm_get_or (dj_dist st) v u32_max" using lt by (simp add: hm_get_or_def split: option.splits)
    have uv: "u \<noteq> v" using True u cn by (meson leD)
    have D: "hm_get (dj_dist ?st) = ?D(v \<mapsto> ?n)" and P: "hm_get (dj_prev ?st) = (hm_get (dj_prev st))(v \<mapsto> u)"
      and H: "dj_heap ?st = insort (?n, v) (dj_heap st)"
      using less by (auto simp: relax_def Let_def hm_get_or_def fun_eq_iff)
    have "search_inv A V B src dst (X - {(u, v, unat w)}) ?st"
      unfolding search_inv_def D P H set_insort_key
      using inv True unfolding search_inv_def
      by (intro conjI dist_bounded_update [where D = ?D, OF _ fin v u n w] heap_valid_update
          arcs_relaxed_update [where D = ?D, OF _ n u uv] preds_valid_update [where D = ?D, OF _ a n u]) blast+
    moreover have "search_size V ?st < search_size V st"
      by (rule search_size_update [OF fin v less D]) (simp add: H)
    ultimately show ?thesis using u uv by (simp add: D)
  next
    case False
    then obtain e where e: "?D v = Some e" "e \<le> ?n" by auto
    then have "?st = st"
      by (simp add: relax_def Let_def hm_or_insert_def hm_contains_iff hm_get_or_def leD)
    moreover have "arcs_relaxed A dst (X - {(u, v, unat w)}) ?D (set (dj_heap st))"
      using inv e n u unfolding search_inv_def arcs_relaxed_def
      by (metis (no_types, lifting) Diff_iff fst_conv option.inject singletonD snd_conv word_le_nat_alt)
    ultimately show ?thesis using inv u by (simp add: search_inv_def)
  qed
qed

lemma fold_relax_inv:
  assumes fits: "graph_fits A V B"
  shows "search_inv A V B src dst {(u, v, unat w) | v w. (v, w) \<in> set ns} st \<Longrightarrow> hm_get (dj_dist st) u = Some c
    \<Longrightarrow> (\<And>v w. (v, w) \<in> set ns \<Longrightarrow> (u, v, unat w) \<in> A)
    \<Longrightarrow> search_inv A V B src dst {} (fold (relax c u) ns st) \<and> search_size V (fold (relax c u) ns st) \<le> search_size V st"
proof (induction ns arbitrary: st)
  case (Cons nw ns)
  obtain v w where [simp]: "nw = (v, w)" by force
  let ?X = "\<lambda>ns. {(u, v, unat w) | v w. (v, w) \<in> set ns}"
  have step: "search_inv A V B src dst (?X (nw # ns) - {(u, v, unat w)}) (relax c u nw st)"
      "hm_get (dj_dist (relax c u nw st)) u = Some c" "search_size V (relax c u nw st) \<le> search_size V st"
    using relax_inv [OF fits Cons.prems(1,2), of v w] Cons.prems(3) by auto
  have "?X (nw # ns) - {(u, v, unat w)} \<subseteq> ?X ns" by auto
  with step(1) have "search_inv A V B src dst (?X ns) (relax c u nw st)"
    unfolding search_inv_def arcs_relaxed_def by blast
  from Cons.IH [OF this step(2)] step(3) Cons.prems(3) show ?case by fastforce
qed simp

subsection \<open>What the search finds\<close>

lemma heap_validD: "heap_valid D H \<Longrightarrow> (c, v) \<in> set H \<Longrightarrow> \<exists>d. D v = Some d \<and> d \<le> c"
  by (simp add: heap_valid_def)

definition shortest :: "(string \<times> string \<times> nat) set \<Rightarrow> string \<Rightarrow> string \<Rightarrow> nat \<Rightarrow> bool" where
  "shortest A src dst d \<longleftrightarrow> (\<forall>Q W. walk A Q W \<longrightarrow> hd Q = src \<longrightarrow> last Q = dst \<longrightarrow> d \<le> W)"

lemma walk_reached:
  assumes "walk A Q W" "arcs_relaxed A dst {} D H" "\<And>k x. (k, x) \<in> H \<Longrightarrow> c \<le> unat k"
    and "D (hd Q) = Some d" "unat d + W < c"
  shows "\<exists>e. D (last Q) = Some e \<and> unat e \<le> unat d + W"
  using assms(1,4,5)
proof (induction arbitrary: d)
  case (walk_step u v w vs W)
  then have "(d, u) \<notin> H" using assms(3) by fastforce
  with walk_step.prems walk_step.hyps(1) assms(2) obtain e where e: "D v = Some e" "unat e \<le> unat d + w"
    unfolding arcs_relaxed_def by fastforce
  with walk_step.IH [of e] walk_step.prems show ?case by (auto intro: order_trans)
qed auto

text \<open>When the destination is taken from the heap, its distance is final.\<close>

lemma popped_shortest:
  assumes inv: "search_inv A V B src dst {} st" and heap: "dj_heap st = (c, dst) # h"
  shows "hm_get (dj_dist st) dst = Some c \<and> shortest A src dst (unat c)"
proof -
  let ?D = "hm_get (dj_dist st)"
  have least: "c \<le> k" if "(k, x) \<in> set (dj_heap st)" for k x
    using inv that heap by (auto simp: search_inv_def heap_valid_def less_eq_prod_def)
  obtain d where d: "?D dst = Some d" "d \<le> c"
    using heap_validD [of ?D "dj_heap st" c dst] inv heap by (auto simp: search_inv_def)
  with inv have "(d, dst) \<in> set (dj_heap st)" unfolding search_inv_def arcs_relaxed_def by blast
  with least d have D: "?D dst = Some c" by (metis antisym)
  have relaxed: "arcs_relaxed A dst {} ?D (set (dj_heap st))" and src: "?D src = Some 0"
    using inv by (auto simp: search_inv_def preds_valid_def)
  have "unat c \<le> W" if Q: "walk A Q W" "hd Q = src" "last Q = dst" for Q W
  proof (rule ccontr)
    assume "\<not> unat c \<le> W"
    with walk_reached [OF Q(1) relaxed, of "unat c" 0] least src Q D show False
      by (auto simp: word_le_nat_alt)
  qed
  with D show ?thesis by (auto simp: shortest_def)
qed

lemma exhausted_unreachable:
  assumes inv: "search_inv A V B src dst {} st" and heap: "dj_heap st = []"
  shows "hm_get (dj_dist st) dst = None \<and> \<not> (\<exists>Q W. walk A Q W \<and> hd Q = src \<and> last Q = dst)"
proof -
  have relaxed: "arcs_relaxed A dst {} (hm_get (dj_dist st)) {}" and src: "hm_get (dj_dist st) src = Some 0"
    using inv heap by (auto simp: search_inv_def preds_valid_def)
  have none: "hm_get (dj_dist st) dst = None"
    using relaxed by (cases "hm_get (dj_dist st) dst") (auto simp: arcs_relaxed_def)
  have "False" if "walk A Q W" "hd Q = src" "last Q = dst" for Q W
    using walk_reached [OF that(1) relaxed, of "Suc W" 0] src that none by auto
  with none show ?thesis by blast
qed

lemma dijkstra_loop:
  assumes fits: "graph_fits (arcs links) V B" and src: "src \<in> V"
  defines "A \<equiv> arcs links"
  shows "sat (rwhile (\<lambda>_. True) (dijkstra_step (adjacency links) dst) (dijkstra_init src)) (\<lambda>st.
    preds_valid A src (hm_get (dj_dist st)) (hm_get (dj_prev st)) \<and>
    (case hm_get (dj_dist st) dst of
       None \<Rightarrow> \<not> (\<exists>Q W. walk A Q W \<and> hd Q = src \<and> last Q = dst)
     | Some d \<Rightarrow> shortest A src dst (unat d)))"
proof (rule rwhile_sat [where I = "search_inv A V B src dst {}" and \<mu> = "search_size V"])
  have "dist_bounded V B (hm_get (dj_dist (dijkstra_init src)))"
    using src by (auto simp: dijkstra_init_def dist_bounded_def split: if_splits)
  then show "search_inv A V B src dst {} (dijkstra_init src)"
    by (auto simp: search_inv_def dijkstra_init_def heap_valid_def arcs_relaxed_def preds_valid_def pred_rel_def
        acyclic_def split: if_splits)
next
  fix st assume inv: "search_inv A V B src dst {} st"
  show "sat (dijkstra_step (adjacency links) dst st) (\<lambda>r. case r of
      Cont st' \<Rightarrow> search_inv A V B src dst {} st' \<and> search_size V st' < search_size V st
    | Brk st' \<Rightarrow> preds_valid A src (hm_get (dj_dist st')) (hm_get (dj_prev st')) \<and>
        (case hm_get (dj_dist st') dst of None \<Rightarrow> \<not> (\<exists>Q W. walk A Q W \<and> hd Q = src \<and> last Q = dst)
         | Some d \<Rightarrow> shortest A src dst (unat d)))"
  proof (cases "dj_heap st")
    case Nil
    then show ?thesis using exhausted_unreachable [OF inv Nil] inv
      by (simp add: dijkstra_step_def search_inv_def)
  next
    case (Cons cn h)
    obtain c u where [simp]: "cn = (c, u)" by force
    let ?st = "st\<lparr>dj_heap := h\<rparr>"
    obtain d where d: "hm_get (dj_dist st) u = Some d" "d \<le> c"
      using heap_validD [of "hm_get (dj_dist st)" "dj_heap st" c u] inv Cons by (auto simp: search_inv_def)
    have size: "search_size V ?st < search_size V st" by (simp add: search_size_def Cons)
    have rest: "dist_bounded V B (hm_get (dj_dist st))" "heap_valid (hm_get (dj_dist st)) h"
        "preds_valid A src (hm_get (dj_dist st)) (hm_get (dj_prev st))"
      using inv Cons by (auto simp: search_inv_def heap_valid_def)
    consider "u = dst" | "u \<noteq> dst" "d < c" | "u \<noteq> dst" "d = c" using d(2) by fastforce
    then show ?thesis
    proof cases
      case 1
      then show ?thesis using popped_shortest [OF inv, of c h] Cons rest by (simp add: dijkstra_step_def Let_def)
    next
      case 2
      then have "search_inv A V B src dst {} ?st"
        using inv rest d Cons by (fastforce simp: search_inv_def arcs_relaxed_def)
      with 2 d size Cons show ?thesis by (simp add: dijkstra_step_def Let_def hm_get_or_def)
    next
      case 3
      let ?ns = "hm_get_or (adjacency links) u []"
      have "arcs_relaxed A dst {(u, v, unat w) | v w. (v, w) \<in> set ?ns} (hm_get (dj_dist st)) (set h)"
        unfolding arcs_relaxed_def
      proof (intro allI impI)
        fix x e assume x: "hm_get (dj_dist st) x = Some e"
        show "(e, x) \<in> set h \<or> x \<noteq> dst \<and> (\<forall>y k. (x, y, k) \<in> A \<longrightarrow> (x, y, k) \<notin> {(u, v, unat w) | v w. (v, w) \<in> set ?ns}
            \<longrightarrow> (\<exists>f. hm_get (dj_dist st) y = Some f \<and> unat f \<le> unat e + k))"
        proof (cases "x = u")
          case True
          with 3 show ?thesis using arcs_adjacency [of u _ _ links] unfolding A_def by blast
        next
          case False
          moreover from inv have "arcs_relaxed A dst {} (hm_get (dj_dist st)) (set (dj_heap st))" by (simp add: search_inv_def)
          ultimately show ?thesis using x Cons unfolding arcs_relaxed_def by fastforce
        qed
      qed
      then have "search_inv A V B src dst {(u, v, unat w) | v w. (v, w) \<in> set ?ns} ?st"
        using rest by (simp add: search_inv_def)
      from fold_relax_inv [OF fits [folded A_def] this] d 3
      have "search_inv A V B src dst {} (fold (relax c u) ?ns ?st)"
        "search_size V (fold (relax c u) ?ns ?st) \<le> search_size V ?st"
        by (simp_all add: adjacency_arcs A_def)
      with 3 d size Cons show ?thesis by (simp add: dijkstra_step_def Let_def hm_get_or_def)
    qed
  qed
qed simp

subsection \<open>Reading the path back\<close>

definition ancestors :: "(string \<Rightarrow> string option) \<Rightarrow> string \<Rightarrow> string set" where
  "ancestors P v = {x. (x, v) \<in> (pred_rel P)\<^sup>+}"

lemma finite_ancestors: "finite (ancestors (hm_get m) v)"
proof -
  have "pred_rel (hm_get m) \<subseteq> (\<lambda>(k, v). (v, k)) ` set m"
    by (auto simp: pred_rel_def dest: hm_get_SomeD)
  then have "finite (pred_rel (hm_get m))" by (rule finite_subset) simp
  then have "finite ((pred_rel (hm_get m))\<^sup>+)" by simp
  then have "finite (fst ` (pred_rel (hm_get m))\<^sup>+)" by simp
  then show ?thesis by (rule rev_finite_subset) (force simp: ancestors_def)
qed

lemma ancestors_decrease:
  assumes "acyclic (pred_rel P)" "P v = Some p"
  shows "ancestors P p \<subset> ancestors P v"
proof -
  have "(p, v) \<in> pred_rel P" using assms(2) by (simp add: pred_rel_def)
  then have "p \<in> ancestors P v" "ancestors P p \<subseteq> ancestors P v"
    by (auto simp: ancestors_def intro: trancl_into_trancl)
  moreover have "p \<notin> ancestors P p" using assms(1) by (simp add: ancestors_def acyclic_def)
  ultimately show ?thesis by blast
qed

lemma path_loop:
  assumes valid: "preds_valid A src D (hm_get prev)" and d: "D dst = Some d"
  shows "sat (rwhile (\<lambda>_. True) (path_step prev src) ([dst], dst)) (\<lambda>(path, cur).
    path \<noteq> [] \<and> hd (rev path) = src \<and> last (rev path) = dst \<and> (\<exists>W. walk A (rev path) W \<and> W \<le> unat d))"
proof (rule rwhile_sat [where \<mu> = "\<lambda>(path, cur). card (ancestors (hm_get prev) cur)"
    and I = "\<lambda>(path, cur). path \<noteq> [] \<and> hd (rev path) = cur \<and> last (rev path) = dst
      \<and> (\<exists>W c. walk A (rev path) W \<and> D cur = Some c \<and> unat c + W \<le> unat d)"])
  fix s :: "string list \<times> string"
  assume I: "case s of (path, cur) \<Rightarrow> path \<noteq> [] \<and> hd (rev path) = cur \<and> last (rev path) = dst
      \<and> (\<exists>W c. walk A (rev path) W \<and> D cur = Some c \<and> unat c + W \<le> unat d)"
  obtain path cur where s: "s = (path, cur)" by force
  with I obtain W c where path: "path \<noteq> []" "hd (rev path) = cur" "last (rev path) = dst"
    and W: "walk A (rev path) W" "D cur = Some c" "unat c + W \<le> unat d" by auto
  show "sat (path_step prev src s) (\<lambda>r. case r of
      Cont s' \<Rightarrow> (case s' of (path, cur) \<Rightarrow> path \<noteq> [] \<and> hd (rev path) = cur \<and> last (rev path) = dst
          \<and> (\<exists>W c. walk A (rev path) W \<and> D cur = Some c \<and> unat c + W \<le> unat d))
        \<and> (case s' of (path, cur) \<Rightarrow> card (ancestors (hm_get prev) cur)) < (case s of (path, cur) \<Rightarrow> card (ancestors (hm_get prev) cur))
    | Brk s' \<Rightarrow> (case s' of (path, cur) \<Rightarrow> path \<noteq> [] \<and> hd (rev path) = src \<and> last (rev path) = dst
        \<and> (\<exists>W. walk A (rev path) W \<and> W \<le> unat d)))"
  proof (cases "hm_get prev cur")
    case None
    then have "cur = src" using valid W(2) by (auto simp: preds_valid_def)
    with None path W s show ?thesis by (auto simp: path_step_def)
  next
    case (Some p)
    with valid obtain dv dp w where w: "D cur = Some dv" "D p = Some dp" "(p, cur, w) \<in> A" "unat dp + w \<le> unat dv"
      unfolding preds_valid_def by blast
    from path obtain vs where vs: "rev path = cur # vs" by (cases "rev path") auto
    have walk: "walk A (p # rev path) (w + W)" using walk_step [OF w(3)] W(1) by (simp add: vs)
    have le: "unat dp + (w + W) \<le> unat d" using W w by simp
    have "card (ancestors (hm_get prev) p) < card (ancestors (hm_get prev) cur)"
      by (rule psubset_card_mono [OF finite_ancestors ancestors_decrease [where P = "hm_get prev", OF _ Some]])
        (use valid in \<open>simp add: preds_valid_def\<close>)
    moreover have "\<exists>W. walk A (p # rev path) W \<and> W \<le> unat d" using walk le by fastforce
    ultimately show ?thesis using Some path walk le w(2) s by (auto simp: path_step_def)
  qed
qed (use d in \<open>auto intro: walk_single\<close>)

lemma dijkstra_path_sat:
  assumes fits: "graph_fits (arcs (tg_links g)) V B" and src: "src \<in> V"
  shows "sat (dijkstra_path g src dst) (\<lambda>r. case r of
      Some path \<Rightarrow> hd path = src \<and> last path = dst \<and> (\<exists>W. walk (arcs (tg_links g)) path W \<and> shortest (arcs (tg_links g)) src dst W)
    | None \<Rightarrow> \<not> (\<exists>Q W. walk (arcs (tg_links g)) Q W \<and> hd Q = src \<and> last Q = dst))"
  unfolding dijkstra_path_def
proof (rule sat_bindI [OF dijkstra_loop [OF fits src]], elim conjE)
  fix st
  let ?A = "arcs (tg_links g)"
  assume valid: "preds_valid ?A src (hm_get (dj_dist st)) (hm_get (dj_prev st))"
    and found: "case hm_get (dj_dist st) dst of None \<Rightarrow> \<not> (\<exists>Q W. walk ?A Q W \<and> hd Q = src \<and> last Q = dst)
      | Some d \<Rightarrow> shortest ?A src dst (unat d)"
  show "sat (if \<not> hm_contains (dj_dist st) dst then Ok None
      else rbind (rwhile (\<lambda>_. True) (path_step (dj_prev st) src) ([dst], dst)) (\<lambda>(path, cur).
        let path = rev path in Ok (if path \<noteq> [] \<and> hd path = src then Some path else None)))
    (\<lambda>r. case r of
      Some path \<Rightarrow> hd path = src \<and> last path = dst \<and> (\<exists>W. walk ?A path W \<and> shortest ?A src dst W)
    | None \<Rightarrow> \<not> (\<exists>Q W. walk ?A Q W \<and> hd Q = src \<and> last Q = dst))"
  proof (cases "hm_get (dj_dist st) dst")
    case None
    with found show ?thesis by (simp add: hm_contains_iff)
  next
    case (Some d)
    with found have "shortest ?A src dst (unat d)" by simp
    then have "shortest ?A src dst W" if "W \<le> unat d" for W
      using that unfolding shortest_def by (fastforce intro: order_trans)
    with Some show ?thesis
      by (auto simp: hm_contains_iff intro!: sat_weaken [OF path_loop [OF valid Some]]) blast
  qed
qed

lemma dijkstra_path_not_Err: "dijkstra_path g src dst \<noteq> Err e"
proof -
  have "rwhile (\<lambda>_. True) (dijkstra_step adj dst) st \<noteq> Err e" for adj st
    by (rule rwhile_not_Err) (auto simp: dijkstra_step_def Let_def split: list.splits)
  moreover have "rwhile (\<lambda>_. True) (path_step prev src) st \<noteq> Err e" for prev st
    by (rule rwhile_not_Err) (auto simp: path_step_def split: option.splits if_splits)
  ultimately show ?thesis by (auto simp: dijkstra_path_def Let_def split: if_splits)
qed

lemma dijkstra_path_total:
  assumes "\<And>l. l \<in> set (tg_links g) \<Longrightarrow> unat (link_weight l) \<le> B"
    and "card (routers (tg_links g) src) * B < 2 ^ 32 - 1"
  shows "\<exists>r. dijkstra_path g src dst = Ok r \<and> (case r of
      Some path \<Rightarrow> hd path = src \<and> last path = dst \<and> (\<exists>W. walk (arcs (tg_links g)) path W \<and> shortest (arcs (tg_links g)) src dst W)
    | None \<Rightarrow> \<not> (\<exists>Q W. walk (arcs (tg_links g)) Q W \<and> hd Q = src \<and> last Q = dst))"
proof -
  have "graph_fits (arcs (tg_links g)) (routers (tg_links g) src) B"
    using assms unfolding graph_fits_def by (auto simp: finite_routers arcs_routers arcs_def routers_def)
  from dijkstra_path_sat [OF this, of src dst] show ?thesis
    using dijkstra_path_not_Err [of g src dst]
    by (cases "dijkstra_path g src dst") (auto simp: routers_def)
qed

text \<open>C13: metrics up to \<open>B\<close>, and \<open>B\<close> times the number of routers below \<open>2^32 - 1\<close>: the path query always returns,
  with a walk from source to destination over the links that no other walk beats, or with nothing when there
  is no walk.\<close>

theorem dijkstra_path_shortest:
  assumes "\<And>l. l \<in> set (tg_links g) \<Longrightarrow> unat (link_weight l) \<le> B"
    and "card (routers (tg_links g) src) * B < 2 ^ 32 - 1"
  shows "\<exists>r. dijkstra_path g src dst = Ok r \<and> (case r of
      Some path \<Rightarrow> hd path = src \<and> last path = dst \<and> (\<exists>W. walk (arcs (tg_links g)) path W \<and>
        (\<forall>Q W'. walk (arcs (tg_links g)) Q W' \<longrightarrow> hd Q = src \<longrightarrow> last Q = dst \<longrightarrow> W \<le> W'))
    | None \<Rightarrow> \<not> (\<exists>Q W. walk (arcs (tg_links g)) Q W \<and> hd Q = src \<and> last Q = dst))"
  using dijkstra_path_total [OF assms, of dst] unfolding shortest_def .

definition example_link :: "string \<Rightarrow> string \<Rightarrow> u32 option \<Rightarrow> topology_link" where
  "example_link a b w = \<lparr>tl_source = a, tl_target = b, tl_local_ip = None, tl_remote_ip = None,
     tl_igp_metric = w, tl_adj_sid = None\<rparr>"

definition example_graph :: topology_graph where
  "example_graph = \<lparr>tg_nodes = [], tg_links = [example_link ''a'' ''b'' (Some 10), example_link ''a'' ''c'' (Some 2),
     example_link ''c'' ''b'' None]\<rparr>"

theorem dijkstra_path_shortest_witness:
  "dijkstra_path example_graph ''a'' ''b'' = Ok (Some [''a'', ''c'', ''b''])
   \<and> \<not> (\<exists>Q W'. walk (arcs (tg_links example_graph)) Q W' \<and> hd Q = ''a'' \<and> last Q = ''b'' \<and> W' < 3)"
proof -
  have result: "dijkstra_path example_graph ''a'' ''b'' = Ok (Some [''a'', ''c'', ''b''])" by code_simp
  have "unat (link_weight l) \<le> 10" if "l \<in> set (tg_links example_graph)" for l
    using that by (auto simp: example_graph_def example_link_def link_weight_def)
  moreover have "card (routers (tg_links example_graph) ''a'') * 10 < 2 ^ 32 - 1"
    by (simp add: routers_def example_graph_def example_link_def card_insert_if)
  ultimately obtain W where W: "walk (arcs (tg_links example_graph)) [''a'', ''c'', ''b''] W"
    "\<forall>Q W'. walk (arcs (tg_links example_graph)) Q W' \<longrightarrow> hd Q = ''a'' \<longrightarrow> last Q = ''b'' \<longrightarrow> W \<le> W'"
    using dijkstra_path_shortest [of example_graph 10 "''a''" "''b''"] result by auto
  from W(1) have "W = 3"
    by (auto elim!: walk.cases simp: arcs_def example_graph_def example_link_def link_weight_def)
  with W(2) result show ?thesis by (auto simp: not_less)
qed

text \<open>C101: when the sums wrap around, two routers can become each other's predecessor, and the path query never
  returns: here over three links, one of them with metric \<open>2^32 - 2\<close>.\<close>

definition wrap_graph :: topology_graph where
  "wrap_graph = \<lparr>tg_nodes = [], tg_links = [example_link ''s'' ''a'' (Some 5), example_link ''a'' ''b'' (Some 0xFFFFFFFE),
     example_link ''b'' ''d'' (Some 100)]\<rparr>"

theorem dijkstra_path_diverges: "dijkstra_path wrap_graph ''s'' ''d'' = Diverge"
proof -
  let ?prev = "[(''a'', ''b''), (''b'', ''a''), (''d'', ''b'')]"
  have search: "rwhile (\<lambda>_. True) (dijkstra_step (adjacency (tg_links wrap_graph)) ''d'') (dijkstra_init ''s'') =
      Ok \<lparr>dj_dist = [(''s'', 0), (''a'', 1), (''b'', 3), (''d'', 103)], dj_prev = ?prev, dj_heap = []\<rparr>"
    by code_simp
  have "rwhile (\<lambda>_. True) (path_step ?prev ''s'') ([''d''], ''d'') = Diverge"
    by (rule rwhile_Diverge [where I = "\<lambda>(path, cur). cur \<in> {''d'', ''a'', ''b''}"])
      (auto simp: path_step_def hm_get_def)
  then show ?thesis by (simp add: dijkstra_path_def search hm_contains_def)
qed

text \<open>The handler reports a path exactly when there is a walk.\<close>

lemma bgpls_path_found:
  assumes "from \<noteq> []" "to \<noteq> []"
    and "\<And>l. l \<in> set (tg_links (build_graph db None)) \<Longrightarrow> unat (link_weight l) \<le> B"
    and "card (routers (tg_links (build_graph db None)) from) * B < 2 ^ 32 - 1"
  shows "\<exists>p found. bgpls_path db (Some from) (Some to) = Ok (Path_Found from to p found)
    \<and> (found \<longleftrightarrow> (\<exists>Q W. walk (arcs (tg_links (build_graph db None))) Q W \<and> hd Q = from \<and> last Q = to))"
  using dijkstra_path_total [OF assms(3,4), of to] assms(1,2)
  by (fastforce simp: bgpls_path_def split: option.splits)
end
