(* ===== verification/Event_Sinks.thy ===== *)
theory Event_Sinks
  imports Rib_Manager
begin

text \<open>
  The message-queue sinks of the event stream: \<^verbatim>\<open>rbmp-kafka\<close> (\<^verbatim>\<open>topics.rs\<close>, \<^verbatim>\<open>producer.rs\<close>,
  \<^verbatim>\<open>sink.rs\<close>) and \<^verbatim>\<open>rbmp-nats\<close> (\<^verbatim>\<open>publisher.rs\<close>, \<^verbatim>\<open>sink.rs\<close>).  A client is the list of
  what was handed to it; whether it delivers only feeds the log.  \<^verbatim>\<open>serde_json::to_vec\<close> is a parameter.

  What \<^verbatim>\<open>select!\<close> yields is a list of inputs: cancellation, an event, a report of dropped events, the end of the
  channel.

  Result: both sinks publish the same events in the same order under the same names, one message for every event
  that can be serialised, until they are cancelled or the channel closes.
\<close>

subsection \<open>Kafka\<close>

definition TOPIC_ROUTER :: string where "TOPIC_ROUTER = ''router''"
definition TOPIC_PEER :: string where "TOPIC_PEER = ''peer''"
definition TOPIC_UNICAST :: string where "TOPIC_UNICAST = ''unicast_prefix''"
definition TOPIC_EVPN :: string where "TOPIC_EVPN = ''evpn''"
definition TOPIC_BGPLS :: string where "TOPIC_BGPLS = ''ls_node''"
definition TOPIC_STATS :: string where "TOPIC_STATS = ''bmp_stat''"
definition TOPIC_RAW :: string where "TOPIC_RAW = ''bmp_raw''"

definition topic :: "string \<Rightarrow> string \<Rightarrow> string" where
  "topic pre suffix = (if pre = [] then suffix else pre @ ''.'' @ suffix)"

record kafka_record =
  kr_topic :: string
  kr_key :: string
  kr_payload :: bytes

type_synonym to_json = "rib_event \<Rightarrow> string + bytes"

definition kafka_publish :: "to_json \<Rightarrow> string \<Rightarrow> string \<Rightarrow> string \<Rightarrow> rib_event \<Rightarrow> kafka_record list \<Rightarrow> kafka_record list" where
  "kafka_publish ser pre suffix key ev out =
     (case ser ev of
        Inl e \<Rightarrow> out
      | Inr payload \<Rightarrow> out @ [\<lparr>kr_topic = topic pre suffix, kr_key = key, kr_payload = payload\<rparr>])"

definition kafka_publish_raw :: "string \<Rightarrow> string \<Rightarrow> string \<Rightarrow> bytes \<Rightarrow> kafka_record list \<Rightarrow> kafka_record list" where
  "kafka_publish_raw pre suffix key payload out =
     out @ [\<lparr>kr_topic = topic pre suffix, kr_key = key, kr_payload = payload\<rparr>]"

definition has_evpn :: "route_change \<Rightarrow> bool" where
  "has_evpn rc = (case rc_attributes rc of None \<Rightarrow> False | Some a \<Rightarrow> evpn_reach a \<noteq> None \<or> evpn_unreach a \<noteq> None)"

definition has_bgpls :: "route_change \<Rightarrow> bool" where
  "has_bgpls rc = (case rc_attributes rc of None \<Rightarrow> False | Some a \<Rightarrow> bgpls_reach a \<noteq> None \<or> bgpls_attr a \<noteq> None)"

definition kafka_dispatch :: "crates \<Rightarrow> to_json \<Rightarrow> string \<Rightarrow> rib_event \<Rightarrow> kafka_record list \<Rightarrow> kafka_record list result" where
  "kafka_dispatch C ser pre ev out =
     (let speaker_key = show_ip (ev_speaker ev);
          peer_key = (\<lambda>hdr. speaker_key @ '':'' @ show_ip (ph_address hdr))
      in case ev_payload ev of
           Ev_SpeakerUp n d \<Rightarrow> Ok (kafka_publish ser pre TOPIC_ROUTER speaker_key ev out)
         | Ev_SpeakerDown r \<Rightarrow> Ok (kafka_publish ser pre TOPIC_ROUTER speaker_key ev out)
         | Ev_PeerUp hdr la ra ht caps \<Rightarrow> Ok (kafka_publish ser pre TOPIC_PEER (peer_key hdr) ev out)
         | Ev_PeerDown hdr r \<Rightarrow> Ok (kafka_publish ser pre TOPIC_PEER (peer_key hdr) ev out)
         | Ev_EndOfRib hdr a \<Rightarrow> Ok (kafka_publish ser pre TOPIC_PEER (peer_key hdr) ev out)
         | Ev_Stats hdr cs \<Rightarrow> Ok (kafka_publish ser pre TOPIC_STATS (peer_key hdr) ev out)
         | Ev_RouteChange rc \<Rightarrow>
             rbind (show_prefix C (rc_prefix rc)) (\<lambda>p.
               let key = speaker_key @ '':'' @ show_ip (ph_address (rc_peer_header rc)) @ '':'' @ p in
               Ok (if has_evpn rc then kafka_publish ser pre TOPIC_EVPN key ev out
                   else if has_bgpls rc then kafka_publish ser pre TOPIC_BGPLS key ev out
                   else kafka_publish ser pre TOPIC_UNICAST key ev out)))"

datatype sink_input = Sink_Cancelled | Sink_Event rib_event | Sink_Lagged u64 | Sink_Closed

fun run_kafka_sink :: "crates \<Rightarrow> to_json \<Rightarrow> string \<Rightarrow> sink_input list \<Rightarrow> kafka_record list \<Rightarrow> kafka_record list result" where
  "run_kafka_sink C ser pre [] out = Ok out"
| "run_kafka_sink C ser pre (Sink_Cancelled # is) out = Ok out"
| "run_kafka_sink C ser pre (Sink_Event ev # is) out =
     rbind (kafka_dispatch C ser pre ev out) (\<lambda>out. run_kafka_sink C ser pre is out)"
| "run_kafka_sink C ser pre (Sink_Lagged n # is) out = run_kafka_sink C ser pre is out"
| "run_kafka_sink C ser pre (Sink_Closed # is) out = Ok out"

subsection \<open>NATS\<close>

record nats_message =
  nm_subject :: string
  nm_payload :: bytes

definition nats_publish :: "to_json \<Rightarrow> string \<Rightarrow> string \<Rightarrow> rib_event \<Rightarrow> nats_message list \<Rightarrow> nats_message list" where
  "nats_publish ser subject_prefix suffix ev out =
     (let subject = (if subject_prefix = [] then suffix else subject_prefix @ ''.'' @ suffix) in
      case ser ev of
        Inr bs \<Rightarrow> out @ [\<lparr>nm_subject = subject, nm_payload = bs\<rparr>]
      | Inl e \<Rightarrow> out)"

definition nats_dispatch :: "to_json \<Rightarrow> string \<Rightarrow> rib_event \<Rightarrow> nats_message list \<Rightarrow> nats_message list" where
  "nats_dispatch ser pre ev out =
     (case ev_payload ev of
        Ev_SpeakerUp n d \<Rightarrow> nats_publish ser pre ''router'' ev out
      | Ev_SpeakerDown r \<Rightarrow> nats_publish ser pre ''router'' ev out
      | Ev_PeerUp hdr la ra ht caps \<Rightarrow> nats_publish ser pre ''peer'' ev out
      | Ev_PeerDown hdr r \<Rightarrow> nats_publish ser pre ''peer'' ev out
      | Ev_EndOfRib hdr a \<Rightarrow> nats_publish ser pre ''peer'' ev out
      | Ev_Stats hdr cs \<Rightarrow> nats_publish ser pre ''bmp_stat'' ev out
      | Ev_RouteChange rc \<Rightarrow>
          (let suffix = (if has_evpn rc then ''evpn'' else if has_bgpls rc then ''ls_node'' else ''unicast_prefix'')
           in nats_publish ser pre suffix ev out))"

fun run_nats_sink :: "to_json \<Rightarrow> string \<Rightarrow> sink_input list \<Rightarrow> nats_message list \<Rightarrow> nats_message list" where
  "run_nats_sink ser pre [] out = out"
| "run_nats_sink ser pre (Sink_Cancelled # is) out = out"
| "run_nats_sink ser pre (Sink_Event ev # is) out = run_nats_sink ser pre is (nats_dispatch ser pre ev out)"
| "run_nats_sink ser pre (Sink_Lagged n # is) out = run_nats_sink ser pre is out"
| "run_nats_sink ser pre (Sink_Closed # is) out = out"

subsection \<open>What is published\<close>

text \<open>The events a sink takes, and those of them that can be serialised.\<close>

fun taken :: "sink_input list \<Rightarrow> rib_event list" where
  "taken [] = []"
| "taken (Sink_Cancelled # is) = []"
| "taken (Sink_Event ev # is) = ev # taken is"
| "taken (Sink_Lagged n # is) = taken is"
| "taken (Sink_Closed # is) = []"

definition json_of :: "to_json \<Rightarrow> rib_event \<Rightarrow> bytes option" where
  "json_of ser ev = (case ser ev of Inl e \<Rightarrow> None | Inr bs \<Rightarrow> Some bs)"

definition event_wf :: "rib_event \<Rightarrow> bool" where
  "event_wf ev = (case ev_payload ev of Ev_RouteChange rc \<Rightarrow> prefix_wf (rc_prefix rc) | _ \<Rightarrow> True)"

definition as_nats :: "kafka_record \<Rightarrow> nats_message" where
  "as_nats k = \<lparr>nm_subject = kr_topic k, nm_payload = kr_payload k\<rparr>"

lemma show_prefix_wf: "prefix_wf p \<Longrightarrow> \<exists>s. show_prefix C p = (Ok s :: (_, string) outcome)"
  by (induction p) (auto simp: idx_def)

lemmas topic_names = TOPIC_ROUTER_def TOPIC_PEER_def TOPIC_UNICAST_def TOPIC_EVPN_def TOPIC_BGPLS_def TOPIC_STATS_def

lemma publish_as_nats: "map as_nats (kafka_publish ser pre suffix key ev out) = nats_publish ser pre suffix ev (map as_nats out)"
  by (simp add: kafka_publish_def nats_publish_def topic_def as_nats_def split: sum.splits)

lemma dispatch_as_nats:
  assumes "event_wf ev"
  shows "\<exists>out'. kafka_dispatch C ser pre ev out = Ok out' \<and> map as_nats out' = nats_dispatch ser pre ev (map as_nats out)"
proof (cases "ev_payload ev")
  case (Ev_RouteChange rc)
  with assms obtain s where "show_prefix C (rc_prefix rc) = (Ok s :: string result)"
    using show_prefix_wf by (fastforce simp: event_wf_def)
  with Ev_RouteChange show ?thesis
    by (simp add: kafka_dispatch_def nats_dispatch_def publish_as_nats topic_names Let_def)
qed (simp_all add: kafka_dispatch_def nats_dispatch_def publish_as_nats topic_names Let_def)

lemma nats_dispatch_payloads:
  "map nm_payload (nats_dispatch ser pre ev out) = map nm_payload out @ (case json_of ser ev of None \<Rightarrow> [] | Some b \<Rightarrow> [b])"
  by (simp add: nats_dispatch_def nats_publish_def json_of_def Let_def split: rib_event_payload.splits sum.splits)

lemma nats_payloads:
  "map nm_payload (run_nats_sink ser pre is out) = map nm_payload out @ List.map_filter (json_of ser) (taken is)"
  by (induction ser pre "is" out rule: run_nats_sink.induct)
    (simp_all add: nats_dispatch_payloads map_filter_simps split: option.splits)

lemma kafka_as_nats:
  assumes "\<forall>ev \<in> set (taken is). event_wf ev"
  shows "\<exists>ks. run_kafka_sink C ser pre is out = Ok ks \<and> map as_nats ks = run_nats_sink ser pre is (map as_nats out)"
  using assms
proof (induction C ser pre "is" out rule: run_kafka_sink.induct)
  case (3 C ser pre ev "is" out)
  from dispatch_as_nats [of ev C ser pre out] "3.prems" obtain out' where
    "kafka_dispatch C ser pre ev out = Ok out'" "map as_nats out' = nats_dispatch ser pre ev (map as_nats out)" by auto
  with "3.IH" [of out'] "3.prems" show ?case by simp
qed simp_all

text \<open>C37: the Kafka sink neither panics nor loses or reorders an event, and the NATS sink publishes exactly the same
  messages under the same names.\<close>

theorem sinks_agree:
  assumes "\<forall>ev \<in> set (taken is). event_wf ev"
  shows "\<exists>ks. run_kafka_sink C ser pre is [] = Ok ks
    \<and> map (\<lambda>k. (kr_topic k, kr_payload k)) ks = map (\<lambda>m. (nm_subject m, nm_payload m)) (run_nats_sink ser pre is [])
    \<and> map kr_payload ks = List.map_filter (json_of ser) (taken is)"
proof -
  obtain ks where ks: "run_kafka_sink C ser pre is [] = Ok ks" "map as_nats ks = run_nats_sink ser pre is []"
    using kafka_as_nats [OF assms, of C ser pre "[]"] by auto
  have "map kr_payload ks = map nm_payload (map as_nats ks)" by (simp add: as_nats_def)
  then have "map kr_payload ks = List.map_filter (json_of ser) (taken is)" by (simp add: ks(2) nats_payloads)
  moreover have "map (\<lambda>k. (kr_topic k, kr_payload k)) ks = map (\<lambda>m. (nm_subject m, nm_payload m)) (run_nats_sink ser pre is [])"
    by (simp add: as_nats_def flip: ks(2))
  ultimately show ?thesis using ks(1) by blast
qed

definition example_event :: rib_event where
  "example_event = \<lparr>ev_id = 1, ev_occurred_at = 0, ev_speaker = IpV4 0x0A000001, ev_payload = Ev_SpeakerDown ''bye''\<rparr>"

definition example_route_event :: rib_event where
  "example_route_event = \<lparr>ev_id = 2, ev_occurred_at = 0, ev_speaker = IpV4 0x0A000001,
     ev_payload = Ev_RouteChange \<lparr>rc_action = Withdraw, rc_peer_header = example_peer, rc_rib_type = LocRib,
       rc_prefix = Prefix_V4 (Ipv4Net 0x0A000000 8), rc_attributes = None\<rparr>\<rparr>"

theorem sinks_agree_witness:
  "\<exists>ks. run_kafka_sink doc_crates (\<lambda>ev. Inr []) ''bmp'' [Sink_Event example_route_event, Sink_Lagged 3, Sink_Event example_event, Sink_Closed] [] = Ok ks
    \<and> map kr_topic ks = [''bmp.unicast_prefix'', ''bmp.router'']"
proof -
  let ?is = "[Sink_Event example_route_event, Sink_Lagged 3, Sink_Event example_event, Sink_Closed]"
  have wf: "\<forall>ev \<in> set (taken ?is). event_wf ev"
    by code_simp
  from sinks_agree [OF this, of doc_crates "\<lambda>ev. Inr []" "''bmp''"] obtain ks where
    ks: "run_kafka_sink doc_crates (\<lambda>ev. Inr []) ''bmp'' ?is [] = Ok ks"
    "map (\<lambda>k. (kr_topic k, kr_payload k)) ks = map (\<lambda>m. (nm_subject m, nm_payload m)) (run_nats_sink (\<lambda>ev. Inr []) ''bmp'' ?is [])"
    by blast
  have "map kr_topic ks = map fst (map (\<lambda>k. (kr_topic k, kr_payload k)) ks)" by simp
  also have "\<dots> = [''bmp.unicast_prefix'', ''bmp.router'']" unfolding ks(2) by code_simp
  finally have "map kr_topic ks = [''bmp.unicast_prefix'', ''bmp.router'']" .
  with ks(1) show ?thesis by (intro exI [of _ ks] conjI)
qed

end
