(* ===== verification/Json.thy ===== *)
theory Json
  imports Rib_Manager
begin

text \<open>
  What the consumers of the event stream share: JSON values, HTTP requests, and the text forms of events.  A JSON value
  is a tree; its text form, its parser, the text of identifiers and times and the conversion of a time to a
  floating-point number of seconds are parameters (\<open>text_deps\<close>).
\<close>

subsection \<open>JSON and HTTP\<close>

datatype json = JNull | JBool bool | JInt int | JFloat u64 | JStr string | JArr "json list" | JObj "(string \<times> json) list"

record text_deps =
  td_json_text :: "json \<Rightarrow> string"
  td_json_parse :: "string \<Rightarrow> json option"
  td_uuid :: "u128 \<Rightarrow> string"
  td_rfc3339 :: "datetime \<Rightarrow> string"
  td_epoch_secs :: "datetime \<Rightarrow> u64"

text \<open>\<^verbatim>\<open>doc[k] = v\<close> on an object.\<close>

fun jset :: "string \<Rightarrow> json \<Rightarrow> json \<Rightarrow> json" where
  "jset k v (JObj m) = JObj (hm_insert k v m)"
| "jset k v j = j"

definition jopt :: "('a \<Rightarrow> json) \<Rightarrow> 'a option \<Rightarrow> json" where
  "jopt f x = (case x of None \<Rightarrow> JNull | Some y \<Rightarrow> f y)"

definition ju32 :: "u32 \<Rightarrow> json" where "ju32 v = JInt (uint v)"

datatype http_body = Body_Text string | Body_Json json

record http_request =
  rq_url :: string
  rq_headers :: "(string \<times> string) list"
  rq_basic_auth :: "(string \<times> string) option"
  rq_body :: http_body

datatype http_reply = Http_Failed string | Http_Response bool string string

type_synonym http = "nat \<Rightarrow> http_reply"

definition trim_slashes :: "string \<Rightarrow> string" where
  "trim_slashes s = rev (dropWhile (\<lambda>c. c = CHR ''/'') (rev s))"

fun str_replace :: "string \<Rightarrow> string \<Rightarrow> string \<Rightarrow> string" where
  "str_replace pat rep [] = []"
| "str_replace pat rep (c # cs) =
     (if pat \<noteq> [] \<and> take (length pat) (c # cs) = pat then rep @ str_replace pat rep (drop (length pat - 1) cs)
      else c # str_replace pat rep cs)"

definition ascii_upper :: "string \<Rightarrow> string" where
  "ascii_upper s = map (\<lambda>c. if 97 \<le> (of_char c :: nat) \<and> (of_char c :: nat) \<le> 122 then char_of (of_char c - 32 :: nat) else c) s"

definition em_dash :: string where "em_dash = [CHR 0xE2, CHR 0x80, CHR 0x94]"
definition dquote :: string where "dquote = [CHR 0x22]"
definition squote :: string where "squote = [CHR 0x27]"
definition newline :: string where "newline = [CHR 0x0A]"

fun debug_rib_type :: "rib_type \<Rightarrow> string" where
  "debug_rib_type AdjRibInPrePolicy = ''AdjRibInPrePolicy''"
| "debug_rib_type AdjRibInPostPolicy = ''AdjRibInPostPolicy''"
| "debug_rib_type AdjRibOutPrePolicy = ''AdjRibOutPrePolicy''"
| "debug_rib_type AdjRibOutPostPolicy = ''AdjRibOutPostPolicy''"
| "debug_rib_type LocRib = ''LocRib''"
| "debug_rib_type LocRibFiltered = ''LocRibFiltered''"

text \<open>\<^verbatim>\<open>format!("{:?}", rc.action).to_lowercase()\<close>.\<close>

fun action_lower :: "route_action \<Rightarrow> string" where
  "action_lower Announce = ''announce''"
| "action_lower Withdraw = ''withdraw''"

definition example_texts :: text_deps where
  "example_texts = \<lparr>td_json_text = \<lambda>_. [], td_json_parse = \<lambda>_. None, td_uuid = \<lambda>_. [], td_rfc3339 = \<lambda>_. [], td_epoch_secs = \<lambda>_. 0\<rparr>"

end
