(* ===== verification/Outputs.thy ===== *)
theory Outputs
  imports Event_Sinks Json
begin

text \<open>
  \<^verbatim>\<open>rbmp-server/src/output\<close>: the output adapters and the pump that feeds them.

  An HTTP client is the list of the requests
  handed to it; the answer to a request is a function of the number of requests before it.  The clock of the
  deduplication is a function of the number of times it was read.

  Results: the pump hands every event it receives to its adapter, in order, in batches of at most 256; two
  notifications with the same key are at least the deduplication window apart, and one is suppressed only when another
  was sent within the window; a notification whose request fails is lost together with the rest of its batch and stays
  suppressed.
\<close>

subsection \<open>Elasticsearch (elasticsearch.rs)\<close>

record elasticsearch_config =
  es_url :: string
  es_index :: string
  es_username :: "string option"
  es_password :: "string option"
  es_api_key :: "string option"
  es_max_body_bytes :: nat

definition bulk_url :: "elasticsearch_config \<Rightarrow> string" where
  "bulk_url cfg = trim_slashes (es_url cfg) @ ''/_bulk''"

definition ecs_attributes :: "path_attributes \<Rightarrow> json \<Rightarrow> json" where
  "ecs_attributes attrs doc =
     jset ''bgp.origin'' (jopt (\<lambda>x. JStr (debug_origin x)) (pa_origin attrs))
     (jset ''bgp.communities'' (JStr (join '' '' (map show_community (communities attrs))))
     (jset ''bgp.med'' (jopt ju32 (multi_exit_disc attrs))
     (jset ''bgp.local_pref'' (jopt ju32 (local_pref attrs))
     (jset ''bgp.next_hop'' (jopt (\<lambda>h. JStr (show_ip h)) (pa_next_hop attrs))
     (jset ''bgp.as_path'' (jopt (\<lambda>p. JStr (show_as_path p)) (pa_as_path attrs)) doc)))))"

definition ecs_peer :: "string \<Rightarrow> peer_header \<Rightarrow> json \<Rightarrow> json" where
  "ecs_peer action hdr doc =
     jset ''bgp.peer_as'' (ju32 (ph_as hdr))
     (jset ''bgp.peer_addr'' (JStr (show_ip (ph_address hdr)))
     (jset ''event.type'' (JArr [JStr ''connection''])
     (jset ''event.category'' (JArr [JStr ''network''])
     (jset ''event.action'' (JStr action) doc))))"

definition rib_event_to_ecs :: "crates \<Rightarrow> text_deps \<Rightarrow> rib_event \<Rightarrow> json result" where
  "rib_event_to_ecs C T ev =
     (let doc = JObj [(''@timestamp'', JStr (td_rfc3339 T (ev_occurred_at ev))), (''event.id'', JStr (td_uuid T (ev_id ev))),
            (''event.module'', JStr ''bgp''), (''event.dataset'', JStr ''bgp.route''),
            (''observer.ip'', JStr (show_ip (ev_speaker ev)))]
      in case ev_payload ev of
           Ev_RouteChange rc \<Rightarrow>
             rbind (show_prefix C (rc_prefix rc)) (\<lambda>p.
               let doc = jset ''bgp.rib_type'' (JStr (debug_rib_type (rc_rib_type rc)))
                    (jset ''bgp.peer_as'' (ju32 (ph_as (rc_peer_header rc)))
                    (jset ''bgp.peer_addr'' (JStr (show_ip (ph_address (rc_peer_header rc))))
                    (jset ''bgp.prefix'' (JStr p)
                    (jset ''event.type'' (JArr [JStr ''change''])
                    (jset ''event.category'' (JArr [JStr ''network''])
                    (jset ''event.action'' (JStr (action_lower (rc_action rc))) doc))))))
               in Ok (case rc_attributes rc of None \<Rightarrow> doc | Some attrs \<Rightarrow> ecs_attributes attrs doc))
         | Ev_PeerUp hdr la ra ht caps \<Rightarrow> Ok (ecs_peer ''peer_up'' hdr doc)
         | Ev_PeerDown hdr reason \<Rightarrow> Ok (jset ''bgp.reason'' (JStr reason) (ecs_peer ''peer_down'' hdr doc))
         | Ev_SpeakerUp sys_name sys_descr \<Rightarrow>
             Ok (jset ''bgp.sys_name'' (jopt JStr sys_name) (jset ''event.action'' (JStr ''speaker_up'') doc))
         | Ev_SpeakerDown reason \<Rightarrow>
             Ok (jset ''bgp.reason'' (JStr reason) (jset ''event.action'' (JStr ''speaker_down'') doc))
         | _ \<Rightarrow> Ok (jset ''event.action'' (JStr ''other'') doc))"

definition build_bulk_body :: "crates \<Rightarrow> text_deps \<Rightarrow> elasticsearch_config \<Rightarrow> rib_event list \<Rightarrow> string result" where
  "build_bulk_body C T cfg events =
     rbind (rmap (rib_event_to_ecs C T) events) (\<lambda>docs.
       Ok (concat (map (\<lambda>doc.
         td_json_text T (JObj [(''index'', JObj [(''_index'', JStr (es_index cfg))])]) @ newline
         @ td_json_text T doc @ newline) docs)))"

text \<open>The result of \<^verbatim>\<open>send_batch\<close> with the requests made so far.\<close>

type_synonym sent = "http_request list \<times> (string + unit)"

definition send_checked :: "http \<Rightarrow> string \<Rightarrow> http_request \<Rightarrow> http_request list \<Rightarrow> sent" where
  "send_checked net what rq out =
     (out @ [rq], case net (length out) of
        Http_Failed e \<Rightarrow> Inl (what @ '' request failed'')
      | Http_Response success status body \<Rightarrow> if success then Inr () else Inl (what @ '' error: '' @ status))"

definition es_send_batch :: "crates \<Rightarrow> text_deps \<Rightarrow> http \<Rightarrow> elasticsearch_config \<Rightarrow> rib_event list \<Rightarrow> http_request list \<Rightarrow> sent result" where
  "es_send_batch C T net cfg events out =
     (if events = [] then Ok (out, Inr ())
      else rbind (build_bulk_body C T cfg events) (\<lambda>body.
        let rq = \<lparr>rq_url = bulk_url cfg, rq_headers = [(''Content-Type'', ''application/x-ndjson'')],
                  rq_basic_auth = None, rq_body = Body_Text body\<rparr>;
            rq = (case es_api_key cfg of
                    Some key \<Rightarrow> rq\<lparr>rq_headers := rq_headers rq @ [(''Authorization'', ''ApiKey '' @ key)]\<rparr>
                  | None \<Rightarrow> (case (es_username cfg, es_password cfg) of
                               (Some user, Some pass) \<Rightarrow> rq\<lparr>rq_basic_auth := Some (user, pass)\<rparr>
                             | _ \<Rightarrow> rq))
        in Ok (send_checked net ''ES bulk'' rq out)))"

subsection \<open>Splunk (splunk.rs)\<close>

record splunk_config =
  sk_url :: string
  sk_token :: string
  sk_index :: string
  sk_sourcetype :: string
  sk_insecure_tls :: bool

definition splunk_attributes :: "path_attributes \<Rightarrow> json \<Rightarrow> json" where
  "splunk_attributes attrs flds =
     jset ''communities'' (JStr (join '' '' (map show_community (communities attrs))))
     (jset ''med'' (jopt ju32 (multi_exit_disc attrs))
     (jset ''local_pref'' (jopt ju32 (local_pref attrs))
     (jset ''next_hop'' (jopt (\<lambda>h. JStr (show_ip h)) (pa_next_hop attrs))
     (jset ''as_path'' (jopt (\<lambda>p. JStr (show_as_path p)) (pa_as_path attrs)) flds))))"

definition splunk_peer :: "string \<Rightarrow> peer_header \<Rightarrow> json \<Rightarrow> json" where
  "splunk_peer action hdr flds =
     jset ''peer_as'' (ju32 (ph_as hdr))
     (jset ''peer_addr'' (JStr (show_ip (ph_address hdr)))
     (jset ''action'' (JStr action) flds))"

definition rib_event_to_fields :: "crates \<Rightarrow> text_deps \<Rightarrow> rib_event \<Rightarrow> json result" where
  "rib_event_to_fields C T ev =
     (let flds = JObj [(''event_id'', JStr (td_uuid T (ev_id ev))), (''speaker'', JStr (show_ip (ev_speaker ev)))] in
      case ev_payload ev of
        Ev_RouteChange rc \<Rightarrow>
          rbind (show_prefix C (rc_prefix rc)) (\<lambda>p.
            let flds = jset ''rib_type'' (JStr (debug_rib_type (rc_rib_type rc)))
                 (jset ''peer_as'' (ju32 (ph_as (rc_peer_header rc)))
                 (jset ''peer_addr'' (JStr (show_ip (ph_address (rc_peer_header rc))))
                 (jset ''prefix'' (JStr p)
                 (jset ''action'' (JStr (action_lower (rc_action rc))) flds))))
            in Ok (case rc_attributes rc of None \<Rightarrow> flds | Some attrs \<Rightarrow> splunk_attributes attrs flds))
      | Ev_PeerUp hdr la ra ht caps \<Rightarrow> Ok (splunk_peer ''peer_up'' hdr flds)
      | Ev_PeerDown hdr reason \<Rightarrow> Ok (jset ''reason'' (JStr reason) (splunk_peer ''peer_down'' hdr flds))
      | Ev_SpeakerUp sys_name sys_descr \<Rightarrow>
          Ok (jset ''sys_name'' (jopt JStr sys_name) (jset ''action'' (JStr ''speaker_up'') flds))
      | Ev_SpeakerDown reason \<Rightarrow>
          Ok (jset ''reason'' (JStr reason) (jset ''action'' (JStr ''speaker_down'') flds))
      | _ \<Rightarrow> Ok (jset ''action'' (JStr ''other'') flds))"

definition rib_event_to_hec :: "crates \<Rightarrow> text_deps \<Rightarrow> splunk_config \<Rightarrow> rib_event \<Rightarrow> json result" where
  "rib_event_to_hec C T cfg ev =
     rbind (rib_event_to_fields C T ev) (\<lambda>event_body.
       Ok (JObj [(''time'', JFloat (td_epoch_secs T (ev_occurred_at ev))), (''host'', JStr (show_ip (ev_speaker ev))),
                 (''source'', JStr ''rustybmp''), (''sourcetype'', JStr (sk_sourcetype cfg)),
                 (''index'', JStr (sk_index cfg)), (''event'', event_body)]))"

definition build_hec_body :: "crates \<Rightarrow> text_deps \<Rightarrow> splunk_config \<Rightarrow> rib_event list \<Rightarrow> string result" where
  "build_hec_body C T cfg events =
     rbind (rmap (rib_event_to_hec C T cfg) events) (\<lambda>docs. Ok (join newline (map (td_json_text T) docs)))"

definition splunk_send_batch :: "crates \<Rightarrow> text_deps \<Rightarrow> http \<Rightarrow> splunk_config \<Rightarrow> rib_event list \<Rightarrow> http_request list \<Rightarrow> sent result" where
  "splunk_send_batch C T net cfg events out =
     (if events = [] then Ok (out, Inr ())
      else rbind (build_hec_body C T cfg events) (\<lambda>body.
        Ok (send_checked net ''Splunk HEC'' \<lparr>rq_url = trim_slashes (sk_url cfg) @ ''/services/collector'',
              rq_headers = [(''Authorization'', ''Splunk '' @ sk_token cfg), (''Content-Type'', ''application/json'')],
              rq_basic_auth = None, rq_body = Body_Text body\<rparr> out)))"

subsection \<open>Webhooks (webhook.rs)\<close>

record webhook_config =
  wh_url :: string
  wh_profile :: string
  wh_auth_header :: "string option"
  wh_min_severity :: string
  wh_dedup_window_secs :: u64
  wh_headers :: "(string, string) hash_map"
  wh_body_template :: "string option"

definition severity_rank :: "string \<Rightarrow> int" where
  "severity_rank s =
     (if s = ''critical'' then 1 else if s = ''high'' then 2 else if s = ''warn'' then 3 else if s = ''info'' then 5 else 4)"

definition passes_min :: "string \<Rightarrow> string \<Rightarrow> bool" where
  "passes_min event_sev min_sev \<longleftrightarrow> severity_rank event_sev \<le> severity_rank min_sev"

definition format_slack :: "string \<Rightarrow> string \<Rightarrow> string \<Rightarrow> json" where
  "format_slack speaker summary severity =
     (let color = (if severity = ''critical'' then ''#FF0000'' else if severity = ''warn'' then ''#FFA500''
                   else if severity = ''info'' then ''#36A64F'' else ''#808080'')
      in JObj [(''attachments'', JArr [JObj [(''color'', JStr color),
           (''blocks'', JArr [JObj [(''type'', JStr ''section''), (''text'', JObj [(''type'', JStr ''mrkdwn''),
             (''text'', JStr (''*['' @ ascii_upper severity @ '']* '' @ speaker @ '' '' @ em_dash @ '' '' @ summary))])]])]])])"

definition format_pagerduty :: "string \<Rightarrow> string \<Rightarrow> string \<Rightarrow> string \<Rightarrow> string \<Rightarrow> json" where
  "format_pagerduty speaker summary severity dedup_key routing_key =
     (let pd_severity = (if severity = ''critical'' then ''critical'' else if severity = ''high'' then ''error''
                         else if severity = ''warn'' then ''warning'' else ''info'')
      in JObj [(''routing_key'', JStr routing_key), (''event_action'', JStr ''trigger''), (''dedup_key'', JStr dedup_key),
           (''payload'', JObj [(''summary'', JStr (speaker @ '': '' @ summary)), (''source'', JStr speaker),
             (''severity'', JStr pd_severity), (''component'', JStr ''bgp''), (''group'', JStr ''RustyBMP'')])])"

definition format_opsgenie :: "string \<Rightarrow> string \<Rightarrow> string \<Rightarrow> string \<Rightarrow> json" where
  "format_opsgenie speaker summary severity dedup_key =
     (let priority = (if severity = ''critical'' then ''P1'' else if severity = ''high'' then ''P2''
                      else if severity = ''warn'' then ''P3'' else ''P5'')
      in JObj [(''message'', JStr (speaker @ '': '' @ summary)), (''alias'', JStr dedup_key), (''priority'', JStr priority),
           (''source'', JStr ''RustyBMP''), (''tags'', JArr [JStr ''bgp'', JStr ''network''])])"

definition format_teams :: "string \<Rightarrow> string \<Rightarrow> string \<Rightarrow> json" where
  "format_teams speaker summary severity =
     (let color = (if severity = ''critical'' then ''attention'' else if severity = ''warn'' then ''warning'' else ''good'')
      in JObj [(''type'', JStr ''message''), (''attachments'', JArr [JObj [
           (''contentType'', JStr ''application/vnd.microsoft.card.adaptive''),
           (''content'', JObj [(''type'', JStr ''AdaptiveCard''), (''version'', JStr ''1.4''), (''body'', JArr [JObj [
             (''type'', JStr ''TextBlock''),
             (''text'', JStr (''['' @ ascii_upper severity @ ''] '' @ speaker @ '' '' @ em_dash @ '' '' @ summary)),
             (''weight'', JStr ''bolder''), (''color'', JStr color)]])])]])])"

definition webhook_should_send :: "u64 \<Rightarrow> nat \<Rightarrow> string \<Rightarrow> (string, nat) hash_map \<Rightarrow> bool \<times> (string, nat) hash_map" where
  "webhook_should_send window_secs now key dedup =
     (let window = unat window_secs * 1000000000 in
      case hm_get dedup key of
        Some prev \<Rightarrow> if now - prev < window then (False, dedup) else (True, hm_insert key now dedup)
      | None \<Rightarrow> (True, hm_insert key now dedup))"

definition build_payload :: "text_deps \<Rightarrow> webhook_config \<Rightarrow> string \<Rightarrow> string \<Rightarrow> string \<Rightarrow> string \<Rightarrow> json" where
  "build_payload T cfg speaker summary severity dedup_key =
     (let routing_key = (case wh_auth_header cfg of Some k \<Rightarrow> k | None \<Rightarrow> []); profile = wh_profile cfg in
      if profile = ''slack'' then format_slack speaker summary severity
      else if profile = ''pagerduty'' then format_pagerduty speaker summary severity dedup_key routing_key
      else if profile = ''opsgenie'' then format_opsgenie speaker summary severity dedup_key
      else if profile = ''teams'' then format_teams speaker summary severity
      else if profile = ''custom'' then
        (case wh_body_template cfg of
           Some tmpl \<Rightarrow>
             (let body = str_replace ''{{dedup_key}}'' dedup_key (str_replace ''{{severity}}'' severity
                    (str_replace ''{{summary}}'' summary (str_replace ''{{speaker}}'' speaker tmpl)))
              in case td_json_parse T body of Some j \<Rightarrow> j | None \<Rightarrow> JObj [(''text'', JStr body)])
         | None \<Rightarrow> JObj [(''speaker'', JStr speaker), (''summary'', JStr summary), (''severity'', JStr severity)])
      else format_slack speaker summary severity)"

definition event_to_notification :: "rib_event \<Rightarrow> (string \<times> string \<times> string) option" where
  "event_to_notification ev =
     (let speaker = show_ip (ev_speaker ev) in
      case ev_payload ev of
        Ev_PeerDown hdr reason \<Rightarrow>
          (let peer = show_ip (ph_address hdr) in
           Some (speaker @ '':'' @ peer @ '':peer_down'', ''Peer '' @ peer @ '' down: '' @ reason, ''warn''))
      | Ev_PeerUp hdr la ra ht caps \<Rightarrow>
          (let peer = show_ip (ph_address hdr) in
           Some (speaker @ '':'' @ peer @ '':peer_up'', ''Peer '' @ peer @ '' up'', ''info''))
      | Ev_SpeakerDown reason \<Rightarrow> Some (speaker @ '':speaker_down'', ''Speaker down: '' @ reason, ''critical'')
      | _ \<Rightarrow> None)"

definition webhook_request :: "text_deps \<Rightarrow> webhook_config \<Rightarrow> rib_event \<Rightarrow> string \<Rightarrow> string \<Rightarrow> string \<Rightarrow> http_request" where
  "webhook_request T cfg ev key summary severity =
     \<lparr>rq_url = wh_url cfg,
      rq_headers = [(''Content-Type'', ''application/json'')]
        @ (case wh_auth_header cfg of Some auth \<Rightarrow> if wh_profile cfg \<noteq> ''pagerduty'' then [(''Authorization'', auth)] else []
                                    | None \<Rightarrow> [])
        @ wh_headers cfg,
      rq_basic_auth = None,
      rq_body = Body_Json (build_payload T cfg (show_ip (ev_speaker ev)) summary severity key)\<rparr>"

record notifier =
  nt_dedup :: "(string, nat) hash_map"
  nt_clock_reads :: nat
  nt_requests :: "http_request list"

text \<open>A failed request ends the batch; an error status is only logged.\<close>

fun webhook_send_batch ::
    "text_deps \<Rightarrow> http \<Rightarrow> (nat \<Rightarrow> nat) \<Rightarrow> webhook_config \<Rightarrow> rib_event list \<Rightarrow> notifier \<Rightarrow> notifier \<times> (string + unit)" where
  "webhook_send_batch T net clock cfg [] st = (st, Inr ())"
| "webhook_send_batch T net clock cfg (ev # evs) st =
     (case event_to_notification ev of
        None \<Rightarrow> webhook_send_batch T net clock cfg evs st
      | Some (key, summary, severity) \<Rightarrow>
          if \<not> passes_min severity (wh_min_severity cfg) then webhook_send_batch T net clock cfg evs st
          else (case webhook_should_send (wh_dedup_window_secs cfg) (clock (nt_clock_reads st)) key (nt_dedup st) of
            (go, dedup) \<Rightarrow>
              (let st = st\<lparr>nt_dedup := dedup, nt_clock_reads := nt_clock_reads st + 1\<rparr> in
               if \<not> go then webhook_send_batch T net clock cfg evs st
               else
                 (let n = length (nt_requests st);
                      st = st\<lparr>nt_requests := nt_requests st @ [webhook_request T cfg ev key summary severity]\<rparr>
                  in (case net n of
                        Http_Failed e \<Rightarrow> (st, Inl ''Webhook send failed'')
                      | Http_Response success status body \<Rightarrow> webhook_send_batch T net clock cfg evs st)))))"

subsection \<open>ServiceNow event management (servicenow\_em.rs)\<close>

record servicenow_config =
  sn_instance_url :: string
  sn_username :: string
  sn_password :: string
  sn_min_severity :: string
  sn_dedup_window_secs :: u64
  sn_source :: string

definition severity_to_snow :: "string \<Rightarrow> int" where
  "severity_to_snow s =
     (if s = ''critical'' then 1 else if s = ''high'' then 2 else if s = ''warn'' then 3 else if s = ''info'' then 5 else 4)"

definition severity_passes_min :: "string \<Rightarrow> string \<Rightarrow> bool" where
  "severity_passes_min event_sev min_sev \<longleftrightarrow> severity_to_snow event_sev \<le> severity_to_snow min_sev"

definition em_event_url :: "servicenow_config \<Rightarrow> string" where
  "em_event_url cfg = trim_slashes (sn_instance_url cfg) @ ''/api/global/em/jsonv2''"

definition snow_should_send :: "u64 \<Rightarrow> nat \<Rightarrow> string \<Rightarrow> (string, nat) hash_map \<Rightarrow> bool \<times> (string, nat) hash_map" where
  "snow_should_send window_secs now key dedup =
     (let window = unat window_secs * 1000000000 in
      case hm_get dedup key of
        Some prev \<Rightarrow> if now - prev < window then (False, dedup) else (True, hm_insert key now dedup)
      | None \<Rightarrow> (True, hm_insert key now dedup))"

definition to_em_event :: "crates \<Rightarrow> servicenow_config \<Rightarrow> rib_event \<Rightarrow> (string \<times> json) option result" where
  "to_em_event C cfg ev =
     (let speaker = show_ip (ev_speaker ev) in
      case ev_payload ev of
        Ev_PeerDown hdr reason \<Rightarrow>
          (let peer = show_ip (ph_address hdr); key = speaker @ '':'' @ peer @ '':peer_down''; severity = ''warn'' in
           if \<not> severity_passes_min severity (sn_min_severity cfg) then Ok None
           else Ok (Some (key, JObj [(''records'', JArr [JObj [(''source'', JStr (sn_source cfg)), (''event_class'', JStr ''BGP''),
             (''node'', JStr speaker), (''resource'', JStr peer), (''type'', JStr ''peer_down''),
             (''severity'', JInt (severity_to_snow severity)),
             (''description'', JStr (''BGP peer '' @ peer @ '' down: '' @ reason)),
             (''additional_info'', JStr (''{'' @ dquote @ ''peer_as'' @ dquote @ '': '' @ show_nat (unat (ph_as hdr)) @ '', '' @ dquote
                @ ''reason'' @ dquote @ '': '' @ dquote @ reason @ dquote @ ''}''))]])])))
      | Ev_RouteChange rc \<Rightarrow>
          (let peer = show_ip (ph_address (rc_peer_header rc)); action = action_lower (rc_action rc);
               key = speaker @ '':'' @ peer @ '':route_'' @ action; severity = ''info'' in
           if \<not> severity_passes_min severity (sn_min_severity cfg) then Ok None
           else rbind (show_prefix C (rc_prefix rc)) (\<lambda>p.
             Ok (Some (key, JObj [(''records'', JArr [JObj [(''source'', JStr (sn_source cfg)), (''event_class'', JStr ''BGP''),
               (''node'', JStr speaker), (''resource'', JStr p), (''type'', JStr (''route_'' @ action)),
               (''severity'', JInt (severity_to_snow severity)),
               (''description'', JStr (''BGP route '' @ action @ '' for '' @ p @ '' via '' @ peer))]])]))))
      | _ \<Rightarrow> Ok None)"

fun snow_send_batch ::
    "crates \<Rightarrow> http \<Rightarrow> (nat \<Rightarrow> nat) \<Rightarrow> servicenow_config \<Rightarrow> rib_event list \<Rightarrow> notifier \<Rightarrow> (notifier \<times> (string + unit)) result" where
  "snow_send_batch C net clock cfg [] st = Ok (st, Inr ())"
| "snow_send_batch C net clock cfg (ev # evs) st =
     rbind (to_em_event C cfg ev) (\<lambda>r.
       case r of
         None \<Rightarrow> snow_send_batch C net clock cfg evs st
       | Some (key, payload) \<Rightarrow>
           (case snow_should_send (sn_dedup_window_secs cfg) (clock (nt_clock_reads st)) key (nt_dedup st) of
              (go, dedup) \<Rightarrow>
                (let st = st\<lparr>nt_dedup := dedup, nt_clock_reads := nt_clock_reads st + 1\<rparr> in
                 if \<not> go then snow_send_batch C net clock cfg evs st
                 else
                   (let n = length (nt_requests st);
                        st = st\<lparr>nt_requests := nt_requests st @ [\<lparr>rq_url = em_event_url cfg,
                          rq_headers = [(''Content-Type'', ''application/json'')],
                          rq_basic_auth = Some (sn_username cfg, sn_password cfg), rq_body = Body_Json payload\<rparr>]\<rparr>
                    in (case net n of
                          Http_Failed e \<Rightarrow> Ok (st, Inl ''SNOW EM request failed'')
                        | Http_Response success status body \<Rightarrow> snow_send_batch C net clock cfg evs st)))))"

subsection \<open>The pump (mod.rs)\<close>

definition BATCH_SIZE :: nat where "BATCH_SIZE = 256"

text \<open>What the calls of \<^verbatim>\<open>recv\<close> and \<^verbatim>\<open>try_recv\<close> return, in order; only \<^verbatim>\<open>try_recv\<close> returns \<open>Empty\<close>.\<close>

datatype received = Got rib_event | Lag u64 | Empty | Shut

fun fill :: "rib_event list \<Rightarrow> received list \<Rightarrow> rib_event list \<times> received list" where
  "fill buf [] = (buf, [])"
| "fill buf (r # rs) =
     (if length buf < BATCH_SIZE
      then (case r of Got e \<Rightarrow> fill (buf @ [e]) rs | _ \<Rightarrow> (buf, rs))
      else (buf, r # rs))"

lemma fill_shorter: "length (snd (fill buf rs)) \<le> length rs"
  by (induction buf rs rule: fill.induct) (auto split: received.splits intro: le_SucI)

text \<open>\<open>send\<close> is \<^verbatim>\<open>send_batch\<close> of the adapter with its state; its error is only logged.\<close>

function (sequential) adapter_pump :: "(rib_event list \<Rightarrow> 's \<Rightarrow> 's) \<Rightarrow> received list \<Rightarrow> 's \<Rightarrow> 's" where
  "adapter_pump send [] s = s"
| "adapter_pump send (Got e # rs) s = (case fill [e] rs of (buf, rs) \<Rightarrow> adapter_pump send rs (send buf s))"
| "adapter_pump send (Shut # rs) s = s"
| "adapter_pump send (_ # rs) s = adapter_pump send rs s"
  by pat_completeness auto
termination
  by (relation "measure (\<lambda>(_, rs, _). length rs)") (auto, metis fill_shorter le_imp_less_Suc snd_conv)


subsection \<open>The pump delivers every event\<close>

definition got :: "received list \<Rightarrow> rib_event list" where
  "got rs = List.map_filter (\<lambda>r. case r of Got e \<Rightarrow> Some e | _ \<Rightarrow> None) rs"

text \<open>A channel that is closed stays closed.\<close>

fun stays_shut :: "received list \<Rightarrow> bool" where
  "stays_shut [] = True"
| "stays_shut (Shut # rs) = (\<forall>r \<in> set rs. r = Shut)"
| "stays_shut (_ # rs) = stays_shut rs"

lemma got_simps [simp]:
  "got [] = []" "got (Got e # rs) = e # got rs" "got (Lag n # rs) = got rs" "got (Empty # rs) = got rs" "got (Shut # rs) = got rs"
  by (simp_all add: got_def map_filter_simps)

lemma got_shut: "\<forall>r \<in> set rs. r = Shut \<Longrightarrow> got rs = []"
  by (induction rs) auto

lemma stays_shut_all: "\<forall>r \<in> set rs. r = Shut \<Longrightarrow> stays_shut rs"
  by (cases rs) auto

lemma fill_spec:
  "fill buf rs = (buf', rs') \<Longrightarrow> stays_shut rs \<Longrightarrow> length buf \<le> BATCH_SIZE \<Longrightarrow>
     buf' @ got rs' = buf @ got rs \<and> stays_shut rs' \<and> length buf \<le> length buf' \<and> length buf' \<le> BATCH_SIZE"
proof (induction buf rs arbitrary: buf' rs' rule: fill.induct)
  case (2 buf r rs)
  show ?case
  proof (cases "length buf < BATCH_SIZE")
    case True
    show ?thesis
    proof (cases r)
      case (Got e)
      then show ?thesis using True "2.IH" [OF True Got, of buf' rs'] "2.prems" by simp
    qed (use True "2.prems" in \<open>auto simp: stays_shut_all\<close>)
  qed (use 2 in auto)
qed simp

lemma adapter_pump_batches:
  "stays_shut rs \<Longrightarrow> \<exists>bs. adapter_pump send rs s = fold send bs s \<and> concat bs = got rs
     \<and> (\<forall>b \<in> set bs. 0 < length b \<and> length b \<le> BATCH_SIZE)"
proof (induction send rs s rule: adapter_pump.induct)
  case (2 send e rs s)
  obtain buf rs' where f: "fill [e] rs = (buf, rs')" by force
  have spec: "buf @ got rs' = e # got rs" "stays_shut rs'" "0 < length buf" "length buf \<le> BATCH_SIZE"
    using fill_spec [OF f] "2.prems" by (auto simp: BATCH_SIZE_def)
  from "2.IH" [OF f [symmetric] spec(2)] obtain bs where
    "adapter_pump send rs' (send buf s) = fold send bs (send buf s)" "concat bs = got rs'"
    "\<forall>b \<in> set bs. 0 < length b \<and> length b \<le> BATCH_SIZE" by blast
  with f spec show ?case by (intro exI [of _ "buf # bs"]) auto
next
  case (3 send rs s)
  then show ?case by (intro exI [of _ "[]"]) (simp add: got_shut)
qed (auto intro: exI [of _ "[]"])

text \<open>C38: nothing is lost between the channel and the adapter: the batches it is given are never empty, hold at most
  256 events each, and together are the events received, in order.\<close>

theorem pump_delivers:
  assumes "stays_shut rs"
  shows "\<exists>bs. adapter_pump send rs s = fold send bs s \<and> concat bs = got rs
    \<and> (\<forall>b \<in> set bs. 0 < length b \<and> length b \<le> 256)"
  using adapter_pump_batches [OF assms, of send s] by (simp add: BATCH_SIZE_def)

theorem pump_delivers_witness:
  "\<exists>bs. concat bs = [example_event, example_route_event] \<and> (\<forall>b \<in> set bs. 0 < length b \<and> length b \<le> 256)
     \<and> adapter_pump (\<lambda>b n. n + length b) [Got example_event, Lag 2, Got example_route_event, Empty, Shut] 0
       = fold (\<lambda>b n. n + length b) bs (0 :: nat)"
  using pump_delivers [of "[Got example_event, Lag 2, Got example_route_event, Empty, Shut]" "\<lambda>b n. n + length b" 0]
  by (auto simp del: adapter_pump.simps)

subsection \<open>Deduplication\<close>

text \<open>The decisions of a sequence of calls, each with its key and the time of the call.\<close>

fun decisions ::
    "(nat \<Rightarrow> string \<Rightarrow> (string, nat) hash_map \<Rightarrow> bool \<times> (string, nat) hash_map) \<Rightarrow> (string \<times> nat) list \<Rightarrow> (string, nat) hash_map \<Rightarrow> bool list" where
  "decisions should_send [] m = []"
| "decisions should_send ((k, t) # calls) m =
     (case should_send t k m of (go, m) \<Rightarrow> go # decisions should_send calls m)"

lemma decisions_Cons [simp]:
  "decisions should_send ((k, t) # calls) m = fst (should_send t k m) # decisions should_send calls (snd (should_send t k m))"
  by (simp split: prod.splits)

declare decisions.simps(2) [simp del]

lemma length_decisions [simp]: "length (decisions should_send calls m) = length calls"
  by (induction calls arbitrary: m) auto

text \<open>The contract of a deduplicating sender with window \<open>w\<close>.\<close>

locale dedup =
  fixes should_send :: "nat \<Rightarrow> string \<Rightarrow> (string, nat) hash_map \<Rightarrow> bool \<times> (string, nat) hash_map"
    and w :: nat
  assumes send_iff: "fst (should_send t k m) \<longleftrightarrow> (\<forall>t0. hm_get m k = Some t0 \<longrightarrow> w \<le> t - t0)"
    and get_after: "hm_get (snd (should_send t k m)) k' = (if k' = k \<and> fst (should_send t k m) then Some t else hm_get m k')"
begin

lemma sent_after_entry:
  "hm_get m k = Some t0 \<Longrightarrow> sorted (t0 # map snd calls) \<Longrightarrow> j < length calls \<Longrightarrow> fst (calls ! j) = k \<Longrightarrow>
   decisions should_send calls m ! j \<Longrightarrow> w \<le> snd (calls ! j) - t0"
proof (induction calls arbitrary: m j t0)
  case (Cons c calls)
  obtain k' t where c: "c = (k', t)" by force
  let ?go = "fst (should_send t k' m)" and ?m = "snd (should_send t k' m)"
  have m': "hm_get ?m k = (if k = k' \<and> ?go then Some t else Some t0)" using get_after [of t k' m k] Cons.prems(1) by simp
  show ?case
  proof (cases j)
    case 0
    then show ?thesis using Cons.prems send_iff [of t k' m] by (simp add: c)
  next
    case (Suc i)
    have "w \<le> snd (calls ! i) - t1" if "hm_get ?m k = Some t1" "t0 \<le> t1" "sorted (t1 # map snd calls)" for t1
      using Cons.IH [OF that(1,3)] Cons.prems Suc by (simp add: c)
    with m' Cons.prems(2) c Suc show ?thesis by (cases "k = k' \<and> ?go") (auto intro: order_trans diff_le_mono2)
  qed
qed simp

lemma spaced:
  "sorted (map snd calls) \<Longrightarrow> i < j \<Longrightarrow> j < length calls \<Longrightarrow> fst (calls ! i) = fst (calls ! j) \<Longrightarrow>
   decisions should_send calls m ! i \<Longrightarrow> decisions should_send calls m ! j \<Longrightarrow> w \<le> snd (calls ! j) - snd (calls ! i)"
proof (induction calls arbitrary: m i j)
  case (Cons c calls)
  obtain k t where c: "c = (k, t)" by force
  let ?go = "fst (should_send t k m)" and ?m = "snd (should_send t k m)"
  obtain j' where j: "j = Suc j'" using Cons.prems(2) by (cases j) auto
  show ?case
  proof (cases i)
    case 0
    then have "hm_get ?m k = Some t" using Cons.prems get_after [of t k m k] by (simp add: c)
    from sent_after_entry [OF this, of calls j'] Cons.prems 0 j show ?thesis by (simp add: c)
  next
    case (Suc i')
    with Cons.IH [of i' j' ?m] Cons.prems j show ?thesis by (simp add: c)
  qed
qed simp

lemma suppressed:
  "j < length calls \<Longrightarrow> \<not> decisions should_send calls m ! j \<Longrightarrow>
   (\<exists>i < j. decisions should_send calls m ! i \<and> fst (calls ! i) = fst (calls ! j) \<and> snd (calls ! j) - snd (calls ! i) < w)
   \<or> (\<exists>t0. hm_get m (fst (calls ! j)) = Some t0 \<and> snd (calls ! j) - t0 < w)"
proof (induction calls arbitrary: m j)
  case (Cons c calls)
  obtain k t where c: "c = (k, t)" by force
  let ?go = "fst (should_send t k m)" and ?m = "snd (should_send t k m)"
  show ?case
  proof (cases j)
    case 0
    then show ?thesis using Cons.prems send_iff [of t k m] by (auto simp: c not_le)
  next
    case (Suc j')
    with Cons.IH [of j' ?m] Cons.prems consider
      i where "i < j'" "decisions should_send calls ?m ! i" "fst (calls ! i) = fst (calls ! j')" "snd (calls ! j') - snd (calls ! i) < w"
      | t0 where "hm_get ?m (fst (calls ! j')) = Some t0" "snd (calls ! j') - t0 < w"
      by (auto simp: c)
    then show ?thesis
    proof cases
      case 1
      then show ?thesis using Suc by (intro disjI1 exI [of _ "Suc i"]) (simp add: c)
    next
      case 2
      then show ?thesis using Suc get_after [of t k m "fst (calls ! j')"]
        by (cases "fst (calls ! j') = k \<and> ?go") (auto simp: c intro: exI [of _ 0])
    qed
  qed
qed simp

end

interpretation webhook: dedup "webhook_should_send secs" "unat secs * 1000000000" for secs
  by unfold_locales (auto simp: webhook_should_send_def Let_def split: option.splits)

interpretation servicenow: dedup "snow_should_send secs" "unat secs * 1000000000" for secs
  by unfold_locales (auto simp: snow_should_send_def Let_def split: option.splits)

subsection \<open>What a webhook receives\<close>

definition notification_of :: "webhook_config \<Rightarrow> rib_event \<Rightarrow> (rib_event \<times> string \<times> string \<times> string) option" where
  "notification_of cfg ev =
     (case event_to_notification ev of
        None \<Rightarrow> None
      | Some (k, s, v) \<Rightarrow> if passes_min v (wh_min_severity cfg) then Some (ev, k, s, v) else None)"

definition request_of :: "text_deps \<Rightarrow> webhook_config \<Rightarrow> rib_event \<times> string \<times> string \<times> string \<Rightarrow> http_request" where
  "request_of T cfg n = (case n of (ev, k, s, v) \<Rightarrow> webhook_request T cfg ev k s v)"

definition calls_of :: "(nat \<Rightarrow> nat) \<Rightarrow> nat \<Rightarrow> (rib_event \<times> string \<times> string \<times> string) list \<Rightarrow> (string \<times> nat) list" where
  "calls_of clock r ns = map (\<lambda>(i, (ev, k, s, v)). (k, clock i)) (enumerate r ns)"

lemma calls_of_simps [simp]:
  "calls_of clock r [] = []" "calls_of clock r ((ev, k, s, v) # ns) = (k, clock r) # calls_of clock (Suc r) ns"
  by (simp_all add: calls_of_def)

lemma length_calls_of [simp]: "length (calls_of clock r ns) = length ns"
  by (simp add: calls_of_def)

lemma nth_calls_of: "i < length ns \<Longrightarrow> calls_of clock r ns ! i = (fst (snd (ns ! i)), clock (r + i))"
  by (simp add: calls_of_def nth_enumerate_eq split: prod.splits)

lemma sorted_calls_of: "mono clock \<Longrightarrow> sorted (map snd (calls_of clock r ns))"
  by (auto simp: sorted_iff_nth_mono nth_calls_of intro: monoD)

lemma webhook_send_batch_run:
  assumes "\<And>n e. net n \<noteq> Http_Failed e"
  shows "\<exists>st'. webhook_send_batch T net clock cfg evs st = (st', Inr ()) \<and>
    nt_requests st' = nt_requests st @ map (request_of T cfg) (map snd (filter fst (zip
      (decisions (webhook_should_send (wh_dedup_window_secs cfg))
         (calls_of clock (nt_clock_reads st) (List.map_filter (notification_of cfg) evs)) (nt_dedup st))
      (List.map_filter (notification_of cfg) evs))))"
proof (induction evs arbitrary: st)
  case (Cons ev evs)
  show ?case
  proof (cases "notification_of cfg ev")
    case None
    then have "webhook_send_batch T net clock cfg (ev # evs) st = webhook_send_batch T net clock cfg evs st"
      by (auto simp: notification_of_def split: option.splits if_splits)
    with None Cons.IH [of st] show ?thesis by (simp add: map_filter_simps)
  next
    case (Some n)
    obtain k s v where n: "n = (ev, k, s, v)" and ev: "event_to_notification ev = Some (k, s, v)" "passes_min v (wh_min_severity cfg)"
      using Some by (auto simp: notification_of_def split: option.splits if_splits)
    obtain go m where go: "webhook_should_send (wh_dedup_window_secs cfg) (clock (nt_clock_reads st)) k (nt_dedup st) = (go, m)" by force
    let ?st = "st\<lparr>nt_dedup := m, nt_clock_reads := nt_clock_reads st + 1,
      nt_requests := nt_requests st @ (if go then [webhook_request T cfg ev k s v] else [])\<rparr>"
    have "webhook_send_batch T net clock cfg (ev # evs) st = webhook_send_batch T net clock cfg evs ?st"
      using ev go assms by (auto simp: Let_def split: http_reply.splits)
    with Cons.IH [of ?st] Some n go show ?thesis
      by (cases go) (simp_all add: map_filter_simps request_of_def del: webhook_send_batch.simps)
  qed
qed (simp add: map_filter_simps)


definition example_webhook :: webhook_config where
  "example_webhook = \<lparr>wh_url = ''https://hooks'', wh_profile = ''slack'', wh_auth_header = None, wh_min_severity = ''warn'',
     wh_dedup_window_secs = 300, wh_headers = [], wh_body_template = None\<rparr>"

definition new_notifier :: notifier where
  "new_notifier = \<lparr>nt_dedup = [], nt_clock_reads = 0, nt_requests = []\<rparr>"

text \<open>Three times the same event, one second apart: one request.\<close>

definition example_batch :: "rib_event list" where
  "example_batch = [example_event, example_event, example_event]"

definition example_net :: http where
  "example_net n = Http_Response True ''200 OK'' []"


text \<open>C107: a notification whose request fails is not sent again: the rest of its batch is dropped, and within the window
  the same event produces no further request.\<close>

theorem webhook_failure_lost:
  assumes "notification_of cfg ev = Some (ev, k, s, v)" and "hm_get (nt_dedup st) k = None"
    and "net (length (nt_requests st)) = Http_Failed e"
    and "clock (Suc (nt_clock_reads st)) - clock (nt_clock_reads st) < unat (wh_dedup_window_secs cfg) * 1000000000"
  shows "\<exists>st'. webhook_send_batch T net clock cfg (ev # evs) st = (st', Inl ''Webhook send failed'')
    \<and> nt_requests st' = nt_requests st @ [webhook_request T cfg ev k s v]
    \<and> nt_requests (fst (webhook_send_batch T net clock cfg [ev] st')) = nt_requests st'"
proof -
  have ev: "event_to_notification ev = Some (k, s, v)" "passes_min v (wh_min_severity cfg)"
    using assms(1) by (auto simp: notification_of_def split: option.splits if_splits)
  show ?thesis using ev assms(2-4) by (simp add: webhook_should_send_def Let_def)
qed

theorem webhook_failure_lost_witness:
  "\<exists>st'. webhook_send_batch example_texts (\<lambda>_. Http_Failed ''refused'') (\<lambda>i. i) example_webhook [example_event, example_event] new_notifier
      = (st', Inl ''Webhook send failed'')
    \<and> nt_requests (fst (webhook_send_batch example_texts (\<lambda>_. Http_Failed ''refused'') (\<lambda>i. i) example_webhook [example_event] st')) = nt_requests st'"
proof -
  have "notification_of example_webhook example_event
      = Some (example_event, ''10.0.0.1:speaker_down'', ''Speaker down: bye'', ''critical'')" by code_simp
  from webhook_failure_lost [OF this, of new_notifier "\<lambda>_. Http_Failed ''refused''" "''refused''" "\<lambda>i. i" example_texts "[example_event]"]
  show ?thesis by (auto simp: new_notifier_def example_webhook_def simp del: webhook_send_batch.simps)
qed

end
