(* ===== verification/Store_Schema.thy ===== *)
theory Store_Schema
  imports Prelude
begin

text \<open>
  \<^verbatim>\<open>rbmp-store/src/schema.rs\<close>: the tables of the store, and what it takes for an \<^verbatim>\<open>INSERT\<close> to fit them.  Indexes have
  no effect on the rows.  The conversion of a text to a \<^verbatim>\<open>UUID\<close> or a \<^verbatim>\<open>TIMESTAMPTZ\<close> is that of the database, a
  parameter.
\<close>

datatype sql_type = UUID | TIMESTAMPTZ | VARCHAR | UINTEGER | USMALLINT | BOOLEAN | UBIGINT | UTINYINT | INTEGER | DOUBLE

record sql_column =
  cl_name :: string
  cl_type :: sql_type
  cl_not_null :: bool

record sql_table =
  tb_name :: string
  tb_columns :: "sql_column list"
  tb_primary_key :: "string list"

definition required :: "string \<Rightarrow> sql_type \<Rightarrow> sql_column" where
  "required n t = \<lparr>cl_name = n, cl_type = t, cl_not_null = True\<rparr>"

definition optional :: "string \<Rightarrow> sql_type \<Rightarrow> sql_column" where
  "optional n t = \<lparr>cl_name = n, cl_type = t, cl_not_null = False\<rparr>"

subsection \<open>The tables\<close>

definition route_events_table :: sql_table where
  "route_events_table = \<lparr>tb_name = ''route_events'', tb_columns = [
      required ''id'' UUID,
      required ''occurred_at'' TIMESTAMPTZ,
      required ''speaker_addr'' VARCHAR,
      required ''peer_addr'' VARCHAR,
      required ''peer_as'' UINTEGER,
      required ''rib_type'' VARCHAR,
      required ''action'' VARCHAR,
      required ''prefix'' VARCHAR,
      required ''afi'' VARCHAR,
      optional ''origin'' VARCHAR,
      optional ''as_path'' VARCHAR,
      optional ''as_path_len'' USMALLINT,
      optional ''next_hop'' VARCHAR,
      optional ''local_pref'' UINTEGER,
      optional ''med'' UINTEGER,
      optional ''communities'' VARCHAR,
      optional ''ext_communities'' VARCHAR,
      optional ''large_communities'' VARCHAR,
      optional ''originator_id'' VARCHAR,
      optional ''atomic_aggregate'' BOOLEAN,
      optional ''only_to_customer'' UINTEGER,
      optional ''collector_id'' VARCHAR],
     tb_primary_key = []\<rparr>"

definition peer_events_table :: sql_table where
  "peer_events_table = \<lparr>tb_name = ''peer_events'', tb_columns = [
      required ''id'' UUID,
      required ''occurred_at'' TIMESTAMPTZ,
      required ''speaker_addr'' VARCHAR,
      required ''peer_addr'' VARCHAR,
      optional ''peer_as'' UINTEGER,
      required ''event_type'' VARCHAR,
      optional ''local_as'' UINTEGER,
      optional ''hold_time'' USMALLINT,
      optional ''capabilities'' VARCHAR,
      optional ''reason'' VARCHAR,
      optional ''collector_id'' VARCHAR],
     tb_primary_key = []\<rparr>"

definition speaker_events_table :: sql_table where
  "speaker_events_table = \<lparr>tb_name = ''speaker_events'', tb_columns = [
      required ''id'' UUID,
      required ''occurred_at'' TIMESTAMPTZ,
      required ''speaker_addr'' VARCHAR,
      required ''event_type'' VARCHAR,
      optional ''sys_name'' VARCHAR,
      optional ''sys_descr'' VARCHAR,
      optional ''reason'' VARCHAR,
      optional ''collector_id'' VARCHAR],
     tb_primary_key = []\<rparr>"

definition stats_events_table :: sql_table where
  "stats_events_table = \<lparr>tb_name = ''stats_events'', tb_columns = [
      required ''id'' UUID,
      required ''occurred_at'' TIMESTAMPTZ,
      required ''speaker_addr'' VARCHAR,
      required ''peer_addr'' VARCHAR,
      required ''counter_name'' VARCHAR,
      required ''counter_value'' UBIGINT,
      optional ''stat_type'' USMALLINT,
      optional ''afi'' USMALLINT,
      optional ''safi'' UTINYINT],
     tb_primary_key = []\<rparr>"

definition evpn_events_table :: sql_table where
  "evpn_events_table = \<lparr>tb_name = ''evpn_events'', tb_columns = [
      required ''id'' UUID,
      required ''occurred_at'' TIMESTAMPTZ,
      required ''speaker_addr'' VARCHAR,
      required ''peer_addr'' VARCHAR,
      required ''peer_as'' UINTEGER,
      required ''action'' VARCHAR,
      required ''route_type'' UTINYINT,
      required ''route_type_name'' VARCHAR,
      optional ''rd'' VARCHAR,
      optional ''ethernet_tag'' UINTEGER,
      optional ''mac'' VARCHAR,
      optional ''ip'' VARCHAR,
      optional ''prefix_len'' UTINYINT,
      optional ''mpls_label'' UINTEGER,
      optional ''esi_hex'' VARCHAR],
     tb_primary_key = []\<rparr>"

definition ml_anomalies_table :: sql_table where
  "ml_anomalies_table = \<lparr>tb_name = ''ml_anomalies'', tb_columns = [
      optional ''id'' INTEGER,
      required ''detected_at'' TIMESTAMPTZ,
      required ''kind'' VARCHAR,
      optional ''prefix'' VARCHAR,
      optional ''peer_addr'' VARCHAR,
      optional ''score'' DOUBLE,
      optional ''description'' VARCHAR,
      optional ''severity'' VARCHAR],
     tb_primary_key = []\<rparr>"

definition srpolicy_events_table :: sql_table where
  "srpolicy_events_table = \<lparr>tb_name = ''srpolicy_events'', tb_columns = [
      required ''id'' UUID,
      required ''occurred_at'' TIMESTAMPTZ,
      required ''speaker_addr'' VARCHAR,
      required ''peer_addr'' VARCHAR,
      required ''peer_as'' UINTEGER,
      required ''action'' VARCHAR,
      optional ''endpoint'' VARCHAR,
      optional ''color'' UINTEGER,
      optional ''preference'' UINTEGER,
      optional ''bsid'' VARCHAR,
      optional ''segment_list'' VARCHAR,
      optional ''distinguisher'' UINTEGER],
     tb_primary_key = []\<rparr>"

definition aspa_validations_table :: sql_table where
  "aspa_validations_table = \<lparr>tb_name = ''aspa_validations'', tb_columns = [
      required ''id'' UUID,
      required ''occurred_at'' TIMESTAMPTZ,
      required ''prefix'' VARCHAR,
      required ''peer_addr'' VARCHAR,
      required ''peer_as'' UINTEGER,
      required ''customer_asn'' UINTEGER,
      optional ''provider_asns'' VARCHAR,
      required ''result'' VARCHAR,
      optional ''direction'' VARCHAR],
     tb_primary_key = []\<rparr>"

definition bgpsec_validations_table :: sql_table where
  "bgpsec_validations_table = \<lparr>tb_name = ''bgpsec_validations'', tb_columns = [
      required ''occurred_at'' TIMESTAMPTZ,
      required ''prefix'' VARCHAR,
      required ''peer_addr'' VARCHAR,
      optional ''as_path'' VARCHAR,
      required ''verdict'' VARCHAR,
      optional ''invalid_hop'' UTINYINT,
      optional ''invalid_reason'' VARCHAR],
     tb_primary_key = []\<rparr>"

definition convergence_events_table :: sql_table where
  "convergence_events_table = \<lparr>tb_name = ''convergence_events'', tb_columns = [
      required ''event_id'' VARCHAR,
      required ''started_at'' TIMESTAMPTZ,
      optional ''eor_at'' TIMESTAMPTZ,
      optional ''convergence_ms'' DOUBLE,
      required ''speaker_addr'' VARCHAR,
      required ''peer_addr'' VARCHAR,
      optional ''trigger_type'' VARCHAR,
      optional ''affected_prefixes'' UINTEGER,
      optional ''recovered_prefixes'' UINTEGER,
      optional ''unreachable_after'' UINTEGER],
     tb_primary_key = [''event_id'']\<rparr>"

definition policy_configs_table :: sql_table where
  "policy_configs_table = \<lparr>tb_name = ''policy_configs'', tb_columns = [
      required ''fetched_at'' TIMESTAMPTZ,
      required ''peer_addr'' VARCHAR,
      required ''speaker_addr'' VARCHAR,
      required ''policy_name'' VARCHAR,
      required ''direction'' VARCHAR,
      required ''vendor'' VARCHAR,
      required ''clauses_json'' VARCHAR,
      required ''source'' VARCHAR,
      required ''confidence'' DOUBLE],
     tb_primary_key = []\<rparr>"

definition peer_max_prefix_table :: sql_table where
  "peer_max_prefix_table = \<lparr>tb_name = ''peer_max_prefix'', tb_columns = [
      required ''updated_at'' TIMESTAMPTZ,
      required ''speaker_addr'' VARCHAR,
      required ''peer_addr'' VARCHAR,
      required ''peer_as'' UINTEGER,
      required ''afi_safi'' VARCHAR,
      required ''max_prefix'' UINTEGER,
      required ''warning_pct'' USMALLINT],
     tb_primary_key = [''speaker_addr'', ''peer_addr'', ''afi_safi'']\<rparr>"

definition path_markings_table :: sql_table where
  "path_markings_table = \<lparr>tb_name = ''path_markings'', tb_columns = [
      required ''occurred_at'' TIMESTAMPTZ,
      required ''speaker_addr'' VARCHAR,
      required ''peer_addr'' VARCHAR,
      required ''peer_as'' UINTEGER,
      required ''prefix'' VARCHAR,
      required ''afi'' VARCHAR,
      required ''path_status'' UINTEGER,
      required ''path_reason'' USMALLINT,
      required ''status_label'' VARCHAR,
      required ''reason_label'' VARCHAR,
      optional ''collector_id'' VARCHAR],
     tb_primary_key = []\<rparr>"

definition CREATE_TABLES :: "sql_table list" where
  "CREATE_TABLES = [route_events_table, peer_events_table, speaker_events_table, stats_events_table, evpn_events_table, ml_anomalies_table, srpolicy_events_table, aspa_validations_table, bgpsec_validations_table, convergence_events_table, policy_configs_table, peer_max_prefix_table, path_markings_table]"

subsection \<open>Values and statements\<close>

datatype sql_value = SQL_Null | SQL_Text string | SQL_Int int | SQL_Bool bool

type_synonym statement = "string \<times> sql_value list"

text \<open>The integers of a type.\<close>

fun int_range :: "sql_type \<Rightarrow> (int \<times> int) option" where
  "int_range UTINYINT = Some (0, 2 ^ 8)"
| "int_range USMALLINT = Some (0, 2 ^ 16)"
| "int_range UINTEGER = Some (0, 2 ^ 32)"
| "int_range UBIGINT = Some (0, 2 ^ 64)"
| "int_range INTEGER = Some (- (2 ^ 31), 2 ^ 31)"
| "int_range _ = None"

type_synonym cast = "sql_type \<Rightarrow> string \<Rightarrow> bool"

fun fits :: "cast \<Rightarrow> sql_column \<Rightarrow> sql_value \<Rightarrow> bool" where
  "fits cast c SQL_Null \<longleftrightarrow> \<not> cl_not_null c"
| "fits cast c (SQL_Bool b) \<longleftrightarrow> cl_type c = BOOLEAN"
| "fits cast c (SQL_Int i) \<longleftrightarrow> (case int_range (cl_type c) of Some (lo, hi) \<Rightarrow> lo \<le> i \<and> i < hi | None \<Rightarrow> False)"
| "fits cast c (SQL_Text s) \<longleftrightarrow> cl_type c = VARCHAR \<or> cast (cl_type c) s"

text \<open>The columns an \<^verbatim>\<open>INSERT\<close> fills: those it lists, or all of the table; the number of placeholders has to agree.\<close>

fun sql_words :: "string \<Rightarrow> string \<Rightarrow> string list" where
  "sql_words w [] = (if w = [] then [] else [rev w])"
| "sql_words w (c # cs) =
     (if c \<in> {CHR '' '', CHR '','', CHR ''('', CHR '')'', CHR 0x0A}
      then (if w = [] then sql_words [] cs else rev w # sql_words [] cs)
      else sql_words (c # w) cs)"

definition table_named :: "string \<Rightarrow> sql_table option" where
  "table_named n = List.find (\<lambda>t. tb_name t = n) CREATE_TABLES"

definition column_named :: "sql_table \<Rightarrow> string \<Rightarrow> sql_column option" where
  "column_named t n = List.find (\<lambda>c. cl_name c = n) (tb_columns t)"

fun all_some :: "'a option list \<Rightarrow> 'a list option" where
  "all_some [] = Some []"
| "all_some (None # xs) = None"
| "all_some (Some x # xs) = map_option (Cons x) (all_some xs)"

fun insert_columns :: "string list \<Rightarrow> sql_column list option" where
  "insert_columns (kw1 # kw2 # tab # rest) =
     (if kw1 = ''INSERT'' \<and> kw2 = ''INTO'' then
        (case table_named tab of
           None \<Rightarrow> None
         | Some t \<Rightarrow>
             (let names = takeWhile (\<lambda>w. w \<noteq> ''VALUES'') rest;
                  holes = tl (dropWhile (\<lambda>w. w \<noteq> ''VALUES'') rest)
              in case (if names = [] then Some (tb_columns t) else all_some (map (column_named t) names)) of
                   None \<Rightarrow> None
                 | Some cs \<Rightarrow>
                     if holes = replicate (length cs) ''?'' \<and> (\<forall>c \<in> set (tb_columns t). cl_not_null c \<longrightarrow> c \<in> set cs)
                     then Some cs else None))
      else None)"
| "insert_columns _ = None"

definition statement_fits :: "cast \<Rightarrow> statement \<Rightarrow> bool" where
  "statement_fits cast st =
     (case st of (sql, params) \<Rightarrow>
        (case insert_columns (sql_words [] sql) of None \<Rightarrow> False | Some cs \<Rightarrow> list_all2 (fits cast) cs params))"

end
