(* ===== verification/Store_Writer.thy ===== *)
theory Store_Writer
  imports Event_Sinks Json Store_Schema
begin

text \<open>
  \<^verbatim>\<open>rbmp-store/src/writer.rs\<close>: the task that writes the event stream to DuckDB in batches, and the rows it writes
  for an event.  The database is a parameter \<open>duckdb\<close>: a statement gives a new state and tells whether it succeeded.
  \<open>duckdb_ok\<close> is its documented behaviour while nothing fails: statements between \<^verbatim>\<open>BEGIN\<close> and \<^verbatim>\<open>COMMIT\<close> become
  visible, in order, at the commit.

  The inputs of the loop are what \<^verbatim>\<open>select!\<close> yields: an event, a report of dropped events, the end of the channel, or
  the deadline of the batch.

  Results: every statement fits the table it inserts into; until the channel closes every event is written exactly once and
  in order, in batches of at most 500; a row that the database rejects loses the whole batch.
\<close>

subsection \<open>Statements\<close>

definition sql_opt :: "('a \<Rightarrow> sql_value) \<Rightarrow> 'a option \<Rightarrow> sql_value" where
  "sql_opt f x = (case x of None \<Rightarrow> SQL_Null | Some y \<Rightarrow> f y)"

definition sql_word :: "'a::len word \<Rightarrow> sql_value" where
  "sql_word v = SQL_Int (uint v)"

definition sql_ip :: "ip_addr \<Rightarrow> sql_value" where
  "sql_ip a = SQL_Text (show_ip a)"

definition insert_sql :: "string \<Rightarrow> nat \<Rightarrow> string" where
  "insert_sql table n = ''INSERT INTO '' @ table @ '' VALUES ('' @ join '', '' (replicate n ''?'') @ '')''"

definition peer_events_sql :: string where
  "peer_events_sql = ''INSERT INTO peer_events ('' @ newline
     @ ''                    id, occurred_at, speaker_addr, peer_addr, peer_as,'' @ newline
     @ ''                    event_type, local_as, hold_time, capabilities, reason, collector_id'' @ newline
     @ ''                ) VALUES (?, ?, ?, ?, ?, ?, ?, ?, ?, ?, ?)''"

definition speaker_events_sql :: string where
  "speaker_events_sql = ''INSERT INTO speaker_events ('' @ newline
     @ ''                    id, occurred_at, speaker_addr, event_type,'' @ newline
     @ ''                    sys_name, sys_descr, reason, collector_id'' @ newline
     @ ''                ) VALUES (?, ?, ?, ?, ?, ?, ?, ?)''"

definition writer_hex_encode :: "bytes \<Rightarrow> string" where
  "writer_hex_encode b = join '''' (map show_hex2 b)"

type_synonym evpn_columns =
  "string option \<times> u32 option \<times> string option \<times> string option \<times> u8 option \<times> u32 option \<times> string option"

text \<open>Route distinguisher, Ethernet tag, MAC, IP, prefix length, label and segment identifier.\<close>

fun evpn_route_fields :: "evpn_route \<Rightarrow> evpn_columns" where
  "evpn_route_fields (EthernetAutoDiscovery rd esi ethernet_tag mpls_label) =
     (Some (writer_hex_encode rd), Some ethernet_tag, None, None, None, Some mpls_label, Some (writer_hex_encode esi))"
| "evpn_route_fields (MacIpAdvertisement rd esi ethernet_tag mac ip mpls_label1 mpls_label2) =
     (Some (writer_hex_encode rd), Some ethernet_tag, Some (join '':'' (map show_hex2 mac)), map_option show_ip ip, None,
      Some mpls_label1, Some (writer_hex_encode esi))"
| "evpn_route_fields (InclusiveMulticastEthernetTag rd ethernet_tag originating_router_ip) =
     (Some (writer_hex_encode rd), Some ethernet_tag, None, Some (show_ip originating_router_ip), None, None, None)"
| "evpn_route_fields (EthernetSegment rd esi originating_router_ip) =
     (Some (writer_hex_encode rd), None, None, Some (show_ip originating_router_ip), None, None, Some (writer_hex_encode esi))"
| "evpn_route_fields (IpPrefix rd esi ethernet_tag pfx prefix_len gw mpls_label) =
     (Some (writer_hex_encode rd), Some ethernet_tag, None, Some (show_ip pfx), Some prefix_len, Some mpls_label,
      Some (writer_hex_encode esi))"
| "evpn_route_fields (SelectiveMulticastEthernetTag rd ethernet_tag multicast_source grp originating_router_ip) =
     (Some (writer_hex_encode rd), Some ethernet_tag, Some (show_ip multicast_source), Some (show_ip originating_router_ip), None, None, None)"
| "evpn_route_fields (IgmpJoinSynch rd ethernet_tag multicast_source grp originating_router_ip) =
     (Some (writer_hex_encode rd), Some ethernet_tag, Some (show_ip multicast_source), Some (show_ip originating_router_ip), None, None, None)"
| "evpn_route_fields (IgmpLeaveSynch rd ethernet_tag multicast_source grp originating_router_ip) =
     (Some (writer_hex_encode rd), Some ethernet_tag, Some (show_ip multicast_source), Some (show_ip originating_router_ip), None, None, None)"
| "evpn_route_fields (SPmsi rd ethernet_tag multicast_source grp originating_router_ip) =
     (Some (writer_hex_encode rd), Some ethernet_tag, Some (show_ip multicast_source), Some (show_ip originating_router_ip), None, None, None)"
| "evpn_route_fields (PerRegionIPmsi rd ethernet_tag originating_router_ip) =
     (Some (writer_hex_encode rd), Some ethernet_tag, None, Some (show_ip originating_router_ip), None, None, None)"
| "evpn_route_fields (LeafAD route_key path_id) = (None, None, None, None, None, Some path_id, None)"
| "evpn_route_fields (Evpn_Unknown t d) = (None, None, None, None, None, None, None)"

text \<open>\<^verbatim>\<open>attrs.as_ref().and_then(f)\<close>.\<close>

definition attr_of :: "(path_attributes \<Rightarrow> 'a option) \<Rightarrow> route_change \<Rightarrow> 'a option" where
  "attr_of f rc = (case rc_attributes rc of None \<Rightarrow> None | Some a \<Rightarrow> f a)"

definition joined :: "(path_attributes \<Rightarrow> 'a list) \<Rightarrow> ('a \<Rightarrow> string) \<Rightarrow> route_change \<Rightarrow> sql_value" where
  "joined f show rc = sql_opt (\<lambda>a. SQL_Text (join '','' (map show (f a)))) (rc_attributes rc)"

definition route_row :: "text_deps \<Rightarrow> rib_event \<Rightarrow> route_change \<Rightarrow> string \<Rightarrow> statement" where
  "route_row T ev rc pfx =
     (insert_sql ''route_events'' 22,
      [SQL_Text (td_uuid T (ev_id ev)), SQL_Text (td_rfc3339 T (ev_occurred_at ev)), sql_ip (ev_speaker ev),
       sql_ip (ph_address (rc_peer_header rc)), sql_word (ph_as (rc_peer_header rc)),
       SQL_Text (debug_rib_type (rc_rib_type rc)), SQL_Text (action_lower (rc_action rc)), SQL_Text pfx,
       SQL_Text (show_nat (unat (afi_as_u16 (addr_family (rc_prefix rc))))),
       sql_opt (\<lambda>x. SQL_Text (show_origin x)) (attr_of pa_origin rc),
       sql_opt (\<lambda>p. SQL_Text (show_as_path p)) (attr_of pa_as_path rc),
       sql_opt (\<lambda>p. sql_word (word_of_nat (hop_count p) :: u16)) (attr_of pa_as_path rc),
       sql_opt sql_ip (attr_of pa_next_hop rc),
       sql_opt sql_word (attr_of local_pref rc),
       sql_opt sql_word (attr_of multi_exit_disc rc),
       joined communities show_community rc,
       joined extended_communities show_ext_community rc,
       joined large_communities show_large_community rc,
       sql_opt (\<lambda>a. SQL_Text (show_ipv4 a)) (attr_of originator_id rc),
       SQL_Bool (case rc_attributes rc of None \<Rightarrow> False | Some a \<Rightarrow> atomic_aggregate a),
       sql_opt sql_word (attr_of only_to_customer rc),
       SQL_Null])"

definition marking_row :: "text_deps \<Rightarrow> rib_event \<Rightarrow> route_change \<Rightarrow> string \<Rightarrow> path_status_tlv \<Rightarrow> statement" where
  "marking_row T ev rc pfx ps =
     (insert_sql ''path_markings'' 11,
      [SQL_Text (td_rfc3339 T (ev_occurred_at ev)), sql_ip (ev_speaker ev), sql_ip (ph_address (rc_peer_header rc)),
       sql_word (ph_as (rc_peer_header rc)), SQL_Text pfx,
       SQL_Text (show_nat (unat (afi_as_u16 (addr_family (rc_prefix rc))))),
       sql_word (ps_status ps), sql_word (ps_reason ps), SQL_Text (status_label ps), SQL_Text (reason_label ps), SQL_Null])"

definition evpn_row :: "text_deps \<Rightarrow> rib_event \<Rightarrow> route_change \<Rightarrow> evpn_route \<Rightarrow> statement" where
  "evpn_row T ev rc route =
     (case evpn_route_fields route of (rd_s, etag, mac_s, ip_s, pfxlen, label, esi_s) \<Rightarrow>
        (insert_sql ''evpn_events'' 15,
         [SQL_Text (td_uuid T (ev_id ev)), SQL_Text (td_rfc3339 T (ev_occurred_at ev)), sql_ip (ev_speaker ev),
          sql_ip (ph_address (rc_peer_header rc)), sql_word (ph_as (rc_peer_header rc)), SQL_Text ''announce'',
          sql_word (route_type_code route), SQL_Text (route_type_name route),
          sql_opt SQL_Text rd_s, sql_opt sql_word etag, sql_opt SQL_Text mac_s, sql_opt SQL_Text ip_s,
          sql_opt sql_word pfxlen, sql_opt sql_word label, sql_opt SQL_Text esi_s]))"

definition peer_row :: "text_deps \<Rightarrow> rib_event \<Rightarrow> peer_header \<Rightarrow> string \<Rightarrow> sql_value list \<Rightarrow> statement" where
  "peer_row T ev hdr event_type rest =
     (peer_events_sql,
      [SQL_Text (td_uuid T (ev_id ev)), SQL_Text (td_rfc3339 T (ev_occurred_at ev)), sql_ip (ev_speaker ev),
       sql_ip (ph_address hdr), sql_word (ph_as hdr), SQL_Text event_type] @ rest @ [SQL_Null])"

definition speaker_row :: "text_deps \<Rightarrow> rib_event \<Rightarrow> string \<Rightarrow> sql_value list \<Rightarrow> statement" where
  "speaker_row T ev event_type rest =
     (speaker_events_sql,
      [SQL_Text (td_uuid T (ev_id ev)), SQL_Text (td_rfc3339 T (ev_occurred_at ev)), sql_ip (ev_speaker ev),
       SQL_Text event_type] @ rest @ [SQL_Null])"

definition stats_row :: "text_deps \<Rightarrow> rib_event \<Rightarrow> peer_header \<Rightarrow> stat_entry \<Rightarrow> statement" where
  "stats_row T ev hdr stat =
     (insert_sql ''stats_events'' 9,
      [SQL_Text (td_uuid T (ev_id ev)), SQL_Text (td_rfc3339 T (ev_occurred_at ev)), sql_ip (ev_speaker ev),
       sql_ip (ph_address hdr), SQL_Text (stat_name_of stat), sql_word (stat_value stat), sql_word (stat_type stat),
       sql_opt (\<lambda>a. sql_word (afi_as_u16 (afi_of a))) (stat_afi_safi stat),
       sql_opt (\<lambda>a. sql_word (safi_as_u8 (safi_of a))) (stat_afi_safi stat)])"

text \<open>The statements of an event, in the order in which \<^verbatim>\<open>persist_one\<close> executes them.  \<open>caps\<close> is
  \<^verbatim>\<open>serde_json::to_string\<close> of the capability names, empty on error.\<close>

definition statements :: "crates \<Rightarrow> text_deps \<Rightarrow> (string list \<Rightarrow> string) \<Rightarrow> rib_event \<Rightarrow> statement list result" where
  "statements C T caps ev =
     (case ev_payload ev of
        Ev_RouteChange rc \<Rightarrow>
          rbind (show_prefix C (rc_prefix rc)) (\<lambda>pfx.
            Ok ([route_row T ev rc pfx]
                @ (case attr_of path_status rc of None \<Rightarrow> [] | Some ps \<Rightarrow> [marking_row T ev rc pfx ps])
                @ (if rc_action rc = Announce
                   then (case attr_of evpn_reach rc of None \<Rightarrow> [] | Some evpn \<Rightarrow> map (evpn_row T ev rc) (er_routes evpn))
                   else [])))
      | Ev_PeerUp hdr local_asn remote_asn hold_time capabilities \<Rightarrow>
          Ok [peer_row T ev hdr ''peer_up'' [sql_word local_asn, sql_word hold_time, SQL_Text (caps capabilities), SQL_Null]]
      | Ev_PeerDown hdr reason \<Rightarrow>
          Ok [peer_row T ev hdr ''peer_down'' [SQL_Null, SQL_Null, SQL_Null, SQL_Text reason]]
      | Ev_SpeakerUp sys_name sys_descr \<Rightarrow>
          Ok [speaker_row T ev ''speaker_up'' [sql_opt SQL_Text sys_name, sql_opt SQL_Text sys_descr, SQL_Null]]
      | Ev_SpeakerDown reason \<Rightarrow> Ok [speaker_row T ev ''speaker_down'' [SQL_Null, SQL_Null, SQL_Text reason]]
      | Ev_Stats hdr counters \<Rightarrow> Ok (map (stats_row T ev hdr) counters)
      | Ev_EndOfRib hdr afi_safi \<Rightarrow> Ok [])"

subsection \<open>The database and the loop\<close>

record 'd duckdb =
  db_lock :: "'d \<Rightarrow> bool"
  db_execute :: "string \<Rightarrow> sql_value list \<Rightarrow> 'd \<Rightarrow> 'd \<times> bool"
  db_execute_batch :: "string \<Rightarrow> 'd \<Rightarrow> 'd \<times> bool"

fun execute_all :: "'d duckdb \<Rightarrow> statement list \<Rightarrow> 'd \<Rightarrow> 'd \<times> bool" where
  "execute_all B [] d = (d, True)"
| "execute_all B ((sql, params) # sts) d =
     (case db_execute B sql params d of (d, success) \<Rightarrow> if success then execute_all B sts d else (d, False))"

definition persist_one :: "crates \<Rightarrow> text_deps \<Rightarrow> (string list \<Rightarrow> string) \<Rightarrow> 'd duckdb \<Rightarrow> rib_event \<Rightarrow> 'd \<Rightarrow> ('d \<times> bool) result" where
  "persist_one C T caps B ev d = rbind (statements C T caps ev) (\<lambda>sts. Ok (execute_all B sts d))"

text \<open>The error of one event is only logged.\<close>

definition flush_batch :: "crates \<Rightarrow> text_deps \<Rightarrow> (string list \<Rightarrow> string) \<Rightarrow> 'd duckdb \<Rightarrow> rib_event list \<Rightarrow> 'd \<Rightarrow> 'd result" where
  "flush_batch C T caps B batch d =
     (if \<not> db_lock B d then Ok d
      else case db_execute_batch B ''BEGIN'' d of (d, success) \<Rightarrow>
        if \<not> success then Ok d
        else rbind (rfold (\<lambda>ev d. rbind (persist_one C T caps B ev d) (\<lambda>(d, success). Ok d)) batch d) (\<lambda>d.
          case db_execute_batch B ''COMMIT'' d of (d, success) \<Rightarrow>
            Ok (if success then d else fst (db_execute_batch B ''ROLLBACK'' d))))"

definition STORE_BATCH_SIZE :: nat where "STORE_BATCH_SIZE = 500"

datatype writer_input = W_Event rib_event | W_Lagged u64 | W_Closed | W_Deadline

text \<open>The events that no flush has seen yet are returned with the state.\<close>

fun run_store_writer :: "(rib_event list \<Rightarrow> 'd \<Rightarrow> 'd result) \<Rightarrow> writer_input list \<Rightarrow> rib_event list \<Rightarrow> 'd \<Rightarrow> ('d \<times> rib_event list) result" where
  "run_store_writer flush [] batch d = Ok (d, batch)"
| "run_store_writer flush (W_Event ev # is) batch d =
     (let batch = batch @ [ev] in
      if length batch \<ge> STORE_BATCH_SIZE
      then rbind (flush batch d) (\<lambda>d. run_store_writer flush is [] d)
      else run_store_writer flush is batch d)"
| "run_store_writer flush (W_Lagged n # is) batch d = run_store_writer flush is batch d"
| "run_store_writer flush (W_Closed # is) batch d =
     (if batch \<noteq> [] then rbind (flush batch d) (\<lambda>d. Ok (d, [])) else Ok (d, []))"
| "run_store_writer flush (W_Deadline # is) batch d =
     (if batch \<noteq> [] then rbind (flush batch d) (\<lambda>d. run_store_writer flush is [] d)
      else run_store_writer flush is batch d)"

subsection \<open>Batches\<close>

fun written :: "writer_input list \<Rightarrow> rib_event list" where
  "written [] = []"
| "written (W_Event ev # is) = ev # written is"
| "written (W_Lagged n # is) = written is"
| "written (W_Closed # is) = []"
| "written (W_Deadline # is) = written is"

fun batches :: "writer_input list \<Rightarrow> rib_event list \<Rightarrow> rib_event list list \<times> rib_event list" where
  "batches [] batch = ([], batch)"
| "batches (W_Event ev # is) batch =
     (if length (batch @ [ev]) \<ge> STORE_BATCH_SIZE
      then (case batches is [] of (bs, rest) \<Rightarrow> ((batch @ [ev]) # bs, rest))
      else batches is (batch @ [ev]))"
| "batches (W_Lagged n # is) batch = batches is batch"
| "batches (W_Closed # is) batch = (if batch \<noteq> [] then [batch] else [], [])"
| "batches (W_Deadline # is) batch =
     (if batch \<noteq> [] then (case batches is [] of (bs, rest) \<Rightarrow> (batch # bs, rest)) else batches is batch)"

lemma run_store_writer_batches:
  "run_store_writer flush is batch d =
     (case batches is batch of (bs, rest) \<Rightarrow> rbind (rfold flush bs d) (\<lambda>d. Ok (d, rest)))"
proof (induction "is" batch arbitrary: d rule: batches.induct)
  case (2 ev "is" batch)
  show ?case
  proof (cases "length (batch @ [ev]) \<ge> STORE_BATCH_SIZE")
    case True
    obtain bs rest where b: "batches is [] = (bs, rest)" by force
    have "run_store_writer flush is [] = (\<lambda>d. rbind (rfold flush bs d) (\<lambda>d. Ok (d, rest)))"
      using "2.IH"(1) [OF True] by (simp add: b fun_eq_iff)
    with True show ?thesis by (simp add: b rbind_assoc)
  qed (use "2.IH"(2) in simp)
next
  case (5 "is" batch)
  show ?case
  proof (cases "batch = []")
    case False
    obtain bs rest where b: "batches is [] = (bs, rest)" by force
    have "run_store_writer flush is [] = (\<lambda>d. rbind (rfold flush bs d) (\<lambda>d. Ok (d, rest)))"
      using "5.IH"(1) [OF False] by (simp add: b fun_eq_iff)
    with False show ?thesis by (simp add: b rbind_assoc)
  qed (use "5.IH"(2) in simp)
qed (simp_all add: rbind_assoc)

lemma batches_spec:
  "batches is batch = (bs, rest) \<Longrightarrow> length batch < STORE_BATCH_SIZE \<Longrightarrow>
   concat bs @ rest = batch @ written is \<and> (\<forall>b \<in> set bs. 0 < length b \<and> length b \<le> STORE_BATCH_SIZE)
   \<and> (W_Closed \<in> set is \<longrightarrow> rest = []) \<and> length rest < STORE_BATCH_SIZE"
proof (induction "is" batch arbitrary: bs rest rule: batches.induct)
  case (2 ev "is" batch)
  show ?case
  proof (cases "length (batch @ [ev]) \<ge> STORE_BATCH_SIZE")
    case True
    obtain bs' where "batches is [] = (bs', rest)" and [simp]: "bs = (batch @ [ev]) # bs'"
      using True "2.prems"(1) by (auto split: prod.splits)
    with "2.IH"(1) [OF True this(1)] "2.prems"(2) show ?thesis by (auto simp: STORE_BATCH_SIZE_def)
  next
    case False
    with "2.IH"(2) [OF False, of bs rest] "2.prems" show ?thesis by auto
  qed
next
  case (5 "is" batch)
  show ?case
  proof (cases "batch = []")
    case False
    obtain bs' where "batches is [] = (bs', rest)" and [simp]: "bs = batch # bs'"
      using False "5.prems"(1) by (auto split: prod.splits)
    with "5.IH"(1) [OF False this(1)] "5.prems"(2) False show ?thesis by (auto simp: STORE_BATCH_SIZE_def)
  next
    case True
    with "5.IH"(2) [of bs rest] "5.prems" show ?thesis by simp
  qed
next
  case (3 n "is" batch)
  then show ?case using "3.IH" [of bs rest] by simp
next
  case (4 "is" batch)
  then show ?case by (auto simp: STORE_BATCH_SIZE_def split: if_splits)
qed simp

subsection \<open>The contents of the tables\<close>

text \<open>\<open>content\<close> gives the statements committed and those of the open transaction.\<close>

definition duckdb_ok :: "cast \<Rightarrow> 'd duckdb \<Rightarrow> ('d \<Rightarrow> statement list \<times> statement list) \<Rightarrow> bool" where
  "duckdb_ok cast B content \<longleftrightarrow>
     (\<forall>d. db_lock B d)
   \<and> (\<forall>d. \<exists>d'. db_execute_batch B ''BEGIN'' d = (d', True) \<and> content d' = (fst (content d), []))
   \<and> (\<forall>d sql params. statement_fits cast (sql, params) \<longrightarrow>
        (\<exists>d'. db_execute B sql params d = (d', True) \<and> content d' = (fst (content d), snd (content d) @ [(sql, params)])))
   \<and> (\<forall>d. \<exists>d'. db_execute_batch B ''COMMIT'' d = (d', True) \<and> content d' = (fst (content d) @ snd (content d), []))"

text \<open>The text forms of identifiers and times are accepted for their types.\<close>

definition text_castable :: "cast \<Rightarrow> text_deps \<Rightarrow> bool" where
  "text_castable cast T \<longleftrightarrow> (\<forall>u. cast UUID (td_uuid T u)) \<and> (\<forall>t. cast TIMESTAMPTZ (td_rfc3339 T t))"

definition rows_of :: "crates \<Rightarrow> text_deps \<Rightarrow> (string list \<Rightarrow> string) \<Rightarrow> rib_event \<Rightarrow> statement list" where
  "rows_of C T caps ev = (case statements C T caps ev of Ok sts \<Rightarrow> sts | _ \<Rightarrow> [])"

lemma statements_Ok: "event_wf ev \<Longrightarrow> statements C T caps ev = Ok (rows_of C T caps ev)"
  using show_prefix_wf [where ?'a = error, of _ C]
  by (fastforce simp: event_wf_def statements_def rows_of_def split: rib_event_payload.splits)

subsection \<open>The rows fit the schema\<close>

lemmas table_defs = CREATE_TABLES_def required_def optional_def route_events_table_def peer_events_table_def speaker_events_table_def
  stats_events_table_def evpn_events_table_def path_markings_table_def

lemma insert_targets:
  "insert_columns (sql_words [] (insert_sql ''route_events'' 22)) = Some (tb_columns route_events_table)"
  "insert_columns (sql_words [] (insert_sql ''path_markings'' 11)) = Some (tb_columns path_markings_table)"
  "insert_columns (sql_words [] (insert_sql ''evpn_events'' 15)) = Some (tb_columns evpn_events_table)"
  "insert_columns (sql_words [] (insert_sql ''stats_events'' 9)) = Some (tb_columns stats_events_table)"
  "insert_columns (sql_words [] peer_events_sql) = Some (tb_columns peer_events_table)"
  "insert_columns (sql_words [] speaker_events_sql) = Some (tb_columns speaker_events_table)"
  by code_simp+

lemma fits_word [simp]:
  "cl_type c = UTINYINT \<Longrightarrow> fits cast c (sql_word (b :: u8))"
  "cl_type c = USMALLINT \<Longrightarrow> fits cast c (sql_word (h :: u16))"
  "cl_type c = UINTEGER \<Longrightarrow> fits cast c (sql_word (w :: u32))"
  "cl_type c = UBIGINT \<Longrightarrow> fits cast c (sql_word (d :: u64))"
  using uint_lt2p [of b] uint_lt2p [of h] uint_lt2p [of w] uint_lt2p [of d] by (simp_all add: sql_word_def)

lemma fits_opt [simp]: "fits cast c (sql_opt f x) \<longleftrightarrow> (case x of None \<Rightarrow> \<not> cl_not_null c | Some y \<Rightarrow> fits cast c (f y))"
  by (simp add: sql_opt_def split: option.splits)

lemma fits_text [simp]: "cl_type c = VARCHAR \<Longrightarrow> fits cast c (sql_ip a)"
  by (simp add: sql_ip_def)

lemma statements_fit:
  assumes T: "text_castable cast T" and "statements C T caps ev = Ok sts" and "st \<in> set sts"
  shows "statement_fits cast st"
proof -
  have cast [simp]: "cast UUID (td_uuid T u)" "cast TIMESTAMPTZ (td_rfc3339 T t)" for u t
    using T by (simp_all add: text_castable_def)
  have row: "statement_fits cast (route_row T ev rc pfx)" for rc pfx
    by (simp add: statement_fits_def route_row_def insert_targets route_events_table_def required_def optional_def joined_def split: option.splits)
  have mark: "statement_fits cast (marking_row T ev rc pfx ps)" for rc pfx ps
    by (simp add: statement_fits_def marking_row_def insert_targets path_markings_table_def required_def optional_def)
  have evpn: "statement_fits cast (evpn_row T ev rc r)" for rc r
    by (simp add: statement_fits_def evpn_row_def insert_targets evpn_events_table_def required_def optional_def split: prod.splits option.splits)
  have stats: "statement_fits cast (stats_row T ev hdr s)" for hdr s
    by (simp add: statement_fits_def stats_row_def insert_targets stats_events_table_def required_def optional_def split: option.splits)
  show ?thesis
  proof (cases "ev_payload ev")
    case (Ev_RouteChange rc)
    with assms(2,3) row mark evpn show ?thesis by (auto simp: statements_def split: if_splits option.splits)
  next
    case (Ev_Stats hdr cs)
    with assms(2,3) stats show ?thesis by (auto simp: statements_def)
  qed (use assms(2,3) in \<open>auto simp: statements_def statement_fits_def peer_row_def speaker_row_def insert_targets
        peer_events_table_def speaker_events_table_def required_def optional_def split: option.splits\<close>)
qed

lemma rows_fit: "text_castable cast T \<Longrightarrow> event_wf ev \<Longrightarrow> st \<in> set (rows_of C T caps ev) \<Longrightarrow> statement_fits cast st"
  using statements_fit statements_Ok by blast

lemma execute_all_ok:
  assumes "duckdb_ok cast B content" "\<forall>st \<in> set sts. statement_fits cast st"
  shows "\<exists>d'. execute_all B sts d = (d', True) \<and> content d' = (fst (content d), snd (content d) @ sts)"
  using assms(2)
proof (induction sts arbitrary: d)
  case (Cons st sts)
  obtain sql params where st: "st = (sql, params)" by force
  obtain d1 where d1: "db_execute B sql params d = (d1, True)" "content d1 = (fst (content d), snd (content d) @ [st])"
    using assms(1) Cons.prems unfolding duckdb_ok_def st by (metis list.set_intros(1))
  from Cons.IH [of d1] Cons.prems d1 show ?case by (auto simp: st)
qed simp

lemma persist_all_ok:
  assumes "duckdb_ok cast B content" "text_castable cast T" "\<forall>ev \<in> set batch. event_wf ev"
  shows "\<exists>d'. rfold (\<lambda>ev d. rbind (persist_one C T caps B ev d) (\<lambda>(d, success). Ok d)) batch d = Ok d'
    \<and> content d' = (fst (content d), snd (content d) @ concat (map (rows_of C T caps) batch))"
  using assms(3)
proof (induction batch arbitrary: d)
  case (Cons ev batch)
  obtain d1 where d1: "execute_all B (rows_of C T caps ev) d = (d1, True)" "content d1 = (fst (content d), snd (content d) @ rows_of C T caps ev)"
    using execute_all_ok [OF assms(1)] rows_fit [OF assms(2)] Cons.prems by (metis list.set_intros(1))
  from Cons.IH [of d1] Cons.prems d1 show ?case by (auto simp: persist_one_def statements_Ok)
qed simp

lemma flush_batch_ok:
  assumes "duckdb_ok cast B content" "text_castable cast T" "\<forall>ev \<in> set batch. event_wf ev"
  shows "\<exists>d'. flush_batch C T caps B batch d = Ok d' \<and> content d' = (fst (content d) @ concat (map (rows_of C T caps) batch), [])"
proof -
  obtain d1 where d1: "db_execute_batch B ''BEGIN'' d = (d1, True)" "content d1 = (fst (content d), [])"
    using assms(1) unfolding duckdb_ok_def by blast
  obtain d2 where d2: "rfold (\<lambda>ev d. rbind (persist_one C T caps B ev d) (\<lambda>(d, success). Ok d)) batch d1 = Ok d2"
    "content d2 = (fst (content d), concat (map (rows_of C T caps) batch))"
    using persist_all_ok [OF assms, of C caps d1] d1(2) by auto
  obtain d3 where d3: "db_execute_batch B ''COMMIT'' d2 = (d3, True)" "content d3 = (fst (content d2) @ snd (content d2), [])"
    using assms(1) unfolding duckdb_ok_def by blast
  have "db_lock B d" using assms(1) by (simp add: duckdb_ok_def)
  with d1 d2 d3 show ?thesis by (simp add: flush_batch_def)
qed

lemma flush_all_ok:
  assumes "duckdb_ok cast B content" "text_castable cast T" "\<forall>b \<in> set bs. \<forall>ev \<in> set b. event_wf ev"
  shows "\<exists>d'. rfold (flush_batch C T caps B) bs d = Ok d'
    \<and> fst (content d') = fst (content d) @ concat (map (rows_of C T caps) (concat bs))"
  using assms(3)
proof (induction bs arbitrary: d)
  case (Cons b bs)
  obtain d1 where d1: "flush_batch C T caps B b d = Ok d1" "content d1 = (fst (content d) @ concat (map (rows_of C T caps) b), [])"
    using flush_batch_ok [OF assms(1,2), of b C caps d] Cons.prems by auto
  from Cons.IH [of d1] Cons.prems d1 show ?case by auto
qed simp

text \<open>C14: when the channel closes, every event taken from it has been written, exactly once and in order: the tables hold
  their earlier contents followed by the rows of the events.\<close>

theorem store_complete:
  assumes "duckdb_ok cast B content" and "text_castable cast T" and "\<forall>ev \<in> set (written is). event_wf ev" and "W_Closed \<in> set is"
  shows "\<exists>d'. run_store_writer (flush_batch C T caps B) is [] d = Ok (d', [])
    \<and> fst (content d') = fst (content d) @ concat (map (rows_of C T caps) (written is))"
proof -
  obtain bs rest where b: "batches is [] = (bs, rest)" by force
  have spec: "concat bs @ rest = written is" "rest = []"
    using batches_spec [OF b] assms(4) by (auto simp: STORE_BATCH_SIZE_def)
  then have "set (written is) = (\<Union>b \<in> set bs. set b)" by (metis append_Nil2 set_concat)
  with assms(3) have "\<forall>b \<in> set bs. \<forall>ev \<in> set b. event_wf ev" by auto
  from flush_all_ok [OF assms(1,2) this, of C caps d] spec show ?thesis by (auto simp: run_store_writer_batches b)
qed

definition doc_duckdb :: "(statement list \<times> statement list) duckdb" where
  "doc_duckdb = \<lparr>db_lock = \<lambda>_. True,
     db_execute = \<lambda>sql params d. ((fst d, snd d @ [(sql, params)]), True),
     db_execute_batch = \<lambda>sql d. if sql = ''COMMIT'' then ((fst d @ snd d, []), True) else ((fst d, []), True)\<rparr>"

lemma doc_duckdb_ok: "duckdb_ok cast doc_duckdb id"
  by (simp add: duckdb_ok_def doc_duckdb_def)

definition example_inputs :: "writer_input list" where
  "example_inputs = [W_Event example_event, W_Lagged 7, W_Deadline, W_Event example_route_event, W_Closed]"

theorem store_complete_witness:
  "\<exists>d'. run_store_writer (flush_batch doc_crates example_texts (\<lambda>_. []) doc_duckdb) example_inputs [] ([], []) = Ok (d', [])
    \<and> length (fst d') = 2"
proof -
  have wf: "\<forall>ev \<in> set (written example_inputs). event_wf ev" by code_simp
  have castable: "text_castable (\<lambda>_ _. True) example_texts" by (simp add: text_castable_def)
  have closed: "W_Closed \<in> set example_inputs" by (simp add: example_inputs_def)
  obtain d' where d': "run_store_writer (flush_batch doc_crates example_texts (\<lambda>_. []) doc_duckdb) example_inputs [] ([], []) = Ok (d', [])"
    "fst d' = concat (map (rows_of doc_crates example_texts (\<lambda>_. [])) (written example_inputs))"
    using store_complete [OF doc_duckdb_ok [of "\<lambda>_ _. True"] castable wf closed, of doc_crates "\<lambda>_. []" "([], [])"] by auto
  have "length (concat (map (rows_of doc_crates example_texts (\<lambda>_. [])) (written example_inputs))) = 2"
    by (simp add: example_inputs_def rows_of_def statements_def example_event_def example_route_event_def attr_of_def)
  with d' show ?thesis by auto
qed

text \<open>No batch handed to the database is empty or holds more than 500 events.\<close>

theorem store_batches_bounded:
  "\<exists>bs rest. run_store_writer flush is [] d = rbind (rfold flush bs d) (\<lambda>d. Ok (d, rest))
    \<and> concat bs @ rest = written is \<and> (\<forall>b \<in> set bs. 0 < length b \<and> length b \<le> 500) \<and> length rest < 500"
proof -
  obtain bs rest where b: "batches is [] = (bs, rest)" by force
  from batches_spec [OF this] show ?thesis
    by (intro exI [of _ bs] exI [of _ rest]) (simp add: run_store_writer_batches b STORE_BATCH_SIZE_def)
qed

text \<open>C15: every statement the writer executes for an event inserts into a table of the schema, fills each of its columns, and
  gives every column a value of its type: integers in range, texts that convert, and no null where the column forbids it.\<close>

theorem store_rows_typed:
  assumes "text_castable cast T" and "statements C T caps ev = Ok sts" and "st \<in> set sts"
  shows "statement_fits cast st"
  by (rule statements_fit [OF assms])

theorem store_rows_typed_witness:
  "\<exists>st. statements doc_crates example_texts (\<lambda>_. []) example_event = Ok [st] \<and> statement_fits (\<lambda>_ _. True) st"
proof -
  have castable: "text_castable (\<lambda>_ _. True) example_texts" by (simp add: text_castable_def)
  obtain st where st: "statements doc_crates example_texts (\<lambda>_. []) example_event = Ok [st]"
    by (simp add: statements_def example_event_def)
  with store_rows_typed [OF castable st, of st] show ?thesis by simp
qed

subsection \<open>A rejected row\<close>

text \<open>A statement that fails aborts the transaction: what follows fails as well, the commit included.\<close>

definition duckdb_aborts :: "'d duckdb \<Rightarrow> ('d \<Rightarrow> statement list) \<Rightarrow> ('d \<Rightarrow> bool) \<Rightarrow> (statement \<Rightarrow> bool) \<Rightarrow> bool" where
  "duckdb_aborts B committed aborted rejects \<longleftrightarrow>
     (\<forall>d. committed (fst (db_execute_batch B ''BEGIN'' d)) = committed d)
   \<and> (\<forall>d sql params. committed (fst (db_execute B sql params d)) = committed d
        \<and> (aborted d \<or> rejects (sql, params) \<longrightarrow> \<not> snd (db_execute B sql params d))
        \<and> (\<not> snd (db_execute B sql params d) \<longrightarrow> aborted (fst (db_execute B sql params d))))
   \<and> (\<forall>d. aborted d \<longrightarrow> \<not> snd (db_execute_batch B ''COMMIT'' d) \<and> committed (fst (db_execute_batch B ''COMMIT'' d)) = committed d)
   \<and> (\<forall>d. committed (fst (db_execute_batch B ''ROLLBACK'' d)) = committed d)"

lemma duckdb_abortsD:
  assumes "duckdb_aborts B committed aborted rejects"
  shows "db_execute_batch B ''BEGIN'' d = (d', b) \<Longrightarrow> committed d' = committed d"
    "db_execute B sql params d = (d', b) \<Longrightarrow> committed d' = committed d"
    "db_execute B sql params d = (d', b) \<Longrightarrow> aborted d \<or> rejects (sql, params) \<Longrightarrow> \<not> b"
    "db_execute B sql params d = (d', False) \<Longrightarrow> aborted d'"
    "db_execute_batch B ''COMMIT'' d = (d', b) \<Longrightarrow> aborted d \<Longrightarrow> \<not> b \<and> committed d' = committed d"
    "committed (fst (db_execute_batch B ''ROLLBACK'' d)) = committed d"
  using assms unfolding duckdb_aborts_def by (metis fst_conv snd_conv)+

lemma execute_all_aborts:
  assumes A: "duckdb_aborts B committed aborted rejects" and "execute_all B sts d = (d', b)"
  shows "committed d' = committed d \<and> (\<not> b \<longrightarrow> aborted d') \<and> ((\<exists>st \<in> set sts. rejects st) \<longrightarrow> \<not> b) \<and> (aborted d \<longrightarrow> aborted d')"
  using assms(2)
proof (induction sts arbitrary: d)
  case (Cons st sts)
  obtain sql params where st: "st = (sql, params)" by force
  obtain d1 success where d1: "db_execute B sql params d = (d1, success)" by force
  note D = duckdb_abortsD(2-3) [OF A d1] duckdb_abortsD(4) [OF A, of sql params d d1]
  show ?case
  proof (cases success)
    case True
    then show ?thesis using Cons d1 D st by auto
  next
    case False
    then show ?thesis using Cons.prems d1 D st by auto
  qed
qed simp

lemma persist_all_aborts:
  assumes A: "duckdb_aborts B committed aborted rejects" and "\<forall>ev \<in> set batch. event_wf ev"
  shows "\<exists>d'. rfold (\<lambda>ev d. rbind (persist_one C T caps B ev d) (\<lambda>(d, success). Ok d)) batch d = Ok d'
    \<and> committed d' = committed d
    \<and> (aborted d \<or> (\<exists>ev \<in> set batch. \<exists>st \<in> set (rows_of C T caps ev). rejects st) \<longrightarrow> aborted d')"
  using assms(2)
proof (induction batch arbitrary: d)
  case (Cons ev batch)
  obtain d1 b where d1: "execute_all B (rows_of C T caps ev) d = (d1, b)" by force
  from execute_all_aborts [OF A d1] Cons.IH [of d1] Cons.prems d1 show ?case
    by (auto simp: persist_one_def statements_Ok)
qed simp

text \<open>C20: a row that the database rejects loses the whole batch: nothing of it is committed, the rows of the other events
  included.\<close>

theorem rejected_row_loses_batch:
  assumes "duckdb_aborts B committed aborted rejects" and "\<forall>ev \<in> set batch. event_wf ev"
    and "ev \<in> set batch" and "st \<in> set (rows_of C T caps ev)" and "rejects st"
  shows "\<exists>d'. flush_batch C T caps B batch d = Ok d' \<and> committed d' = committed d"
proof -
  obtain d1 b1 where d1: "db_execute_batch B ''BEGIN'' d = (d1, b1)" by force
  obtain d2 where d2: "rfold (\<lambda>ev d. rbind (persist_one C T caps B ev d) (\<lambda>(d, success). Ok d)) batch d1 = Ok d2"
    "committed d2 = committed d1" "aborted d2" using persist_all_aborts [OF assms(1,2), of C T caps d1] assms(3-5) by blast
  obtain d3 b3 where d3: "db_execute_batch B ''COMMIT'' d2 = (d3, b3)" by force
  note D = duckdb_abortsD(1) [OF assms(1) d1] duckdb_abortsD(5) [OF assms(1) d3 d2(3)] duckdb_abortsD(6) [OF assms(1), of d3]
  then show ?thesis using d1 d2 d3 by (simp add: flush_batch_def)
qed

definition aborting_duckdb :: "(statement \<Rightarrow> bool) \<Rightarrow> (statement list \<times> statement list \<times> bool) duckdb" where
  "aborting_duckdb rejects = \<lparr>db_lock = \<lambda>_. True,
     db_execute = \<lambda>sql params (cs, ps, ab).
       if ab \<or> rejects (sql, params) then ((cs, ps, True), False) else ((cs, ps @ [(sql, params)], False), True),
     db_execute_batch = \<lambda>sql (cs, ps, ab).
       if sql = ''COMMIT'' then (if ab then ((cs, ps, ab), False) else ((cs @ ps, [], False), True)) else ((cs, [], False), True)\<rparr>"

theorem rejected_row_loses_batch_witness:
  "\<exists>d'. flush_batch doc_crates example_texts (\<lambda>_. []) (aborting_duckdb (\<lambda>(sql, ps). sql = speaker_events_sql))
      [example_route_event, example_event] ([], [], False) = Ok d' \<and> fst d' = []"
proof -
  let ?rej = "\<lambda>(sql, ps). sql = speaker_events_sql"
  have "duckdb_aborts (aborting_duckdb ?rej) fst (snd \<circ> snd) ?rej"
    by (auto simp: duckdb_aborts_def aborting_duckdb_def)
  moreover have "\<forall>ev \<in> set [example_route_event, example_event]. event_wf ev" by code_simp
  moreover have "\<exists>st \<in> set (rows_of doc_crates example_texts (\<lambda>_. []) example_event). ?rej st"
    by (simp add: rows_of_def statements_def example_event_def speaker_row_def)
  ultimately show ?thesis
    using rejected_row_loses_batch [of "aborting_duckdb ?rej" fst "snd \<circ> snd" ?rej "[example_route_event, example_event]" example_event
      _ doc_crates example_texts "\<lambda>_. []" "([], [], False)"] by auto
qed

end
