(* ===== verification/Api.thy ===== *)
theory Api
  imports Json Rust_Text
begin

text \<open>
  The handlers of the HTTP interface that read the RIB manager, \<^verbatim>\<open>rbmp-server/src/api/peers.rs\<close> and
  \<^verbatim>\<open>routes.rs\<close>, with the speaker registry of \<^verbatim>\<open>config.rs\<close>.  A handler is a function of the manager, the
  registry and the request; the \<^verbatim>\<open>Debug\<close> text of a capability and the clock are parameters.

  Results: the list of routes exceeds its limit by up to one route per peer; the route counts reported for speakers and
  peers are zero in every reachable state of the manager; a registration hides the configured entry of the same address.
\<close>

subsection \<open>The speaker registry (config.rs)\<close>

record speaker_entry =
  se_addr :: string
  se_hostname :: string
  se_vendor :: string
  se_site :: string

record speaker_registry =
  sr_speakers :: "speaker_entry list"
  sr_runtime :: "speaker_entry list"

definition registry_lookup :: "string \<Rightarrow> speaker_registry \<Rightarrow> speaker_entry option" where
  "registry_lookup addr reg =
     (case List.find (\<lambda>e. se_addr e = addr) (sr_runtime reg) of
        Some e \<Rightarrow> Some e
      | None \<Rightarrow> List.find (\<lambda>e. se_addr e = addr) (sr_speakers reg))"

fun upsert_entry :: "speaker_entry \<Rightarrow> speaker_entry list \<Rightarrow> speaker_entry list" where
  "upsert_entry entry [] = [entry]"
| "upsert_entry entry (e # es) = (if se_addr e = se_addr entry then entry # es else e # upsert_entry entry es)"

definition registry_upsert :: "speaker_entry \<Rightarrow> speaker_registry \<Rightarrow> speaker_registry" where
  "registry_upsert entry reg = reg\<lparr>sr_runtime := upsert_entry entry (sr_runtime reg)\<rparr>"

subsection \<open>Speakers and peers (peers.rs)\<close>

datatype status_code = HTTP_OK | BAD_REQUEST | UNAUTHORIZED | NOT_FOUND | UNPROCESSABLE_ENTITY | INTERNAL_SERVER_ERROR

fun peer_state_label :: "peer_state \<Rightarrow> string" where
  "peer_state_label Up = ''up''"
| "peer_state_label Down = ''down''"
| "peer_state_label State_Unknown = ''unknown''"

definition jnat :: "nat \<Rightarrow> json" where "jnat n = JInt (int n)"

definition jword :: "'a::len word \<Rightarrow> json" where "jword v = JInt (uint v)"

definition jtime :: "text_deps \<Rightarrow> datetime option \<Rightarrow> json" where
  "jtime T t = jopt (\<lambda>t. JStr (td_rfc3339 T t)) t"

definition meta_field :: "(speaker_entry \<Rightarrow> string) \<Rightarrow> speaker_entry option \<Rightarrow> string" where
  "meta_field f meta = (case meta of Some e \<Rightarrow> f e | None \<Rightarrow> [])"

definition list_speakers :: "text_deps \<Rightarrow> speaker_registry \<Rightarrow> rib_manager \<Rightarrow> json" where
  "list_speakers T reg m =
     (let ss = map (\<lambda>s.
        let addr_str = show_ip (bs_speaker_addr s); meta = registry_lookup addr_str reg in
        JObj [(''addr'', JStr addr_str), (''hostname'', JStr (meta_field se_hostname meta)),
              (''vendor'', JStr (meta_field se_vendor meta)), (''site'', JStr (meta_field se_site meta)),
              (''sys_name'', jopt JStr (bs_sys_name s)), (''sys_descr'', jopt JStr (bs_sys_descr s)),
              (''connected_at'', JStr (td_rfc3339 T (bs_connected_at s))), (''peer_count'', jnat (peer_count s)),
              (''peers_up'', jnat (up_peer_count s)), (''total_routes'', jnat (session_total_routes s))]) (speakers m)
      in JObj [(''speakers'', JArr ss), (''count'', jnat (length ss))])"

definition get_speaker :: "crates \<Rightarrow> text_deps \<Rightarrow> datetime \<Rightarrow> speaker_registry \<Rightarrow> rib_manager \<Rightarrow> string \<Rightarrow> status_code + json" where
  "get_speaker C T now reg m addr =
     (case parse_ip addr of
        None \<Rightarrow> Inl BAD_REQUEST
      | Some ip \<Rightarrow>
          (case speaker_of ip m of
             None \<Rightarrow> Inl NOT_FOUND
           | Some s \<Rightarrow>
               (let addr_str = show_ip (bs_speaker_addr s); meta = registry_lookup addr_str reg in
                Inr (JObj [(''addr'', JStr addr_str), (''hostname'', JStr (meta_field se_hostname meta)),
                  (''vendor'', JStr (meta_field se_vendor meta)), (''site'', JStr (meta_field se_site meta)),
                  (''sys_name'', jopt JStr (bs_sys_name s)), (''sys_descr'', jopt JStr (bs_sys_descr s)),
                  (''connected_at'', JStr (td_rfc3339 T (bs_connected_at s))),
                  (''peers'', JArr (map (\<lambda>p. JObj [(''addr'', JStr (show_ip (ps_address p))), (''asn'', jword (ps_as p)),
                     (''peer_as'', jword (ps_as p)), (''state'', JStr (peer_state_label (ps_state p))), (''up_at'', jtime T (ps_up_at p)),
                     (''uptime_secs'', jopt JInt (uptime_secs C now p)), (''flaps'', jword (ps_flap_count p))])
                     (hm_values (bs_peers s))))]))))"

definition route_counts_json :: "peer_session \<Rightarrow> json" where
  "route_counts_json p = JObj (map (\<lambda>(k, v). (debug_rib_type k, jnat v)) (ps_route_counts p))"

definition list_peers :: "crates \<Rightarrow> text_deps \<Rightarrow> datetime \<Rightarrow> rib_manager \<Rightarrow> json" where
  "list_peers C T now m =
     (let ps = concat (map (\<lambda>s. map (\<lambda>p.
        JObj [(''speaker'', JStr (show_ip (bs_speaker_addr s))), (''addr'', JStr (show_ip (ps_address p))),
              (''asn'', jword (ps_as p)), (''peer_as'', jword (ps_as p)), (''bgp_id'', JStr (show_ipv4 (ps_bgp_id p))),
              (''state'', JStr (peer_state_label (ps_state p))), (''up_at'', jtime T (ps_up_at p)),
              (''uptime_secs'', jopt JInt (uptime_secs C now p)), (''hold_time'', jword (ps_hold_time p)),
              (''flaps'', jword (ps_flap_count p)), (''route_counts'', route_counts_json p)])
        (hm_values (bs_peers s))) (speakers m))
      in JObj [(''peers'', JArr ps), (''count'', jnat (length ps))])"

text \<open>The first speaker that has the peer.\<close>

fun find_peer :: "ip_addr \<Rightarrow> bmp_session list \<Rightarrow> (bmp_session \<times> peer_session) option" where
  "find_peer ip [] = None"
| "find_peer ip (s # ss) = (case hm_get (bs_peers s) ip of Some p \<Rightarrow> Some (s, p) | None \<Rightarrow> find_peer ip ss)"

definition get_peer ::
    "crates \<Rightarrow> text_deps \<Rightarrow> datetime \<Rightarrow> (bgp_capability \<Rightarrow> string) \<Rightarrow> rib_manager \<Rightarrow> string \<Rightarrow> status_code + json" where
  "get_peer C T now dbg m addr =
     (case parse_ip addr of
        None \<Rightarrow> Inl BAD_REQUEST
      | Some ip \<Rightarrow>
          (case find_peer ip (speakers m) of
             None \<Rightarrow> Inl NOT_FOUND
           | Some (s, p) \<Rightarrow>
               Inr (JObj [(''speaker'', JStr (show_ip (bs_speaker_addr s))), (''addr'', JStr (show_ip (ps_address p))),
                 (''asn'', jword (ps_as p)), (''peer_as'', jword (ps_as p)), (''bgp_id'', JStr (show_ipv4 (ps_bgp_id p))),
                 (''state'', JStr (peer_state_label (ps_state p))), (''up_at'', jtime T (ps_up_at p)),
                 (''down_at'', jtime T (ps_down_at p)), (''uptime_secs'', jopt JInt (uptime_secs C now p)),
                 (''hold_time'', jword (ps_hold_time p)), (''flaps'', jword (ps_flap_count p)),
                 (''capabilities'', JArr (map (\<lambda>c. JStr (dbg c)) (ps_capabilities p))),
                 (''route_counts'', route_counts_json p)])))"

definition peer_capabilities :: "(bgp_capability \<Rightarrow> string) \<Rightarrow> rib_manager \<Rightarrow> string \<Rightarrow> status_code + json" where
  "peer_capabilities dbg m addr =
     (case parse_ip addr of
        None \<Rightarrow> Inl BAD_REQUEST
      | Some ip \<Rightarrow>
          (case find_peer ip (speakers m) of
             None \<Rightarrow> Inl NOT_FOUND
           | Some (s, p) \<Rightarrow>
               (let named = (\<lambda>name. JBool (list_ex (\<lambda>c. starts_with name (dbg c)) (ps_capabilities p))) in
                Inr (JObj [(''peer_addr'', JStr addr), (''peer_as'', jword (ps_as p)),
                  (''capabilities'', JArr (map (\<lambda>c. JObj [(''code'', jword (cap_code c)), (''name'', JStr (dbg c))]) (ps_capabilities p))),
                  (''hold_time'', jword (ps_hold_time p)), (''add_path'', named ''AddPath''),
                  (''four_byte_asn'', named ''FourByteAsn''), (''llgr'', named ''LongLivedGracefulRestart'')]))))"

definition speakers_summary :: "text_deps \<Rightarrow> speaker_registry \<Rightarrow> rib_manager \<Rightarrow> json" where
  "speakers_summary T reg m =
     (let ss = map (\<lambda>s.
        let addr_str = show_ip (bs_speaker_addr s); meta = registry_lookup addr_str reg;
            peers_up = up_peer_count s; peers_down = peer_count s - peers_up
        in JObj [(''addr'', JStr addr_str),
             (''hostname'', JStr (case bs_sys_name s of Some n \<Rightarrow> n | None \<Rightarrow> meta_field se_hostname meta)),
             (''vendor'', JStr (meta_field se_vendor meta)),
             (''bmp_state'', JStr (if peers_up > 0 then ''active'' else ''idle'')), (''peers_up'', jnat peers_up),
             (''peers_down'', jnat peers_down), (''route_count'', jnat (session_total_routes s)),
             (''connected_at'', JStr (td_rfc3339 T (bs_connected_at s)))]) (speakers m)
      in JObj [(''speakers'', JArr ss), (''count'', jnat (length ss)), (''total_peers_up'', jnat (total_peers_up m)),
           (''total_routes'', jnat (total_routes m)), (''has_speakers'', JBool (ss \<noteq> [])),
           (''has_active_sessions'', JBool (total_peers_up m > 0))])"

subsection \<open>Routes (routes.rs)\<close>

record rib_query =
  q_rib_type :: "string option"
  q_prefix :: "string option"
  q_action :: "string option"
  q_limit :: nat

definition route_json :: "text_deps \<Rightarrow> bmp_session \<Rightarrow> ip_addr \<Rightarrow> peer_session \<Rightarrow> rib_entry \<Rightarrow> string \<Rightarrow> json" where
  "route_json T s peer_addr peer entry pfx =
     (let a = re_attributes entry in
      JObj [(''speaker'', JStr (show_ip (bs_speaker_addr s))), (''peer'', JStr (show_ip peer_addr)), (''peer_as'', jword (ps_as peer)),
        (''prefix'', JStr pfx), (''next_hop'', jopt (\<lambda>h. JStr (show_ip h)) (pa_next_hop a)),
        (''as_path'', jopt (\<lambda>p. JStr (show_as_path p)) (pa_as_path a)), (''local_pref'', jopt jword (local_pref a)),
        (''med'', jopt jword (multi_exit_disc a)), (''communities'', JArr (map (\<lambda>c. JStr (show_community c)) (communities a))),
        (''received_at'', JStr (td_rfc3339 T (re_received_at entry)))])"

text \<open>The entries of one table; the limit is tested after an entry was added, and ends only this loop.\<close>

fun list_entries ::
    "crates \<Rightarrow> text_deps \<Rightarrow> rib_query \<Rightarrow> bmp_session \<Rightarrow> ip_addr \<Rightarrow> peer_session \<Rightarrow> rib_entry list \<Rightarrow> json list \<Rightarrow> json list result" where
  "list_entries C T q s pa p [] all_routes = Ok all_routes"
| "list_entries C T q s pa p (entry # entries) all_routes =
     rbind (show_prefix C (re_prefix entry)) (\<lambda>pfx.
       if q_prefix q \<noteq> None \<and> q_prefix q \<noteq> Some pfx then list_entries C T q s pa p entries all_routes
       else
         (let all_routes = all_routes @ [route_json T s pa p entry pfx] in
          if length all_routes \<ge> q_limit q then Ok all_routes else list_entries C T q s pa p entries all_routes))"

definition list_peer_routes ::
    "crates \<Rightarrow> text_deps \<Rightarrow> rib_query \<Rightarrow> rib_manager \<Rightarrow> bmp_session \<times> ip_addr \<times> peer_session \<Rightarrow> json list \<Rightarrow> json list result" where
  "list_peer_routes C T q m spp all_routes =
     (case spp of (s, pa, p) \<Rightarrow>
        (case rib_for_peer pa m of
           None \<Rightarrow> Ok all_routes
         | Some rib_table \<Rightarrow> list_entries C T q s pa p (all_prefixes rib_table) all_routes))"

definition speaker_peers :: "rib_manager \<Rightarrow> (bmp_session \<times> ip_addr \<times> peer_session) list" where
  "speaker_peers m = concat (map (\<lambda>s. map (\<lambda>(pa, p). (s, pa, p)) (bs_peers s)) (speakers m))"

definition routes_response :: "json list \<Rightarrow> json" where
  "routes_response rs = JObj [(''routes'', JArr rs), (''count'', jnat (length rs))]"

definition list_routes :: "crates \<Rightarrow> text_deps \<Rightarrow> rib_query \<Rightarrow> rib_manager \<Rightarrow> json result" where
  "list_routes C T q m =
     (if q_action q \<noteq> None \<and> q_action q \<noteq> Some ''announce'' then Ok (routes_response [])
      else rbind (rfold (list_peer_routes C T q m) (speaker_peers m) []) (\<lambda>rs. Ok (routes_response rs)))"

definition urlencoding_decode :: "string \<Rightarrow> string" where
  "urlencoding_decode s = str_replace ''%2f'' ''/'' (str_replace ''%2F'' ''/'' s)"

subsection \<open>The registry\<close>

lemma find_upsert: "List.find (\<lambda>x. se_addr x = a) (upsert_entry e es) =
    (if a = se_addr e then Some e else List.find (\<lambda>x. se_addr x = a) es)"
  by (induction es) auto

lemma registry_lookup_upsert:
  "registry_lookup a (registry_upsert e reg) = (if a = se_addr e then Some e else registry_lookup a reg)"
  by (simp add: registry_lookup_def registry_upsert_def find_upsert split: option.splits)

subsection \<open>The limit of the route list\<close>

lemma list_entries_length:
  "list_entries C T q s pa p es rs = Ok rs' \<Longrightarrow> length rs' \<le> max (q_limit q) (Suc (length rs)) \<and> length rs \<le> length rs'"
proof (induction es arbitrary: rs)
  case (Cons e es)
  then show ?case by (fastforce simp: Let_def split: if_splits)
qed auto

lemma list_peer_routes_length:
  "list_peer_routes C T q m spp rs = Ok rs' \<Longrightarrow> length rs' \<le> max (q_limit q) (Suc (length rs))"
  by (auto simp: list_peer_routes_def split: prod.splits option.splits dest: list_entries_length)

lemma rfold_list_length:
  "rfold (list_peer_routes C T q m) spps rs = Ok rs' \<Longrightarrow> length rs' \<le> max (q_limit q) (length rs) + length spps"
proof (induction spps arbitrary: rs)
  case (Cons spp spps)
  then obtain r1 where r1: "list_peer_routes C T q m spp rs = Ok r1" "rfold (list_peer_routes C T q m) spps r1 = Ok rs'" by auto
  from list_peer_routes_length [OF r1(1)] Cons.IH [OF r1(2)] show ?case by simp
qed simp

text \<open>The limit of the route list is exceeded by at most one route per peer.\<close>

theorem list_routes_bound:
  assumes "list_routes C T q m = Ok (routes_response rs)"
  shows "length rs \<le> q_limit q + length (speaker_peers m)"
proof (cases "q_action q \<noteq> None \<and> q_action q \<noteq> Some ''announce''")
  case True
  with assms show ?thesis by (simp add: list_routes_def routes_response_def)
next
  case False
  with assms have "rfold (list_peer_routes C T q m) (speaker_peers m) [] = Ok rs"
    by (auto simp: list_routes_def routes_response_def)
  from rfold_list_length [OF this] show ?thesis by simp
qed

text \<open>Two peers with a route each: a limit of one yields both.\<close>

definition example_peer_session :: "ip_addr \<Rightarrow> peer_session" where
  "example_peer_session a = peer_session_new (example_peer\<lparr>ph_address := a\<rparr>)"

definition example_rib :: "ip_addr \<Rightarrow> rib_table" where
  "example_rib a = \<lparr>tables = [(AdjRibInPrePolicy, [(''10.1.0.0/16'',
     new_entry 5 (example_peer\<lparr>ph_address := a\<rparr>) path_attributes_default (Prefix_V4 (Ipv4Net 0x0A010000 16)) None)])]\<rparr>"

definition two_peers :: rib_manager where
  "two_peers = manager_new\<lparr>
     rm_speakers := [(IpV4 9, (bmp_session_new (IpV4 9) 0)\<lparr>bs_peers :=
        [(IpV4 1, example_peer_session (IpV4 1)), (IpV4 2, example_peer_session (IpV4 2))]\<rparr>)],
     rm_ribs := [(IpV4 1, example_rib (IpV4 1)), (IpV4 2, example_rib (IpV4 2))]\<rparr>"

definition query_limit :: "nat \<Rightarrow> rib_query" where
  "query_limit n = \<lparr>q_rib_type = None, q_prefix = None, q_action = None, q_limit = n\<rparr>"

lemma two_peers_routes:
  "\<exists>rs. list_routes doc_crates example_texts (query_limit 1) two_peers = Ok (routes_response rs) \<and> length rs = 2"
  by (simp add: list_routes_def query_limit_def speaker_peers_def speakers_def two_peers_def hm_values_def
     list_peer_routes_def rib_for_peer_def hm_get_def example_rib_def all_prefixes_def new_entry_def Let_def)
     (rule exI, rule conjI, rule refl, simp)

theorem list_routes_bound_witness:
  "\<exists>rs. list_routes doc_crates example_texts (query_limit 1) two_peers = Ok (routes_response rs)
     \<and> length rs = 2 \<and> length rs \<le> q_limit (query_limit 1) + length (speaker_peers two_peers)"
  using two_peers_routes list_routes_bound by blast

subsection \<open>The route counts\<close>

lemma hm_values_get: "hm_wf m \<Longrightarrow> v \<in> set (hm_values m) \<Longrightarrow> \<exists>k. hm_get m k = Some v"
  by (auto simp: hm_values_def hm_get_iff)

text \<open>Nothing writes the counts of a peer session: they start empty, and a Peer Down empties them.\<close>

definition uncounted :: "(ip_addr, bmp_session) hash_map \<Rightarrow> bool" where
  "uncounted sp \<longleftrightarrow> (\<forall>a s pa p. hm_get sp a = Some s \<longrightarrow> hm_get (bs_peers s) pa = Some p \<longrightarrow> ps_route_counts p = [])"

lemma uncountedI: "(\<And>a s pa p. hm_get sp a = Some s \<Longrightarrow> hm_get (bs_peers s) pa = Some p \<Longrightarrow> ps_route_counts p = []) \<Longrightarrow> uncounted sp"
  by (auto simp: uncounted_def)

lemma uncountedD: "hm_get sp a = Some s \<Longrightarrow> uncounted sp \<Longrightarrow> hm_get (bs_peers s) pa = Some p \<Longrightarrow> ps_route_counts p = []"
  by (auto simp: uncounted_def)

lemma on_route_monitoring_speakers:
  "on_route_monitoring C D R spk now hdr u m = Ok m' \<Longrightarrow> rm_speakers m' = rm_speakers m"
  by (auto simp: on_route_monitoring_def Let_def split: if_splits)

lemma uncounted_initiation: "uncounted (rm_speakers m) \<Longrightarrow> uncounted (rm_speakers (on_initiation R spk now n d m))"
  by (auto simp: on_initiation_def hm_get_or_def bmp_session_new_def intro!: uncountedI split: if_splits option.splits) (blast dest: uncountedD)+

lemma uncounted_termination: "uncounted (rm_speakers m) \<Longrightarrow> uncounted (rm_speakers (on_termination R spk c t m))"
  by (auto simp: on_termination_def intro!: uncountedI split: if_splits option.splits) (blast dest: uncountedD)+

lemma uncounted_peer_up:
  "uncounted (rm_speakers m) \<Longrightarrow> on_peer_up R spk now pu m = Ok m' \<Longrightarrow> uncounted (rm_speakers m')"
  by (auto simp: on_peer_up_def on_up_def Let_def hm_get_or_def bmp_session_new_def peer_session_new_def
      intro!: uncountedI split: if_splits option.splits) (blast dest: uncountedD)+

lemma uncounted_peer_down: "uncounted (rm_speakers m) \<Longrightarrow> uncounted (rm_speakers (on_peer_down R spk now hdr r m))"
  by (auto simp: on_peer_down_def on_down_def Let_def intro!: uncountedI split: if_splits option.splits) (blast dest: uncountedD)+

lemma uncounted_process:
  assumes "uncounted (rm_speakers m)" "process C D R msg m = Ok m'"
  shows "uncounted (rm_speakers m')"
  using assms
  by (cases "msg_payload msg")
     (auto simp: process_def Let_def intro: uncounted_initiation uncounted_termination uncounted_peer_up uncounted_peer_down
        dest: on_route_monitoring_speakers)

lemma uncounted_step:
  assumes "manager_step C D R m m'" "uncounted (rm_speakers m)"
  shows "uncounted (rm_speakers m')"
  using assms
  by cases (auto intro: uncounted_process simp: set_filter_def clear_filter_def set_roto_filter_def
      expire_stale_for_peer_def split: option.splits prod.splits)

lemma reachable_uncounted: "manager_reachable C D R m \<Longrightarrow> manager_inv C m \<and> uncounted (rm_speakers m)"
proof (induction rule: manager_reachable.induct)
  case init
  have "uncounted (rm_speakers manager_new)" by (simp add: uncounted_def manager_new_def)
  then show ?case by simp
qed (auto intro: uncounted_step manager_step_inv)

text \<open>C40: in every reachable state of the manager the route counts that the API reports for a speaker and for each of
  its peers are zero, whatever routes the tables hold.\<close>

theorem reported_counts_zero:
  assumes "manager_reachable C D R m" "s \<in> set (speakers m)"
  shows "session_total_routes s = 0 \<and> (\<forall>p \<in> set (hm_values (bs_peers s)). route_counts_json p = JObj [])"
proof -
  from reachable_uncounted [OF assms(1)] have inv: "manager_inv C m" "uncounted (rm_speakers m)" by auto
  from assms(2) obtain a where a: "hm_get (rm_speakers m) a = Some s"
    using hm_values_get [OF manager_invD(1) [OF inv(1)]] by (auto simp: speakers_def)
  have wf: "hm_wf (bs_peers s)" using manager_invD(3) [OF inv(1) a] by (simp add: session_ok_def)
  have none: "ps_route_counts p = []" if p: "p \<in> set (hm_values (bs_peers s))" for p
  proof -
    obtain pa where "hm_get (bs_peers s) pa = Some p" using hm_values_get [OF wf p] by blast
    then show ?thesis by (rule uncountedD [OF a inv(2)])
  qed
  have "map (\<lambda>p. hm_values (ps_route_counts p)) (hm_values (bs_peers s)) = map (\<lambda>p. []) (hm_values (bs_peers s))"
    by (rule map_cong [OF refl]) (simp add: none hm_values_def [of "[]"])
  moreover have "concat (map (\<lambda>p. []) xs) = ([] :: nat list)" for xs :: "peer_session list" by (induction xs) auto
  moreover have "\<forall>p \<in> set (hm_values (bs_peers s)). route_counts_json p = JObj []"
    by (intro ballI) (simp only: none route_counts_json_def list.map)
  ultimately show ?thesis by (simp only: session_total_routes_def sum_list.Nil simp_thms)
qed

theorem reported_counts_zero_witness:
  "\<exists>m s. manager_reachable doc_crates (example_deps []) \<lparr>new_v4 = word_of_nat, utc_now = int\<rparr> m
     \<and> s \<in> set (speakers m) \<and> session_total_routes s = 0 \<and> rm_ribs m \<noteq> []"
proof -
  let ?R = "\<lparr>new_v4 = word_of_nat, utc_now = int\<rparr>"
  let ?m1 = "on_initiation ?R (IpV4 9) 5 None None manager_new"
  let ?msg = "example_msg (RouteMonitoring example_peer example_update)"
  have 1: "manager_reachable doc_crates (example_deps []) ?R ?m1"
    by (rule manager_reachable.step [OF manager_reachable.init manager_step.process [where msg = "example_msg (Initiation None None [])"]])
       (simp_all add: example_msg_def process_def)
  obtain m where m: "process doc_crates (example_deps []) ?R ?msg ?m1 = Ok m"
    using process_step [OF on_initiation_inv(1) [OF manager_inv_new, of doc_crates ?R "IpV4 9" 5 None None], of ?msg "example_deps []" ?R]
    by (auto simp: example_msg_def)
  have 2: "manager_reachable doc_crates (example_deps []) ?R m"
    using m by (intro manager_reachable.step [OF 1] manager_step.process [where msg = ?msg]) (simp_all add: example_msg_def)
  have "rm_ribs m \<noteq> []" "rm_speakers m = rm_speakers ?m1"
    using m by (auto simp: process_def Let_def example_msg_def on_route_monitoring_def hm_insert_def)
  moreover from this(2) obtain s where "s \<in> set (speakers m)"
    by (auto simp: speakers_def on_initiation_def manager_new_def hm_or_insert_def hm_contains_def hm_insert_def hm_modify_def hm_values_def)
  ultimately show ?thesis using 2 reported_counts_zero [OF 2] by blast
qed

end
