(* ===== verification/Mcp.thy ===== *)
theory Mcp
  imports Store_Schema Api
begin

text \<open>
  \<^verbatim>\<open>rbmp-server/src/mcp_server.rs\<close>: the JSON-RPC interface for language-model clients.  The queries of the store are a
  parameter; lower-casing of Unicode text is one too.

  Results: whatever the question, the generated statement is one of eleven fixed \<^verbatim>\<open>SELECT\<close> statements with the limit
  appended; on one day at most 5000 such queries run; three of the eleven name columns that the schema does not have.
\<close>

subsection \<open>JSON values\<close>

fun jget :: "json \<Rightarrow> string \<Rightarrow> json option" where
  "jget (JObj m) k = hm_get m k"
| "jget j k = None"

text \<open>\<^verbatim>\<open>args[k]\<close> is null when there is no such field.\<close>

definition jindex :: "json \<Rightarrow> string \<Rightarrow> json" where
  "jindex j k = (case jget j k of Some v \<Rightarrow> v | None \<Rightarrow> JNull)"

fun json_str :: "json \<Rightarrow> string option" where
  "json_str (JStr s) = Some s"
| "json_str j = None"

fun json_u64 :: "json \<Rightarrow> u64 option" where
  "json_u64 (JInt i) = (if 0 \<le> i \<and> i < 2 ^ 64 then Some (word_of_int i) else None)"
| "json_u64 j = None"

fun json_array :: "json \<Rightarrow> json list option" where
  "json_array (JArr xs) = Some xs"
| "json_array j = None"

definition usize_arg :: "json \<Rightarrow> string \<Rightarrow> nat \<Rightarrow> nat" where
  "usize_arg args k d = (case json_u64 (jindex args k) of Some v \<Rightarrow> unat v | None \<Rightarrow> d)"

definition u32_arg :: "json \<Rightarrow> string \<Rightarrow> u32 \<Rightarrow> u32" where
  "u32_arg args k d = (case json_u64 (jindex args k) of Some v \<Rightarrow> ucast v | None \<Rightarrow> d)"

subsection \<open>The daily budget\<close>

record nl_budget =
  nb_tokens :: u64
  nb_day :: u64

definition NL_BUDGET :: nl_budget where
  "NL_BUDGET = \<lparr>nb_tokens = 500000, nb_day = 0\<rparr>"

definition consume_nl_tokens :: "u64 \<Rightarrow> u64 \<Rightarrow> nl_budget \<Rightarrow> nl_budget \<times> bool" where
  "consume_nl_tokens now_day estimated b =
     (let b = (if now_day > nb_day b then \<lparr>nb_tokens = 500000, nb_day = now_day\<rparr> else b) in
      if estimated \<le> nb_tokens b then (b\<lparr>nb_tokens := nb_tokens b - estimated\<rparr>, True) else (b, False))"

subsection \<open>The catalogue of anomalies\<close>

record anomaly_meta =
  am_kind :: string
  am_description :: string
  am_severity :: string
  am_verification_queries :: "string list"

definition ANOMALY_CATALOGUE :: "anomaly_meta list" where
  "ANOMALY_CATALOGUE = [
     \<lparr>am_kind = ''origin_change'', am_description = (''BGP prefix hijack '' @ em_dash @ '' origin ASN changed to unexpected ASN''),
       am_severity = ''critical'', am_verification_queries = [
         (''SELECT prefix, as_path, occurred_at FROM route_events WHERE prefix = '' @ squote @ ''{prefix}'' @ squote @ '' ORDER BY occurred_at DESC LIMIT 5'')]\<rparr>,
     \<lparr>am_kind = ''route_leak'', am_description = (''Route leak '' @ em_dash @ '' private or customer prefix propagated to unexpected peer''),
       am_severity = ''critical'', am_verification_queries = [
         (''SELECT as_path FROM route_events WHERE peer_addr = '' @ squote @ ''{peer}'' @ squote @ '' AND occurred_at > CAST(NOW() AS TIMESTAMP) - INTERVAL '' @ squote @ ''5 minutes'' @ squote @ '' ORDER BY occurred_at DESC LIMIT 3'')]\<rparr>,
     \<lparr>am_kind = ''slow_convergence'', am_description = ''BGP convergence took longer than historical baseline'',
       am_severity = ''warn'', am_verification_queries = [
         (''SELECT convergence_ms, affected_prefixes FROM convergence_events WHERE peer_addr = '' @ squote @ ''{peer}'' @ squote @ '' ORDER BY started_at DESC LIMIT 5'')]\<rparr>,
     \<lparr>am_kind = ''rpki_invalid'', am_description = ''Route announced with RPKI-invalid origin ASN or prefix length'',
       am_severity = ''high'', am_verification_queries = [
         (''SELECT prefix, as_path, rpki_validity FROM route_events WHERE rpki_validity = '' @ squote @ ''invalid'' @ squote @ '' AND occurred_at > CAST(NOW() AS TIMESTAMP) - INTERVAL '' @ squote @ ''1 hour'' @ squote @ '' ORDER BY occurred_at DESC LIMIT 10'')]\<rparr>,
     \<lparr>am_kind = ''flap'', am_description = ''BGP peer or prefix flapping repeatedly within a short window'',
       am_severity = ''warn'', am_verification_queries = [
         (''SELECT peer_addr, COUNT(*) AS flap_count FROM peer_events WHERE event_type IN ('' @ squote @ ''peer_up'' @ squote @ '','' @ squote @ ''peer_down'' @ squote @ '') AND occurred_at > CAST(NOW() AS TIMESTAMP) - INTERVAL '' @ squote @ ''1 hour'' @ squote @ '' GROUP BY peer_addr HAVING COUNT(*) > 4 ORDER BY flap_count DESC'')]\<rparr>]"

subsection \<open>Responses\<close>

record json_rpc_response =
  jr_jsonrpc :: string
  jr_result :: "json option"
  jr_error :: "(int \<times> string) option"
  jr_id :: json

definition rpc_id :: "json option \<Rightarrow> json" where
  "rpc_id i = (case i of Some v \<Rightarrow> v | None \<Rightarrow> JNull)"

definition rpc_ok :: "json option \<Rightarrow> json \<Rightarrow> json_rpc_response" where
  "rpc_ok i result = \<lparr>jr_jsonrpc = ''2.0'', jr_result = Some result, jr_error = None, jr_id = rpc_id i\<rparr>"

definition rpc_err :: "json option \<Rightarrow> int \<Rightarrow> string \<Rightarrow> json_rpc_response" where
  "rpc_err i code message = \<lparr>jr_jsonrpc = ''2.0'', jr_result = None, jr_error = Some (code, message), jr_id = rpc_id i\<rparr>"

subsection \<open>The list of tools\<close>

definition TOOL_NAMES :: "string list" where
  "TOOL_NAMES = [''get_prefix_history'', ''get_peer_flaps'', ''get_anomalies'', ''get_as_path_analysis'', ''get_rpki_invalids'', ''get_speaker_summary'', ''get_prefix_visibility'', ''get_convergence_events'', ''get_policy_diff'', ''get_community_summary'', ''nl_query'']"

definition tool_prefix_history_schema :: json where
  "tool_prefix_history_schema = JObj [(''name'', JStr ''get_prefix_history''), 
    (''description'', JStr ''Returns announce/withdraw history for a BGP prefix over a configurable time window.''), 
    (''inputSchema'', JObj [(''type'', JStr ''object''), (''required'', JArr [JStr ''prefix'']), 
      (''properties'', JObj [(''prefix'', JObj [(''type'', JStr ''string''), (''description'', JStr ''CIDR prefix, e.g. 1.2.3.0/24'')]), 
        (''hours'', JObj [(''type'', JStr ''integer''), (''description'', JStr ''Lookback window in hours (default 24)''), (''default'', JInt 24)]), 
        (''limit'', JObj [(''type'', JStr ''integer''), (''description'', JStr ''Max rows (default 200)''), (''default'', JInt 200)])])])]"

definition tool_peer_flaps_schema :: json where
  "tool_peer_flaps_schema = JObj [(''name'', JStr ''get_peer_flaps''), 
    (''description'', JStr ''Lists BGP peer sessions that have flapped (oscillated Up/Down) within the time window.''), 
    (''inputSchema'', JObj [(''type'', JStr ''object''), 
      (''properties'', JObj [(''hours'', JObj [(''type'', JStr ''integer''), (''default'', JInt 24)]), (''limit'', JObj [(''type'', JStr ''integer''), (''default'', JInt 50)])])])]"

definition tool_anomalies_schema :: json where
  "tool_anomalies_schema = JObj [(''name'', JStr ''get_anomalies''), 
    (''description'', JStr ''Returns ML-detected BGP anomalies (route leaks, hijacks, unusual churn) with severity scores.''), 
    (''inputSchema'', JObj [(''type'', JStr ''object''), 
      (''properties'', JObj [
        (''kind'', JObj [(''type'', JStr ''string''), (''description'', JStr ''Filter by anomaly kind (leak, hijack, churn)'')]), (''hours'', JObj [(''type'', JStr ''integer''), (''default'', JInt 24)]), (''limit'', JObj [(''type'', JStr ''integer''), (''default'', JInt 100)])])])]"

definition tool_as_path_analysis_schema :: json where
  "tool_as_path_analysis_schema = JObj [(''name'', JStr ''get_as_path_analysis''), 
    (''description'', JStr (''Analyses AS_PATH attributes for a prefix or origin ASN '' @ em_dash @ '' detects prepending, unexpected transit, and path length outliers.'')), 
    (''inputSchema'', JObj [(''type'', JStr ''object''), 
      (''properties'', JObj [(''prefix'', JObj [(''type'', JStr ''string'')]), (''asn'', JObj [(''type'', JStr ''integer'')]), (''limit'', JObj [(''type'', JStr ''integer''), (''default'', JInt 200)])])])]"

definition tool_rpki_invalids_schema :: json where
  "tool_rpki_invalids_schema = JObj [(''name'', JStr ''get_rpki_invalids''), 
    (''description'', JStr ''Returns routes currently marked RPKI Invalid or Not-Found by the RTR validator.''), 
    (''inputSchema'', JObj [(''type'', JStr ''object''), 
      (''properties'', JObj [(''speaker'', JObj [(''type'', JStr ''string'')]), (''limit'', JObj [(''type'', JStr ''integer''), (''default'', JInt 200)])])])]"

definition tool_speaker_summary_schema :: json where
  "tool_speaker_summary_schema = JObj [(''name'', JStr ''get_speaker_summary''), 
    (''description'', JStr ''Returns per-BMP-speaker health: peer counts, route totals, and uptime.''), (''inputSchema'', JObj [(''type'', JStr ''object''), (''properties'', JObj [])])]"

definition tool_prefix_visibility_schema :: json where
  "tool_prefix_visibility_schema = JObj [(''name'', JStr ''get_prefix_visibility''), 
    (''description'', JStr ''Compares internal RIB view of a prefix against RIPE STAT external data to detect visibility gaps.''), 
    (''inputSchema'', JObj [(''type'', JStr ''object''), (''required'', JArr [JStr ''prefix'']), (''properties'', JObj [(''prefix'', JObj [(''type'', JStr ''string'')])])])]"

definition tool_convergence_events_schema :: json where
  "tool_convergence_events_schema = JObj [(''name'', JStr ''get_convergence_events''), 
    (''description'', JStr (''Returns BGP convergence timeline events for a peer '' @ em_dash @ '' useful for diagnosing slow convergence.'')), 
    (''inputSchema'', JObj [(''type'', JStr ''object''), 
      (''properties'', JObj [(''peer'', JObj [(''type'', JStr ''string'')]), (''hours'', JObj [(''type'', JStr ''integer''), (''default'', JInt 24)])])])]"

definition tool_policy_diff_schema :: json where
  "tool_policy_diff_schema = JObj [(''name'', JStr ''get_policy_diff''), 
    (''description'', JStr ''Shows policy delta for a peer: prefixes that appear in pre-policy but not post-policy RIB (policy-dropped routes).''), 
    (''inputSchema'', JObj [(''type'', JStr ''object''), (''required'', JArr [JStr ''peer'']), 
      (''properties'', JObj [(''peer'', JObj [(''type'', JStr ''string'')]), (''limit'', JObj [(''type'', JStr ''integer''), (''default'', JInt 200)])])])]"

definition tool_community_summary_schema :: json where
  "tool_community_summary_schema = JObj [(''name'', JStr ''get_community_summary''), 
    (''description'', JStr (''Summarises BGP community usage across the RIB '' @ em_dash @ '' top communities, unique values, and associated route counts.'')), 
    (''inputSchema'', JObj [(''type'', JStr ''object''), (''properties'', JObj [(''limit'', JObj [(''type'', JStr ''integer''), (''default'', JInt 50)])])])]"

definition tool_nl_query_schema :: json where
  "tool_nl_query_schema = JObj [(''name'', JStr ''nl_query''), 
    (''description'', JStr ''Translates a natural-language question about BGP data into DuckDB SQL and returns the result. Useful for ad-hoc analysis.''), 
    (''inputSchema'', JObj [(''type'', JStr ''object''), (''required'', JArr [JStr ''question'']), 
      (''properties'', JObj [
        (''question'', JObj [(''type'', JStr ''string''), 
          (''description'', JStr (''Plain English question, e.g. '' @ squote @ ''Which prefixes were announced more than 10 times in the last hour?'' @ squote))]), (''limit'', JObj [(''type'', JStr ''integer''), (''default'', JInt 100)])])])]"

definition tool_list :: json where
  "tool_list = JObj [(''tools'', JArr [tool_prefix_history_schema, tool_peer_flaps_schema, tool_anomalies_schema, tool_as_path_analysis_schema, tool_rpki_invalids_schema, tool_speaker_summary_schema, tool_prefix_visibility_schema, tool_convergence_events_schema, tool_policy_diff_schema, tool_community_summary_schema, tool_nl_query_schema])]"

subsection \<open>Questions\<close>

definition contains :: "string \<Rightarrow> string \<Rightarrow> bool" where
  "contains pat s \<longleftrightarrow> (\<exists>i \<in> set [0..<length s + 1]. take (length pat) (drop i s) = pat)"

definition nl_to_sql :: "(string \<Rightarrow> string) \<Rightarrow> string \<Rightarrow> nat \<Rightarrow> string" where
  "nl_to_sql lower question limit =
     (let q = lower question in
      if contains ''announc'' q \<and> contains ''prefix'' q
        then ''SELECT prefix, COUNT(*) AS announce_count FROM route_events WHERE action='' @ squote @ ''announce'' @ squote @ '' GROUP BY prefix ORDER BY announce_count DESC LIMIT '' @ show_nat limit
      else if contains ''withdraw'' q
        then ''SELECT prefix, COUNT(*) AS withdraw_count FROM route_events WHERE action='' @ squote @ ''withdraw'' @ squote @ '' GROUP BY prefix ORDER BY withdraw_count DESC LIMIT '' @ show_nat limit
      else if contains ''churn'' q \<or> contains ''prefix'' q \<and> contains ''flap'' q
        then ''SELECT prefix, COUNT(*) AS changes FROM route_events GROUP BY prefix ORDER BY changes DESC LIMIT '' @ show_nat limit
      else if contains ''peer'' q \<and> (contains ''down'' q \<or> contains ''flap'' q)
        then ''SELECT peer_addr, speaker_addr, occurred_at, event_type FROM peer_events WHERE event_type='' @ squote @ ''peer_down'' @ squote @ '' ORDER BY occurred_at DESC LIMIT '' @ show_nat limit
      else if contains ''peer'' q \<and> contains ''up'' q
        then ''SELECT peer_addr, speaker_addr, occurred_at FROM peer_events WHERE event_type='' @ squote @ ''peer_up'' @ squote @ '' ORDER BY occurred_at DESC LIMIT '' @ show_nat limit
      else if contains ''rpki'' q \<and> (contains ''invalid'' q \<or> contains ''fail'' q)
        then ''SELECT prefix, peer_addr, speaker_addr, occurred_at FROM route_events WHERE rpki_status='' @ squote @ ''Invalid'' @ squote @ '' ORDER BY occurred_at DESC LIMIT '' @ show_nat limit
      else if contains ''anomal'' q \<or> contains ''hijack'' q \<or> contains ''leak'' q
        then ''SELECT kind, prefix, peer_addr, score, occurred_at FROM ml_anomalies ORDER BY score DESC, occurred_at DESC LIMIT '' @ show_nat limit
      else if contains ''communit'' q
        then ''SELECT communities, COUNT(*) AS route_count FROM route_events WHERE communities IS NOT NULL GROUP BY communities ORDER BY route_count DESC LIMIT '' @ show_nat limit
      else if contains ''as_path'' q \<or> contains ''as path'' q \<or> contains ''path length'' q
        then ''SELECT prefix, peer_addr, as_path, as_path_len FROM route_events WHERE as_path_len IS NOT NULL ORDER BY as_path_len DESC LIMIT '' @ show_nat limit
      else if contains ''converg'' q
        then ''SELECT peer_addr, speaker_addr, prefix_count, elapsed_secs, occurred_at FROM convergence_events ORDER BY occurred_at DESC LIMIT '' @ show_nat limit
      else ''SELECT occurred_at, action, prefix, peer_addr, speaker_addr FROM route_events ORDER BY occurred_at DESC LIMIT '' @ show_nat limit)"

subsection \<open>The tools\<close>

record mcp_queries =
  mq_prefix_history :: "string \<Rightarrow> nat \<Rightarrow> string + json list"
  mq_peer_flap_events :: "u32 \<Rightarrow> nat \<Rightarrow> string + json list"
  mq_ml_anomalies :: "nat \<Rightarrow> string option \<Rightarrow> string + json list"
  mq_aspath_graph :: "u32 option \<Rightarrow> string option \<Rightarrow> nat \<Rightarrow> string + json"
  mq_rpki_invalids :: "string option \<Rightarrow> nat \<Rightarrow> string + json list"
  mq_convergence_events :: "string option \<Rightarrow> u32 \<Rightarrow> u32 \<Rightarrow> string + json list"
  mq_policy_delta :: "string \<Rightarrow> string + json"
  mq_community_summary :: "nat \<Rightarrow> string + json list"
  mq_raw_query :: "string \<Rightarrow> string + json"

definition with_rows :: "string + 'a \<Rightarrow> ('a \<Rightarrow> json) \<Rightarrow> string + json" where
  "with_rows r f = map_sum id f r"

definition tool_prefix_history :: "mcp_queries \<Rightarrow> json \<Rightarrow> string + json" where
  "tool_prefix_history Q args =
     (case json_str (jindex args ''prefix'') of
        None \<Rightarrow> Inl ''prefix required''
      | Some pfx \<Rightarrow> with_rows (mq_prefix_history Q pfx (usize_arg args ''limit'' 200))
          (\<lambda>rows. JObj [(''prefix'', JStr pfx), (''events'', JArr rows)]))"

definition tool_peer_flaps :: "mcp_queries \<Rightarrow> json \<Rightarrow> string + json" where
  "tool_peer_flaps Q args =
     with_rows (mq_peer_flap_events Q (u32_arg args ''hours'' 24) (usize_arg args ''limit'' 50)) (\<lambda>rows. JObj [(''peer_flaps'', JArr rows)])"

definition tool_anomalies :: "mcp_queries \<Rightarrow> json \<Rightarrow> string + json" where
  "tool_anomalies Q args =
     with_rows (mq_ml_anomalies Q (usize_arg args ''limit'' 100) (json_str (jindex args ''kind''))) (\<lambda>rows. JObj [(''anomalies'', JArr rows)])"

definition tool_as_path_analysis :: "mcp_queries \<Rightarrow> json \<Rightarrow> string + json" where
  "tool_as_path_analysis Q args =
     with_rows (mq_aspath_graph Q (map_option ucast (json_u64 (jindex args ''asn''))) (json_str (jindex args ''prefix''))
        (usize_arg args ''limit'' 200)) (\<lambda>graph. JObj [(''as_path_analysis'', graph)])"

definition tool_rpki_invalids :: "mcp_queries \<Rightarrow> json \<Rightarrow> string + json" where
  "tool_rpki_invalids Q args =
     with_rows (mq_rpki_invalids Q (json_str (jindex args ''speaker'')) (usize_arg args ''limit'' 200))
       (\<lambda>rows. JObj [(''rpki_invalids'', JArr rows), (''count'', jnat (length rows))])"

definition tool_speaker_summary :: "text_deps \<Rightarrow> rib_manager \<Rightarrow> string + json" where
  "tool_speaker_summary T m =
     (let ss = map (\<lambda>s. JObj [(''addr'', JStr (show_ip (bs_speaker_addr s))), (''sys_name'', jopt JStr (bs_sys_name s)),
          (''peers_up'', jnat (up_peer_count s)), (''peers_total'', jnat (peer_count s)), (''routes'', jnat (session_total_routes s)),
          (''connected_at'', JStr (td_rfc3339 T (bs_connected_at s)))]) (speakers m)
      in Inr (JObj [(''speakers'', JArr ss), (''total'', jnat (length ss))]))"

definition tool_prefix_visibility :: "json \<Rightarrow> string + json" where
  "tool_prefix_visibility args =
     (case json_str (jindex args ''prefix'') of
        None \<Rightarrow> Inl ''prefix required''
      | Some pfx \<Rightarrow> Inr (JObj [(''prefix'', JStr pfx),
          (''note'', JStr (''External RIPE STAT lookup not yet wired '' @ em_dash @ '' use GET /api/external/prefix-visibility''))]))"

definition tool_convergence_events :: "mcp_queries \<Rightarrow> json \<Rightarrow> string + json" where
  "tool_convergence_events Q args =
     (let peer = (case json_str (jindex args ''peer'') of Some p \<Rightarrow> p | None \<Rightarrow> []);
          hours = u32_arg args ''hours'' 24
      in with_rows (mq_convergence_events Q (if peer = [] then None else Some peer) hours 200)
           (\<lambda>rows. JObj [(''peer'', JStr peer), (''hours'', jword hours), (''events'', JArr rows)]))"

definition tool_policy_diff :: "mcp_queries \<Rightarrow> json \<Rightarrow> string + json" where
  "tool_policy_diff Q args =
     (case json_str (jindex args ''peer'') of None \<Rightarrow> Inl ''peer required'' | Some peer \<Rightarrow> mq_policy_delta Q peer)"

definition tool_community_summary :: "mcp_queries \<Rightarrow> json \<Rightarrow> string + json" where
  "tool_community_summary Q args =
     with_rows (mq_community_summary Q (usize_arg args ''limit'' 50))
       (\<lambda>rows. JObj [(''top_communities'', JArr rows), (''count'', jnat (length rows))])"

definition tool_nl_query :: "(string \<Rightarrow> string) \<Rightarrow> mcp_queries \<Rightarrow> u64 \<Rightarrow> json \<Rightarrow> nl_budget \<Rightarrow> nl_budget \<times> (string + json)" where
  "tool_nl_query lower Q now_day args b =
     (case json_str (jindex args ''question'') of
        None \<Rightarrow> (b, Inl ''question required'')
      | Some question \<Rightarrow>
          (let limit = usize_arg args ''limit'' 100 in
           case consume_nl_tokens now_day 100 b of (b, granted) \<Rightarrow>
             if \<not> granted
             then (b, Inl (''Daily NL query token budget (500K) exhausted '' @ em_dash @ '' resets at midnight UTC''))
             else
               (let sql = nl_to_sql lower question limit in
                (b, with_rows (mq_raw_query Q sql) (\<lambda>rows.
                   JObj [(''question'', JStr question), (''generated_sql'', JStr sql), (''rows'', rows),
                         (''row_count'', jnat (case json_array rows of Some a \<Rightarrow> length a | None \<Rightarrow> 0))])))))"

subsection \<open>Dispatch\<close>

record json_rpc_request =
  rr_jsonrpc :: string
  rr_method :: string
  rr_params :: json
  rr_id :: "json option"

definition handle_initialize :: "json option \<Rightarrow> json_rpc_response" where
  "handle_initialize i = rpc_ok i (JObj [(''protocolVersion'', JStr ''2024-11-05''),
     (''capabilities'', JObj [(''tools'', JObj [(''listChanged'', JBool False)])]),
     (''serverInfo'', JObj [(''name'', JStr ''rustybmp-mcp''), (''version'', JStr ''0.8.0'')])])"

definition handle_tools_list :: "json option \<Rightarrow> json_rpc_response" where
  "handle_tools_list i = rpc_ok i tool_list"

definition call_tool :: "(string \<Rightarrow> string) \<Rightarrow> text_deps \<Rightarrow> mcp_queries \<Rightarrow> rib_manager \<Rightarrow> u64 \<Rightarrow> string \<Rightarrow> json \<Rightarrow> nl_budget
     \<Rightarrow> nl_budget \<times> (string + json)" where
  "call_tool lower T Q m now_day tool args b =
     (if tool = ''get_prefix_history'' then (b, tool_prefix_history Q args)
      else if tool = ''get_peer_flaps'' then (b, tool_peer_flaps Q args)
      else if tool = ''get_anomalies'' then (b, tool_anomalies Q args)
      else if tool = ''get_as_path_analysis'' then (b, tool_as_path_analysis Q args)
      else if tool = ''get_rpki_invalids'' then (b, tool_rpki_invalids Q args)
      else if tool = ''get_speaker_summary'' then (b, tool_speaker_summary T m)
      else if tool = ''get_prefix_visibility'' then (b, tool_prefix_visibility args)
      else if tool = ''get_convergence_events'' then (b, tool_convergence_events Q args)
      else if tool = ''get_policy_diff'' then (b, tool_policy_diff Q args)
      else if tool = ''get_community_summary'' then (b, tool_community_summary Q args)
      else if tool = ''nl_query'' then tool_nl_query lower Q now_day args b
      else (b, Inl (''Unknown tool: '' @ tool)))"

definition handle_tools_call :: "(string \<Rightarrow> string) \<Rightarrow> text_deps \<Rightarrow> mcp_queries \<Rightarrow> rib_manager \<Rightarrow> u64 \<Rightarrow> json option \<Rightarrow> json \<Rightarrow> nl_budget
     \<Rightarrow> nl_budget \<times> json_rpc_response" where
  "handle_tools_call lower T Q m now_day i params b =
     (case (case jget params ''name'' of Some v \<Rightarrow> json_str v | None \<Rightarrow> None) of
        None \<Rightarrow> (b, rpc_err i (- 32602) ''Missing tool name'')
      | Some tool \<Rightarrow>
          (let args = (case jget params ''arguments'' of Some a \<Rightarrow> a | None \<Rightarrow> JNull) in
           case call_tool lower T Q m now_day tool args b of
             (b, Inr data) \<Rightarrow> (b, rpc_ok i (JObj [(''content'', JArr [JObj [(''type'', JStr ''text''), (''text'', JStr (td_json_text T data))]]),
                 (''isError'', JBool False)]))
           | (b, Inl e) \<Rightarrow> (b, rpc_ok i (JObj [(''content'', JArr [JObj [(''type'', JStr ''text''), (''text'', JStr (''Error: '' @ e))]]),
                 (''isError'', JBool True)]))))"

definition mcp_handler :: "(string \<Rightarrow> string) \<Rightarrow> text_deps \<Rightarrow> mcp_queries \<Rightarrow> rib_manager \<Rightarrow> u64 \<Rightarrow> json_rpc_request \<Rightarrow> nl_budget
     \<Rightarrow> nl_budget \<times> json_rpc_response" where
  "mcp_handler lower T Q m now_day req b =
     (if rr_jsonrpc req \<noteq> ''2.0'' then (b, rpc_err (rr_id req) (- 32600) ''Invalid JSON-RPC version'')
      else if rr_method req = ''initialize'' then (b, handle_initialize (rr_id req))
      else if rr_method req = ''tools/list'' then (b, handle_tools_list (rr_id req))
      else if rr_method req = ''tools/call'' then handle_tools_call lower T Q m now_day (rr_id req) (rr_params req) b
      else (b, rpc_err (rr_id req) (- 32601) (''Method not found: '' @ rr_method req)))"

subsection \<open>The tools offered are the tools served\<close>

text \<open>\<^verbatim>\<open>tools/list\<close> names exactly the tools of \<^verbatim>\<open>TOOL_NAMES\<close>, and \<^verbatim>\<open>tools/call\<close> knows exactly these.\<close>

lemma tools_listed:
  "map (\<lambda>t. jget t ''name'') (case jget tool_list ''tools'' of Some (JArr ts) \<Rightarrow> ts | _ \<Rightarrow> []) = map (Some \<circ> JStr) TOOL_NAMES"
  by code_simp

lemma unknown_tool: "tool \<notin> set TOOL_NAMES \<Longrightarrow> call_tool lower T Q m day tool args b = (b, Inl (''Unknown tool: '' @ tool))"
  by (simp add: call_tool_def TOOL_NAMES_def)

subsection \<open>The budget\<close>

definition ask_all :: "u64 \<Rightarrow> nat \<Rightarrow> nl_budget \<Rightarrow> nl_budget \<times> nat" where
  "ask_all day n b = ((\<lambda>(b, k). case consume_nl_tokens day 100 b of (b, granted) \<Rightarrow> (b, if granted then Suc k else k)) ^^ n) (b, 0)"

lemma consume_same_day:
  assumes "nb_day b = day" "nb_tokens b = word_of_nat (500000 - 100 * k)" "k \<le> 5000"
  shows "consume_nl_tokens day 100 b =
    (if k < 5000 then (b\<lparr>nb_tokens := word_of_nat (500000 - 100 * Suc k)\<rparr>, True) else (b, False))"
proof -
  have u: "unat (nb_tokens b) = 500000 - 100 * k"
    unfolding assms(2) by (simp add: unat_of_nat take_bit_nat_eq_self)
  show ?thesis
  proof (cases "k < 5000")
    case True
    then have "100 \<le> nb_tokens b" using u by (simp add: word_le_nat_alt)
    moreover have "nb_tokens b - 100 = word_of_nat (500000 - 100 * Suc k)"
      using True unfolding assms(2) by (simp add: of_nat_diff algebra_simps)
    ultimately show ?thesis using True assms(1) by (simp add: consume_nl_tokens_def)
  next
    case False
    with assms(3) have "k = 5000" by simp
    then have "\<not> 100 \<le> nb_tokens b" unfolding assms(2) by (simp add: word_le_nat_alt)
    with False assms(1) show ?thesis by (simp add: consume_nl_tokens_def)
  qed
qed

lemma ask_all_eq:
  assumes "nb_day b < day"
  shows "0 < n \<Longrightarrow> ask_all day n b = (\<lparr>nb_tokens = word_of_nat (500000 - 100 * min n 5000), nb_day = day\<rparr>, min n 5000)"
proof (induction n)
  case (Suc n)
  show ?case
  proof (cases n)
    case 0
    then show ?thesis using assms by (simp add: ask_all_def consume_nl_tokens_def)
  next
    case (Suc n')
    let ?b = "\<lparr>nb_tokens = word_of_nat (500000 - 100 * min n 5000), nb_day = day\<rparr>"
    have ih: "ask_all day n b = (?b, min n 5000)" using Suc Suc.IH by simp
    have "consume_nl_tokens day 100 ?b = (if min n 5000 < 5000 then (?b\<lparr>nb_tokens := word_of_nat (500000 - 100 * Suc (min n 5000))\<rparr>, True) else (?b, False))"
      by (rule consume_same_day) simp_all
    then show ?thesis using ih by (auto simp: ask_all_def min_def)
  qed
qed simp

subsection \<open>The generated statements\<close>

definition sample_questions :: "string list" where
  "sample_questions = [''announced prefixes'', ''withdrawn'', ''churn'', ''peer down'', ''peer up'', ''rpki invalid'',
     ''anomalies'', ''communities'', ''as_path'', ''convergence'', []]"

definition nl_statements :: "string list" where
  "nl_statements = map (\<lambda>q. butlast (nl_to_sql id q 0)) sample_questions"

text \<open>The names a statement uses that are neither its table, nor a column of it, nor defined in the statement.\<close>

definition followers :: "string \<Rightarrow> string list \<Rightarrow> string list" where
  "followers k ws = map snd (filter (\<lambda>(a, b). a = k) (zip ws (tl ws)))"

definition sql_names :: "string list \<Rightarrow> string list" where
  "sql_names ws = filter (\<lambda>w. w \<noteq> [] \<and> list_all (\<lambda>c. c = CHR ''_'' \<or> 97 \<le> (of_char c :: nat) \<and> (of_char c :: nat) \<le> 122) w)
     (map (takeWhile (\<lambda>c. c \<noteq> CHR ''='')) ws)"

definition unknown_columns :: "string list \<Rightarrow> string list" where
  "unknown_columns ws =
     (let tabs = followers ''FROM'' ws;
          cols = concat (map (\<lambda>t. case table_named t of Some tb \<Rightarrow> map cl_name (tb_columns tb) | None \<Rightarrow> []) tabs)
      in remdups (filter (\<lambda>w. w \<notin> set (tabs @ followers ''AS'' ws @ cols)) (sql_names ws)))"

lemma nl_statements_eq: "nl_statements = [
     ''SELECT prefix, COUNT(*) AS announce_count FROM route_events WHERE action='' @ squote @ ''announce'' @ squote @ '' GROUP BY prefix ORDER BY announce_count DESC LIMIT '',
     ''SELECT prefix, COUNT(*) AS withdraw_count FROM route_events WHERE action='' @ squote @ ''withdraw'' @ squote @ '' GROUP BY prefix ORDER BY withdraw_count DESC LIMIT '',
     ''SELECT prefix, COUNT(*) AS changes FROM route_events GROUP BY prefix ORDER BY changes DESC LIMIT '',
     ''SELECT peer_addr, speaker_addr, occurred_at, event_type FROM peer_events WHERE event_type='' @ squote @ ''peer_down'' @ squote @ '' ORDER BY occurred_at DESC LIMIT '',
     ''SELECT peer_addr, speaker_addr, occurred_at FROM peer_events WHERE event_type='' @ squote @ ''peer_up'' @ squote @ '' ORDER BY occurred_at DESC LIMIT '',
     ''SELECT prefix, peer_addr, speaker_addr, occurred_at FROM route_events WHERE rpki_status='' @ squote @ ''Invalid'' @ squote @ '' ORDER BY occurred_at DESC LIMIT '',
     ''SELECT kind, prefix, peer_addr, score, occurred_at FROM ml_anomalies ORDER BY score DESC, occurred_at DESC LIMIT '',
     ''SELECT communities, COUNT(*) AS route_count FROM route_events WHERE communities IS NOT NULL GROUP BY communities ORDER BY route_count DESC LIMIT '',
     ''SELECT prefix, peer_addr, as_path, as_path_len FROM route_events WHERE as_path_len IS NOT NULL ORDER BY as_path_len DESC LIMIT '',
     ''SELECT peer_addr, speaker_addr, prefix_count, elapsed_secs, occurred_at FROM convergence_events ORDER BY occurred_at DESC LIMIT '',
     ''SELECT occurred_at, action, prefix, peer_addr, speaker_addr FROM route_events ORDER BY occurred_at DESC LIMIT '']"
  by code_simp

lemma nl_to_sql_statement: "\<exists>k. k < 11 \<and> nl_to_sql lower q n = nl_statements ! k @ show_nat n"
proof -
  have "nl_to_sql lower q n \<in> set (map (\<lambda>t. t @ show_nat n) nl_statements)"
    by (simp add: nl_to_sql_def Let_def nl_statements_eq squote_def)
  then obtain t where t: "t \<in> set nl_statements" "nl_to_sql lower q n = t @ show_nat n" by auto
  have "length nl_statements = 11" by (simp add: nl_statements_def sample_questions_def)
  with t show ?thesis by (metis in_set_conv_nth)
qed

lemma sql_words_append:
  "t \<noteq> [] \<Longrightarrow> last t = CHR '' '' \<Longrightarrow> sql_words w (t @ ys) = sql_words w t @ sql_words [] ys"
  by (induction t arbitrary: w) (auto split: if_splits)

lemma sql_words_digits:
  "(\<And>c. c \<in> set ds \<Longrightarrow> c \<notin> {CHR '' '', CHR '','', CHR ''('', CHR '')'', CHR 0x0A}) \<Longrightarrow> w \<noteq> [] \<or> ds \<noteq> [] \<Longrightarrow>
   sql_words w ds = [rev w @ ds]"
  by (induction ds arbitrary: w) auto

lemma sql_words_show_nat: "sql_words [] (show_nat n) = [show_nat n]"
  using set_show_nat [of n] show_nat_nonempty by (subst sql_words_digits) auto

lemma followers_snoc: "ws \<noteq> [] \<Longrightarrow> followers k (ws @ [d]) = followers k ws @ (if last ws = k then [d] else [])"
proof (induction ws)
  case (Cons w ws)
  then show ?case by (cases ws) (auto simp: followers_def)
qed simp

lemma sql_names_number: "sql_names (ws @ [show_nat n]) = sql_names ws"
proof -
  obtain c cs where s: "show_nat n = c # cs" using show_nat_nonempty [of n] by (cases "show_nat n") auto
  then have "c \<in> set ''0123456789''" using subsetD [OF set_show_nat, of c n] by simp
  then have "(of_char c :: nat) < 97" "c \<noteq> CHR ''_''" by auto
  then show ?thesis by (simp add: sql_names_def s)
qed

lemma unknown_columns_limit:
  assumes "t \<in> set nl_statements"
  shows "unknown_columns (sql_words [] (t @ show_nat n)) = unknown_columns (sql_words [] t)"
proof -
  have "\<forall>t \<in> set nl_statements. t \<noteq> [] \<and> last t = CHR '' '' \<and> sql_words [] t \<noteq> [] \<and> last (sql_words [] t) = ''LIMIT''" by code_simp
  with assms have t: "t \<noteq> []" "last t = CHR '' ''" "sql_words [] t \<noteq> []" "last (sql_words [] t) = ''LIMIT''" by auto
  have "sql_words [] (t @ show_nat n) = sql_words [] t @ [show_nat n]"
    using t by (simp add: sql_words_append sql_words_show_nat)
  with t show ?thesis by (simp add: unknown_columns_def followers_snoc sql_names_number)
qed

lemma nl_statements_select:
  "\<forall>t \<in> set nl_statements. take 7 t = ''SELECT '' \<and> CHR '';'' \<notin> set t"
  by code_simp

lemma nl_to_sql_select:
  assumes "t \<in> set nl_statements"
  shows "take 7 (t @ show_nat n) = ''SELECT '' \<and> CHR '';'' \<notin> set (t @ show_nat n)"
proof -
  have t: "take 7 t = ''SELECT ''" "CHR '';'' \<notin> set t" using assms nl_statements_select by blast+
  from t(1) have "length (take 7 t) = 7" by simp
  then have "7 \<le> length t" by simp
  with t show ?thesis using set_show_nat [of n] by auto
qed

text \<open>C19: whatever the question and however it is put, the statement that runs is one of eleven fixed \<^verbatim>\<open>SELECT\<close> statements
  followed by the limit: no text of the question gets into it, and no second statement.  Three of them, those for RPKI, anomalies and convergence,
  name columns that their tables do not have, and fail.\<close>

theorem nl_to_sql_spec:
  "\<exists>k. k < 11 \<and> nl_to_sql lower q n = nl_statements ! k @ show_nat n
     \<and> take 7 (nl_to_sql lower q n) = ''SELECT '' \<and> CHR '';'' \<notin> set (nl_to_sql lower q n)
     \<and> unknown_columns (sql_words [] (nl_to_sql lower q n)) =
         [[], [], [], [], [], [''rpki_status''], [''occurred_at''], [], [],
          [''prefix_count'', ''elapsed_secs'', ''occurred_at''], []] ! k"
proof -
  obtain k where k: "k < 11" "nl_to_sql lower q n = nl_statements ! k @ show_nat n" using nl_to_sql_statement by blast
  have len: "length nl_statements = 11" by (simp add: nl_statements_def sample_questions_def)
  have all: "map (\<lambda>t. unknown_columns (sql_words [] t)) nl_statements =
      [[], [], [], [], [], [''rpki_status''], [''occurred_at''], [], [],
       [''prefix_count'', ''elapsed_secs'', ''occurred_at''], []]" by code_simp
  have "unknown_columns (sql_words [] (nl_to_sql lower q n)) = map (\<lambda>t. unknown_columns (sql_words [] t)) nl_statements ! k"
    unfolding k(2) using k(1) len by (subst unknown_columns_limit) (simp_all only: nth_mem nth_map)
  moreover have "nl_statements ! k \<in> set nl_statements" using k(1) len by (simp only: nth_mem)
  from nl_to_sql_select [OF this, of n] have "take 7 (nl_to_sql lower q n) = ''SELECT '' \<and> CHR '';'' \<notin> set (nl_to_sql lower q n)"
    unfolding k(2) .
  ultimately show ?thesis using k unfolding all by (intro exI [of _ k]) (simp only: simp_thms)
qed

text \<open>The daily budget.  Of any number of questions put on a day after the last one counted, the first 5000 are
  answered and the rest are refused.\<close>

theorem nl_daily_budget:
  assumes "nb_day b < day" and "0 < n"
  shows "snd (ask_all day n b) = min n 5000"
  using ask_all_eq [OF assms] by simp

theorem nl_daily_budget_witness: "snd (ask_all 20000 7 NL_BUDGET) = 7"
  using nl_daily_budget [of NL_BUDGET 20000 7] by (simp add: NL_BUDGET_def)

end
