(* ===== verification/Ha.thy ===== *)
theory Ha
  imports Prelude
begin

text \<open>
  \<^verbatim>\<open>rbmp-server/src/ha.rs\<close>: the election of a leader among several instances of the server by a lease in Redis.
  Redis is a parameter \<open>redis\<close> of its commands; \<open>redis_ok\<close> states their documented effect on the lease, the value and
  remaining life time of the key \<^verbatim>\<open>ha:leader\<close>.  A command that reports an error may or may not have been executed.

  \<open>election_tick\<close> is one turn of the loop.  Its commands are separate messages, so turns of different instances
  interleave: \<open>ha_command\<close> is the turn cut at its commands, and \<open>ha_reachable\<close> the states that any interleaving of
  commands, failed connections and passing time leads to.

  Results: while no lease runs out under the instance that relies on it, there is at most one leader; without that
  condition there can be two; a follower takes over at its first turn after the lease has run out.
\<close>

record ha_config =
  ha_enabled :: bool
  ha_redis_url :: string
  ha_instance_id :: string
  ha_lease_secs :: u64

definition HA_KEY :: string where "HA_KEY = ''ha:leader''"

text \<open>The commands: new state of the server and the reply, \<open>None\<close> for an error.  A reply to \<^verbatim>\<open>SET .. NX\<close> is
  \<^verbatim>\<open>nil\<close> when the key exists; \<^verbatim>\<open>GET\<close> of a key that does not exist is an error where a string is expected.\<close>

record 'r redis =
  rd_open :: "string \<Rightarrow> bool"
  rd_set_nx_ex :: "string \<Rightarrow> string \<Rightarrow> u64 \<Rightarrow> 'r \<Rightarrow> 'r \<times> string option option"
  rd_get :: "string \<Rightarrow> 'r \<Rightarrow> 'r \<times> string option"
  rd_expire :: "string \<Rightarrow> u64 \<Rightarrow> 'r \<Rightarrow> 'r \<times> bool option"
  rd_elapse :: "nat \<Rightarrow> 'r \<Rightarrow> 'r"

type_synonym lease = "(string \<times> nat) option"

definition redis_ok :: "'r redis \<Rightarrow> ('r \<Rightarrow> lease) \<Rightarrow> bool" where
  "redis_ok S lease \<longleftrightarrow>
     (\<forall>v t r r' reply. rd_set_nx_ex S HA_KEY v t r = (r', reply) \<longrightarrow>
        (case reply of
           Some (Some s) \<Rightarrow> lease r = None \<and> lease r' = Some (v, unat t)
         | Some None \<Rightarrow> lease r \<noteq> None \<and> lease r' = lease r
         | None \<Rightarrow> lease r' = lease r \<or> lease r = None \<and> lease r' = Some (v, unat t)))
   \<and> (\<forall>r r' reply. rd_get S HA_KEY r = (r', reply) \<longrightarrow>
        lease r' = lease r \<and> (\<forall>v. reply = Some v \<longrightarrow> (\<exists>t. lease r = Some (v, t))))
   \<and> (\<forall>t r r' reply. rd_expire S HA_KEY t r = (r', reply) \<longrightarrow>
        reply = None \<and> lease r' = lease r \<or> lease r' = map_option (\<lambda>(v, _). (v, unat t)) (lease r))
   \<and> (\<forall>dt r. lease (rd_elapse S dt r) =
        (case lease r of Some (v, t) \<Rightarrow> if dt < t then Some (v, t - dt) else None | None \<Rightarrow> None))"

subsection \<open>The election loop\<close>

datatype election = Always_Leader | Election_Panics | Election_Runs u64

text \<open>The initial flag and what the background task does; \<^verbatim>\<open>tokio::time::interval\<close> panics when the period is zero.\<close>

definition run_ha_election :: "'r redis \<Rightarrow> ha_config \<Rightarrow> bool \<times> election" where
  "run_ha_election S cfg =
     (if \<not> ha_enabled cfg then (True, Always_Leader)
      else if \<not> rd_open S (ha_redis_url cfg) then (True, Always_Leader)
      else (False, let half = ha_lease_secs cfg div 2 in if half = 0 then Election_Panics else Election_Runs half))"

definition election_tick :: "'r redis \<Rightarrow> ha_config \<Rightarrow> bool \<Rightarrow> 'r \<times> bool \<Rightarrow> 'r \<times> bool" where
  "election_tick S cfg connected st =
     (case st of (r, is_leader) \<Rightarrow>
        if \<not> connected then (r, is_leader)
        else case rd_set_nx_ex S HA_KEY (ha_instance_id cfg) (ha_lease_secs cfg) r of (r, result) \<Rightarrow>
          let acquired = (case result of Some (Some s) \<Rightarrow> True | _ \<Rightarrow> False) in
          if acquired
          then (case rd_expire S HA_KEY (ha_lease_secs cfg) r of (r, _) \<Rightarrow> (r, True))
          else case rd_get S HA_KEY r of (r, holder) \<Rightarrow>
            let we_hold = (holder = Some (ha_instance_id cfg)) in
            if we_hold
            then (case rd_expire S HA_KEY (ha_lease_secs cfg) r of (r, _) \<Rightarrow> (r, True))
            else (r, False))"

subsection \<open>Interleaving\<close>

datatype phase = Idle | Got_Lease | Denied | Held

fun ha_command :: "'r redis \<Rightarrow> ha_config \<Rightarrow> 'r \<times> phase \<times> bool \<Rightarrow> 'r \<times> phase \<times> bool" where
  "ha_command S cfg (r, Idle, l) =
     (case rd_set_nx_ex S HA_KEY (ha_instance_id cfg) (ha_lease_secs cfg) r of (r, result) \<Rightarrow>
        (r, (case result of Some (Some s) \<Rightarrow> Got_Lease | _ \<Rightarrow> Denied), l))"
| "ha_command S cfg (r, Got_Lease, l) =
     (case rd_expire S HA_KEY (ha_lease_secs cfg) r of (r, _) \<Rightarrow> (r, Idle, True))"
| "ha_command S cfg (r, Denied, l) =
     (case rd_get S HA_KEY r of (r, holder) \<Rightarrow>
        if holder = Some (ha_instance_id cfg) then (r, Held, l) else (r, Idle, False))"
| "ha_command S cfg (r, Held, l) =
     (case rd_expire S HA_KEY (ha_lease_secs cfg) r of (r, _) \<Rightarrow> (r, Idle, True))"

text \<open>Run without interruption, the commands are the turn.\<close>

definition run_commands :: "'r redis \<Rightarrow> ha_config \<Rightarrow> 'r \<times> phase \<times> bool \<Rightarrow> (unit, 'r \<times> phase \<times> bool) outcome" where
  "run_commands S cfg = rwhile (\<lambda>(r, p, l). p \<noteq> Idle) (\<lambda>s. Ok (Cont (ha_command S cfg s)))"

lemma election_tick_commands:
  "run_commands S cfg (ha_command S cfg (r, Idle, l)) =
     Ok (case election_tick S cfg True (r, l) of (r, l) \<Rightarrow> (r, Idle, l))"
  unfolding run_commands_def election_tick_def
  by (auto simp: rwhile_unfold [of _ _ "(_, Got_Lease, _)"] rwhile_unfold [of _ _ "(_, Denied, _)"]
      rwhile_unfold [of _ _ "(_, Held, _)"] rwhile_unfold [of _ _ "(_, Idle, _)"]
      split: prod.splits option.splits)

record 'r ha_system =
  sys_redis :: 'r
  sys_phase :: "nat \<Rightarrow> phase"
  sys_leader :: "nat \<Rightarrow> bool"

definition instance_command :: "'r redis \<Rightarrow> (nat \<Rightarrow> ha_config) \<Rightarrow> nat \<Rightarrow> 'r ha_system \<Rightarrow> 'r ha_system" where
  "instance_command S cfgs i s =
     (case ha_command S (cfgs i) (sys_redis s, sys_phase s i, sys_leader s i) of (r, p, l) \<Rightarrow>
        \<lparr>sys_redis = r, sys_phase = (sys_phase s)(i := p), sys_leader = (sys_leader s)(i := l)\<rparr>)"

text \<open>\<open>may_elapse\<close> restricts the passing of time.  A failed connection changes nothing and needs no rule.\<close>

inductive ha_reachable :: "'r redis \<Rightarrow> (nat \<Rightarrow> ha_config) \<Rightarrow> ('r ha_system \<Rightarrow> nat \<Rightarrow> bool) \<Rightarrow> 'r ha_system \<Rightarrow> bool"
  for S cfgs may_elapse where
  start: "ha_reachable S cfgs may_elapse \<lparr>sys_redis = r, sys_phase = \<lambda>_. Idle, sys_leader = \<lambda>_. False\<rparr>"
| command: "ha_reachable S cfgs may_elapse s \<Longrightarrow> ha_reachable S cfgs may_elapse (instance_command S cfgs i s)"
| elapse: "ha_reachable S cfgs may_elapse s \<Longrightarrow> may_elapse s dt \<Longrightarrow>
    ha_reachable S cfgs may_elapse (s\<lparr>sys_redis := rd_elapse S dt (sys_redis s)\<rparr>)"

subsection \<open>At most one leader\<close>

definition claims :: "'r ha_system \<Rightarrow> nat \<Rightarrow> bool" where
  "claims s i \<longleftrightarrow> sys_leader s i \<or> sys_phase s i = Got_Lease \<or> sys_phase s i = Held"

text \<open>Time passes only as long as the lease of an instance that relies on it lasts.\<close>

definition in_time :: "('r \<Rightarrow> lease) \<Rightarrow> (nat \<Rightarrow> ha_config) \<Rightarrow> 'r ha_system \<Rightarrow> nat \<Rightarrow> bool" where
  "in_time lease cfgs s dt \<longleftrightarrow> (\<forall>i t. claims s i \<longrightarrow> lease (sys_redis s) = Some (ha_instance_id (cfgs i), t) \<longrightarrow> dt < t)"

definition holds :: "('r \<Rightarrow> lease) \<Rightarrow> (nat \<Rightarrow> ha_config) \<Rightarrow> 'r ha_system \<Rightarrow> nat \<Rightarrow> bool" where
  "holds lease cfgs s i \<longleftrightarrow> (\<exists>t. lease (sys_redis s) = Some (ha_instance_id (cfgs i), t))"

lemma redis_setD:
  "redis_ok S lease \<Longrightarrow> rd_set_nx_ex S HA_KEY v t r = (r', reply) \<Longrightarrow>
     (case reply of
        Some (Some s) \<Rightarrow> lease r = None \<and> lease r' = Some (v, unat t)
      | Some None \<Rightarrow> lease r \<noteq> None \<and> lease r' = lease r
      | None \<Rightarrow> lease r' = lease r \<or> lease r = None \<and> lease r' = Some (v, unat t))"
  unfolding redis_ok_def by blast

lemma redis_getD:
  "redis_ok S lease \<Longrightarrow> rd_get S HA_KEY r = (r', reply) \<Longrightarrow>
     lease r' = lease r \<and> (\<forall>v. reply = Some v \<longrightarrow> (\<exists>t. lease r = Some (v, t)))"
  unfolding redis_ok_def by blast

lemma redis_expireD:
  "redis_ok S lease \<Longrightarrow> rd_expire S HA_KEY t r = (r', reply) \<Longrightarrow>
     lease r' = lease r \<or> lease r' = map_option (\<lambda>(v, _). (v, unat t)) (lease r)"
  unfolding redis_ok_def by blast

lemma redis_elapseD:
  "redis_ok S lease \<Longrightarrow> lease (rd_elapse S dt r) =
     (case lease r of Some (v, t) \<Rightarrow> if dt < t then Some (v, t - dt) else None | None \<Rightarrow> None)"
  unfolding redis_ok_def by blast

text \<open>A command keeps the lease of everyone who has one, and ends in a claim only with the lease held.\<close>

lemma ha_command_lease:
  assumes ok: "redis_ok S lease" and cmd: "ha_command S cfg (r, p, l) = (r', p', l')"
  shows "(\<forall>v t. lease r = Some (v, t) \<longrightarrow> (\<exists>t'. lease r' = Some (v, t')))
    \<and> (p' = Got_Lease \<or> p' = Held \<longrightarrow> (\<exists>t. lease r' = Some (ha_instance_id cfg, t)))
    \<and> (l' \<longrightarrow> l \<or> p = Got_Lease \<or> p = Held)"
proof (cases p)
  case Idle
  obtain reply where "rd_set_nx_ex S HA_KEY (ha_instance_id cfg) (ha_lease_secs cfg) r = (r', reply)"
    using cmd Idle by (auto split: prod.splits)
  with redis_setD [OF ok this] cmd Idle show ?thesis by (auto split: option.splits)
next
  case Denied
  obtain reply where "rd_get S HA_KEY r = (r', reply)"
    using cmd Denied by (auto split: prod.splits if_splits)
  with redis_getD [OF ok this] cmd Denied show ?thesis by (auto split: if_splits)
next
  case Got_Lease
  obtain reply where "rd_expire S HA_KEY (ha_lease_secs cfg) r = (r', reply)"
    using cmd Got_Lease by (auto split: prod.splits)
  with redis_expireD [OF ok this] cmd Got_Lease show ?thesis by auto
next
  case Held
  obtain reply where "rd_expire S HA_KEY (ha_lease_secs cfg) r = (r', reply)"
    using cmd Held by (auto split: prod.splits)
  with redis_expireD [OF ok this] cmd Held show ?thesis by auto
qed

lemma claims_hold:
  assumes ok: "redis_ok S lease" and reach: "ha_reachable S cfgs (in_time lease cfgs) s" and claim: "claims s i"
  shows "holds lease cfgs s i"
  using reach claim
proof (induction arbitrary: i)
  case (command s j)
  obtain r p l where c: "ha_command S (cfgs j) (sys_redis s, sys_phase s j, sys_leader s j) = (r, p, l)"
    by (metis prod_cases3)
  note step = ha_command_lease [OF ok c]
  have new: "instance_command S cfgs j s = \<lparr>sys_redis = r, sys_phase = (sys_phase s)(j := p), sys_leader = (sys_leader s)(j := l)\<rparr>"
    by (simp add: instance_command_def c)
  consider "claims s i" | "i = j" "p = Got_Lease \<or> p = Held"
    using command.prems step by (auto simp: new claims_def split: if_splits)
  then show ?case
  proof cases
    case 1
    with command.IH step show ?thesis by (fastforce simp: holds_def new)
  next
    case 2
    with step show ?thesis by (simp add: holds_def new)
  qed
next
  case (elapse s dt)
  then have "claims s i" by (simp add: claims_def)
  with elapse show ?case by (fastforce simp: holds_def in_time_def redis_elapseD [OF ok])
qed (simp add: claims_def)

text \<open>C17: at most one leader.  With different instance identifiers, under any interleaving of the Redis commands of the
  instances and whatever Redis replies, at no time do two instances lead, as long as no lease runs out under an instance that
  still relies on it.\<close>

theorem ha_one_leader:
  assumes "redis_ok S lease" and "\<And>i j. ha_instance_id (cfgs i) = ha_instance_id (cfgs j) \<Longrightarrow> i = j"
    and "ha_reachable S cfgs (in_time lease cfgs) s"
    and "sys_leader s i" and "sys_leader s j"
  shows "i = j"
proof -
  have "holds lease cfgs s i" "holds lease cfgs s j"
    using claims_hold [OF assms(1,3)] assms(4,5) by (simp_all add: claims_def)
  with assms(2) show ?thesis by (auto simp: holds_def)
qed

subsection \<open>A server that keeps one lease\<close>

definition doc_redis :: "lease redis" where
  "doc_redis = \<lparr>rd_open = \<lambda>_. True,
     rd_set_nx_ex = \<lambda>k v t r. (case r of None \<Rightarrow> (Some (v, unat t), Some (Some ''OK'')) | Some _ \<Rightarrow> (r, Some None)),
     rd_get = \<lambda>k r. (r, map_option fst r),
     rd_expire = \<lambda>k t r. (map_option (\<lambda>(v, _). (v, unat t)) r, Some (r \<noteq> None)),
     rd_elapse = \<lambda>dt r. (case r of Some (v, t) \<Rightarrow> if dt < t then Some (v, t - dt) else None | None \<Rightarrow> None)\<rparr>"

lemma doc_redis_ok: "redis_ok doc_redis id"
  by (auto simp: redis_ok_def doc_redis_def split: option.splits)

definition example_ha :: "nat \<Rightarrow> ha_config" where
  "example_ha i = \<lparr>ha_enabled = True, ha_redis_url = ''redis://localhost'', ha_instance_id = replicate i (CHR ''x''), ha_lease_secs = 10\<rparr>"

text \<open>Instance 0 becomes leader; instance 1 finds the lease taken.\<close>

definition election_run :: "nat list \<Rightarrow> lease ha_system" where
  "election_run is = fold (instance_command doc_redis example_ha) is \<lparr>sys_redis = None, sys_phase = \<lambda>_. Idle, sys_leader = \<lambda>_. False\<rparr>"

lemma election_run_reachable: "ha_reachable doc_redis example_ha may (election_run is)"
  by (induction "is" rule: rev_induct) (auto simp: election_run_def intro: ha_reachable.intros)

theorem ha_one_leader_witness:
  "{j. sys_leader (election_run [0, 0, 1, 1]) j} = {0}"
proof -
  have ids: "ha_instance_id (example_ha i) = ha_instance_id (example_ha j) \<Longrightarrow> i = j" for i j
    by (simp add: example_ha_def)
  have leader: "sys_leader (election_run [0, 0, 1, 1]) 0"
    by (simp add: election_run_def instance_command_def doc_redis_def example_ha_def)
  with ha_one_leader [OF doc_redis_ok ids election_run_reachable leader] show ?thesis by blast
qed

text \<open>Split brain.  An instance that cannot reach Redis keeps its flag; when its lease has run out the other one
  becomes leader as well.\<close>

theorem ha_split_brain:
  "\<exists>s. ha_reachable doc_redis example_ha (\<lambda>_ _. True) s \<and> sys_leader s 0 \<and> sys_leader s 1"
proof -
  let ?s = "(election_run [0, 0])\<lparr>sys_redis := rd_elapse doc_redis 10 (sys_redis (election_run [0, 0]))\<rparr>"
  let ?t = "instance_command doc_redis example_ha 1 (instance_command doc_redis example_ha 1 ?s)"
  have "ha_reachable doc_redis example_ha (\<lambda>_ _. True) ?t"
    by (intro ha_reachable.command ha_reachable.elapse election_run_reachable) simp
  moreover have "sys_leader ?t 0 \<and> sys_leader ?t 1"
    by (simp add: election_run_def instance_command_def doc_redis_def example_ha_def)
  ultimately show ?thesis by blast
qed

text \<open>Taking over: once the lease has run out, the first turn of a follower whose commands are answered makes it the
  leader with a full lease.\<close>

lemma election_tick_takeover:
  assumes ok: "redis_ok S lease" and free: "lease r = None"
    and reply: "snd (rd_set_nx_ex S HA_KEY (ha_instance_id cfg) (ha_lease_secs cfg) r) \<noteq> None"
  shows "\<exists>r'. election_tick S cfg True (r, l) = (r', True) \<and> lease r' = Some (ha_instance_id cfg, unat (ha_lease_secs cfg))"
proof -
  obtain r1 a where set: "rd_set_nx_ex S HA_KEY (ha_instance_id cfg) (ha_lease_secs cfg) r = (r1, Some a)"
    using reply by (cases "rd_set_nx_ex S HA_KEY (ha_instance_id cfg) (ha_lease_secs cfg) r") auto
  from redis_setD [OF ok this] free obtain s where a: "a = Some s"
    and r1: "lease r1 = Some (ha_instance_id cfg, unat (ha_lease_secs cfg))" by (cases a) auto
  obtain r2 e where expire: "rd_expire S HA_KEY (ha_lease_secs cfg) r1 = (r2, e)" by force
  from redis_expireD [OF ok this] r1 have "lease r2 = Some (ha_instance_id cfg, unat (ha_lease_secs cfg))" by auto
  with set a expire show ?thesis by (simp add: election_tick_def)
qed

text \<open>A lease of zero or one second is renewed by no one: the task panics and the instance never leads.\<close>

lemma short_lease_never_leads:
  "ha_enabled cfg \<Longrightarrow> rd_open S (ha_redis_url cfg) \<Longrightarrow> unat (ha_lease_secs cfg) < 2 \<Longrightarrow>
   run_ha_election S cfg = (False, Election_Panics)"
  by (simp add: run_ha_election_def unat_eq_zero unat_div flip: unat_eq_zero)

text \<open>Instances that share an identifier, as they do with the default \<^verbatim>\<open>core-1\<close>, lead together.\<close>

lemma shared_id_two_leaders:
  assumes "cfgs = (\<lambda>_. (example_ha 0)\<lparr>ha_instance_id := ''core-1''\<rparr>)"
  shows "\<exists>s. ha_reachable doc_redis cfgs (in_time id cfgs) s \<and> sys_leader s 0 \<and> sys_leader s 1"
proof -
  let ?run = "\<lambda>is. fold (instance_command doc_redis cfgs) is \<lparr>sys_redis = None, sys_phase = \<lambda>_. Idle, sys_leader = \<lambda>_. False\<rparr>"
  have "ha_reachable doc_redis cfgs (in_time id cfgs) (?run is)" for "is"
    by (induction "is" rule: rev_induct) (auto intro: ha_reachable.intros)
  moreover have "sys_leader (?run [0, 0, 1, 1, 1]) 0 \<and> sys_leader (?run [0, 0, 1, 1, 1]) 1"
    by (simp add: assms instance_command_def doc_redis_def example_ha_def)
  ultimately show ?thesis by blast
qed

end
