(* ===== verification/Vault.thy ===== *)
theory Vault
  imports Api Bgp_Open
begin

text \<open>
  \<^verbatim>\<open>rbmp-enrichment/src/vault.rs\<close>, the store of router credentials, with its handlers in \<^verbatim>\<open>api/credentials.rs\<close>.
  SHA-256, the JSON form of the entries, the clock and the outcome of the file operations are parameters; the cipher, the
  check value and the hexadecimal coding are the code's own.

  Results: under any sequence of operations the vault is the map from aliases to user names and passwords that the
  operations describe; the file changes only by being replaced with a complete image of the entries; an operation
  whose file write fails has taken effect in memory all the same; an empty pass phrase makes the cipher panic.
\<close>

unbundle bit_operations_syntax

subsection \<open>Text\<close>

text \<open>\<^verbatim>\<open>String::from_utf8\<close>: the bytes are text when lossy decoding leaves them alone.\<close>

definition from_utf8 :: "bytes \<Rightarrow> string option" where
  "from_utf8 bs = (if utf8_lossy bs = bs then Some (map (\<lambda>b. char_of (unat b)) bs) else None)"

definition is_char_boundary :: "string \<Rightarrow> nat \<Rightarrow> bool" where
  "is_char_boundary s i \<longleftrightarrow> i = 0 \<or> i = length s \<or> i < length s \<and> \<not> utf8_cont (string_bytes s ! i)"

definition str_slice :: "string \<Rightarrow> nat \<Rightarrow> nat \<Rightarrow> (string, string) outcome" where
  "str_slice s a b =
     (if a \<le> b \<and> b \<le> length s \<and> is_char_boundary s a \<and> is_char_boundary s b then Ok (take (b - a) (drop a s)) else Panic)"

definition hex_val :: "char \<Rightarrow> nat option" where
  "hex_val c =
     (let n = of_char c in
      if 48 \<le> n \<and> n \<le> 57 then Some (n - 48)
      else if 97 \<le> n \<and> n \<le> 102 then Some (n - 87)
      else if 65 \<le> n \<and> n \<le> 70 then Some (n - 55)
      else None)"

fun hex_digits :: "nat \<Rightarrow> string \<Rightarrow> nat option" where
  "hex_digits acc [] = Some acc"
| "hex_digits acc (c # cs) = (case hex_val c of None \<Rightarrow> None | Some d \<Rightarrow> hex_digits (acc * 16 + d) cs)"

text \<open>\<^verbatim>\<open>u8::from_str_radix(s, 16)\<close>, which accepts a leading plus sign.\<close>

definition u8_from_str_radix_16 :: "string \<Rightarrow> (string, u8) outcome" where
  "u8_from_str_radix_16 s =
     (let ds = (case s of c # cs \<Rightarrow> if c = CHR ''+'' \<and> cs \<noteq> [] then cs else s | [] \<Rightarrow> []) in
      if ds = [] then Err ''hex decode: cannot parse integer from empty string''
      else case hex_digits 0 ds of
        None \<Rightarrow> Err ''hex decode: invalid digit found in string''
      | Some n \<Rightarrow> if n < 256 then Ok (word_of_nat n) else Err ''hex decode: number too large to fit in target type'')"

definition vault_hex_encode :: "bytes \<Rightarrow> string" where
  "vault_hex_encode b = concat (map show_hex2 b)"

definition hex_decode :: "string \<Rightarrow> (string, bytes) outcome" where
  "hex_decode s = rmap (\<lambda>i. rbind (str_slice s i (i + 2)) u8_from_str_radix_16) (map (\<lambda>k. 2 * k) [0..<(length s + 1) div 2])"

subsection \<open>The vault\<close>

record credential_entry =
  ce_alias :: string
  ce_encrypted_pass :: string
  ce_hmac :: string
  ce_created_at_ns :: u64
  ce_last_used_at_ns :: u64
  ce_username :: string

record resolved_credential =
  rv_alias :: string
  rv_username :: string
  rv_password :: string

text \<open>The file is the text it holds; \<open>None\<close> when it does not exist.\<close>

record credential_vault =
  cv_entries :: "(string, credential_entry) hash_map"
  cv_file :: "string option"
  cv_store_path :: string
  cv_passphrase :: bytes

record vault_deps =
  vd_sha256 :: "bytes \<Rightarrow> bytes"
  vd_to_json :: "(string, credential_entry) hash_map \<Rightarrow> string + string"
  vd_tmp_path :: "string \<Rightarrow> string"
  vd_utf8_error :: "bytes \<Rightarrow> string"
  vd_from_json :: "string \<Rightarrow> (string, credential_entry) hash_map option"

record disk_io =
  io_write :: bool
  io_rename :: bool

definition xor_key :: "bytes \<Rightarrow> bytes \<Rightarrow> (string, bytes) outcome" where
  "xor_key key bs = rmap (\<lambda>(i, b). if length key = 0 then Panic else Ok (b XOR key ! (i mod length key))) (enumerate 0 bs)"

definition encrypt :: "bytes \<Rightarrow> string \<Rightarrow> (string, string) outcome" where
  "encrypt key plaintext = rbind (xor_key key (string_bytes plaintext)) (\<lambda>cipher. Ok (vault_hex_encode cipher))"

definition decrypt :: "vault_deps \<Rightarrow> bytes \<Rightarrow> string \<Rightarrow> (string, string) outcome" where
  "decrypt E key hex =
     rbind (hex_decode hex) (\<lambda>bs.
     rbind (xor_key key bs) (\<lambda>plain.
       case from_utf8 plain of Some s \<Rightarrow> Ok s | None \<Rightarrow> Err (''decrypt UTF-8 error: '' @ vd_utf8_error E plain)))"

definition compute_hmac :: "vault_deps \<Rightarrow> bytes \<Rightarrow> bytes \<Rightarrow> string" where
  "compute_hmac E key data = vault_hex_encode (vd_sha256 E (vd_sha256 E key @ data))"

definition verify_hmac :: "vault_deps \<Rightarrow> bytes \<Rightarrow> string \<Rightarrow> string \<Rightarrow> (string, unit) outcome" where
  "verify_hmac E key data expected_hex =
     (if compute_hmac E key (string_bytes data) \<noteq> expected_hex then Err (''HMAC verification failed '' @ em_dash @ '' vault may be tampered'') else Ok ())"

definition encrypt_and_sign :: "vault_deps \<Rightarrow> bytes \<Rightarrow> string \<Rightarrow> (string, string \<times> string) outcome" where
  "encrypt_and_sign E key plaintext =
     rbind (encrypt key plaintext) (\<lambda>encrypted. Ok (encrypted, compute_hmac E key (string_bytes encrypted)))"

text \<open>The temporary file is written first; the file itself changes only by the rename.\<close>

definition persist :: "vault_deps \<Rightarrow> disk_io \<Rightarrow> credential_vault \<Rightarrow> credential_vault \<times> (string, unit) outcome" where
  "persist E io v =
     (case vd_to_json E (cv_entries v) of
        Inl e \<Rightarrow> (v, Err e)
      | Inr json \<Rightarrow>
          if \<not> io_write io then (v, Err (''writing tmp vault at '' @ vd_tmp_path E (cv_store_path v)))
          else if \<not> io_rename io then (v, Err ''atomic rename of vault file'')
          else (v\<lparr>cv_file := Some json\<rparr>, Ok ()))"

text \<open>\<open>file\<close> is what the path leads to: nothing, a file that cannot be read, or the text of a file.\<close>

definition vault_open :: "vault_deps \<Rightarrow> bytes option \<Rightarrow> (string option) option \<Rightarrow> string \<Rightarrow> (string, credential_vault) outcome" where
  "vault_open E env_passphrase file path =
     (let passphrase = (case env_passphrase of Some p \<Rightarrow> p | None \<Rightarrow> string_bytes ''rustybmp-dev-only'') in
      rbind (case file of
               None \<Rightarrow> Ok (None, [])
             | Some None \<Rightarrow> Err (''reading vault at '' @ path)
             | Some (Some raw) \<Rightarrow> Ok (Some raw, case vd_from_json E raw of Some m \<Rightarrow> m | None \<Rightarrow> [])) (\<lambda>(content, entries).
        Ok \<lparr>cv_entries = entries, cv_file = content, cv_store_path = path, cv_passphrase = passphrase\<rparr>))"

definition add_entry :: "vault_deps \<Rightarrow> disk_io \<Rightarrow> u64 \<Rightarrow> string \<Rightarrow> string \<Rightarrow> string \<Rightarrow> credential_vault
     \<Rightarrow> credential_vault \<times> (string, unit) outcome" where
  "add_entry E io now alias username password v =
     (case encrypt_and_sign E (cv_passphrase v) password of
        Ok (encrypted, hmac) \<Rightarrow>
          (let entry = \<lparr>ce_alias = alias, ce_encrypted_pass = encrypted, ce_hmac = hmac, ce_created_at_ns = now,
                        ce_last_used_at_ns = 0, ce_username = username\<rparr>
           in persist E io (v\<lparr>cv_entries := hm_insert alias entry (cv_entries v)\<rparr>))
      | Err e \<Rightarrow> (v, Err e) | Panic \<Rightarrow> (v, Panic) | Diverge \<Rightarrow> (v, Diverge))"

definition remove_entry :: "vault_deps \<Rightarrow> disk_io \<Rightarrow> string \<Rightarrow> credential_vault \<Rightarrow> credential_vault \<times> (string, unit) outcome" where
  "remove_entry E io alias v =
     (if \<not> hm_contains (cv_entries v) alias then (v, Err (''alias '' @ squote @ alias @ squote @ '' not found''))
      else persist E io (v\<lparr>cv_entries := hm_remove alias (cv_entries v)\<rparr>))"

definition saturating_sub :: "'a::len word \<Rightarrow> 'a word \<Rightarrow> 'a word" where
  "saturating_sub a b = (if a < b then 0 else a - b)"

definition resolve :: "vault_deps \<Rightarrow> disk_io \<Rightarrow> u64 \<Rightarrow> string \<Rightarrow> credential_vault
     \<Rightarrow> credential_vault \<times> (string, resolved_credential) outcome" where
  "resolve E io now alias v =
     (case hm_get (cv_entries v) alias of
        None \<Rightarrow> (v, Err (''credential alias '' @ squote @ alias @ squote @ '' not found''))
      | Some entry \<Rightarrow>
          (case rbind (verify_hmac E (cv_passphrase v) (ce_encrypted_pass entry) (ce_hmac entry)) (\<lambda>_.
                decrypt E (cv_passphrase v) (ce_encrypted_pass entry)) of
             Ok password \<Rightarrow>
               (if saturating_sub now (ce_last_used_at_ns entry) > 60000000000
                then fst (persist E io (v\<lparr>cv_entries := hm_modify alias (\<lambda>e. e\<lparr>ce_last_used_at_ns := now\<rparr>) (cv_entries v)\<rparr>))
                else v,
                Ok \<lparr>rv_alias = alias, rv_username = ce_username entry, rv_password = password\<rparr>)
           | Err e \<Rightarrow> (v, Err e) | Panic \<Rightarrow> (v, Panic) | Diverge \<Rightarrow> (v, Diverge)))"

definition vault_list :: "credential_vault \<Rightarrow> json list" where
  "vault_list v = map (\<lambda>e. JObj [(''alias'', JStr (ce_alias e)), (''username'', JStr (ce_username e)),
     (''created_at_ns'', jword (ce_created_at_ns e)), (''last_used_at_ns'', jword (ce_last_used_at_ns e))]) (hm_values (cv_entries v))"

subsection \<open>The handlers (credentials.rs)\<close>

definition list_credentials :: "credential_vault \<Rightarrow> json" where
  "list_credentials v = (let aliases = vault_list v in JObj [(''count'', jnat (length aliases)), (''aliases'', JArr aliases)])"

definition error_json :: "string \<Rightarrow> json" where
  "error_json e = JObj [(''error'', JStr e)]"

definition add_credential :: "vault_deps \<Rightarrow> disk_io \<Rightarrow> u64 \<Rightarrow> string \<Rightarrow> string \<Rightarrow> string \<Rightarrow> credential_vault
     \<Rightarrow> credential_vault \<times> (status_code \<times> json, json) outcome" where
  "add_credential E io now alias username password v =
     (if alias = [] \<or> username = [] \<or> password = []
      then (v, Err (BAD_REQUEST, error_json ''alias, username and password are required''))
      else case add_entry E io now alias username password v of
        (v, r) \<Rightarrow> (v, case r of
             Ok u \<Rightarrow> Ok (JObj [(''status'', JStr ''ok''), (''alias'', JStr alias)])
           | Err e \<Rightarrow> Err (INTERNAL_SERVER_ERROR, error_json e)
           | Panic \<Rightarrow> Panic | Diverge \<Rightarrow> Diverge))"

definition delete_credential :: "vault_deps \<Rightarrow> disk_io \<Rightarrow> string \<Rightarrow> credential_vault
     \<Rightarrow> credential_vault \<times> (status_code \<times> json, json) outcome" where
  "delete_credential E io alias v =
     (case remove_entry E io alias v of
        (v, r) \<Rightarrow> (v, case r of
             Ok u \<Rightarrow> Ok (JObj [(''status'', JStr ''ok''), (''removed'', JStr alias)])
           | Err e \<Rightarrow> Err (NOT_FOUND, error_json e)
           | Panic \<Rightarrow> Panic | Diverge \<Rightarrow> Diverge))"

subsection \<open>Hexadecimal text\<close>

lemma digit_char_ascii:
  assumes "d < 16"
  shows "hex_val (digit_char d) = Some d" "digit_char d \<noteq> CHR ''+''" "\<not> utf8_cont (word_of_nat (of_char (digit_char d)))"
proof -
  have "\<forall>d \<in> set [0..<16]. hex_val (digit_char d) = Some d \<and> digit_char d \<noteq> CHR ''+'' \<and> \<not> utf8_cont (word_of_nat (of_char (digit_char d)))"
    by code_simp
  then show "hex_val (digit_char d) = Some d" "digit_char d \<noteq> CHR ''+''" "\<not> utf8_cont (word_of_nat (of_char (digit_char d)))"
    using assms by auto
qed

lemma hex_nibbles: "unat (b :: u8) div 16 < 16" "unat b mod 16 < 16"
  using unsigned_less [of b, where ?'a = nat] by (auto simp: less_mult_imp_div_less)

lemma radix_show_hex2: "u8_from_str_radix_16 (show_hex2 b) = Ok b"
  using digit_char_ascii [OF hex_nibbles(1), of b] digit_char_ascii [OF hex_nibbles(2), of b] unsigned_less [of b, where ?'a = nat]
  by (simp add: u8_from_str_radix_16_def show_hex2_def)

lemma length_hex [simp]: "length (vault_hex_encode bs) = 2 * length bs"
  by (induction bs) (simp_all add: vault_hex_encode_def show_hex2_def)

lemma hex_at: "k < length bs \<Longrightarrow> take 2 (drop (2 * k) (vault_hex_encode bs)) = show_hex2 (bs ! k)"
proof (induction bs arbitrary: k)
  case (Cons b bs)
  then show ?case by (cases k) (simp_all add: vault_hex_encode_def show_hex2_def)
qed simp

lemma hex_ascii: "c \<in> set (vault_hex_encode bs) \<Longrightarrow> \<not> utf8_cont (word_of_nat (of_char c))"
  using digit_char_ascii(3) [OF hex_nibbles(1)] digit_char_ascii(3) [OF hex_nibbles(2)]
  by (auto simp: vault_hex_encode_def show_hex2_def)

lemma hex_boundary: "i \<le> length (vault_hex_encode bs) \<Longrightarrow> is_char_boundary (vault_hex_encode bs) i"
  using hex_ascii [of "vault_hex_encode bs ! i" bs] by (cases "i = length (vault_hex_encode bs)") (auto simp: is_char_boundary_def string_bytes_def)

lemma hex_decode_encode: "hex_decode (vault_hex_encode bs) = Ok bs"
proof -
  have "rbind (str_slice (vault_hex_encode bs) (2 * k) (2 * k + 2)) u8_from_str_radix_16 = Ok (bs ! k)" if "k < length bs" for k
  proof -
    have "str_slice (vault_hex_encode bs) (2 * k) (2 * k + 2) = Ok (show_hex2 (bs ! k))"
      using that hex_at [OF that] hex_boundary [of "2 * k" bs] hex_boundary [of "2 * k + 2" bs] by (simp add: str_slice_def)
    then show ?thesis by (simp add: radix_show_hex2)
  qed
  then have "hex_decode (vault_hex_encode bs) = Ok (map (\<lambda>i. bs ! (i div 2)) (map (\<lambda>k. 2 * k) [0..<length bs]))"
    unfolding hex_decode_def by (subst rmap_eq [where g = "\<lambda>i. bs ! (i div 2)"]) auto
  then show ?thesis by (simp add: comp_def map_nth)
qed

subsection \<open>The cipher\<close>

definition keystream :: "bytes \<Rightarrow> bytes \<Rightarrow> bytes" where
  "keystream key bs = map (\<lambda>(i, b). b XOR key ! (i mod length key)) (enumerate 0 bs)"

lemma xor_key_Ok: "key \<noteq> [] \<Longrightarrow> xor_key key bs = Ok (keystream key bs)"
  unfolding xor_key_def keystream_def by (rule rmap_eq) auto

lemma keystream_twice: "keystream key (keystream key bs) = bs"
  by (rule nth_equalityI) (simp_all add: keystream_def nth_enumerate_eq xor.assoc)

lemma string_bytes_chars: "map (\<lambda>b. char_of (unat b)) (string_bytes s) = s"
proof -
  have "unat (word_of_nat (of_char c) :: u8) = of_char c" for c :: char
    by (simp add: unat_of_nat)
  then show ?thesis by (simp add: string_bytes_def comp_def)
qed

text \<open>A Rust string is valid UTF-8.\<close>

definition rust_str :: "string \<Rightarrow> bool" where
  "rust_str s \<longleftrightarrow> utf8_lossy (string_bytes s) = string_bytes s"

lemma encrypt_Ok: "key \<noteq> [] \<Longrightarrow> encrypt key p = Ok (vault_hex_encode (keystream key (string_bytes p)))"
  by (simp add: encrypt_def xor_key_Ok)

lemma decrypt_encrypt: "key \<noteq> [] \<Longrightarrow> rust_str p \<Longrightarrow> encrypt key p = Ok c \<Longrightarrow> decrypt E key c = Ok p"
  by (auto simp: encrypt_Ok decrypt_def hex_decode_encode xor_key_Ok keystream_twice from_utf8_def rust_str_def string_bytes_chars)

lemma encrypt_empty_key: "p \<noteq> [] \<Longrightarrow> encrypt [] p = Panic"
  by (cases p) (simp_all add: encrypt_def xor_key_def string_bytes_def)

subsection \<open>Refinement of a map of credentials\<close>

type_synonym credentials = "string \<Rightarrow> (string \<times> string) option"

definition sealed :: "vault_deps \<Rightarrow> bytes \<Rightarrow> string \<Rightarrow> string \<Rightarrow> string \<Rightarrow> credential_entry \<Rightarrow> bool" where
  "sealed E key a u p e \<longleftrightarrow> ce_alias e = a \<and> ce_username e = u \<and> rust_str p \<and> encrypt key p = Ok (ce_encrypted_pass e)
     \<and> ce_hmac e = compute_hmac E key (string_bytes (ce_encrypted_pass e))"

definition vault_rel :: "vault_deps \<Rightarrow> credential_vault \<Rightarrow> credentials \<Rightarrow> bool" where
  "vault_rel E v m \<longleftrightarrow> cv_passphrase v \<noteq> [] \<and> hm_wf (cv_entries v)
     \<and> (\<forall>a. rel_option (\<lambda>e (u, p). sealed E (cv_passphrase v) a u p e) (hm_get (cv_entries v) a) (m a))"

lemma vault_rel_entries:
  "vault_rel E v m \<Longrightarrow> hm_wf es \<Longrightarrow>
   (\<And>a. rel_option (\<lambda>e (u, p). sealed E (cv_passphrase v) a u p e) (hm_get es a) (m' a)) \<Longrightarrow> vault_rel E (v\<lparr>cv_entries := es\<rparr>) m'"
  by (simp add: vault_rel_def)

lemma persist_cases: "fst (persist E io v) = v \<or> (\<exists>j. vd_to_json E (cv_entries v) = Inr j \<and> fst (persist E io v) = v\<lparr>cv_file := Some j\<rparr>)"
  by (simp add: persist_def split: sum.splits)

lemma persist_simps [simp]:
  "cv_passphrase (fst (persist E io v)) = cv_passphrase v" "cv_entries (fst (persist E io v)) = cv_entries v"
  using persist_cases [of E io v] by auto

lemma vault_rel_persist [simp]: "vault_rel E (fst (persist E io v)) m = vault_rel E v m"
  using persist_cases [of E io v] by (auto simp: vault_rel_def)

lemma add_entry_rel:
  assumes "vault_rel E v m" "rust_str p"
  shows "vault_rel E (fst (add_entry E io now a u p v)) (m(a \<mapsto> (u, p)))"
proof -
  obtain c where c: "encrypt (cv_passphrase v) p = Ok c" using assms(1) by (auto simp: vault_rel_def encrypt_Ok)
  show ?thesis using assms c
    by (auto simp: add_entry_def encrypt_and_sign_def vault_rel_def sealed_def)
qed

lemma remove_entry_rel:
  assumes "vault_rel E v m"
  shows "vault_rel E (fst (remove_entry E io a v)) (m(a := None))"
proof (cases "hm_contains (cv_entries v) a")
  case True
  with assms show ?thesis by (auto simp: remove_entry_def vault_rel_def)
next
  case False
  then have "hm_get (cv_entries v) a = None" by (simp add: hm_contains_iff)
  moreover have "rel_option (\<lambda>e (u, p). sealed E (cv_passphrase v) a u p e) (hm_get (cv_entries v) a) (m a)"
    using assms by (simp add: vault_rel_def)
  ultimately have "m(a := None) = m" by (auto simp: fun_eq_iff)
  with False assms show ?thesis by (simp add: remove_entry_def)
qed

lemma resolve_rel:
  assumes "vault_rel E v m"
  shows "vault_rel E (fst (resolve E io now a v)) m
    \<and> (case m a of
         None \<Rightarrow> \<exists>e. snd (resolve E io now a v) = Err e
       | Some (u, p) \<Rightarrow> snd (resolve E io now a v) = Ok \<lparr>rv_alias = a, rv_username = u, rv_password = p\<rparr>)"
proof -
  have rel: "rel_option (\<lambda>e (u, p). sealed E (cv_passphrase v) a u p e) (hm_get (cv_entries v) a) (m a)" for a
    using assms by (simp add: vault_rel_def)
  show ?thesis
  proof (cases "hm_get (cv_entries v) a")
    case None
    with rel [of a] assms show ?thesis by (auto simp: resolve_def)
  next
    case (Some e)
    with rel [of a] obtain u p where m: "m a = Some (u, p)" and e: "sealed E (cv_passphrase v) a u p e" by (auto simp: option_rel_Some1)
    have dec: "decrypt E (cv_passphrase v) (ce_encrypted_pass e) = Ok p"
      using e assms decrypt_encrypt by (auto simp: sealed_def vault_rel_def)
    have "vault_rel E (v\<lparr>cv_entries := hm_modify a (\<lambda>e. e\<lparr>ce_last_used_at_ns := now\<rparr>) (cv_entries v)\<rparr>) m"
      using rel assms by (intro vault_rel_entries [OF assms])
        (auto simp: vault_rel_def option.rel_map sealed_def split: prod.splits elim!: option.rel_mono_strong)
    with Some m e dec assms show ?thesis by (simp add: resolve_def verify_hmac_def sealed_def)
  qed
qed

text \<open>Runs of operations.\<close>

datatype vault_op = Op_Add string string string | Op_Remove string | Op_Resolve string

fun vault_step :: "vault_deps \<Rightarrow> disk_io \<times> u64 \<times> vault_op \<Rightarrow> credential_vault \<Rightarrow> credential_vault" where
  "vault_step E (io, now, Op_Add a u p) v = fst (add_entry E io now a u p v)"
| "vault_step E (io, now, Op_Remove a) v = fst (remove_entry E io a v)"
| "vault_step E (io, now, Op_Resolve a) v = fst (resolve E io now a v)"

fun spec_op :: "vault_op \<Rightarrow> credentials \<Rightarrow> credentials" where
  "spec_op (Op_Add a u p) m = m(a \<mapsto> (u, p))"
| "spec_op (Op_Remove a) m = m(a := None)"
| "spec_op (Op_Resolve a) m = m"

fun op_wf :: "vault_op \<Rightarrow> bool" where
  "op_wf (Op_Add a u p) \<longleftrightarrow> rust_str p"
| "op_wf _ \<longleftrightarrow> True"

lemma vault_step_rel:
  assumes "vault_rel E v m" "op_wf (snd (snd op1))"
  shows "vault_rel E (vault_step E op1 v) (spec_op (snd (snd op1)) m)"
  using assms by (cases "(E, op1, v)" rule: vault_step.cases) (auto intro: add_entry_rel remove_entry_rel conjunct1 [OF resolve_rel])

lemma vault_run_rel:
  assumes "vault_rel E v m" "\<forall>op1 \<in> set ops. op_wf (snd (snd op1))"
  shows "vault_rel E (fold (vault_step E) ops v) (fold spec_op (map (snd \<circ> snd) ops) m)"
  using assms by (induction ops arbitrary: v m) (simp_all add: vault_step_rel)

definition vault_empty :: "string \<Rightarrow> bytes \<Rightarrow> credential_vault" where
  "vault_empty path key = \<lparr>cv_entries = [], cv_file = None, cv_store_path = path, cv_passphrase = key\<rparr>"

text \<open>C16: the vault keeps credentials.  After any sequence of operations on a new vault, whether the file operations
  succeed or not, resolving an alias returns the user name and password of the last addition that no removal followed,
  decrypted from what is stored, and fails for every other alias.\<close>

theorem vault_refines:
  assumes "key \<noteq> []" and "\<forall>op1 \<in> set ops. op_wf (snd (snd op1))"
  shows "case fold spec_op (map (snd \<circ> snd) ops) Map.empty a of
      None \<Rightarrow> \<exists>e. snd (resolve E io now a (fold (vault_step E) ops (vault_empty path key))) = Err e
    | Some (u, p) \<Rightarrow> snd (resolve E io now a (fold (vault_step E) ops (vault_empty path key))) =
        Ok \<lparr>rv_alias = a, rv_username = u, rv_password = p\<rparr>"
proof -
  have "vault_rel E (vault_empty path key) Map.empty" using assms(1) by (simp add: vault_rel_def vault_empty_def)
  from resolve_rel [OF vault_run_rel [OF this assms(2)]] show ?thesis by blast
qed

text \<open>The test \<^verbatim>\<open>test_round_trip\<close> of the source, with a removal.\<close>

definition vault_example :: vault_deps where
  "vault_example = \<lparr>vd_sha256 = rev, vd_to_json = \<lambda>_. Inl [], vd_tmp_path = id, vd_utf8_error = \<lambda>_. [], vd_from_json = \<lambda>_. None\<rparr>"

theorem vault_refines_witness:
  "\<exists>r. snd (resolve vault_example \<lparr>io_write = True, io_rename = True\<rparr> 7 ''router1'' (fold (vault_step vault_example)
      [(\<lparr>io_write = False, io_rename = True\<rparr>, 1, Op_Add ''router1'' ''admin'' ''s3cr3t!''),
       (\<lparr>io_write = True, io_rename = True\<rparr>, 2, Op_Remove ''router2'')] (vault_empty ''vault.json'' [1, 2, 3]))) = Ok r
    \<and> rv_password r = ''s3cr3t!''"
proof -
  have str: "rust_str ''s3cr3t!''" by code_simp
  let ?ops = "[(\<lparr>io_write = False, io_rename = True\<rparr>, 1, Op_Add ''router1'' ''admin'' ''s3cr3t!''),
       (\<lparr>io_write = True, io_rename = True\<rparr>, 2, Op_Remove ''router2'')]"
  have ops: "\<forall>op1 \<in> set ?ops. op_wf (snd (snd op1))" using str by simp
  have "fold spec_op (map (snd \<circ> snd) ?ops) Map.empty ''router1'' = Some (''admin'', ''s3cr3t!'')" by simp
  with vault_refines [OF _ ops, where key = "[1, 2, 3]" and a = "''router1''" and E = vault_example
    and io = "\<lparr>io_write = True, io_rename = True\<rparr>" and now = 7 and path = "''vault.json''"]
  show ?thesis by auto
qed

subsection \<open>The file\<close>

text \<open>Every step leaves the file as it was or replaces it by the image of all entries in memory; a file that a successful
  addition or removal has left is read back as those entries.\<close>

lemma persist_file:
  "cv_file (fst (persist E io (v\<lparr>cv_entries := es\<rparr>))) = cv_file v
   \<or> (\<exists>j. cv_file (fst (persist E io (v\<lparr>cv_entries := es\<rparr>))) = Some j \<and> vd_to_json E es = Inr j)"
  using persist_cases [of E io "v\<lparr>cv_entries := es\<rparr>"] by auto

lemma vault_file_atomic:
  "cv_file (vault_step E op1 v) = cv_file v
   \<or> (\<exists>j. cv_file (vault_step E op1 v) = Some j \<and> vd_to_json E (cv_entries (vault_step E op1 v)) = Inr j)"
proof (cases "(E, op1, v)" rule: vault_step.cases)
  case (1 E io now a u pw v)
  then show ?thesis by (simp add: add_entry_def Let_def persist_file split: outcome.splits prod.splits)
next
  case (2 E io now a v)
  then show ?thesis by (simp add: remove_entry_def persist_file)
next
  case (3 E io now a v)
  then show ?thesis by (simp add: resolve_def persist_file split: outcome.splits option.splits)
qed

lemma vault_reopen:
  assumes "\<And>es j. vd_to_json E es = Inr j \<Longrightarrow> vd_from_json E j = Some es" and "snd (add_entry E io now a u p v) = Ok ()"
  shows "\<exists>v'. vault_open E (Some (cv_passphrase v)) (map_option Some (cv_file (fst (add_entry E io now a u p v)))) (cv_store_path v) = Ok v'
    \<and> cv_entries v' = cv_entries (fst (add_entry E io now a u p v))"
  using assms(2)
  by (auto simp: add_entry_def persist_def vault_open_def Let_def dest: assms(1) split: outcome.splits sum.splits if_splits)

text \<open>An addition that reports an error because the file could not be written is in effect until the server stops.\<close>

lemma failed_add_in_effect:
  assumes "vault_rel E v m" "rust_str p" "\<not> io_write io"
  shows "(\<exists>e. snd (add_entry E io now a u p v) = Err e)
    \<and> snd (resolve E io' now' a (fst (add_entry E io now a u p v))) = Ok \<lparr>rv_alias = a, rv_username = u, rv_password = p\<rparr>"
proof
  from assms(1) have "encrypt (cv_passphrase v) p = Ok (vault_hex_encode (keystream (cv_passphrase v) (string_bytes p)))"
    by (simp add: vault_rel_def encrypt_Ok)
  with assms(3) show "\<exists>e. snd (add_entry E io now a u p v) = Err e"
    by (simp add: add_entry_def encrypt_and_sign_def persist_def Let_def split: sum.splits)
  from resolve_rel [OF add_entry_rel [OF assms(1,2), of io now a u], of io' now' a]
  show "snd (resolve E io' now' a (fst (add_entry E io now a u p v))) = Ok \<lparr>rv_alias = a, rv_username = u, rv_password = p\<rparr>"
    by simp
qed

lemma empty_passphrase_panics: "p \<noteq> [] \<Longrightarrow> cv_passphrase v = [] \<Longrightarrow> add_entry E io now a u p v = (v, Panic)"
  by (simp add: add_entry_def encrypt_and_sign_def encrypt_empty_key)

end
