(* ===== verification/Server_Support.thy ===== *)
theory Server_Support
  imports Vault Store_Schema
begin

text \<open>
  The smaller parts of the server: authentication (\<^verbatim>\<open>auth.rs\<close>) with the routes it guards (\<^verbatim>\<open>api/mod.rs\<close>), the DNS cache
  (\<^verbatim>\<open>dns.rs\<close>), the retention sweep (\<^verbatim>\<open>retention.rs\<close>), the reloading of filters (\<^verbatim>\<open>filter_watcher.rs\<close>, \<^verbatim>\<open>api/filters.rs\<close>),
  the onboarding steps (\<^verbatim>\<open>api/onboard.rs\<close>) and the message archive (\<^verbatim>\<open>archive.rs\<close>).  The JWT library, the resolver, the
  database and the outcome of file operations are parameters.

  Results: with authentication on, a guarded route answers exactly the requests whose token is valid, and a token issued
  for a key is valid for its life time; a reload keeps the invariant of the manager and, when it fails, the previous
  filter; a name from the DNS cache was resolved within the life time of an entry; the archive reads back line by line.
\<close>

subsection \<open>Authentication (auth.rs)\<close>

record auth_config =
  ac_enabled :: bool
  ac_jwt_secret :: string
  ac_token_ttl_secs :: u64
  ac_api_keys :: "string list"
  ac_rate_limit_msgs_per_sec :: u32

record jwt_claims =
  jc_sub :: string
  jc_exp :: int
  jc_iat :: int

record jwt =
  jwt_encode :: "string \<Rightarrow> jwt_claims \<Rightarrow> string option"
  jwt_decode :: "string \<Rightarrow> int \<Rightarrow> string \<Rightarrow> jwt_claims option"

text \<open>\<^verbatim>\<open>HeaderValue::to_str\<close>: printable ASCII and tabs.\<close>

definition header_to_str :: "string \<Rightarrow> string option" where
  "header_to_str h = (if list_all (\<lambda>c. 32 \<le> (of_char c :: nat) \<and> (of_char c :: nat) < 127 \<or> (of_char c :: nat) = 9) h then Some h else None)"

definition strip_prefix :: "string \<Rightarrow> string \<Rightarrow> string option" where
  "strip_prefix pre s = (if take (length pre) s = pre then Some (drop (length pre) s) else None)"

definition require_auth :: "jwt \<Rightarrow> auth_config \<Rightarrow> int \<Rightarrow> string option \<Rightarrow> status_code + unit" where
  "require_auth J cfg now authorization =
     (if \<not> ac_enabled cfg then Inr ()
      else case Option.bind (Option.bind authorization header_to_str) (strip_prefix ''Bearer '') of
        None \<Rightarrow> Inl UNAUTHORIZED
      | Some token \<Rightarrow> (case jwt_decode J (ac_jwt_secret cfg) now token of None \<Rightarrow> Inl UNAUTHORIZED | Some c \<Rightarrow> Inr ()))"

definition auth_handler :: "jwt \<Rightarrow> auth_config \<Rightarrow> int \<Rightarrow> string \<Rightarrow> status_code \<times> json" where
  "auth_handler J cfg now api_key =
     (if api_key \<notin> set (ac_api_keys cfg) then (UNAUTHORIZED, error_json ''invalid api_key'')
      else
        (let claims = \<lparr>jc_sub = ''api'', jc_exp = sint (word_of_int now + ac_token_ttl_secs cfg), jc_iat = now\<rparr> in
         case jwt_encode J (ac_jwt_secret cfg) claims of
           Some token \<Rightarrow> (HTTP_OK, JObj [(''token'', JStr token), (''expires_in'', jword (ac_token_ttl_secs cfg))])
         | None \<Rightarrow> (INTERNAL_SERVER_ERROR, error_json ''token encoding failed'')))"

subsection \<open>The router (api/mod.rs)\<close>

text \<open>The routes under \<^verbatim>\<open>/api\<close> that the middleware guards, and the others.\<close>

definition api_routes :: "(string \<times> string) list" where
  "api_routes = [
     (''GET'', ''/speakers''), (''GET'', ''/speakers/summary''), (''GET'', ''/speakers/{addr}''), (''GET'', ''/peers''),
     (''GET'', ''/peers/{addr}''), (''GET'', ''/peers/{addr}/rib''), (''GET'', ''/routes''), (''GET'', ''/routes/prefix''),
     (''GET'', ''/routes/changes''), (''GET'', ''/routes/prefix/{prefix}/timeline''),
     (''GET'', ''/routes/prefix/{prefix}/peers''), (''GET'', ''/routes/prefix/{prefix}/convergence''),
     (''GET'', ''/analytics/churn''), (''GET'', ''/analytics/origins''), (''GET'', ''/rpki/stats''),
     (''GET'', ''/rpki/analysis''), (''GET'', ''/policy''), (''GET'', ''/peers/{addr}/timeline''),
     (''GET'', ''/ml/anomalies''), (''GET'', ''/onboard/{addr}/validate''), (''POST'', ''/onboard/{addr}/register''),
     (''POST'', ''/onboard/{addr}/filter''), (''GET'', ''/onboard/{addr}/confirm''), (''GET'', ''/bgpls/graph''),
     (''GET'', ''/bgpls/path''), (''GET'', ''/srpolicy''), (''GET'', ''/srpolicy/{peer}''), (''GET'', ''/aspath/graph''),
     (''GET'', ''/bmpstats/history''), (''GET'', ''/peers/{addr}/capabilities''), (''GET'', ''/rpki/coverage''),
     (''GET'', ''/path-status/matrix''), (''GET'', ''/path-status/history''), (''GET'', ''/credentials''),
     (''POST'', ''/credentials''), (''DELETE'', ''/credentials/{alias}''), (''POST'', ''/policy/fetch''),
     (''GET'', ''/policy/fetch/{job_id}''), (''GET'', ''/policy/configs''), (''GET'', ''/policy/configs/{peer}''),
     (''GET'', ''/capacity/max-prefix''), (''POST'', ''/capacity/max-prefix''), (''GET'', ''/convergence''),
     (''POST'', ''/filters/test''), (''ANY'', ''/filters/reload''), (''GET'', ''/filters/stats''),
     (''GET'', ''/ml/model/status''), (''GET'', ''/governance''), (''GET'', ''/external/prefix-visibility''),
     (''POST'', ''/_test/seed''), (''GET'', ''/export/parquet''), (''GET'', ''/events'')]"

definition public_routes :: "(string \<times> string) list" where
  "public_routes = [(''GET'', ''/health''), (''GET'', ''/metrics''), (''POST'', ''/auth''), (''GET'', ''/api/openapi.json''), (''GET'', ''/api/swagger''), (''POST'', ''/mcp'')]"

text \<open>Whether a request for a route gets to its handler.\<close>

definition admit :: "jwt \<Rightarrow> auth_config \<Rightarrow> int \<Rightarrow> string \<times> string \<Rightarrow> string option \<Rightarrow> status_code + unit" where
  "admit J cfg now route authorization =
     (if route \<in> set public_routes then Inr ()
      else if route \<in> (\<lambda>(m, p). (m, ''/api'' @ p)) ` set api_routes then require_auth J cfg now authorization
      else Inl NOT_FOUND)"

subsection \<open>The DNS cache (dns.rs)\<close>

record cache_entry =
  de_hostname :: string
  de_expires :: nat

record dns_cache =
  dc_entries :: "(ip_addr, cache_entry) hash_map"
  dc_ttl :: nat

definition dns_cache_new :: "u64 \<Rightarrow> dns_cache" where
  "dns_cache_new ttl_secs = \<lparr>dc_entries = [], dc_ttl = unat ttl_secs * 1000000000\<rparr>"

text \<open>\<open>resolved\<close> is the result of the blocking look-up, \<open>None\<close> also when its task fails; the clock, in nanoseconds, is
  read before and after it.\<close>

definition dns_lookup :: "nat \<Rightarrow> nat \<Rightarrow> string option \<Rightarrow> ip_addr \<Rightarrow> dns_cache \<Rightarrow> dns_cache \<times> string option" where
  "dns_lookup t1 t2 resolved addr c =
     (case (case hm_get (dc_entries c) addr of
              Some e \<Rightarrow> if de_expires e > t1 then Some (de_hostname e) else None | None \<Rightarrow> None) of
        Some name \<Rightarrow> (c, Some name)
      | None \<Rightarrow>
          (case resolved of
             Some name \<Rightarrow> (c\<lparr>dc_entries := hm_insert addr \<lparr>de_hostname = name, de_expires = t2 + dc_ttl c\<rparr> (dc_entries c)\<rparr>, Some name)
           | None \<Rightarrow> (c, None)))"

definition evict_expired :: "nat \<Rightarrow> dns_cache \<Rightarrow> dns_cache" where
  "evict_expired now c = c\<lparr>dc_entries := filter (\<lambda>(a, e). de_expires e > now) (dc_entries c)\<rparr>"

definition cache_size :: "dns_cache \<Rightarrow> nat" where
  "cache_size c = length (dc_entries c)"

definition octets6 :: "ipv6 \<Rightarrow> bytes" where
  "octets6 a = map (\<lambda>i. ucast (drop_bit (120 - 8 * i) a)) [0..<16]"

fun reverse_name :: "ip_addr \<Rightarrow> string" where
  "reverse_name (IpV4 a) =
     (let o4 = octets4 a in
      show_nat (unat (o4 ! 3)) @ ''.'' @ show_nat (unat (o4 ! 2)) @ ''.'' @ show_nat (unat (o4 ! 1)) @ ''.''
      @ show_nat (unat (o4 ! 0)) @ ''.in-addr.arpa'')"
| "reverse_name (IpV6 a) =
     concat (map (\<lambda>b. show_hex (unat b mod 16) @ ''.'' @ show_hex (unat b div 16 mod 16) @ ''.'') (rev (octets6 a))) @ ''ip6.arpa''"

text \<open>\<open>to_socket_addrs\<close> is the resolver of the operating system: the addresses of a host name.\<close>

definition ptr_lookup :: "(string \<Rightarrow> ip_addr list option) \<Rightarrow> ip_addr \<Rightarrow> string option" where
  "ptr_lookup to_socket_addrs addr =
     (case to_socket_addrs (reverse_name addr) of
        Some (a # _) \<Rightarrow> Some (show_ip a) | _ \<Rightarrow> None)"

subsection \<open>Retention (retention.rs)\<close>

definition sweep_tables :: "string list" where
  "sweep_tables = [''route_events'', ''peer_events'', ''speaker_events'', ''stats_events'', ''evpn_events'']"

definition delete_sql :: "string \<Rightarrow> u32 \<Rightarrow> string" where
  "delete_sql table retain_days = ''DELETE FROM '' @ table @ '' WHERE occurred_at < CAST(NOW() AS TIMESTAMP) - INTERVAL '' @ squote
     @ show_nat (unat retain_days) @ squote @ '' DAY''"

text \<open>\<open>execute\<close> gives the new database and the number of rows deleted, or an error.\<close>

fun sweep :: "(string \<Rightarrow> 'd \<Rightarrow> 'd \<times> (string + nat)) \<Rightarrow> u32 \<Rightarrow> string list \<Rightarrow> nat \<Rightarrow> 'd \<Rightarrow> 'd \<times> (string + nat)" where
  "sweep execute retain_days [] n0 d = (d, Inr n0)"
| "sweep execute retain_days (t # ts) n0 d =
     (case execute (delete_sql t retain_days) d of
        (d, Inl e) \<Rightarrow> (d, Inl e)
      | (d, Inr n) \<Rightarrow> sweep execute retain_days ts (n0 + n) d)"

text \<open>One turn of the task: nothing when the history is kept for ever or the store cannot be locked.\<close>

definition retention_tick :: "(string \<Rightarrow> 'd \<Rightarrow> 'd \<times> (string + nat)) \<Rightarrow> bool \<Rightarrow> u32 \<Rightarrow> 'd \<Rightarrow> 'd" where
  "retention_tick execute locked retain_days d =
     (if retain_days = 0 \<or> \<not> locked then d else fst (sweep execute retain_days sweep_tables 0 d))"

subsection \<open>Reloading filters (filter_watcher.rs, api/filters.rs)\<close>

definition reload_yaml_filter :: "filter_deps \<Rightarrow> string \<Rightarrow> rib_manager \<Rightarrow> (string, rib_manager) outcome" where
  "reload_yaml_filter D path m =
     (case load_file D path of Ok en \<Rightarrow> Ok (set_filter en m) | Err e \<Rightarrow> Ok m | Panic \<Rightarrow> Panic | Diverge \<Rightarrow> Diverge)"

definition reload_roto_filter :: "string \<Rightarrow> rib_manager \<Rightarrow> (string, rib_manager) outcome" where
  "reload_roto_filter path m =
     (case roto_load path of Ok en \<Rightarrow> Ok (set_roto_filter en m) | Err e \<Rightarrow> Ok m | Panic \<Rightarrow> Panic | Diverge \<Rightarrow> Diverge)"

text \<open>\<open>extension\<close> is \<^verbatim>\<open>Path::extension\<close> of the filter file.\<close>

definition watcher_reload :: "filter_deps \<Rightarrow> string option \<Rightarrow> string \<Rightarrow> rib_manager \<Rightarrow> (string, rib_manager) outcome" where
  "watcher_reload D extension path m =
     (if extension = Some ''roto'' then reload_roto_filter path m else reload_yaml_filter D path m)"

definition DEFAULT_FILTER_PATH :: string where
  "DEFAULT_FILTER_PATH = ''config/filters.yaml''"

text \<open>A panic while loading is reported as the error of the blocking task.\<close>

definition filter_reload :: "filter_deps \<Rightarrow> string \<Rightarrow> rib_manager \<Rightarrow> rib_manager \<times> json" where
  "filter_reload D join_error m =
     (case load_file D DEFAULT_FILTER_PATH of
        Ok en \<Rightarrow> (set_filter en m, JObj [(''status'', JStr ''reloaded''), (''filters'', jnat (engine_len en)), (''path'', JStr DEFAULT_FILTER_PATH)])
      | Err e \<Rightarrow> (m, JObj [(''status'', JStr ''error''), (''error'', JStr e), (''path'', JStr DEFAULT_FILTER_PATH)])
      | _ \<Rightarrow> (m, JObj [(''status'', JStr ''error''), (''error'', JStr join_error), (''path'', JStr DEFAULT_FILTER_PATH)]))"

record filter_test_body =
  ft_prefix :: string
  ft_peer_as :: u32
  ft_as_path :: "string option"
  ft_rpki :: "string option"
  ft_action :: "string option"
  ft_communities :: "string list option"

fun verdict_text :: "filter_verdict \<Rightarrow> string" where
  "verdict_text Verdict_Accept = ''accept''"
| "verdict_text Verdict_Deny = ''deny''"
| "verdict_text Verdict_Default = ''default-accept''"

text \<open>The part of a text after its first slash, up to the next.\<close>

definition slash_part :: "string \<Rightarrow> string option" where
  "slash_part s = (case dropWhile (\<lambda>c. c \<noteq> CHR ''/'') s of [] \<Rightarrow> None | c # cs \<Rightarrow> Some (takeWhile (\<lambda>c. c \<noteq> CHR ''/'') cs))"

definition filter_test_ctx :: "filter_test_body \<Rightarrow> route_ctx" where
  "filter_test_ctx body =
     (let asns = parse_asns (opt_or (ft_as_path body) []) in
      \<lparr>cx_prefix_len = (case Option.bind (slash_part (ft_prefix body)) (\<lambda>s. case parse_uint s of Inl e \<Rightarrow> None | Inr v \<Rightarrow> Some v) of
           Some n \<Rightarrow> n | None \<Rightarrow> 0),
       cx_as_path_len = length asns, cx_origin_asn = (if asns = [] then 0 else last asns), cx_has_prepend = adjacent_equal asns,
       cx_rpki = opt_or (ft_rpki body) ''unknown'', cx_action = opt_or (ft_action body) ''announce'', cx_peer_as = ft_peer_as body,
       cx_local_pref = None, cx_med = None, cx_community_set = set (opt_or (ft_communities body) [])\<rparr>)"

text \<open>\<open>load_ns\<close> and \<open>eval_ns\<close> are the measured times.\<close>

definition filter_test :: "filter_deps \<Rightarrow> u64 \<Rightarrow> u64 \<Rightarrow> filter_test_body \<Rightarrow> status_code + json" where
  "filter_test D load_ns eval_ns body =
     (case fd_parse_ipnet D (ft_prefix body) of
        None \<Rightarrow> Inl BAD_REQUEST
      | Some net \<Rightarrow>
          (let p = (case net of IpNet_V4 n \<Rightarrow> Prefix_V4 n | IpNet_V6 n \<Rightarrow> Prefix_V6 n) in
           case load_file D DEFAULT_FILTER_PATH of
             Ok en \<Rightarrow>
               (case apply_with_ctx D en p (ft_peer_as body) (IpV4 0) path_attributes_default (Some (filter_test_ctx body)) of
                  (verdict, name) \<Rightarrow>
                    Inr (JObj [(''verdict'', JStr (verdict_text verdict)), (''filter_matched'', jopt JStr name),
                      (''evaluation_ns'', jword (load_ns + eval_ns)), (''prefix'', JStr (ft_prefix body)), (''peer_as'', jword (ft_peer_as body)),
                      (''rpki'', JStr (opt_or (ft_rpki body) ''unknown'')), (''action'', JStr (opt_or (ft_action body) ''announce''))]))
           | _ \<Rightarrow> Inr (JObj [(''verdict'', JStr ''default-accept''), (''filter_matched'', JNull), (''evaluation_ns'', jword load_ns),
                      (''note'', JStr (''No filter file '' @ em_dash @ '' all routes accepted''))])))"

definition filter_stats :: "filter_deps \<Rightarrow> json" where
  "filter_stats D =
     JObj [(''filter_file'', JStr DEFAULT_FILTER_PATH),
       (''filter_count'', jnat (case load_file D DEFAULT_FILTER_PATH of Ok en \<Rightarrow> engine_len en | _ \<Rightarrow> 0)),
       (''prometheus_metrics_path'', JStr ''/metrics''),
       (''counters'', JObj [(''bgp_routes_filtered_total'', JStr ''routes rejected by filter''),
          (''bgp_routes_announced_total'', JStr ''routes accepted and stored''),
          (''bgp_routes_withdrawn_total'', JStr ''withdrawal events processed'')])]"

subsection \<open>Onboarding (api/onboard.rs)\<close>

definition validate_speaker :: "text_deps \<Rightarrow> rib_manager \<Rightarrow> string \<Rightarrow> status_code + json" where
  "validate_speaker T m addr =
     (case parse_ip addr of
        None \<Rightarrow> Inl BAD_REQUEST
      | Some ip \<Rightarrow>
          (case speaker_of ip m of
             Some s \<Rightarrow> Inr (JObj [(''step'', JInt 1), (''status'', JStr ''connected''), (''addr'', JStr addr),
               (''sys_name'', jopt JStr (bs_sys_name s)), (''sys_descr'', jopt JStr (bs_sys_descr s)),
               (''peers_up'', jnat (up_peer_count s)), (''peer_count'', jnat (peer_count s)),
               (''connected_at'', JStr (td_rfc3339 T (bs_connected_at s))),
               (''message'', JStr ''Speaker is already connected via BMP. Proceed to step 2.'')])
           | None \<Rightarrow> Inr (JObj [(''step'', JInt 1), (''status'', JStr ''not_connected''), (''addr'', JStr addr),
               (''message'', JStr ''Speaker not yet seen. Configure BMP on the router to point to this collector.'')])))"

record register_body =
  rb_hostname :: "string option"
  rb_vendor :: "string option"
  rb_site :: "string option"
  rb_notes :: "string option"

definition register_speaker :: "string \<Rightarrow> register_body \<Rightarrow> speaker_registry \<Rightarrow> speaker_registry \<times> (status_code + json)" where
  "register_speaker addr body reg =
     (case parse_ip addr of
        None \<Rightarrow> (reg, Inl BAD_REQUEST)
      | Some ip \<Rightarrow>
          (let entry = \<lparr>se_addr = addr, se_hostname = opt_or (rb_hostname body) [], se_vendor = opt_or (rb_vendor body) [],
                        se_site = opt_or (rb_site body) []\<rparr>
           in (registry_upsert entry reg,
               Inr (JObj [(''step'', JInt 2), (''status'', JStr ''registered''), (''addr'', JStr addr),
                 (''meta'', JObj [(''hostname'', JStr (se_hostname entry)), (''vendor'', JStr (se_vendor entry)), (''site'', JStr (se_site entry))]),
                 (''message'', JStr ''Speaker metadata saved. Proceed to step 3 to apply filters.'')]))))"

definition apply_filter :: "filter_deps \<Rightarrow> string \<Rightarrow> string \<Rightarrow> rib_manager \<Rightarrow> rib_manager \<times> (status_code, json) outcome" where
  "apply_filter D addr filter_yaml m =
     (case parse_ip addr of
        None \<Rightarrow> (m, Err BAD_REQUEST)
      | Some ip \<Rightarrow>
          (case load_yaml D filter_yaml of
             Ok en \<Rightarrow>
               (set_filter en m,
                Ok (JObj [(''step'', JInt 3), (''status'', JStr ''filter_applied''), (''addr'', JStr addr), (''filters'', jnat (engine_len en)),
                  (''message'', JStr (show_nat (engine_len en) @ '' filter rule(s) loaded. Proceed to step 4 to confirm.''))]))
           | Err e \<Rightarrow> (m, Err UNPROCESSABLE_ENTITY) | Panic \<Rightarrow> (m, Panic) | Diverge \<Rightarrow> (m, Diverge)))"

fun debug_peer_state :: "peer_state \<Rightarrow> string" where
  "debug_peer_state Up = ''Up''"
| "debug_peer_state Down = ''Down''"
| "debug_peer_state State_Unknown = ''Unknown''"

definition confirm_speaker :: "crates \<Rightarrow> datetime \<Rightarrow> speaker_registry \<Rightarrow> rib_manager \<Rightarrow> string \<Rightarrow> status_code + json" where
  "confirm_speaker C now reg m addr =
     (case parse_ip addr of
        None \<Rightarrow> Inl BAD_REQUEST
      | Some ip \<Rightarrow>
          (let meta = registry_lookup addr reg in
           case speaker_of ip m of
             Some s \<Rightarrow> Inr (JObj [(''step'', JInt 4), (''status'', JStr ''onboarded''), (''addr'', JStr addr),
               (''hostname'', JStr (meta_field se_hostname meta)), (''vendor'', JStr (meta_field se_vendor meta)),
               (''site'', JStr (meta_field se_site meta)), (''peers_up'', jnat (up_peer_count s)),
               (''peers'', JArr (map (\<lambda>p. JObj [(''addr'', JStr (show_ip (ps_address p))), (''asn'', jword (ps_as p)),
                  (''state'', JStr (debug_peer_state (ps_state p))), (''uptime_secs'', jopt JInt (uptime_secs C now p)),
                  (''flaps'', jword (ps_flap_count p))]) (hm_values (bs_peers s)))),
               (''total_routes'', jnat (case rib_for_peer ip m of Some r \<Rightarrow> length (all_prefixes r) | None \<Rightarrow> 0)),
               (''message'', JStr ''Speaker successfully onboarded.'')])
           | None \<Rightarrow> Inr (JObj [(''step'', JInt 4), (''status'', JStr ''not_connected''), (''addr'', JStr addr),
               (''message'', JStr ''Speaker is not yet connected. Verify BMP configuration on the router.'')])))"

subsection \<open>The archive (archive.rs)\<close>

text \<open>The file, when there is one, and the outcome of the two writes and the flush.\<close>

record archive_io =
  ai_json :: bool
  ai_newline :: bool
  ai_flush :: bool

definition archive_append :: "(bmp_message \<Rightarrow> string option) \<Rightarrow> archive_io \<Rightarrow> bmp_message \<Rightarrow> string option \<Rightarrow> string option \<times> bool" where
  "archive_append to_json io msg file =
     (case file of
        None \<Rightarrow> (None, True)
      | Some content \<Rightarrow>
          (case to_json msg of
             None \<Rightarrow> (file, False)
           | Some json \<Rightarrow>
               if \<not> ai_json io then (file, False)
               else if \<not> ai_newline io then (Some (content @ json), False)
               else (Some (content @ json @ newline), ai_flush io)))"

subsection \<open>Life time of a token\<close>

text \<open>The documented behaviour of \<^verbatim>\<open>jsonwebtoken\<close>: what was encoded with a secret decodes with it until 60 seconds after
  its expiry; a token is printable.\<close>

definition jwt_ok :: "jwt \<Rightarrow> bool" where
  "jwt_ok J \<longleftrightarrow> (\<forall>s c t. jwt_encode J s c = Some t \<longrightarrow> header_to_str t = Some t
     \<and> (0 \<le> jc_exp c \<longrightarrow> (\<forall>now. jwt_decode J s now t = (if now - 60 \<le> jc_exp c then Some c else None))))"

lemma header_to_str_append: "header_to_str (a @ b) = (if header_to_str a = Some a \<and> header_to_str b = Some b then Some (a @ b) else None)"
  by (auto simp: header_to_str_def)

lemma bearer_stripped: "header_to_str t = Some t \<Longrightarrow> Option.bind (header_to_str (''Bearer '' @ t)) (strip_prefix ''Bearer '') = Some t"
  unfolding header_to_str_append by (simp add: header_to_str_def strip_prefix_def)

text \<open>C18: with authentication on, the token that a known key is given opens the guarded routes from then on until its
  life time and the leeway of 60 seconds are over, and no longer; without a bearer token they stay shut.\<close>

theorem auth_lifetime:
  assumes "jwt_ok J" "ac_enabled cfg" "r \<in> set api_routes" and "0 \<le> t0" "t0 + uint (ac_token_ttl_secs cfg) < 2 ^ 63"
    and "auth_handler J cfg t0 key = (HTTP_OK, JObj ((''token'', JStr token) # rest))"
  shows "admit J cfg now (fst r, ''/api'' @ snd r) (Some (''Bearer '' @ token)) =
      (if now \<le> t0 + uint (ac_token_ttl_secs cfg) + 60 then Inr () else Inl UNAUTHORIZED)
    \<and> admit J cfg now (fst r, ''/api'' @ snd r) None = Inl UNAUTHORIZED"
proof -
  let ?ttl = "uint (ac_token_ttl_secs cfg)"
  let ?c = "\<lparr>jc_sub = ''api'', jc_exp = sint (word_of_int t0 + ac_token_ttl_secs cfg), jc_iat = t0\<rparr>"
  have w: "word_of_int t0 + ac_token_ttl_secs cfg = (word_of_int (t0 + ?ttl) :: u64)" by simp
  have "0 \<le> ?ttl" by simp
  with assms(4) have lo: "- 9223372036854775808 \<le> t0 + ?ttl" by linarith
  have exp: "sint (word_of_int t0 + ac_token_ttl_secs cfg) = t0 + ?ttl"
    unfolding w using lo assms(5)
    by (subst signed_of_int) (simp add: signed_take_bit_int_eq_self_iff)
  have tok: "jwt_encode J (ac_jwt_secret cfg) ?c = Some token"
    using assms(6) by (auto simp: auth_handler_def error_json_def Let_def split: if_splits option.splits)
  have dec: "jwt_decode J (ac_jwt_secret cfg) now token = (if now \<le> t0 + ?ttl + 60 then Some ?c else None)" "header_to_str token = Some token"
    using assms(1,4) tok exp unfolding jwt_ok_def by (auto simp: algebra_simps)
  have "\<forall>(m, p) \<in> set api_routes. (m, ''/api'' @ p) \<notin> set public_routes" by code_simp
  then have route: "(fst r, ''/api'' @ snd r) \<notin> set public_routes" "(fst r, ''/api'' @ snd r) \<in> (\<lambda>(m, p). (m, ''/api'' @ p)) ` set api_routes"
    using assms(3) by (auto simp: case_prod_unfold)
  show ?thesis
    using route dec bearer_stripped [OF dec(2)] assms(2) by (simp add: admit_def require_auth_def)
qed

text \<open>A token here is as long as its expiry time.\<close>

definition toy_jwt :: jwt where
  "toy_jwt = \<lparr>jwt_encode = \<lambda>s c. if jc_sub c = ''api'' \<and> 0 \<le> jc_exp c \<and> jc_iat c = 0 then Some (replicate (nat (jc_exp c)) CHR ''t'') else None,
     jwt_decode = \<lambda>s now t. if now - 60 \<le> int (length t) then Some \<lparr>jc_sub = ''api'', jc_exp = int (length t), jc_iat = 0\<rparr> else None\<rparr>"

lemma toy_jwt_ok: "jwt_ok toy_jwt"
  by (auto simp: jwt_ok_def toy_jwt_def header_to_str_def list_all_iff split: if_splits)

theorem auth_lifetime_witness:
  "\<exists>token. admit toy_jwt \<lparr>ac_enabled = True, ac_jwt_secret = [], ac_token_ttl_secs = 3, ac_api_keys = [''k''], ac_rate_limit_msgs_per_sec = 0\<rparr>
     40 (''GET'', ''/api/peers'') (Some (''Bearer '' @ token)) = Inr ()"
proof -
  let ?cfg = "\<lparr>ac_enabled = True, ac_jwt_secret = [], ac_token_ttl_secs = 3, ac_api_keys = [''k''], ac_rate_limit_msgs_per_sec = 0\<rparr>"
  have r: "(''GET'', ''/peers'') \<in> set api_routes" by code_simp
  have "auth_handler toy_jwt ?cfg 0 ''k'' = (HTTP_OK, JObj ((''token'', JStr ''ttt'') # [(''expires_in'', JInt 3)]))"
    by (simp add: auth_handler_def toy_jwt_def jword_def) (simp add: numeral_3_eq_3)
  from auth_lifetime [OF toy_jwt_ok _ r _ _ this, of 40] show ?thesis by auto
qed

text \<open>The JSON-RPC interface is not among the guarded routes.\<close>

lemma mcp_unguarded: "admit J cfg now (''POST'', ''/mcp'') h = Inr ()"
  by (simp add: admit_def public_routes_def)

subsection \<open>Reloads\<close>

lemma watcher_reload_inv:
  assumes "watcher_reload D ext path m = Ok m'"
  shows "m' = m \<or> (\<exists>en. load_file D path = Ok en \<and> m' = set_filter en m) \<or> (\<exists>en. m' = set_roto_filter en m)"
    and "manager_inv C m' = manager_inv C m \<and> routes m' = routes m \<and> rm_sent m' = rm_sent m"
  using assms
  by (auto simp: watcher_reload_def reload_roto_filter_def reload_yaml_filter_def roto_load_def set_filter_def set_roto_filter_def
      manager_inv_def routes_def fun_eq_iff split: outcome.splits if_splits)

lemma failed_reload_keeps_filter: "load_file D path = Err e \<Longrightarrow> ext \<noteq> Some ''roto'' \<Longrightarrow> watcher_reload D ext path m = Ok m"
  by (simp add: watcher_reload_def reload_yaml_filter_def)

text \<open>Without the Roto compiler a file of that kind switches filtering off, the YAML filter included.\<close>

lemma roto_reload_accepts_all:
  assumes "watcher_reload D (Some ''roto'') path m = Ok m'" "prefix_wf p"
  shows "filter_route C D hdr attrs (rm_roto m') (rm_filter m') p = Ok Verdict_Default"
proof -
  obtain s where "show_prefix C p = (Ok s :: string result)"
    using key_of_Ok [OF assms(2), of C None] entry_key_show_prefix by blast
  with assms(1) show ?thesis
    by (auto simp: watcher_reload_def reload_roto_filter_def roto_load_def set_roto_filter_def filter_route_def from_bmp_def roto_evaluate_def Let_def)
qed

subsection \<open>The DNS cache\<close>

text \<open>The states of the cache with the time and the look-ups that succeeded so far.\<close>

inductive dns_run :: "nat \<Rightarrow> nat \<Rightarrow> (nat \<times> ip_addr \<times> string) set \<Rightarrow> dns_cache \<Rightarrow> bool" for ttl where
  start: "dns_run ttl now {} \<lparr>dc_entries = [], dc_ttl = ttl\<rparr>"
| look: "dns_run ttl now H c \<Longrightarrow> now \<le> t1 \<Longrightarrow> t1 \<le> t2 \<Longrightarrow>
    dns_run ttl t2 (case res of None \<Rightarrow> H | Some n \<Rightarrow> insert (t2, a, n) H) (fst (dns_lookup t1 t2 res a c))"
| evict: "dns_run ttl now H c \<Longrightarrow> now \<le> t \<Longrightarrow> dns_run ttl t H (evict_expired t c)"

lemma map_of_filter: "distinct (map fst m) \<Longrightarrow> map_of (filter (\<lambda>(k, v). P v) m) k = (case map_of m k of Some v \<Rightarrow> if P v then Some v else None | None \<Rightarrow> None)"
  by (induction m) (auto simp: map_of_eq_None_iff image_iff split: option.splits dest: map_of_SomeD)

lemma dns_run_entries:
  "dns_run ttl now H c \<Longrightarrow> dc_ttl c = ttl \<and> hm_wf (dc_entries c)
    \<and> (\<forall>a e. hm_get (dc_entries c) a = Some e \<longrightarrow> (\<exists>t \<le> now. (t, a, de_hostname e) \<in> H \<and> de_expires e = t + ttl))"
proof (induction rule: dns_run.induct)
  case (look now H c t1 t2 res a)
  then show ?case
    by (auto simp: dns_lookup_def split: option.splits if_splits) (meson le_trans)+
next
  case (evict now H c t)
  then have "hm_get (filter (\<lambda>(a, e). de_expires e > t) (dc_entries c)) a = Some e \<Longrightarrow> hm_get (dc_entries c) a = Some e" for a e
    by (auto simp: hm_get_def hm_wf_def map_of_filter split: option.splits if_splits)
  with evict show ?case by (auto simp: evict_expired_def hm_wf_filter) (meson le_trans)
qed simp

lemma dns_hit_fresh:
  assumes "dns_run ttl now H c" "now \<le> t1" "dns_lookup t1 t2 None a c = (c', Some name)"
  shows "\<exists>t. (t, a, name) \<in> H \<and> t \<le> t1 \<and> t1 < t + ttl"
  using dns_run_entries [OF assms(1)] assms(2,3) by (fastforce simp: dns_lookup_def split: option.splits if_splits)

text \<open>What \<^verbatim>\<open>ptr_lookup\<close> returns is the text of an address, never a host name.\<close>

lemma ptr_lookup_address: "ptr_lookup resolver a = Some n \<Longrightarrow> \<exists>ip. n = show_ip ip"
  by (auto simp: ptr_lookup_def split: option.splits list.splits)

subsection \<open>Retention\<close>

lemma sweep_all:
  assumes "\<And>t d. \<exists>d' n. execute (delete_sql t days) d = (d', Inr n)"
  shows "fst (sweep execute days ts k d) = fold (\<lambda>t d. fst (execute (delete_sql t days) d)) ts d"
  using assms
proof (induction ts arbitrary: d k)
  case (Cons t ts)
  obtain d' n where "execute (delete_sql t days) d = (d', Inr n)" using Cons.prems by blast
  with Cons show ?case by simp
qed simp

text \<open>Tables with a time of occurrence that the sweep leaves to grow.\<close>

lemma tables_not_swept:
  "filter (\<lambda>n. n \<notin> set sweep_tables) (map tb_name (filter (\<lambda>t. ''occurred_at'' \<in> set (map cl_name (tb_columns t))) CREATE_TABLES)) =
     [''srpolicy_events'', ''aspa_validations'', ''bgpsec_validations'', ''path_markings'']"
  by code_simp

subsection \<open>Onboarding\<close>

text \<open>A speaker registered under the text of its address is found by the handlers; under another spelling of the
  address it is not.\<close>

lemma register_lookup:
  assumes "parse_ip addr = Some ip"
  shows "registry_lookup a (fst (register_speaker addr body reg)) =
    (if a = addr then Some \<lparr>se_addr = addr, se_hostname = opt_or (rb_hostname body) [], se_vendor = opt_or (rb_vendor body) [],
        se_site = opt_or (rb_site body) []\<rparr> else registry_lookup a reg)"
  using assms by (simp add: register_speaker_def registry_lookup_upsert Let_def)

lemma register_other_spelling:
  "parse_ip addr = Some ip \<Longrightarrow> addr \<noteq> show_ip ip \<Longrightarrow>
   registry_lookup (show_ip ip) (fst (register_speaker addr body reg)) = registry_lookup (show_ip ip) reg"
  by (simp add: register_lookup)

subsection \<open>The archive\<close>

fun file_lines :: "string \<Rightarrow> string \<Rightarrow> string list" where
  "file_lines l [] = (if l = [] then [] else [l])"
| "file_lines l (c # cs) = (if c = CHR 0x0A then l # file_lines [] cs else file_lines (l @ [c]) cs)"

lemma file_lines_line: "CHR 0x0A \<notin> set j \<Longrightarrow> file_lines l (j @ newline @ cs) = (l @ j) # file_lines [] cs"
  by (induction j arbitrary: l) (auto simp: newline_def)

lemma file_lines_concat:
  "\<forall>j \<in> set js. CHR 0x0A \<notin> set j \<Longrightarrow> file_lines [] (concat (map (\<lambda>j. j @ newline) js)) = js"
  by (induction js) (auto simp: file_lines_line)

lemma archive_fold:
  assumes "\<forall>msg \<in> set msgs. \<exists>j. to_json msg = Some j" and "io = \<lparr>ai_json = True, ai_newline = True, ai_flush = True\<rparr>"
  shows "fold (\<lambda>msg f. fst (archive_append to_json io msg f)) msgs (Some content) =
    Some (content @ concat (map (\<lambda>msg. the (to_json msg) @ newline) msgs))"
  using assms by (induction msgs arbitrary: content) (auto simp: archive_append_def)

text \<open>The archive is readable.  When the writes succeed and no record contains a line break, the lines of the file are
  exactly the records of the messages appended to it, in order.\<close>

theorem archive_roundtrip:
  assumes "\<forall>msg \<in> set msgs. \<exists>j. to_json msg = Some j \<and> CHR 0x0A \<notin> set j"
    and "io = \<lparr>ai_json = True, ai_newline = True, ai_flush = True\<rparr>"
  shows "\<exists>content. fold (\<lambda>msg f. fst (archive_append to_json io msg f)) msgs (Some []) = Some content
    \<and> map Some (file_lines [] content) = map to_json msgs"
proof -
  have "fold (\<lambda>msg f. fst (archive_append to_json io msg f)) msgs (Some []) = Some (concat (map (\<lambda>j. j @ newline) (map (\<lambda>msg. the (to_json msg)) msgs)))"
    using archive_fold [OF _ assms(2), of msgs to_json "[]"] assms(1) by (force simp: comp_def)
  moreover have "file_lines [] (concat (map (\<lambda>j. j @ newline) (map (\<lambda>msg. the (to_json msg)) msgs))) = map (\<lambda>msg. the (to_json msg)) msgs"
    using assms(1) by (intro file_lines_concat) force
  moreover have "map Some (map (\<lambda>msg. the (to_json msg)) msgs) = map to_json msgs" using assms(1) by force
  ultimately show ?thesis by metis
qed

theorem archive_roundtrip_witness:
  "\<exists>content. fold (\<lambda>msg f. fst (archive_append (\<lambda>m. Some ''x'') \<lparr>ai_json = True, ai_newline = True, ai_flush = True\<rparr> msg f))
      [example_msg (Initiation None None []), example_msg (Termination 0 None)] (Some []) = Some content
    \<and> map Some (file_lines [] content) = [Some ''x'', Some ''x'']"
  using archive_roundtrip [of "[example_msg (Initiation None None []), example_msg (Termination 0 None)]" "\<lambda>m. Some ''x''" _, OF _ refl] by simp

text \<open>A record whose line break could not be written runs into the next one.\<close>

lemma archive_glued:
  "to_json m1 = Some j1 \<Longrightarrow> to_json m2 = Some j2 \<Longrightarrow>
   fst (archive_append to_json \<lparr>ai_json = True, ai_newline = True, ai_flush = True\<rparr> m2
     (fst (archive_append to_json \<lparr>ai_json = True, ai_newline = False, ai_flush = True\<rparr> m1 (Some c)))) = Some (c @ j1 @ j2 @ newline)"
  by (simp add: archive_append_def)

end
