(* ===== verification/Config.thy ===== *)
theory Config
  imports Receiver Governor Ha Server_Support
begin

text \<open>
  \<^verbatim>\<open>rbmp-server/src/config.rs\<close>: the configuration and how it is read from a TOML document.  The TOML parser is a parameter
  that gives the table of the document (a TOML value is a \<open>json\<close> value); the derived \<^verbatim>\<open>Deserialize\<close> instances are
  written out: a section that is absent is the section's \<^verbatim>\<open>Default\<close>, a key absent from a section takes the default of
  its \<^verbatim>\<open>serde\<close> attribute, unknown keys are ignored, and a value of another type is an error.

  Result: an empty section has the same meaning as an absent one, except for \<^verbatim>\<open>[store]\<close>, where it switches the
  checkpoints of the database off, and \<^verbatim>\<open>[tls]\<close>, where it removes the paths of certificate and key.
\<close>

subsection \<open>Values\<close>

type_synonym toml_table = "(string \<times> json) list"

datatype config_error = Bad_Value string | Unreadable string | Bad_Toml string

fun toml_str :: "json \<Rightarrow> string option" where
  "toml_str (JStr s) = Some s"
| "toml_str v = None"

fun toml_bool :: "json \<Rightarrow> bool option" where
  "toml_bool (JBool b) = Some b"
| "toml_bool v = None"

fun toml_usize :: "json \<Rightarrow> nat option" where
  "toml_usize (JInt i) = (if 0 \<le> i then Some (nat i) else None)"
| "toml_usize v = None"

fun toml_word :: "json \<Rightarrow> 'a::len word option" where
  "toml_word (JInt i) = (if 0 \<le> i \<and> i < 2 ^ LENGTH('a) then Some (word_of_int i) else None)"
| "toml_word v = None"

fun toml_strs :: "json \<Rightarrow> string list option" where
  "toml_strs (JArr vs) = all_some (map toml_str vs)"
| "toml_strs v = None"

definition field :: "toml_table \<Rightarrow> string \<Rightarrow> (json \<Rightarrow> 'a option) \<Rightarrow> 'a \<Rightarrow> (config_error, 'a) outcome" where
  "field s k conv d =
     (case hm_get s k of
        None \<Rightarrow> Ok d
      | Some v \<Rightarrow> (case conv v of Some x \<Rightarrow> Ok x | None \<Rightarrow> Err (Bad_Value k)))"

text \<open>A section: its default when absent.\<close>

definition section_of :: "toml_table \<Rightarrow> string \<Rightarrow> (toml_table \<Rightarrow> (config_error, 'a) outcome) \<Rightarrow> 'a \<Rightarrow> (config_error, 'a) outcome" where
  "section_of t k de d =
     (case hm_get t k of
        None \<Rightarrow> Ok d
      | Some (JObj s) \<Rightarrow> de s
      | Some v \<Rightarrow> Err (Bad_Value k))"

subsection \<open>The sections\<close>

record http_config =
  hc_listen_addr :: string
  hc_serve_ui :: bool
  hc_cors_origins :: "string list"

record store_config =
  st_db_path :: string
  st_in_memory :: bool
  st_event_capacity :: nat
  st_checkpoint_secs :: u64
  st_retain_days :: u32

record log_config =
  lg_level :: string
  lg_format :: string

record rpki_config =
  rp_enabled :: bool
  rp_rtr_addr :: string

record dns_config =
  dn_enabled :: bool
  dn_ttl_secs :: u64

record proxy_section =
  px_enabled :: bool
  px_listen :: string
  px_upstream :: string

record kafka_config =
  kf_enabled :: bool
  kf_brokers :: string
  kf_topic_prefix :: string

record nats_config =
  nt_enabled :: bool
  nt_server :: string
  nt_subject_prefix :: string

record tls_config =
  tls_enabled :: bool
  tls_cert_pem :: string
  tls_key_pem :: string
  tls_client_ca_pem :: string

definition default_http_config :: http_config where
  "default_http_config = \<lparr>hc_listen_addr = ''0.0.0.0:7878'', hc_serve_ui = True, hc_cors_origins = []\<rparr>"

definition de_http_config :: "toml_table \<Rightarrow> (config_error, http_config) outcome" where
  "de_http_config s =
     rbind (field s ''listen_addr'' toml_str ''0.0.0.0:7878'') (\<lambda>listen_addr.
     rbind (field s ''serve_ui'' toml_bool True) (\<lambda>serve_ui.
     rbind (field s ''cors_origins'' toml_strs []) (\<lambda>cors_origins.
       Ok \<lparr>hc_listen_addr = listen_addr, hc_serve_ui = serve_ui, hc_cors_origins = cors_origins\<rparr>)))"

definition default_store_config :: store_config where
  "default_store_config = \<lparr>st_db_path = ''runtime/routes.duckdb'', st_in_memory = False, st_event_capacity = 16384, st_checkpoint_secs = 60, st_retain_days = 90\<rparr>"

definition de_store_config :: "toml_table \<Rightarrow> (config_error, store_config) outcome" where
  "de_store_config s =
     rbind (field s ''db_path'' toml_str ''runtime/routes.duckdb'') (\<lambda>db_path.
     rbind (field s ''in_memory'' toml_bool False) (\<lambda>in_memory.
     rbind (field s ''event_capacity'' toml_usize 16384) (\<lambda>event_capacity.
     rbind (field s ''checkpoint_secs'' toml_word 0) (\<lambda>checkpoint_secs.
     rbind (field s ''retain_days'' toml_word 90) (\<lambda>retain_days.
       Ok \<lparr>st_db_path = db_path, st_in_memory = in_memory, st_event_capacity = event_capacity, st_checkpoint_secs = checkpoint_secs, st_retain_days = retain_days\<rparr>)))))"

definition default_log_config :: log_config where
  "default_log_config = \<lparr>lg_level = [], lg_format = []\<rparr>"

definition de_log_config :: "toml_table \<Rightarrow> (config_error, log_config) outcome" where
  "de_log_config s =
     rbind (field s ''level'' toml_str []) (\<lambda>level.
     rbind (field s ''format'' toml_str []) (\<lambda>format.
       Ok \<lparr>lg_level = level, lg_format = format\<rparr>))"

definition default_rpki_config :: rpki_config where
  "default_rpki_config = \<lparr>rp_enabled = False, rp_rtr_addr = ''127.0.0.1:3323''\<rparr>"

definition de_rpki_config :: "toml_table \<Rightarrow> (config_error, rpki_config) outcome" where
  "de_rpki_config s =
     rbind (field s ''enabled'' toml_bool False) (\<lambda>enabled.
     rbind (field s ''rtr_addr'' toml_str ''127.0.0.1:3323'') (\<lambda>rtr_addr.
       Ok \<lparr>rp_enabled = enabled, rp_rtr_addr = rtr_addr\<rparr>))"

definition default_dns_config :: dns_config where
  "default_dns_config = \<lparr>dn_enabled = False, dn_ttl_secs = 300\<rparr>"

definition de_dns_config :: "toml_table \<Rightarrow> (config_error, dns_config) outcome" where
  "de_dns_config s =
     rbind (field s ''enabled'' toml_bool False) (\<lambda>enabled.
     rbind (field s ''ttl_secs'' toml_word 300) (\<lambda>ttl_secs.
       Ok \<lparr>dn_enabled = enabled, dn_ttl_secs = ttl_secs\<rparr>))"

definition default_proxy_section :: proxy_section where
  "default_proxy_section = \<lparr>px_enabled = False, px_listen = ''0.0.0.0:5001'', px_upstream = ''127.0.0.1:5002''\<rparr>"

definition de_proxy_section :: "toml_table \<Rightarrow> (config_error, proxy_section) outcome" where
  "de_proxy_section s =
     rbind (field s ''enabled'' toml_bool False) (\<lambda>enabled.
     rbind (field s ''listen_addr'' toml_str ''0.0.0.0:5001'') (\<lambda>listen_addr.
     rbind (field s ''upstream_addr'' toml_str ''127.0.0.1:5002'') (\<lambda>upstream_addr.
       Ok \<lparr>px_enabled = enabled, px_listen = listen_addr, px_upstream = upstream_addr\<rparr>)))"

definition default_kafka_config :: kafka_config where
  "default_kafka_config = \<lparr>kf_enabled = False, kf_brokers = ''localhost:9092'', kf_topic_prefix = ''rustybmp''\<rparr>"

definition de_kafka_config :: "toml_table \<Rightarrow> (config_error, kafka_config) outcome" where
  "de_kafka_config s =
     rbind (field s ''enabled'' toml_bool False) (\<lambda>enabled.
     rbind (field s ''brokers'' toml_str ''localhost:9092'') (\<lambda>brokers.
     rbind (field s ''topic_prefix'' toml_str ''rustybmp'') (\<lambda>topic_prefix.
       Ok \<lparr>kf_enabled = enabled, kf_brokers = brokers, kf_topic_prefix = topic_prefix\<rparr>)))"

definition default_nats_config :: nats_config where
  "default_nats_config = \<lparr>nt_enabled = False, nt_server = ''nats://localhost:4222'', nt_subject_prefix = ''rustybmp''\<rparr>"

definition de_nats_config :: "toml_table \<Rightarrow> (config_error, nats_config) outcome" where
  "de_nats_config s =
     rbind (field s ''enabled'' toml_bool False) (\<lambda>enabled.
     rbind (field s ''server'' toml_str ''nats://localhost:4222'') (\<lambda>server.
     rbind (field s ''subject_prefix'' toml_str ''rustybmp'') (\<lambda>subject_prefix.
       Ok \<lparr>nt_enabled = enabled, nt_server = server, nt_subject_prefix = subject_prefix\<rparr>)))"

definition default_tls_config :: tls_config where
  "default_tls_config = \<lparr>tls_enabled = False, tls_cert_pem = ''certs/server.pem'', tls_key_pem = ''certs/server.key'', tls_client_ca_pem = []\<rparr>"

definition de_tls_config :: "toml_table \<Rightarrow> (config_error, tls_config) outcome" where
  "de_tls_config s =
     rbind (field s ''enabled'' toml_bool False) (\<lambda>enabled.
     rbind (field s ''cert_pem'' toml_str []) (\<lambda>cert_pem.
     rbind (field s ''key_pem'' toml_str []) (\<lambda>key_pem.
     rbind (field s ''client_ca_pem'' toml_str []) (\<lambda>client_ca_pem.
       Ok \<lparr>tls_enabled = enabled, tls_cert_pem = cert_pem, tls_key_pem = key_pem, tls_client_ca_pem = client_ca_pem\<rparr>))))"

definition default_bmp_config :: bmp_config where
  "default_bmp_config = \<lparr>cfg_listen_addr = ''0.0.0.0:5000'', cfg_max_frame_bytes = 65535, cfg_shed_stats_on_pressure = True, cfg_archive_path = None\<rparr>"

definition de_bmp_config :: "toml_table \<Rightarrow> (config_error, bmp_config) outcome" where
  "de_bmp_config s =
     rbind (field s ''listen_addr'' toml_str ''0.0.0.0:5000'') (\<lambda>listen_addr.
     rbind (field s ''max_frame_bytes'' toml_word 65535) (\<lambda>max_frame_bytes.
     rbind (field s ''shed_stats_on_pressure'' toml_bool True) (\<lambda>shed_stats_on_pressure.
     rbind (field s ''archive_path'' (\<lambda>v. map_option Some (toml_str v)) None) (\<lambda>archive_path.
       Ok \<lparr>cfg_listen_addr = listen_addr, cfg_max_frame_bytes = max_frame_bytes, cfg_shed_stats_on_pressure = shed_stats_on_pressure, cfg_archive_path = archive_path\<rparr>))))"

definition default_governor_config :: governor_config where
  "default_governor_config = \<lparr>gc_memory_budget_mb = 4096, gc_rate_budget_eps = 500000, gc_sheddable_types = [''stats'']\<rparr>"

definition de_governor_config :: "toml_table \<Rightarrow> (config_error, governor_config) outcome" where
  "de_governor_config s =
     rbind (field s ''memory_budget_mb'' toml_word 4096) (\<lambda>memory_budget_mb.
     rbind (field s ''rate_budget_eps'' toml_word 500000) (\<lambda>rate_budget_eps.
     rbind (field s ''sheddable_types'' toml_strs [''stats'']) (\<lambda>sheddable_types.
       Ok \<lparr>gc_memory_budget_mb = memory_budget_mb, gc_rate_budget_eps = rate_budget_eps, gc_sheddable_types = sheddable_types\<rparr>)))"

definition default_auth_config :: auth_config where
  "default_auth_config = \<lparr>ac_enabled = False, ac_jwt_secret = ''change-me-32-byte-minimum-secret!!'', ac_token_ttl_secs = 86400, ac_api_keys = [], ac_rate_limit_msgs_per_sec = 0\<rparr>"

definition de_auth_config :: "toml_table \<Rightarrow> (config_error, auth_config) outcome" where
  "de_auth_config s =
     rbind (field s ''enabled'' toml_bool False) (\<lambda>enabled.
     rbind (field s ''jwt_secret'' toml_str ''change-me-32-byte-minimum-secret!!'') (\<lambda>jwt_secret.
     rbind (field s ''token_ttl_secs'' toml_word 86400) (\<lambda>token_ttl_secs.
     rbind (field s ''api_keys'' toml_strs []) (\<lambda>api_keys.
     rbind (field s ''rate_limit_msgs_per_sec'' toml_word 0) (\<lambda>rate_limit_msgs_per_sec.
       Ok \<lparr>ac_enabled = enabled, ac_jwt_secret = jwt_secret, ac_token_ttl_secs = token_ttl_secs, ac_api_keys = api_keys, ac_rate_limit_msgs_per_sec = rate_limit_msgs_per_sec\<rparr>)))))"

definition default_ha_config :: ha_config where
  "default_ha_config = \<lparr>ha_enabled = False, ha_redis_url = ''redis://localhost:6379'', ha_instance_id = ''core-1'', ha_lease_secs = 10\<rparr>"

definition de_ha_config :: "toml_table \<Rightarrow> (config_error, ha_config) outcome" where
  "de_ha_config s =
     rbind (field s ''enabled'' toml_bool False) (\<lambda>enabled.
     rbind (field s ''redis_url'' toml_str ''redis://localhost:6379'') (\<lambda>redis_url.
     rbind (field s ''instance_id'' toml_str ''core-1'') (\<lambda>instance_id.
     rbind (field s ''lease_secs'' toml_word 10) (\<lambda>lease_secs.
       Ok \<lparr>ha_enabled = enabled, ha_redis_url = redis_url, ha_instance_id = instance_id, ha_lease_secs = lease_secs\<rparr>))))"

fun de_speaker_entry :: "json \<Rightarrow> (config_error, speaker_entry) outcome" where
  "de_speaker_entry (JObj s) =
     rbind (case hm_get s ''addr'' of Some (JStr a) \<Rightarrow> Ok a | _ \<Rightarrow> Err (Bad_Value ''addr'')) (\<lambda>addr.
     rbind (field s ''hostname'' toml_str []) (\<lambda>hostname.
     rbind (field s ''vendor'' toml_str []) (\<lambda>vendor.
     rbind (field s ''site'' toml_str []) (\<lambda>site.
       Ok \<lparr>se_addr = addr, se_hostname = hostname, se_vendor = vendor, se_site = site\<rparr>))))"
| "de_speaker_entry v = Err (Bad_Value ''speakers'')"

definition default_speaker_registry :: speaker_registry where
  "default_speaker_registry = \<lparr>sr_speakers = [], sr_runtime = []\<rparr>"

definition de_speaker_registry :: "toml_table \<Rightarrow> (config_error, speaker_registry) outcome" where
  "de_speaker_registry s =
     rbind (case hm_get s ''speakers'' of
              None \<Rightarrow> Ok [] | Some (JArr vs) \<Rightarrow> rmap de_speaker_entry vs | Some v \<Rightarrow> Err (Bad_Value ''speakers'')) (\<lambda>speakers.
       Ok \<lparr>sr_speakers = speakers, sr_runtime = []\<rparr>)"

subsection \<open>The whole configuration\<close>

record config =
  cf_bmp :: bmp_config
  cf_http :: http_config
  cf_store :: store_config
  cf_log :: log_config
  cf_rpki :: rpki_config
  cf_registry :: speaker_registry
  cf_dns :: dns_config
  cf_proxy :: proxy_section
  cf_kafka :: kafka_config
  cf_auth :: auth_config
  cf_nats :: nats_config
  cf_tls :: tls_config
  cf_ha :: ha_config
  cf_filter_file :: "string option"
  cf_vault_path :: string
  cf_governor :: governor_config

definition de_config :: "toml_table \<Rightarrow> (config_error, config) outcome" where
  "de_config t =
     rbind (section_of t ''bmp'' de_bmp_config default_bmp_config) (\<lambda>bmp.
     rbind (section_of t ''http'' de_http_config default_http_config) (\<lambda>http.
     rbind (section_of t ''store'' de_store_config default_store_config) (\<lambda>store.
     rbind (section_of t ''log'' de_log_config default_log_config) (\<lambda>log.
     rbind (section_of t ''rpki'' de_rpki_config default_rpki_config) (\<lambda>rpki.
     rbind (section_of t ''registry'' de_speaker_registry default_speaker_registry) (\<lambda>registry.
     rbind (section_of t ''dns'' de_dns_config default_dns_config) (\<lambda>dns.
     rbind (section_of t ''proxy'' de_proxy_section default_proxy_section) (\<lambda>proxy.
     rbind (section_of t ''kafka'' de_kafka_config default_kafka_config) (\<lambda>kafka.
     rbind (section_of t ''auth'' de_auth_config default_auth_config) (\<lambda>auth.
     rbind (section_of t ''nats'' de_nats_config default_nats_config) (\<lambda>nats.
     rbind (section_of t ''tls'' de_tls_config default_tls_config) (\<lambda>tls.
     rbind (section_of t ''ha'' de_ha_config default_ha_config) (\<lambda>ha.
     rbind (field t ''filter_file'' (\<lambda>v. map_option Some (toml_str v)) None) (\<lambda>filter_file.
     rbind (field t ''vault_path'' toml_str ''runtime/vault.json'') (\<lambda>vault_path.
     rbind (section_of t ''governor'' de_governor_config default_governor_config) (\<lambda>governor.
       Ok \<lparr>cf_bmp = bmp, cf_http = http, cf_store = store, cf_log = log, cf_rpki = rpki, cf_registry = registry, cf_dns = dns, cf_proxy = proxy, cf_kafka = kafka, cf_auth = auth, cf_nats = nats, cf_tls = tls, cf_ha = ha, cf_filter_file = filter_file, cf_vault_path = vault_path, cf_governor = governor\<rparr>))))))))))))))))"

definition from_file :: "(string \<Rightarrow> string + string) \<Rightarrow> (string \<Rightarrow> string + toml_table) \<Rightarrow> string \<Rightarrow> (config_error, config) outcome" where
  "from_file read parse path =
     (case read path of
        Inl e \<Rightarrow> Err (Unreadable e)
      | Inr raw \<Rightarrow> (case parse raw of Inl e \<Rightarrow> Err (Bad_Toml e) | Inr t \<Rightarrow> de_config t))"

definition config_default :: "(string \<Rightarrow> string + toml_table) \<Rightarrow> (config_error, config) outcome" where
  "config_default parse =
     (case parse [] of
        Inl e \<Rightarrow> Panic
      | Inr t \<Rightarrow> (case de_config t of Err e \<Rightarrow> Panic | r \<Rightarrow> r))"

subsection \<open>Defaults\<close>

lemmas section_defs = de_http_config_def default_http_config_def
  de_store_config_def default_store_config_def
  de_log_config_def default_log_config_def
  de_rpki_config_def default_rpki_config_def
  de_dns_config_def default_dns_config_def
  de_proxy_section_def default_proxy_section_def
  de_kafka_config_def default_kafka_config_def
  de_nats_config_def default_nats_config_def
  de_tls_config_def default_tls_config_def
  de_bmp_config_def default_bmp_config_def
  de_governor_config_def default_governor_config_def
  de_auth_config_def default_auth_config_def
  de_ha_config_def default_ha_config_def

text \<open>Without a file, or with an empty one, the configuration consists of the defaults of the sections.\<close>

lemma config_default_sections:
  assumes "parse [] = Inr []"
  shows "\<exists>c. config_default parse = Ok c \<and> cf_store c = default_store_config \<and> cf_ha c = default_ha_config
    \<and> cf_auth c = default_auth_config \<and> cf_bmp c = default_bmp_config \<and> cf_vault_path c = ''runtime/vault.json''"
  by (simp add: config_default_def assms de_config_def section_of_def field_def)

text \<open>The two sources of defaults agree on every section but two: an empty \<^verbatim>\<open>[store]\<close> section turns the checkpoints
  off that an absent one takes every 60 seconds, and an empty \<^verbatim>\<open>[tls]\<close> section has no certificate and key paths.\<close>

theorem section_defaults:
  "de_http_config [] = Ok default_http_config
   \<and> de_log_config [] = Ok default_log_config
   \<and> de_rpki_config [] = Ok default_rpki_config
   \<and> de_dns_config [] = Ok default_dns_config
   \<and> de_proxy_section [] = Ok default_proxy_section
   \<and> de_kafka_config [] = Ok default_kafka_config
   \<and> de_nats_config [] = Ok default_nats_config
   \<and> de_bmp_config [] = Ok default_bmp_config
   \<and> de_governor_config [] = Ok default_governor_config
   \<and> de_auth_config [] = Ok default_auth_config
   \<and> de_ha_config [] = Ok default_ha_config
   \<and> de_store_config [] = Ok (default_store_config\<lparr>st_checkpoint_secs := 0\<rparr>) \<and> st_checkpoint_secs default_store_config = 60
   \<and> de_tls_config [] = Ok (default_tls_config\<lparr>tls_cert_pem := [], tls_key_pem := []\<rparr>)"
  by (simp add: section_defs field_def)

lemma partial_store_section:
  "hm_get s ''checkpoint_secs'' = None \<Longrightarrow> de_store_config s = Ok c \<Longrightarrow> st_checkpoint_secs c = 0"
  by (auto simp: de_store_config_def field_def split: option.splits)

text \<open>Two instances that only switch the election on have the same name.\<close>

lemma default_instances_collide:
  "de_ha_config [(''enabled'', JBool True)] = Ok (default_ha_config\<lparr>ha_enabled := True\<rparr>)"
  by (simp add: section_defs field_def hm_get_def)

end
