(* ===== verification/Spec2Isabelle.thy ===== *)
theory Spec2Isabelle
  imports Pipeline Collector Mrt Rtr Bgpsec Mvpn Topology Outputs Store_Writer Mcp Config
begin

text \<open>rustybmp.\<close>

end
